(* ===== verification/Kubelb_Prelude.thy ===== *)
theory Kubelb_Prelude
  imports Main "HOL-Library.Char_ord" "HOL-Library.List_Lexorder" "HOL-Library.AList"
    "HOL-Library.Multiset"
begin

text \<open>
  Shared vocabulary of the development: what the KubeLB sources use of the Go language and of its
  standard library (\<^verbatim>\<open>strings\<close>, \<^verbatim>\<open>strconv\<close>, \<^verbatim>\<open>fmt\<close>, \<^verbatim>\<open>sort\<close>, \<^verbatim>\<open>maps\<close>), with the generic lemmas
  on strings, sorted lists and maps that the component theories rest on.

  A Go string is a list of bytes (\<^typ>\<open>string\<close>); the character classes (\<^verbatim>\<open>unicode.IsSpace\<close>,
  case mapping, \<^verbatim>\<open>%q\<close> quoting) are those of ASCII text, which is what Kubernetes admits in names, label
  values and annotation keys. A Go map is an association list with distinct keys (\<open>gomap\<close>): the
  position of an entry stands for the order in which one \<^verbatim>\<open>range\<close> loop happens to visit it, so a
  statement over all lists with the same \<^const>\<open>map_of\<close> is a statement over all iteration orders.
  Machine integers are \<^typ>\<open>int\<close> with the wrap-around written out at each conversion.
\<close>

named_theorems go_str \<open>evaluation and characteristic facts of the Go string functions\<close>
named_theorems gomap_simps \<open>facts about Go maps\<close>

section \<open>Maps\<close>

type_synonym ('k, 'v) gomap = "('k \<times> 'v) list"
type_synonym strmap = "(string, string) gomap"

definition wf_gomap :: "('k, 'v) gomap \<Rightarrow> bool" where
  "wf_gomap m \<longleftrightarrow> distinct (map fst m)"

abbreviation gomap_get :: "('k, 'v) gomap \<Rightarrow> 'k \<Rightarrow> 'v option" where
  "gomap_get m k \<equiv> map_of m k"

abbreviation gomap_keys :: "('k, 'v) gomap \<Rightarrow> 'k list" where
  "gomap_keys m \<equiv> map fst m"

text \<open>\<^verbatim>\<open>m[k] = v\<close>, \<^verbatim>\<open>delete(m, k)\<close> and reading a string map at a key that may be absent
  (\<^verbatim>\<open>m[k]\<close> is the zero value \<^verbatim>\<open>""\<close> then).\<close>

abbreviation gomap_put :: "'k \<Rightarrow> 'v \<Rightarrow> ('k, 'v) gomap \<Rightarrow> ('k, 'v) gomap" where
  "gomap_put k v m \<equiv> AList.update k v m"

abbreviation gomap_del :: "'k \<Rightarrow> ('k, 'v) gomap \<Rightarrow> ('k, 'v) gomap" where
  "gomap_del k m \<equiv> AList.delete k m"

definition str_at :: "strmap \<Rightarrow> string \<Rightarrow> string" where
  "str_at m k = (case map_of m k of None \<Rightarrow> [] | Some v \<Rightarrow> v)"

text \<open>\<^verbatim>\<open>maps.Copy(dst, src)\<close>: every entry of \<open>src\<close> is written into \<open>dst\<close>.\<close>

definition maps_copy :: "('k, 'v) gomap \<Rightarrow> ('k, 'v) gomap \<Rightarrow> ('k, 'v) gomap" where
  "maps_copy dst src = fold (\<lambda>(k, v) m. gomap_put k v m) src dst"

text \<open>Equality of two maps as Go compares them: same keys, same values, order irrelevant.\<close>

definition gomap_eq :: "('k, 'v) gomap \<Rightarrow> ('k, 'v) gomap \<Rightarrow> bool" where
  "gomap_eq a b \<longleftrightarrow>
     (\<forall>k \<in> set (gomap_keys a). map_of a k = map_of b k) \<and>
     (\<forall>k \<in> set (gomap_keys b). map_of a k = map_of b k)"

lemma gomap_eq_iff [gomap_simps]: "gomap_eq a b \<longleftrightarrow> map_of a = map_of b"
proof
  assume h: "gomap_eq a b"
  show "map_of a = map_of b"
  proof
    fix k
    show "map_of a k = map_of b k"
    proof (cases "k \<in> set (gomap_keys a) \<union> set (gomap_keys b)")
      case True
      with h show ?thesis by (auto simp: gomap_eq_def)
    next
      case False
      then have "map_of a k = None" and "map_of b k = None"
        by (simp_all add: map_of_eq_None_iff)
      then show ?thesis by simp
    qed
  qed
qed (simp add: gomap_eq_def)

lemma map_of_put [gomap_simps]: "map_of (gomap_put k v m) = (map_of m)(k \<mapsto> v)"
  by (simp add: update_conv')

lemma map_of_del [gomap_simps]: "map_of (gomap_del k m) = (map_of m)(k := None)"
  by (simp add: delete_conv')

lemma wf_gomap_Nil [simp]: "wf_gomap []"
  by (simp add: wf_gomap_def)

lemma wf_gomap_put [simp, intro]: "wf_gomap m \<Longrightarrow> wf_gomap (gomap_put k v m)"
  by (simp add: wf_gomap_def distinct_update)

lemma wf_gomap_del [simp, intro]: "wf_gomap m \<Longrightarrow> wf_gomap (gomap_del k m)"
  by (simp add: wf_gomap_def distinct_delete)

lemma wf_gomap_filter [simp, intro]: "wf_gomap m \<Longrightarrow> wf_gomap (filter P m)"
  by (auto simp: wf_gomap_def distinct_map_filter)

lemma map_of_filter_key:
  "map_of (filter (\<lambda>(k, v). P k) m) k = (if P k then map_of m k else None)"
  by (induction m) auto

lemma map_of_filter_wf:
  assumes "wf_gomap m"
  shows "map_of (filter P m) k =
    (case map_of m k of None \<Rightarrow> None | Some v \<Rightarrow> if P (k, v) then Some v else None)"
  using assms
proof (induction m)
  case (Cons e m)
  obtain a b where e: "e = (a, b)" by fastforce
  from Cons.prems have "a \<notin> fst ` set m" and wf: "wf_gomap m"
    by (auto simp: wf_gomap_def e)
  then have "map_of (filter P m) a = None"
    by (force simp: map_of_eq_None_iff)
  with Cons.IH [OF wf] \<open>a \<notin> fst ` set m\<close> show ?case
    by (auto simp: e map_of_eq_None_iff split: option.splits)
qed simp

lemma wf_gomap_map_of_mem: "wf_gomap m \<Longrightarrow> (k, v) \<in> set m \<longleftrightarrow> map_of m k = Some v"
  by (simp add: wf_gomap_def)

lemma fold_put_map_of:
  "map_of (fold (\<lambda>(k, v) m. gomap_put k v m) src dst) = map_of dst ++ map_of (rev src)"
proof (induction src arbitrary: dst)
  case (Cons e src)
  then show ?case by (cases e) (simp add: update_conv' map_add_def fun_eq_iff split: option.splits)
qed simp

lemma map_of_rev_wf: "wf_gomap m \<Longrightarrow> map_of (rev m) = map_of m"
  by (simp add: wf_gomap_def map_of_inject_set distinct_map rev_map)

lemma map_of_maps_copy [gomap_simps]:
  "wf_gomap src \<Longrightarrow> map_of (maps_copy dst src) = map_of dst ++ map_of src"
  by (simp add: maps_copy_def fold_put_map_of map_of_rev_wf)

lemma wf_maps_copy [simp, intro]: "wf_gomap dst \<Longrightarrow> wf_gomap (maps_copy dst src)"
  unfolding maps_copy_def by (induction src arbitrary: dst) (auto split: prod.splits)

lemma same_map_same_set:
  assumes "wf_gomap a" and "wf_gomap b" and "map_of a = map_of b"
  shows "set a = set b"
  using assms by (auto simp: wf_gomap_map_of_mem)

lemma same_map_mset:
  assumes "wf_gomap a" and "wf_gomap b" and "map_of a = map_of b"
  shows "mset a = mset b"
proof -
  have "distinct a" and "distinct b"
    using assms(1,2) by (auto simp: wf_gomap_def distinct_map)
  with same_map_same_set [OF assms] show ?thesis
    by (simp add: set_eq_iff_mset_eq_distinct)
qed

lemma mset_filter_keys:
  "mset a = mset b \<Longrightarrow> mset (filter P (map fst a)) = mset (filter P (map fst b))"
  by (metis mset_filter mset_map)

section \<open>Sorting\<close>

lemma sort_cong_mset: "mset xs = mset ys \<Longrightarrow> sort xs = sort (ys :: 'a :: linorder list)"
  by (metis mset_sort properties_for_sort sorted_sort)

section \<open>Strings\<close>

definition has_prefix :: "string \<Rightarrow> string \<Rightarrow> bool" where
  "has_prefix s p \<longleftrightarrow> take (length p) s = p"

definition has_suffix :: "string \<Rightarrow> string \<Rightarrow> bool" where
  "has_suffix s p \<longleftrightarrow> drop (length s - length p) s = p"

definition trim_prefix :: "string \<Rightarrow> string \<Rightarrow> string" where
  "trim_prefix s p = (if has_prefix s p then drop (length p) s else s)"

definition trim_suffix :: "string \<Rightarrow> string \<Rightarrow> string" where
  "trim_suffix s p = (if has_suffix s p then take (length s - length p) s else s)"

fun str_contains :: "string \<Rightarrow> string \<Rightarrow> bool" where
  "str_contains [] sub = (sub = [])"
| "str_contains (c # s) sub = (has_prefix (c # s) sub \<or> str_contains s sub)"

text \<open>\<^verbatim>\<open>strings.Split(s, sep)\<close> and \<^verbatim>\<open>strings.SplitN(s, sep, 2)\<close> for a one-byte separator, and
  \<^verbatim>\<open>strings.Join\<close>.\<close>

fun split_on :: "char \<Rightarrow> string \<Rightarrow> string list" where
  "split_on c [] = [[]]"
| "split_on c (x # xs) =
     (if x = c then [] # split_on c xs
      else (case split_on c xs of [] \<Rightarrow> [[x]] | p # ps \<Rightarrow> (x # p) # ps))"

definition split_n2 :: "char \<Rightarrow> string \<Rightarrow> string list" where
  "split_n2 c s =
     (if c \<in> set s then [takeWhile (\<lambda>x. x \<noteq> c) s, tl (dropWhile (\<lambda>x. x \<noteq> c) s)] else [s])"

fun join :: "string \<Rightarrow> string list \<Rightarrow> string" where
  "join sep [] = []"
| "join sep [x] = x"
| "join sep (x # y # zs) = x @ sep @ join sep (y # zs)"

definition char_code :: "char \<Rightarrow> nat" where
  "char_code c = of_char c"

definition is_space :: "char \<Rightarrow> bool" where
  "is_space c \<longleftrightarrow> char_code c = 32 \<or> (9 \<le> char_code c \<and> char_code c \<le> 13)"

definition trim_right_by :: "(char \<Rightarrow> bool) \<Rightarrow> string \<Rightarrow> string" where
  "trim_right_by P s = rev (dropWhile P (rev s))"

definition trim_by :: "(char \<Rightarrow> bool) \<Rightarrow> string \<Rightarrow> string" where
  "trim_by P s = trim_right_by P (dropWhile P s)"

definition trim_space :: "string \<Rightarrow> string" where
  "trim_space s = trim_by is_space s"

definition is_digit :: "char \<Rightarrow> bool" where
  "is_digit c \<longleftrightarrow> 48 \<le> char_code c \<and> char_code c \<le> 57"

definition is_lower :: "char \<Rightarrow> bool" where
  "is_lower c \<longleftrightarrow> 97 \<le> char_code c \<and> char_code c \<le> 122"

definition is_upper :: "char \<Rightarrow> bool" where
  "is_upper c \<longleftrightarrow> 65 \<le> char_code c \<and> char_code c \<le> 90"

definition to_lower :: "string \<Rightarrow> string" where
  "to_lower s = map (\<lambda>c. if is_upper c then char_of (char_code c + 32) else c) s"

definition to_upper :: "string \<Rightarrow> string" where
  "to_upper s = map (\<lambda>c. if is_lower c then char_of (char_code c - 32) else c) s"

definition replace_char :: "char \<Rightarrow> string \<Rightarrow> string \<Rightarrow> string" where
  "replace_char old new s = concat (map (\<lambda>c. if c = old then new else [c]) s)"

text \<open>\<^verbatim>\<open>%d\<close> and \<^verbatim>\<open>strconv.Itoa\<close>; \<^verbatim>\<open>strconv.Atoi\<close> and \<^verbatim>\<open>strconv.ParseInt(s, 10, 64)\<close>, which
  fail outside the 64-bit range.\<close>

fun nat_str :: "nat \<Rightarrow> string" where
  "nat_str n = (if n < 10 then [char_of (48 + n)] else nat_str (n div 10) @ [char_of (48 + n mod 10)])"

declare nat_str.simps [simp del]

definition itoa :: "int \<Rightarrow> string" where
  "itoa i = (if i < 0 then CHR ''-'' # nat_str (nat (- i)) else nat_str (nat i))"

definition digits_val :: "string \<Rightarrow> nat" where
  "digits_val s = foldl (\<lambda>n c. 10 * n + (char_code c - 48)) 0 s"

definition int64_min :: int where "int64_min = - (2 ^ 63)"
definition int64_max :: int where "int64_max = 2 ^ 63 - 1"

definition atoi :: "string \<Rightarrow> int option" where
  "atoi s =
     (let neg = (s \<noteq> [] \<and> hd s = CHR ''-'');
          ds = (if s \<noteq> [] \<and> (hd s = CHR ''-'' \<or> hd s = CHR ''+'') then tl s else s);
          v = (if neg then - int (digits_val ds) else int (digits_val ds))
      in if ds \<noteq> [] \<and> list_all is_digit ds \<and> int64_min \<le> v \<and> v \<le> int64_max
         then Some v else None)"

text \<open>\<^verbatim>\<open>%q\<close>: \<^verbatim>\<open>strconv.Quote\<close> on ASCII text.\<close>

definition hex_digit :: "nat \<Rightarrow> char" where
  "hex_digit n = (if n < 10 then char_of (48 + n) else char_of (87 + n))"

definition quote_char :: "char \<Rightarrow> string" where
  "quote_char c =
     (if char_code c = 34 then [char_of (92 :: nat), char_of (34 :: nat)]
      else if char_code c = 92 then [char_of (92 :: nat), char_of (92 :: nat)]
      else if char_code c = 7 then char_of (92 :: nat) # ''a''
      else if char_code c = 8 then char_of (92 :: nat) # ''b''
      else if char_code c = 12 then char_of (92 :: nat) # ''f''
      else if char_code c = 10 then char_of (92 :: nat) # ''n''
      else if char_code c = 13 then char_of (92 :: nat) # ''r''
      else if char_code c = 9 then char_of (92 :: nat) # ''t''
      else if char_code c = 11 then char_of (92 :: nat) # ''v''
      else if char_code c < 32 \<or> char_code c = 127 then
        char_of (92 :: nat) # CHR ''x'' # [hex_digit (char_code c div 16), hex_digit (char_code c mod 16)]
      else [c])"

definition go_quote :: "string \<Rightarrow> string" where
  "go_quote s = char_of (34 :: nat) # concat (map quote_char s) @ [char_of (34 :: nat)]"

section \<open>Facts about the string functions\<close>

lemma char_code_char_of [simp]: "n < 256 \<Longrightarrow> char_code (char_of n) = n"
  by (simp add: char_code_def)

lemma char_code_inj: "char_code a = char_code b \<Longrightarrow> a = b"
  by (simp add: char_code_def)

lemma nat_str_digits: "list_all is_digit (nat_str n)"
proof (induction n rule: nat_str.induct)
  case (1 n)
  then show ?case
    by (subst nat_str.simps) (auto simp: is_digit_def list_all_iff)
qed

lemma nat_str_not_Nil [simp]: "nat_str n \<noteq> []"
  by (subst nat_str.simps) simp

lemma digits_val_snoc: "digits_val (s @ [c]) = 10 * digits_val s + (char_code c - 48)"
  by (simp add: digits_val_def)

lemma digits_val_nat_str [simp]: "digits_val (nat_str n) = n"
proof (induction n rule: nat_str.induct)
  case (1 n)
  show ?case
  proof (cases "n < 10")
    case True
    then show ?thesis by (subst nat_str.simps) (simp add: digits_val_def)
  next
    case False
    with 1 show ?thesis
      by (subst nat_str.simps) (simp add: digits_val_snoc)
  qed
qed

lemma nat_str_inject [simp]: "nat_str m = nat_str n \<longleftrightarrow> m = n"
  by (metis digits_val_nat_str)

lemma not_digit_dash [simp]: "\<not> is_digit CHR ''-''"
  by (simp add: is_digit_def char_code_def)

lemma nat_str_no_dash: "CHR ''-'' \<notin> set (nat_str n)"
  using nat_str_digits [of n] by (auto simp: list_all_iff)

lemma hd_nat_str_digit: "is_digit (hd (nat_str n))"
  using nat_str_digits [of n] by (simp add: list_all_iff)

lemma atoi_itoa:
  assumes "int64_min \<le> i" and "i \<le> int64_max"
  shows "atoi (itoa i) = Some i"
proof (cases "i < 0")
  case True
  with assms show ?thesis
    by (simp add: atoi_def itoa_def nat_str_digits)
next
  case False
  have "hd (nat_str (nat i)) \<noteq> CHR ''-''" and "hd (nat_str (nat i)) \<noteq> CHR ''+''"
    using hd_nat_str_digit [of "nat i"] by (auto simp: is_digit_def char_code_def)
  with False assms show ?thesis
    by (simp add: atoi_def itoa_def nat_str_digits)
qed

lemma itoa_inject [simp]: "itoa i = itoa j \<longleftrightarrow> i = j"
proof
  assume h: "itoa i = itoa j"
  have neq: "CHR ''-'' # s \<noteq> nat_str n" for s n
    using nat_str_no_dash [of n] by (metis list.set_intros(1))
  show "i = j"
    using h neq neq [symmetric]
    by (cases "i < 0"; cases "j < 0") (auto simp: itoa_def)
qed simp

lemma split_on_not_Nil [simp]: "split_on c s \<noteq> []"
  by (induction s) (auto split: list.splits)

lemma join_split_on: "join [c] (split_on c s) = s"
proof (induction s)
  case (Cons x xs)
  obtain p ps where sp: "split_on c xs = p # ps"
    by (cases "split_on c xs") auto
  have "join [c] (p # ps) = xs"
    using Cons.IH by (simp add: sp)
  moreover have "join [c] ((x # p) # ps) = x # join [c] (p # ps)"
    by (cases ps) auto
  moreover have "join [c] ([] # p # ps) = c # join [c] (p # ps)"
    by simp
  ultimately show ?case
    by (simp add: sp)
qed simp

lemma split_on_append_sep: "c \<notin> set a \<Longrightarrow> split_on c (a @ c # b) = a # split_on c b"
  by (induction a) (auto split: list.splits)

lemma split_on_no_sep: "c \<notin> set a \<Longrightarrow> split_on c a = [a]"
  by (induction a) auto

lemma split_on_join:
  "xs \<noteq> [] \<Longrightarrow> (\<And>x. x \<in> set xs \<Longrightarrow> c \<notin> set x) \<Longrightarrow> split_on c (join [c] xs) = xs"
proof (induction xs rule: induct_list012)
  case (3 x y zs)
  then show ?case by (simp add: split_on_append_sep)
qed (auto simp: split_on_no_sep)

lemma set_split_on_no_sep: "p \<in> set (split_on c s) \<Longrightarrow> c \<notin> set p"
proof (induction s arbitrary: p)
  case (Cons x xs)
  obtain q qs where sp: "split_on c xs = q # qs"
    by (cases "split_on c xs") auto
  with Cons show ?case by (auto split: if_splits)
qed simp

lemma set_split_on_subset: "p \<in> set (split_on c s) \<Longrightarrow> set p \<subseteq> set s"
proof (induction s arbitrary: p)
  case (Cons x xs)
  obtain q qs where sp: "split_on c xs = q # qs"
    by (cases "split_on c xs") auto
  with Cons show ?case by (fastforce split: if_splits)
qed simp

lemma trim_right_by_last: "trim_right_by P s \<noteq> [] \<Longrightarrow> \<not> P (last (trim_right_by P s))"
  unfolding trim_right_by_def by (metis hd_dropWhile last_rev rev_is_Nil_conv)

lemma trim_right_by_prefix: "\<exists>k. trim_right_by P s = take k s"
proof -
  have "\<exists>k. dropWhile P (rev s) = drop k (rev s)"
    by (metis dropWhile_eq_drop)
  then obtain k where "dropWhile P (rev s) = drop k (rev s)" by blast
  then show ?thesis
    by (auto simp: trim_right_by_def rev_drop intro: exI [of _ "length s - k"])
qed

lemma trim_right_by_id: "s = [] \<or> \<not> P (last s) \<Longrightarrow> trim_right_by P s = s"
  by (metis dropWhile_eq_self_iff hd_rev rev_is_Nil_conv rev_rev_ident trim_right_by_def)

lemma length_trim_right_by: "length (trim_right_by P s) \<le> length s"
  by (metis length_dropWhile_le length_rev trim_right_by_def)

lemma set_trim_right_by: "set (trim_right_by P s) \<subseteq> set s"
  by (auto simp: trim_right_by_def dest: set_dropWhileD)

lemma hd_trim_right_by:
  "trim_right_by P s \<noteq> [] \<Longrightarrow> hd (trim_right_by P s) = hd s"
proof -
  assume ne: "trim_right_by P s \<noteq> []"
  obtain k where k: "trim_right_by P s = take k s"
    using trim_right_by_prefix by blast
  with ne show ?thesis by (metis hd_take take_eq_Nil gr0I)
qed

lemma trim_right_by_not_Nil: "s \<noteq> [] \<Longrightarrow> \<not> P (hd s) \<Longrightarrow> trim_right_by P s \<noteq> []"
  by (metis dropWhile_eq_Nil_conv list.set_sel(1) rev_is_Nil_conv set_rev trim_right_by_def)

lemma set_trim_by: "set (trim_by P s) \<subseteq> set s"
  using set_trim_right_by [of P "dropWhile P s"] by (auto simp: trim_by_def dest: set_dropWhileD)

lemma hd_trim_by: "trim_by P s \<noteq> [] \<Longrightarrow> \<not> P (hd (trim_by P s))"
  unfolding trim_by_def
  by (metis dropWhile.simps(1) hd_dropWhile hd_trim_right_by rev.simps(1) trim_right_by_def)

lemma last_trim_by: "trim_by P s \<noteq> [] \<Longrightarrow> \<not> P (last (trim_by P s))"
  unfolding trim_by_def by (rule trim_right_by_last)

lemma trim_by_id: "s = [] \<or> (\<not> P (hd s) \<and> \<not> P (last s)) \<Longrightarrow> trim_by P s = s"
  unfolding trim_by_def by (metis dropWhile_eq_self_iff trim_right_by_id)

section \<open>Loops that can fail\<close>

text \<open>A loop whose body may return an error: the first error ends the loop.\<close>

fun fold_err :: "('a \<Rightarrow> 's \<Rightarrow> 'e + 's) \<Rightarrow> 'a list \<Rightarrow> 's \<Rightarrow> 'e + 's" where
  "fold_err f [] s = Inr s"
| "fold_err f (x # xs) s = (case f x s of Inl e \<Rightarrow> Inl e | Inr s' \<Rightarrow> fold_err f xs s')"

lemma fold_err_append:
  "fold_err f (xs @ ys) s = (case fold_err f xs s of Inl e \<Rightarrow> Inl e | Inr s' \<Rightarrow> fold_err f ys s')"
  by (induction xs arbitrary: s) (auto split: sum.splits)

lemma fold_err_inv:
  assumes "\<And>x s s'. x \<in> set xs \<Longrightarrow> I s \<Longrightarrow> f x s = Inr s' \<Longrightarrow> I s'"
    and "I s" and "fold_err f xs s = Inr s'"
  shows "I s'"
  using assms
proof (induction xs arbitrary: s)
  case (Cons x xs)
  from Cons.prems(3) obtain s1 where "f x s = Inr s1" and "fold_err f xs s1 = Inr s'"
    by (auto split: sum.splits)
  with Cons.prems(1) [of x s s1] Cons.prems(2) have "I s1" by simp
  from Cons.IH [OF _ this \<open>fold_err f xs s1 = Inr s'\<close>] Cons.prems(1) show ?case
    by (meson list.set_intros(2))
qed simp

lemma fold_err_collect:
  assumes "\<And>x s s'. x \<in> set xs \<Longrightarrow> I s \<Longrightarrow> f x s = Inr s' \<Longrightarrow> I s' \<and> g s' = g s @ h x"
    and "I s" and "fold_err f xs s = Inr s'"
  shows "I s' \<and> g s' = g s @ concat (map h xs)"
  using assms
proof (induction xs arbitrary: s)
  case (Cons x xs)
  from Cons.prems(3) obtain s1 where f: "f x s = Inr s1" and r: "fold_err f xs s1 = Inr s'"
    by (auto split: sum.splits)
  have s1: "I s1" and g1: "g s1 = g s @ h x"
    using Cons.prems(1) [OF _ Cons.prems(2) f] by simp_all
  have "I s' \<and> g s' = g s1 @ concat (map h xs)"
    by (rule Cons.IH [OF _ s1 r]) (rule Cons.prems(1), simp_all)
  with g1 show ?case by simp
qed simp

lemma fold_err_succeeds:
  assumes "\<And>x s. x \<in> set xs \<Longrightarrow> I s \<Longrightarrow> \<exists>s'. f x s = Inr s' \<and> I s'" and "I s"
  shows "\<exists>s'. fold_err f xs s = Inr s' \<and> I s'"
  using assms
proof (induction xs arbitrary: s)
  case (Cons x xs)
  from Cons.prems(1) [of x s] Cons.prems(2) obtain s1 where "f x s = Inr s1" "I s1" by auto
  moreover have "\<exists>s'. fold_err f xs s1 = Inr s' \<and> I s'"
    using \<open>I s1\<close> Cons.prems(1) by (intro Cons.IH) auto
  ultimately show ?case by simp
qed simp

lemma fold_err_all_ok:
  assumes "\<And>x s s'. x \<in> set xs \<Longrightarrow> I s \<Longrightarrow> f x s = Inr s' \<Longrightarrow> I s' \<and> ok x"
    and "I s" and "fold_err f xs s = Inr s'"
  shows "\<forall>x \<in> set xs. ok x"
  using assms
proof (induction xs arbitrary: s)
  case (Cons x xs)
  from Cons.prems(3) obtain s1 where f: "f x s = Inr s1" and r: "fold_err f xs s1 = Inr s'"
    by (auto split: sum.splits)
  have "I s1 \<and> ok x" using Cons.prems(1) [OF _ Cons.prems(2) f] by simp
  moreover from this have "\<forall>x \<in> set xs. ok x"
    using Cons.prems(1) r by (intro Cons.IH [of s1]) auto
  ultimately show ?case by simp
qed simp

lemma distinct_map_filter_key:
  assumes "distinct (map key xs)"
    and "\<And>x y a b. x \<in> set xs \<Longrightarrow> y \<in> set xs \<Longrightarrow> f x = Some a \<Longrightarrow> f y = Some b \<Longrightarrow> A a = A b \<Longrightarrow> key x = key y"
  shows "distinct (map A (List.map_filter f xs))"
  using assms
proof (induction xs)
  case (Cons x xs)
  have IH: "distinct (map A (List.map_filter f xs))"
    by (rule Cons.IH) (use Cons.prems in \<open>auto\<close>)
  show ?case
  proof (cases "f x")
    case None
    then show ?thesis using IH by (simp add: List.map_filter_simps)
  next
    case (Some a)
    have "A a \<notin> A ` set (List.map_filter f xs)"
    proof
      assume "A a \<in> A ` set (List.map_filter f xs)"
      then obtain y b where y: "y \<in> set xs" "f y = Some b" "A a = A b"
        by (force simp: List.map_filter_def)
      have "key x = key y" by (rule Cons.prems(2) [of x y a b]) (use y Some in auto)
      with Cons.prems(1) y(1) show False by auto
    qed
    with Some IH show ?thesis by (simp add: List.map_filter_simps)
  qed
qed (simp add: List.map_filter_simps)

lemma map_filter_append: "List.map_filter f (xs @ ys) = List.map_filter f xs @ List.map_filter f ys"
  by (simp add: List.map_filter_def)

lemma map_filter_concat: "List.map_filter f (concat xss) = concat (map (List.map_filter f) xss)"
  by (induction xss) (simp_all add: map_filter_append List.map_filter_simps)

lemma mset_concat_cong: "mset xs = mset ys \<Longrightarrow> mset (concat (map f xs)) = mset (concat (map f ys))"
  by (simp add: mset_concat mset_map [symmetric] del: mset_map) (metis mset_map sum_mset_sum_list)

lemma nat_str_no_slash: "CHR ''/'' \<notin> set (nat_str n)"
  using nat_str_digits [of n] by (auto simp: list_all_iff is_digit_def char_code_def)

lemma itoa_no_slash: "CHR ''/'' \<notin> set (itoa i)"
  using nat_str_no_slash by (auto simp: itoa_def)

lemma sep_prefix_unique:
  assumes "c \<notin> set a" and "c \<notin> set b" and "a @ c # x = b @ c # y"
  shows "a = b \<and> x = y"
proof -
  have tw: "takeWhile (\<lambda>d. d \<noteq> c) (p @ c # q) = p" if "c \<notin> set p" for p q
  proof -
    from that have "\<forall>d \<in> set p. d \<noteq> c" by blast
    then show ?thesis by (simp add: takeWhile_append2)
  qed
  have "a = b"
    using tw [OF assms(1), of x] tw [OF assms(2), of y] assms(3) by simp
  with assms(3) show ?thesis by simp
qed

section \<open>Integer conversions\<close>

definition to_uint32 :: "int \<Rightarrow> int" where
  "to_uint32 x = x mod 2 ^ 32"

definition to_int32 :: "int \<Rightarrow> int" where
  "to_int32 x = (x + 2 ^ 31) mod 2 ^ 32 - 2 ^ 31"

lemma to_uint32_range: "0 \<le> to_uint32 x \<and> to_uint32 x < 2 ^ 32"
  by (simp add: to_uint32_def)

lemma to_uint32_id: "0 \<le> x \<Longrightarrow> x < 2 ^ 32 \<Longrightarrow> to_uint32 x = x"
  by (simp add: to_uint32_def)

lemma to_int32_id: "- (2 ^ 31) \<le> x \<Longrightarrow> x < 2 ^ 31 \<Longrightarrow> to_int32 x = x"
  by (simp add: to_int32_def)

end
