(* ===== verification/Api_Types.thy ===== *)
theory Api_Types
  imports Kubelb_Prelude
begin

text \<open>
  The KubeLB custom resources (\<^verbatim>\<open>api/ce/kubelb.k8c.io/v1alpha1\<close>) and the fields of the Kubernetes
  objects that the modelled code reads or writes. A Go struct is a \<^theory_text>\<open>record\<close>, a pointer is an
  \<^typ>\<open>'a option\<close>, a string enumeration keeps its string. Annotation and label maps are optional
  where the code tells a \<^verbatim>\<open>nil\<close> map from an empty one (\<open>om_Annotations\<close>).
\<close>

section \<open>Kubernetes objects\<close>

record object_meta =
  om_Name :: string
  om_Namespace :: string
  om_UID :: string
  om_Labels :: strmap
  om_Annotations :: "strmap option"

record object_reference =
  ref_Name :: string
  ref_Namespace :: string

datatype int_or_string = IntPort int | StrPort string

record service_port =
  sp_Name :: string
  sp_Protocol :: string
  sp_Port :: int
  sp_TargetPort :: int_or_string
  sp_NodePort :: int

record service_spec =
  ss_Ports :: "service_port list"
  ss_Type :: string
  ss_ClusterIP :: string
  ss_ClusterIPs :: "string list"
  ss_Selector :: strmap
  ss_SessionAffinity :: string
  ss_ExternalTrafficPolicy :: string
  ss_InternalTrafficPolicy :: "string option"
  ss_IPFamilies :: "string list"
  ss_IPFamilyPolicy :: "string option"

record service =
  svc_APIVersion :: string
  svc_Kind :: string
  svc_Meta :: object_meta
  svc_Spec :: service_spec

record unstructured =
  us_APIVersion :: string
  us_Kind :: string
  us_Name :: string
  us_Namespace :: string
  us_UID :: string
  us_Labels :: strmap
  us_Annotations :: strmap
  us_OwnerReferences :: "string list"
  us_Spec :: string
  us_Status :: string

section \<open>Shared KubeLB types (common_types.go)\<close>

definition DefaultAddressName :: string where "DefaultAddressName = ''default''"

record endpoint_port =
  ep_Name :: string
  ep_Port :: int
  ep_Protocol :: string

record endpoint_address =
  ea_IP :: string
  ea_Hostname :: string

record load_balancer_endpoints =
  le_Name :: string
  le_Addresses :: "endpoint_address list"
  le_AddressesReference :: "object_reference option"
  le_Ports :: "endpoint_port list"

definition AnnotatedResourceAll :: string where "AnnotatedResourceAll = ''all''"
definition AnnotatedResourceService :: string where "AnnotatedResourceService = ''service''"
definition AnnotatedResourceIngress :: string where "AnnotatedResourceIngress = ''ingress''"
definition AnnotatedResourceGateway :: string where "AnnotatedResourceGateway = ''gateway''"
definition AnnotatedResourceGRPCRoute :: string where "AnnotatedResourceGRPCRoute = ''grpcroute''"
definition AnnotatedResourceHTTPRoute :: string where "AnnotatedResourceHTTPRoute = ''httproute''"

record annotation_settings =
  as_PropagatedAnnotations :: "strmap option"
  as_PropagateAllAnnotations :: "bool option"
  as_DeniedAnnotations :: "string list option"
  as_DefaultAnnotations :: "(string, strmap) gomap option"

section \<open>LoadBalancer (loadbalancer\_types.go)\<close>

record lb_service_port = service_port +
  lsp_UpstreamTargetPort :: int

record load_balancer_port =
  lp_Name :: string
  lp_Protocol :: string
  lp_Port :: int

definition PersistenceTypeSourceIP :: string where "PersistenceTypeSourceIP = ''SourceIP''"

record load_balancer_spec =
  ls_Endpoints :: "load_balancer_endpoints list"
  ls_Ports :: "load_balancer_port list"
  ls_Hostname :: string
  ls_Type :: string
  ls_ExternalTrafficPolicy :: string
  ls_Persistence :: "string option"

record hostname_status =
  hs_Hostname :: string
  hs_TLSEnabled :: bool
  hs_DNSRecordCreated :: bool

record load_balancer_status =
  lst_ServicePorts :: "lb_service_port list"
  lst_Hostname :: "hostname_status option"

record load_balancer =
  lb_Meta :: object_meta
  lb_Spec :: load_balancer_spec
  lb_Status :: load_balancer_status

section \<open>Route (route\_types.go)\<close>

record kubernetes_source =
  ks_Route :: unstructured
  ks_Services :: "service list"

record route_spec =
  rs_Endpoints :: "load_balancer_endpoints list"
  rs_Kubernetes :: "kubernetes_source option"

record condition =
  cnd_Type :: string
  cnd_Status :: string
  cnd_Reason :: string
  cnd_Message :: string

record resource_state =
  rst_APIVersion :: string
  rst_Kind :: string
  rst_Name :: string
  rst_Namespace :: string
  rst_GeneratedName :: string
  rst_Status :: string
  rst_Conditions :: "condition list"

record route_service_status = resource_state +
  rss_Ports :: "service_port list"

record route_status =
  rt_Services :: "(string, route_service_status) gomap option"
  rt_Route :: resource_state

record route =
  r_Meta :: object_meta
  r_Spec :: route_spec
  r_Status :: route_status

section \<open>Tenant and Config (tenant\_types.go, config\_types.go)\<close>

record dns_settings =
  dns_WildcardDomain :: "string option"
  dns_AllowExplicitHostnames :: "bool option"
  dns_UseDNSAnnotations :: "bool option"
  dns_UseCertificateAnnotations :: "bool option"

record resource_requirements =
  rr_Requests :: strmap
  rr_Limits :: strmap

record tenant_envoy_proxy =
  tep_Replicas :: "int option"
  tep_Resources :: "resource_requirements option"

record tenant_spec =
  ts_Annotations :: annotation_settings
  ts_LoadBalancerDisable :: bool
  ts_IngressDisable :: bool
  ts_GatewayAPIDisable :: bool
  ts_LoadBalancerClass :: "string option"
  ts_IngressClass :: "string option"
  ts_GatewayClass :: "string option"
  ts_DefaultGateway :: "object_reference option"
  ts_DNS :: dns_settings
  ts_DefaultClusterIssuer :: "string option"
  ts_EnvoyProxy :: "tenant_envoy_proxy option"

record config_dns_settings =
  cdns_WildcardDomain :: string
  cdns_AllowExplicitHostnames :: bool
  cdns_UseDNSAnnotations :: bool
  cdns_UseCertificateAnnotations :: bool

record header_limits_config =
  hlc_MaxRequestHeadersKb :: "int option"
  hlc_MaxRequestHeadersCount :: "int option"
  hlc_MaxResponseHeadersKb :: "int option"

text \<open>Durations are in nanoseconds. An affinity and a toleration, which the code only copies,
  are their JSON texts.\<close>

record graceful_shutdown =
  gs_Disabled :: bool
  gs_DrainTimeout :: "int option"
  gs_MinDrainDuration :: "int option"
  gs_TerminationGracePeriodSeconds :: "int option"

record overload_manager =
  ovm_Enabled :: bool
  ovm_MaxActiveDownstreamConnections :: int
  ovm_MaxHeapSizeBytes :: int

record envoy_proxy_settings =
  px_UseDaemonset :: bool
  px_SinglePodPerNode :: bool
  px_NodeSelector :: "strmap option"
  px_Tolerations :: "string list"
  px_Resources :: "resource_requirements option"
  px_Affinity :: "string option"
  px_GracefulShutdown :: "graceful_shutdown option"
  px_OverloadManager :: "overload_manager option"
  px_PodMonitor :: "bool option"

record config_spec =
  cs_Annotations :: annotation_settings
  cs_Topology :: string
  cs_Replicas :: int
  cs_HeaderLimits :: "header_limits_config option"
  cs_LoadBalancerDisable :: bool
  cs_IngressDisable :: bool
  cs_GatewayAPIDisable :: bool
  cs_LoadBalancerClass :: "string option"
  cs_IngressClass :: "string option"
  cs_GatewayClass :: "string option"
  cs_DefaultGateway :: "object_reference option"
  cs_DNS :: config_dns_settings
  cs_DefaultClusterIssuer :: "string option"
  cs_EnvoyProxy :: envoy_proxy_settings

definition DefaultConfig :: config_spec where
  "DefaultConfig =
     \<lparr> cs_Annotations = \<lparr> as_PropagatedAnnotations = None, as_PropagateAllAnnotations = None,
                         as_DeniedAnnotations = None, as_DefaultAnnotations = None \<rparr>,
       cs_Topology = ''shared'', cs_Replicas = 3, cs_HeaderLimits = None,
       cs_LoadBalancerDisable = False, cs_IngressDisable = False, cs_GatewayAPIDisable = False,
       cs_LoadBalancerClass = None, cs_IngressClass = None, cs_GatewayClass = None, cs_DefaultGateway = None,
       cs_DNS = \<lparr> cdns_WildcardDomain = [], cdns_AllowExplicitHostnames = False,
                  cdns_UseDNSAnnotations = False, cdns_UseCertificateAnnotations = False \<rparr>,
       cs_DefaultClusterIssuer = None,
       cs_EnvoyProxy = \<lparr> px_UseDaemonset = False, px_SinglePodPerNode = False, px_NodeSelector = None, px_Tolerations = [],
         px_Resources = None, px_Affinity = None, px_GracefulShutdown = None, px_OverloadManager = None, px_PodMonitor = None \<rparr> \<rparr>"

section \<open>Readers\<close>

definition annots :: "object_meta \<Rightarrow> strmap" where
  "annots m = (case om_Annotations m of None \<Rightarrow> [] | Some a \<Rightarrow> a)"

end
