(* ===== verification/Sha256.thy ===== *)
theory Sha256
  imports Kubelb_Prelude "HOL-Library.Word"
begin

text \<open>
  \<^verbatim>\<open>crypto/sha256.Sum256\<close> and \<^verbatim>\<open>encoding/hex.EncodeToString\<close> of the Go standard library, which the
  naming functions of \<^verbatim>\<open>internal/kubelb/utils.go\<close> use for the suffix of a truncated name. The digest
  follows FIPS 180-4 on 32-bit words; the lemmas give its length and alphabet, which is all that the
  naming proofs need.
\<close>

unbundle bit_operations_syntax

type_synonym w32 = "32 word"

text \<open>The constants of the standard are derived as it defines them: the first 32 bits of the fractional parts of
  the square roots of the first eight primes and of the cube roots of the first 64 primes. A root is found bit by bit
  as the greatest integer whose power does not exceed the scaled prime.\<close>

definition sha_primes :: "int list" where
  "sha_primes =
     [2, 3, 5, 7, 11, 13, 17, 19, 23, 29, 31, 37, 41, 43, 47, 53,
      59, 61, 67, 71, 73, 79, 83, 89, 97, 101, 103, 107, 109, 113, 127, 131,
      137, 139, 149, 151, 157, 163, 167, 173, 179, 181, 191, 193, 197, 199, 211, 223,
      227, 229, 233, 239, 241, 251, 257, 263, 269, 271, 277, 281, 283, 293, 307, 311]"

fun root_bits :: "nat \<Rightarrow> int \<Rightarrow> nat \<Rightarrow> int \<Rightarrow> int" where
  "root_bits n x 0 r = r"
| "root_bits n x (Suc k) r = root_bits n x k (if (r + 2 ^ k) ^ n \<le> x then r + 2 ^ k else r)"

definition frac_root :: "nat \<Rightarrow> int \<Rightarrow> w32" where
  "frac_root n p = of_int (root_bits n (p * 2 ^ (32 * n)) 37 0)"

definition sha_h0 :: "w32 list" where
  "sha_h0 = map (frac_root 2) (take 8 sha_primes)"

definition sha_k :: "w32 list" where
  "sha_k = map (frac_root 3) sha_primes"

definition sha_pad :: "nat list \<Rightarrow> nat list" where
  "sha_pad bs =
     (let n = length bs
      in bs @ [128] @ replicate ((119 - n mod 64) mod 64) 0 @
         map (\<lambda>i. (8 * n) div 256 ^ i mod 256) [7, 6, 5, 4, 3, 2, 1, 0])"

fun be_words :: "nat list \<Rightarrow> w32 list" where
  "be_words (a # b # c # d # bs) =
     of_nat (a * 2 ^ 24 + b * 2 ^ 16 + c * 2 ^ 8 + d) # be_words bs"
| "be_words _ = []"

text \<open>The message schedule, newest word first: \<open>n\<close> further words are put in front of the sixteen
  words of the block.\<close>

fun sha_schedule :: "nat \<Rightarrow> w32 list \<Rightarrow> w32 list" where
  "sha_schedule 0 r = r"
| "sha_schedule (Suc n) r =
     (let w2 = r ! 1; w7 = r ! 6; w15 = r ! 14; w16 = r ! 15;
          s0 = word_rotr 7 w15 XOR word_rotr 18 w15 XOR drop_bit 3 w15;
          s1 = word_rotr 17 w2 XOR word_rotr 19 w2 XOR drop_bit 10 w2
      in sha_schedule n ((w16 + s0 + w7 + s1) # r))"

record sha_state =
  sha_a :: w32
  sha_b :: w32
  sha_c :: w32
  sha_d :: w32
  sha_e :: w32
  sha_f :: w32
  sha_g :: w32
  sha_h :: w32

definition sha_round :: "w32 \<times> w32 \<Rightarrow> sha_state \<Rightarrow> sha_state" where
  "sha_round kw st =
     (let a = sha_a st; b = sha_b st; c = sha_c st; d = sha_d st;
          e = sha_e st; f = sha_f st; g = sha_g st; h = sha_h st;
          s1 = word_rotr 6 e XOR word_rotr 11 e XOR word_rotr 25 e;
          ch = (e AND f) XOR ((NOT e) AND g);
          t1 = h + s1 + ch + fst kw + snd kw;
          s0 = word_rotr 2 a XOR word_rotr 13 a XOR word_rotr 22 a;
          mj = (a AND b) XOR (a AND c) XOR (b AND c);
          t2 = s0 + mj
      in \<lparr> sha_a = t1 + t2, sha_b = a, sha_c = b, sha_d = c,
           sha_e = d + t1, sha_f = e, sha_g = f, sha_h = g \<rparr>)"

definition sha_block :: "sha_state \<Rightarrow> w32 list \<Rightarrow> sha_state" where
  "sha_block st ws =
     (let r = fold sha_round (zip sha_k (rev (sha_schedule 48 (rev ws)))) st
      in \<lparr> sha_a = sha_a st + sha_a r, sha_b = sha_b st + sha_b r, sha_c = sha_c st + sha_c r,
           sha_d = sha_d st + sha_d r, sha_e = sha_e st + sha_e r, sha_f = sha_f st + sha_f r,
           sha_g = sha_g st + sha_g r, sha_h = sha_h st + sha_h r \<rparr>)"

fun sha_blocks :: "nat \<Rightarrow> sha_state \<Rightarrow> w32 list \<Rightarrow> sha_state" where
  "sha_blocks 0 st ws = st"
| "sha_blocks (Suc n) st ws = sha_blocks n (sha_block st (take 16 ws)) (drop 16 ws)"

definition sha_init :: sha_state where
  "sha_init =
     \<lparr> sha_a = sha_h0 ! 0, sha_b = sha_h0 ! 1, sha_c = sha_h0 ! 2, sha_d = sha_h0 ! 3,
       sha_e = sha_h0 ! 4, sha_f = sha_h0 ! 5, sha_g = sha_h0 ! 6, sha_h = sha_h0 ! 7 \<rparr>"

definition w32_bytes :: "w32 \<Rightarrow> nat list" where
  "w32_bytes w = map (\<lambda>i. unat w div 256 ^ i mod 256) [3, 2, 1, 0]"

definition Sum256 :: "nat list \<Rightarrow> nat list" where
  "Sum256 bs =
     (let ws = be_words (sha_pad bs);
          st = sha_blocks (length ws div 16) sha_init ws
      in concat (map w32_bytes
           [sha_a st, sha_b st, sha_c st, sha_d st, sha_e st, sha_f st, sha_g st, sha_h st]))"

definition EncodeToString :: "nat list \<Rightarrow> string" where
  "EncodeToString bs = concat (map (\<lambda>b. [hex_digit (b div 16), hex_digit (b mod 16)]) bs)"

section \<open>Length and alphabet of the digest\<close>

definition is_hex :: "char \<Rightarrow> bool" where
  "is_hex c \<longleftrightarrow> is_digit c \<or> (97 \<le> char_code c \<and> char_code c \<le> 102)"

lemma length_w32_bytes [simp]: "length (w32_bytes w) = 4"
  by (simp add: w32_bytes_def)

lemma w32_bytes_lt: "b \<in> set (w32_bytes w) \<Longrightarrow> b < 256"
  by (auto simp: w32_bytes_def)

lemma length_Sum256 [simp]: "length (Sum256 bs) = 32"
  by (simp add: Sum256_def Let_def)

lemma Sum256_lt: "b \<in> set (Sum256 bs) \<Longrightarrow> b < 256"
  by (auto simp: Sum256_def Let_def dest: w32_bytes_lt)

lemma length_EncodeToString [simp]: "length (EncodeToString bs) = 2 * length bs"
  by (induction bs) (auto simp: EncodeToString_def)

lemma hex_digit_is_hex: "n < 16 \<Longrightarrow> is_hex (hex_digit n)"
  by (auto simp: hex_digit_def is_hex_def is_digit_def char_code_def)

lemma EncodeToString_hex:
  "(\<And>b. b \<in> set bs \<Longrightarrow> b < 256) \<Longrightarrow> list_all is_hex (EncodeToString bs)"
  by (induction bs) (auto simp: EncodeToString_def less_mult_imp_div_less intro!: hex_digit_is_hex)

lemma Sum256_hex: "list_all is_hex (EncodeToString (Sum256 bs))"
  by (rule EncodeToString_hex) (rule Sum256_lt)

end
