(* ===== verification/Naming.thy ===== *)
theory Naming
  imports Api_Types Sha256
begin

text \<open>
  The names and lookup keys of \<^verbatim>\<open>internal/kubelb/utils.go\<close>: labels, the \<^verbatim>\<open>fmt.Sprintf\<close> patterns that
  name Envoy resources and port allocations, the DNS-1035 normalisation of generated Service names and
  the truncation with a hash suffix. The lemmas show which names are valid Kubernetes names and which
  keys determine the data they are built from.
\<close>

section \<open>Constants and key patterns\<close>

definition LabelOriginNamespace :: string where "LabelOriginNamespace = ''kubelb.k8c.io/origin-ns''"
definition LabelOriginName :: string where "LabelOriginName = ''kubelb.k8c.io/origin-name''"
definition LabelOriginResourceKind :: string where
  "LabelOriginResourceKind = ''kubelb.k8c.io/origin-resource-kind''"
definition LabelTenantName :: string where "LabelTenantName = ''kubelb.k8c.io/tenant''"
definition LabelManagedBy :: string where "LabelManagedBy = ''kubelb.k8c.io/managed-by''"
definition LabelControllerName :: string where "LabelControllerName = ''kubelb''"
definition LabelAppKubernetesName :: string where
  "LabelAppKubernetesName = ''app.kubernetes.io/name''"

definition NameSuffixLength :: nat where "NameSuffixLength = 4"
definition MaxNameLength :: nat where "MaxNameLength = 60"
definition AnnotationValueTrue :: string where "AnnotationValueTrue = ''true''"
definition AnnotationRequestWildcardDomain :: string where
  "AnnotationRequestWildcardDomain = ''kubelb.k8c.io/request-wildcard-domain''"
definition AnnotationProxyProtocol :: string where
  "AnnotationProxyProtocol = ''kubelb.k8c.io/proxy-protocol''"

definition EnvoyResourceIdentifier :: "string \<Rightarrow> string \<Rightarrow> nat \<Rightarrow> int \<Rightarrow> string \<Rightarrow> string" where
  "EnvoyResourceIdentifier ns name i port proto =
     ns @ ''-'' @ name @ ''-ep-'' @ nat_str i @ ''-port-'' @ itoa port @ ''-'' @ proto"

definition EnvoyEndpointKey :: "string \<Rightarrow> string \<Rightarrow> nat \<Rightarrow> string" where
  "EnvoyEndpointKey ns name i = ns @ ''-'' @ name @ ''-ep-'' @ nat_str i"

definition EnvoyEndpointRouteKey :: "string \<Rightarrow> string \<Rightarrow> string \<Rightarrow> string \<Rightarrow> string" where
  "EnvoyEndpointRouteKey ns svc_ns svc_name route_name =
     ''tenant-'' @ ns @ ''-route-'' @ svc_ns @ ''-'' @ svc_name @ ''-'' @ route_name"

definition EnvoyRoutePortIdentifier ::
  "string \<Rightarrow> string \<Rightarrow> string \<Rightarrow> string \<Rightarrow> string \<Rightarrow> int \<Rightarrow> string \<Rightarrow> string" where
  "EnvoyRoutePortIdentifier ns svc_ns svc_name route_ns route_name port proto =
     ''tenant-'' @ ns @ ''-route-'' @ svc_ns @ ''-'' @ svc_name @ ''-'' @ route_ns @ ''-'' @ route_name @
     ''-port-'' @ itoa port @ ''-'' @ proto"

definition EnvoyListenerKey :: "int \<Rightarrow> string \<Rightarrow> string" where
  "EnvoyListenerKey port proto = itoa port @ ''-'' @ proto"

definition RouteServiceMapKey :: "string \<Rightarrow> string \<Rightarrow> string" where
  "RouteServiceMapKey ns name = ns @ ''/'' @ name"

section \<open>Generated names\<close>

definition truncateName :: "string \<Rightarrow> string" where
  "truncateName name =
     (let hash = Sum256 (map char_code name);
          suffix = take NameSuffixLength (EncodeToString hash);
          prefix = trim_right_by (\<lambda>c. c = CHR ''-'') (take (MaxNameLength - (NameSuffixLength + 1)) name)
      in prefix @ ''-'' @ suffix)"

definition GenerateName :: "string \<Rightarrow> string \<Rightarrow> string" where
  "GenerateName name namespace =
     (let output = namespace @ ''-'' @ name
      in if MaxNameLength \<le> length output then truncateName output else output)"

definition dns1035_char :: "char \<Rightarrow> char" where
  "dns1035_char c =
     (if is_lower c then c else if is_digit c then c else if c = CHR ''-'' then c else CHR ''-'')"

definition dns1035Name :: "string \<Rightarrow> string" where
  "dns1035Name name =
     (let output = trim_by (\<lambda>c. c = CHR ''-'') (map dns1035_char (to_lower name))
      in if output = [] then ''k''
         else if \<not> is_lower (hd output) then ''k-'' @ output
         else output)"

definition GenerateRouteServiceName :: "string \<Rightarrow> string \<Rightarrow> string \<Rightarrow> string" where
  "GenerateRouteServiceName routeName serviceName namespace =
     (let output = dns1035Name (namespace @ ''-'' @ routeName @ ''-'' @ serviceName)
      in if MaxNameLength \<le> length output then truncateName output else output)"

definition GetName :: "object_meta \<Rightarrow> string" where
  "GetName obj = (case map_of (om_Labels obj) LabelOriginName of Some n \<Rightarrow> n | None \<Rightarrow> om_Name obj)"

definition GetNamespace :: "object_meta \<Rightarrow> string" where
  "GetNamespace obj =
     (case map_of (om_Labels obj) LabelOriginNamespace of Some n \<Rightarrow> n | None \<Rightarrow> om_Namespace obj)"

definition AddKubeLBLabels :: "strmap \<Rightarrow> string \<Rightarrow> string \<Rightarrow> string \<Rightarrow> strmap" where
  "AddKubeLBLabels labels name namespace gvk =
     (let l = gomap_put LabelManagedBy LabelControllerName
                (gomap_put LabelOriginNamespace namespace (gomap_put LabelOriginName name labels))
      in if gvk \<noteq> [] then gomap_put LabelOriginResourceKind gvk l else l)"

section \<open>Valid names\<close>

definition dns1035_ok :: "char \<Rightarrow> bool" where
  "dns1035_ok c \<longleftrightarrow> is_lower c \<or> is_digit c \<or> c = CHR ''-''"

text \<open>A DNS-1035 label: a lower-case letter, then letters, digits and dashes, not ending in a dash.\<close>

definition valid_dns1035 :: "string \<Rightarrow> bool" where
  "valid_dns1035 s \<longleftrightarrow>
     s \<noteq> [] \<and> is_lower (hd s) \<and> list_all dns1035_ok s \<and> last s \<noteq> CHR ''-''"

lemma dns1035_char_ok [simp]: "dns1035_ok (dns1035_char c)"
  by (simp add: dns1035_char_def dns1035_ok_def)

lemma dns1035_char_id: "dns1035_ok c \<Longrightarrow> dns1035_char c = c"
  by (auto simp: dns1035_char_def dns1035_ok_def)

lemma dns1035_ok_not_upper: "dns1035_ok c \<Longrightarrow> \<not> is_upper c"
  by (auto simp: dns1035_ok_def is_lower_def is_digit_def is_upper_def char_code_def)

lemma to_lower_ok: "list_all dns1035_ok s \<Longrightarrow> to_lower s = s"
  by (induction s) (simp_all add: to_lower_def dns1035_ok_not_upper)

lemma is_lower_k [simp]: "is_lower CHR ''k''"
  by (simp add: is_lower_def char_code_def)

lemma not_lower_dash [simp]: "\<not> is_lower CHR ''-''"
  by (simp add: is_lower_def char_code_def)

lemma hex_dns1035_ok: "is_hex c \<Longrightarrow> dns1035_ok c \<and> c \<noteq> CHR ''-''"
  by (auto simp: is_hex_def dns1035_ok_def is_lower_def is_digit_def char_code_def)

lemma valid_dns1035Name: "valid_dns1035 (dns1035Name s)"
proof -
  define t where "t = trim_by (\<lambda>c. c = CHR ''-'') (map dns1035_char (to_lower s))"
  have ok: "list_all dns1035_ok t"
    using set_trim_by [of "\<lambda>c. c = CHR ''-''" "map dns1035_char (to_lower s)"]
    by (auto simp: t_def list_all_iff)
  have last: "t \<noteq> [] \<Longrightarrow> last t \<noteq> CHR ''-''"
    unfolding t_def by (rule last_trim_by)
  show ?thesis
    using ok last by (auto simp: dns1035Name_def t_def [symmetric] valid_dns1035_def dns1035_ok_def)
qed

lemma dns1035Name_valid_id:
  assumes "valid_dns1035 s"
  shows "dns1035Name s = s"
proof -
  from assms have ok: "list_all dns1035_ok s"
    by (simp add: valid_dns1035_def)
  then have "map dns1035_char (to_lower s) = s"
    by (simp add: to_lower_ok map_idI list_all_iff dns1035_char_id)
  moreover have "hd s \<noteq> CHR ''-''"
    using assms by (auto simp: valid_dns1035_def)
  ultimately show ?thesis
    using assms by (simp add: dns1035Name_def trim_by_id valid_dns1035_def)
qed

lemma suffix_hex:
  "list_all is_hex (take NameSuffixLength (EncodeToString (Sum256 bs)))"
  using Sum256_hex [of bs] by (auto simp: list_all_iff dest: in_set_takeD)

lemma length_suffix [simp]:
  "length (take NameSuffixLength (EncodeToString (Sum256 bs))) = NameSuffixLength"
  by (simp add: NameSuffixLength_def)

lemma length_truncateName: "length (truncateName s) \<le> MaxNameLength"
proof -
  have "length (trim_right_by (\<lambda>c. c = CHR ''-'') (take (MaxNameLength - (NameSuffixLength + 1)) s))
          \<le> MaxNameLength - (NameSuffixLength + 1)"
    by (rule order_trans [OF length_trim_right_by]) simp
  then show ?thesis
    by (simp add: truncateName_def Let_def) (simp add: MaxNameLength_def NameSuffixLength_def)
qed

lemma valid_truncateName:
  assumes "valid_dns1035 s"
  shows "valid_dns1035 (truncateName s)"
proof -
  let ?d = "\<lambda>c. c = CHR ''-''"
  define cut where "cut = take (MaxNameLength - (NameSuffixLength + 1)) s"
  define pre where "pre = trim_right_by ?d cut"
  define suf where "suf = take NameSuffixLength (EncodeToString (Sum256 (map char_code s)))"
  have cut_ne: "cut \<noteq> []" and hd_cut: "hd cut = hd s"
    using assms by (auto simp: cut_def valid_dns1035_def MaxNameLength_def NameSuffixLength_def)
  have "\<not> ?d (hd cut)"
    using assms by (auto simp: hd_cut valid_dns1035_def)
  with cut_ne have pre_ne: "pre \<noteq> []"
    unfolding pre_def by (intro trim_right_by_not_Nil)
  have hd_pre: "hd pre = hd s"
    using hd_trim_right_by [of ?d cut] pre_ne by (simp add: pre_def hd_cut)
  have "set pre \<subseteq> set s"
    using set_trim_right_by [of ?d cut] by (auto simp: pre_def cut_def dest: in_set_takeD)
  then have pre_ok: "list_all dns1035_ok pre"
    using assms by (auto simp: valid_dns1035_def list_all_iff)
  have suf_ne: "suf \<noteq> []"
    using length_suffix [of "map char_code s"] unfolding suf_def NameSuffixLength_def
    by (metis list.size(3) zero_neq_numeral)
  have hex: "list_all is_hex suf"
    unfolding suf_def by (rule suffix_hex)
  then have suf_ok: "list_all dns1035_ok suf" and "last suf \<noteq> CHR ''-''"
    using suf_ne hex_dns1035_ok last_in_set [OF suf_ne] by (metis list_all_iff)+
  have eq: "truncateName s = pre @ CHR ''-'' # suf"
    by (simp add: truncateName_def Let_def pre_def cut_def suf_def)
  have "is_lower (hd s)" using assms by (simp add: valid_dns1035_def)
  with pre_ne hd_pre pre_ok suf_ne suf_ok \<open>last suf \<noteq> CHR ''-''\<close> show ?thesis
    unfolding eq valid_dns1035_def by (simp add: dns1035_ok_def)
qed

lemma length_GenerateName: "length (GenerateName name namespace) \<le> MaxNameLength"
  by (simp add: GenerateName_def Let_def length_truncateName)

lemma GenerateRouteServiceName_valid:
  "valid_dns1035 (GenerateRouteServiceName r s n)" and
  GenerateRouteServiceName_length: "length (GenerateRouteServiceName r s n) \<le> MaxNameLength"
  by (simp_all add: GenerateRouteServiceName_def Let_def valid_dns1035Name valid_truncateName
      length_truncateName)

section \<open>Which keys determine their parts\<close>

lemma digit_suffix_unique:
  assumes "\<not> is_digit c" and "\<not> is_digit c'"
    and "a @ c # nat_str i = b @ c' # nat_str j"
  shows "i = j \<and> a @ [c] = b @ [c']"
proof -
  have tw: "takeWhile is_digit (rev (x @ d # nat_str k)) = rev (nat_str k)" if "\<not> is_digit d" for x d k
    using that nat_str_digits [of k] by (simp, subst takeWhile_append2) (auto simp: list_all_iff)
  have "rev (nat_str i) = rev (nat_str j)"
    using tw [OF assms(1), of a i] tw [OF assms(2), of b j] assms(3) by simp
  then have "i = j" by simp
  with assms show ?thesis by simp
qed

lemma EnvoyEndpointKey_eq_iff:
  "EnvoyEndpointKey ns name i = EnvoyEndpointKey ns' name' i' \<longleftrightarrow>
     i = i' \<and> ns @ ''-'' @ name = ns' @ ''-'' @ name'"
proof
  assume "EnvoyEndpointKey ns name i = EnvoyEndpointKey ns' name' i'"
  then have "(ns @ ''-'' @ name @ ''-ep'') @ CHR ''-'' # nat_str i =
             (ns' @ ''-'' @ name' @ ''-ep'') @ CHR ''-'' # nat_str i'"
    by (simp add: EnvoyEndpointKey_def)
  from digit_suffix_unique [OF _ _ this] have
    "i = i' \<and> (ns @ ''-'' @ name @ ''-ep'') @ ''-'' = (ns' @ ''-'' @ name' @ ''-ep'') @ ''-''"
    by simp
  then have "i = i'" and "(ns @ ''-'' @ name) @ ''-ep-'' = (ns' @ ''-'' @ name') @ ''-ep-''"
    by simp_all
  then show "i = i' \<and> ns @ ''-'' @ name = ns' @ ''-'' @ name'"
    by (simp only: append_same_eq)
qed (auto simp: EnvoyEndpointKey_def)

lemma EnvoyEndpointKey_inj_same_ns:
  "EnvoyEndpointKey ns name i = EnvoyEndpointKey ns name' i' \<longleftrightarrow> name = name' \<and> i = i'"
  by (auto simp: EnvoyEndpointKey_eq_iff)

lemma itoa_dash_unique:
  assumes "itoa i @ CHR ''-'' # x = itoa j @ CHR ''-'' # y"
  shows "i = j \<and> x = y"
proof -
  have hd: "hd (itoa k) = CHR ''-'' \<longleftrightarrow> k < 0" for k
    using hd_nat_str_digit [of "nat k"] by (auto simp: itoa_def)
  have ne: "itoa k \<noteq> []" for k by (simp add: itoa_def)
  have sign: "i < 0 \<longleftrightarrow> j < 0"
    using hd [of i] hd [of j] arg_cong [OF assms, of hd] by (simp add: ne)
  show ?thesis
  proof (cases "i < 0")
    case True
    with sign assms have "nat_str (nat (- i)) @ CHR ''-'' # x = nat_str (nat (- j)) @ CHR ''-'' # y"
      by (simp add: itoa_def)
    from sep_prefix_unique [OF nat_str_no_dash nat_str_no_dash this] True sign show ?thesis
      by (simp add: nat_eq_iff)
  next
    case False
    with sign assms have "nat_str (nat i) @ CHR ''-'' # x = nat_str (nat j) @ CHR ''-'' # y"
      by (simp add: itoa_def)
    from sep_prefix_unique [OF nat_str_no_dash nat_str_no_dash this] False sign show ?thesis
      by (simp add: nat_eq_iff split: if_splits)
  qed
qed

lemma EnvoyListenerKey_inject [simp]:
  "EnvoyListenerKey p a = EnvoyListenerKey q b \<longleftrightarrow> p = q \<and> a = b"
  using itoa_dash_unique [of p a q b] by (auto simp: EnvoyListenerKey_def)

end
