(* ===== verification/Annotation_Rules.thy ===== *)
theory Annotation_Rules
  imports Naming
begin

text \<open>
  Annotation handling: propagation of a source object's annotations to generated objects
  (\<^verbatim>\<open>PropagateAnnotations\<close> and its matchers in \<^verbatim>\<open>internal/kubelb/utils.go\<close>), the resolution of tenant
  and global settings (\<^verbatim>\<open>GetAnnotations\<close> in \<^verbatim>\<open>internal/controllers/kubelb/shared.go\<close>), and comparing,
  merging and reconciling annotation maps (\<^verbatim>\<open>internal/util/kubernetes/util.go\<close>). The glob matcher
  \<^verbatim>\<open>path.Match\<close> of the Go standard library is modelled in full for ASCII text, malformed patterns
  included.
\<close>

section \<open>path.Match\<close>

definition star :: char where "star = CHR ''*''"
definition backslash :: char where "backslash = char_of (92 :: nat)"

fun skip_stars :: "string \<Rightarrow> string" where
  "skip_stars [] = []"
| "skip_stars (c # cs) = (if c = star then skip_stars cs else c # cs)"

fun scan_body :: "bool \<Rightarrow> string \<Rightarrow> string \<times> string" where
  "scan_body inrange [] = ([], [])"
| "scan_body inrange [c] = (if c = star \<and> \<not> inrange then ([], [c]) else ([c], []))"
| "scan_body inrange (c # d # cs) =
     (if c = backslash then (let (a, b) = scan_body inrange cs in (c # d # a, b))
      else if c = star \<and> \<not> inrange then ([], c # d # cs)
      else (let (a, b) = scan_body (if c = CHR ''['' then True else if c = CHR '']'' then False else inrange)
                           (d # cs)
            in (c # a, b)))"

definition scanChunk :: "string \<Rightarrow> bool \<times> string \<times> string" where
  "scanChunk pattern = (pattern \<noteq> [] \<and> hd pattern = star, scan_body False (skip_stars pattern))"

text \<open>\<^verbatim>\<open>getEsc\<close>: the next literal of a character class; \<open>None\<close> is \<^verbatim>\<open>ErrBadPattern\<close>.\<close>

definition getEsc :: "string \<Rightarrow> (nat \<times> string) option" where
  "getEsc chunk =
     (if chunk = [] \<or> hd chunk = CHR ''-'' \<or> hd chunk = CHR '']'' then None
      else (let c1 = (if hd chunk = backslash then tl chunk else chunk)
            in if c1 = [] \<or> tl c1 = [] then None else Some (char_code (hd c1), tl c1)))"

lemma getEsc_shorter: "getEsc c = Some (r, rest) \<Longrightarrow> length rest < length c \<and> rest \<noteq> []"
  by (cases c) (auto simp: getEsc_def Let_def split: if_splits)

function parse_ranges :: "nat \<Rightarrow> bool \<Rightarrow> bool \<Rightarrow> string \<Rightarrow> (bool \<times> string) option" where
  "parse_ranges r some match chunk =
     (if chunk \<noteq> [] \<and> hd chunk = CHR '']'' \<and> some then Some (match, tl chunk)
      else (case getEsc chunk of
              None \<Rightarrow> None
            | Some (lo, c1) \<Rightarrow>
                if hd c1 = CHR ''-'' then
                  (case getEsc (tl c1) of
                     None \<Rightarrow> None
                   | Some (hi, c2) \<Rightarrow> parse_ranges r True (match \<or> (lo \<le> r \<and> r \<le> hi)) c2)
                else parse_ranges r True (match \<or> (lo \<le> r \<and> r \<le> lo)) c1))"
  by pat_completeness auto
termination
proof (relation "measure (\<lambda>(r, some, match, chunk). length chunk)", goal_cases)
  case (2 r some match chunk x lo c1 x' hi c2)
  then have "length c1 < length chunk" and "length c2 < length (tl c1)"
    using getEsc_shorter by blast+
  then show ?case by simp
next
  case (3 r some match chunk x lo c1)
  then show ?case using getEsc_shorter by force
qed simp

declare parse_ranges.simps [simp del]

lemma parse_ranges_shorter: "parse_ranges r some m chunk = Some (m', rest) \<Longrightarrow> length rest < length chunk"
proof (induction r some m chunk rule: parse_ranges.induct)
  case (1 r some match chunk)
  show ?case
  proof (cases "chunk \<noteq> [] \<and> hd chunk = CHR '']'' \<and> some")
    case True
    with 1(3) have "rest = tl chunk" and "chunk \<noteq> []"
      by (subst (asm) parse_ranges.simps, simp)+
    then show ?thesis by simp
  next
    case False
    with 1(3) obtain lo c1 where g: "getEsc chunk = Some (lo, c1)"
      by (auto simp: parse_ranges.simps [of r some match chunk] split: option.splits)
    have l1: "length c1 < length chunk" using getEsc_shorter [OF g] by simp
    show ?thesis
    proof (cases "hd c1 = CHR ''-''")
      case True
      with False g 1(3) obtain hi c2 where g2: "getEsc (tl c1) = Some (hi, c2)"
        and p: "parse_ranges r True (match \<or> (lo \<le> r \<and> r \<le> hi)) c2 = Some (m', rest)"
        by (subst (asm) parse_ranges.simps) (auto split: option.splits)
      have "length rest < length c2" by (rule 1(1) [OF False g refl True g2 refl p])
      with l1 getEsc_shorter [OF g2] show ?thesis by (simp, linarith)
    next
      case dash: False
      with False g 1(3) have
        p: "parse_ranges r True (match \<or> (lo \<le> r \<and> r \<le> lo)) c1 = Some (m', rest)"
        by (subst (asm) parse_ranges.simps) auto
      have "length rest < length c1" by (rule 1(2) [OF False g refl dash p])
      with l1 show ?thesis by simp
    qed
  qed
qed

datatype chunk_result = BadPattern | NoMatch | Rest string

text \<open>\<^verbatim>\<open>matchChunk\<close>: after a mismatch the rest of the chunk is still checked for well-formedness.\<close>

function matchChunk :: "bool \<Rightarrow> string \<Rightarrow> string \<Rightarrow> chunk_result" where
  "matchChunk failed [] s = (if failed then NoMatch else Rest s)"
| "matchChunk failed (c # cs) s =
     (let failed = (failed \<or> s = [])
      in if c = CHR ''['' then
           (let r = (if failed then 0 else char_code (hd s));
                s1 = (if failed then s else tl s);
                negated = (cs \<noteq> [] \<and> hd cs = CHR ''^'');
                c1 = (if negated then tl cs else cs)
            in case parse_ranges r False False c1 of
                 None \<Rightarrow> BadPattern
               | Some (match, c2) \<Rightarrow> matchChunk (failed \<or> match = negated) c2 s1)
         else if c = CHR ''?'' then
           matchChunk (failed \<or> hd s = CHR ''/'') cs (if failed then s else tl s)
         else if c = backslash then
           (case cs of
              [] \<Rightarrow> BadPattern
            | d # ds \<Rightarrow> matchChunk (failed \<or> d \<noteq> hd s) ds (if failed then s else tl s))
         else matchChunk (failed \<or> c \<noteq> hd s) cs (if failed then s else tl s))"
  by pat_completeness auto
termination
proof (relation "measure (\<lambda>(failed, chunk, s). length chunk)", goal_cases)
  case (2 failed c cs s failed' r s1 negated c1 x match c2)
  then have "parse_ranges r False False c1 = Some (match, c2)" by simp
  then have "length c2 < length c1" by (rule parse_ranges_shorter)
  moreover have "length c1 \<le> length cs" using 2 by (cases cs) auto
  ultimately show ?case by simp
qed auto

declare matchChunk.simps [simp del]

lemma skip_stars_length: "length (skip_stars p) \<le> length p"
  by (induction p) auto

lemma skip_stars_hd: "skip_stars p \<noteq> [] \<Longrightarrow> hd (skip_stars p) \<noteq> star"
  by (induction p) auto

lemma scan_body_append: "fst (scan_body b p) @ snd (scan_body b p) = p"
  by (induction b p rule: scan_body.induct) (auto simp: split_def Let_def)

lemma scan_body_nonempty: "p \<noteq> [] \<Longrightarrow> hd p \<noteq> star \<Longrightarrow> fst (scan_body False p) \<noteq> []"
  by (cases "(False, p)" rule: scan_body.cases) (auto simp: split_def Let_def)

lemma scanChunk_shorter:
  assumes "scanChunk p = (s, chunk, rest)" and "p \<noteq> []"
  shows "length rest < length p"
proof -
  have body: "scan_body False (skip_stars p) = (chunk, rest)" and "s \<longleftrightarrow> hd p = star"
    using assms by (auto simp: scanChunk_def)
  have app: "length chunk + length rest = length (skip_stars p)"
    using scan_body_append [of False "skip_stars p"] by (metis body fst_conv length_append snd_conv)
  show ?thesis
  proof (cases "hd p = star")
    case True
    with assms(2) have "length (skip_stars p) < length p"
      using skip_stars_length [of "tl p"] by (cases p) auto
    with app show ?thesis by simp
  next
    case False
    with assms(2) have "skip_stars p = p" by (cases p) auto
    with body scan_body_nonempty [OF assms(2) False] have "0 < length chunk" by simp
    with app show ?thesis unfolding \<open>skip_stars p = p\<close> by linarith
  qed
qed

text \<open>The remainder of the pattern is checked before a mismatch is reported.\<close>

function rest_valid :: "string \<Rightarrow> bool" where
  "rest_valid pattern =
     (if pattern = [] then True
      else (case scanChunk pattern of
              (_, chunk, rest) \<Rightarrow>
                (case matchChunk False chunk [] of BadPattern \<Rightarrow> False | _ \<Rightarrow> rest_valid rest)))"
  by pat_completeness auto
termination
  by (relation "measure length") (auto dest: scanChunk_shorter [OF sym])

declare rest_valid.simps [simp del]

text \<open>The loop that lets the star skip \<open>i + 1\<close> bytes, never over a slash.\<close>

fun skip_match :: "string \<Rightarrow> bool \<Rightarrow> string \<Rightarrow> chunk_result" where
  "skip_match chunk final [] = NoMatch"
| "skip_match chunk final (c # s) =
     (if c = CHR ''/'' then NoMatch
      else (case matchChunk False chunk s of
              BadPattern \<Rightarrow> BadPattern
            | NoMatch \<Rightarrow> skip_match chunk final s
            | Rest t \<Rightarrow> if final \<and> t \<noteq> [] then skip_match chunk final s else Rest t))"

text \<open>\<^verbatim>\<open>path.Match\<close>; \<open>None\<close> is \<^verbatim>\<open>ErrBadPattern\<close>.\<close>

function path_match :: "string \<Rightarrow> string \<Rightarrow> bool option" where
  "path_match pattern name =
     (if pattern = [] then Some (name = [])
      else (case scanChunk pattern of
              (is_star, chunk, rest) \<Rightarrow>
                if is_star \<and> chunk = [] then Some (CHR ''/'' \<notin> set name)
                else
                  (let mismatch = (if rest_valid rest then Some False else None);
                       skip = (if is_star then
                                 (case skip_match chunk (rest = []) name of
                                    BadPattern \<Rightarrow> None
                                  | NoMatch \<Rightarrow> mismatch
                                  | Rest t \<Rightarrow> path_match rest t)
                               else mismatch)
                   in case matchChunk False chunk name of
                        BadPattern \<Rightarrow> None
                      | NoMatch \<Rightarrow> skip
                      | Rest t \<Rightarrow> if t = [] \<or> rest \<noteq> [] then path_match rest t else skip)))"
  by pat_completeness auto
termination
  by (relation "measure (\<lambda>(pattern, name). length pattern)") (auto dest: scanChunk_shorter [OF sym])

declare path_match.simps [simp del]

section \<open>Propagation (internal/kubelb/utils.go)\<close>

definition matchPattern :: "string \<Rightarrow> string \<Rightarrow> bool" where
  "matchPattern pattern key =
     (case path_match pattern key of None \<Rightarrow> pattern = key | Some matched \<Rightarrow> matched)"

definition compileDenyMatcher :: "string list option \<Rightarrow> string \<Rightarrow> bool" where
  "compileDenyMatcher patterns key =
     (case patterns of None \<Rightarrow> False | Some ps \<Rightarrow> list_ex (\<lambda>p. matchPattern p key) ps)"

definition allow_values :: "string \<Rightarrow> string list option" where
  "allow_values v = (if v \<noteq> [] then Some (map trim_space (split_on CHR '','' v)) else None)"

definition compileAllowMatcher :: "strmap option \<Rightarrow> string \<Rightarrow> string \<Rightarrow> bool" where
  "compileAllowMatcher allow key value =
     (case allow of
        None \<Rightarrow> False
      | Some m \<Rightarrow>
          list_ex (\<lambda>(pattern, v). matchPattern pattern key \<and>
                     (case allow_values v of None \<Rightarrow> True | Some values \<Rightarrow> value \<in> set values)) m)"

definition put_if_absent :: "string \<times> string \<Rightarrow> strmap \<Rightarrow> strmap" where
  "put_if_absent kv out = (if map_of out (fst kv) = None then gomap_put (fst kv) (snd kv) out else out)"

definition defaults_at :: "(string, strmap) gomap \<Rightarrow> string \<Rightarrow> strmap" where
  "defaults_at d resource = (case map_of d resource of None \<Rightarrow> [] | Some m \<Rightarrow> m)"

definition mergeDefaultAnnotations :: "strmap \<Rightarrow> annotation_settings \<Rightarrow> string \<Rightarrow> strmap" where
  "mergeDefaultAnnotations out settings resource =
     (case as_DefaultAnnotations settings of
        None \<Rightarrow> out
      | Some d \<Rightarrow> fold put_if_absent (defaults_at d AnnotatedResourceAll)
                    (fold put_if_absent (defaults_at d resource) out))"

definition propagates :: "annotation_settings \<Rightarrow> string \<Rightarrow> string \<Rightarrow> bool" where
  "propagates settings k v \<longleftrightarrow>
     \<not> compileDenyMatcher (as_DeniedAnnotations settings) k \<and>
     (as_PropagateAllAnnotations settings = Some True \<or>
      compileAllowMatcher (as_PropagatedAnnotations settings) k v)"

definition PropagateAnnotations :: "strmap \<Rightarrow> annotation_settings \<Rightarrow> string \<Rightarrow> strmap" where
  "PropagateAnnotations source settings resource =
     mergeDefaultAnnotations
       (fold (\<lambda>(k, v) out. if propagates settings k v then gomap_put k v out else out) source [])
       settings resource"

section \<open>Tenant and global settings (internal/controllers/kubelb/shared.go)\<close>

definition GetAnnotations :: "tenant_spec \<Rightarrow> config_spec \<Rightarrow> annotation_settings" where
  "GetAnnotations tenant config =
     (let t = ts_Annotations tenant; c = cs_Annotations config;
          own = (as_PropagateAllAnnotations t \<noteq> None \<or> as_PropagatedAnnotations t \<noteq> None)
      in \<lparr> as_PropagatedAnnotations = as_PropagatedAnnotations (if own then t else c),
           as_PropagateAllAnnotations = as_PropagateAllAnnotations (if own then t else c),
           as_DeniedAnnotations =
             (if as_DeniedAnnotations t \<noteq> None then as_DeniedAnnotations t
              else if as_DeniedAnnotations c \<noteq> None then as_DeniedAnnotations c else None),
           as_DefaultAnnotations =
             (if as_DefaultAnnotations t \<noteq> None then as_DefaultAnnotations t
              else if as_DefaultAnnotations c \<noteq> None then as_DefaultAnnotations c else None) \<rparr>)"

definition ExternalDNSHostnameAnnotation :: string where
  "ExternalDNSHostnameAnnotation = ''external-dns.alpha.kubernetes.io/hostname''"
definition ExternalDNSTTLAnnotation :: string where
  "ExternalDNSTTLAnnotation = ''external-dns.alpha.kubernetes.io/ttl''"
definition ExternalDNSTTLDefault :: string where "ExternalDNSTTLDefault = ''10''"
definition CertManagerClusterIssuerAnnotation :: string where
  "CertManagerClusterIssuerAnnotation = ''cert-manager.io/cluster-issuer''"

text \<open>\<^verbatim>\<open>AddDNSAndCertificateAnnotations\<close> writes into the caller's map. A \<^verbatim>\<open>nil\<close> map is replaced by a map
  that only the function itself sees, so the caller's map stays \<^verbatim>\<open>nil\<close>.\<close>

definition dns_cert_updates ::
  "strmap \<Rightarrow> tenant_spec \<Rightarrow> config_spec \<Rightarrow> string \<Rightarrow> bool \<Rightarrow> strmap" where
  "dns_cert_updates annotations tenant config hostname skipCertificateAnnotations =
     (let shouldAddDNS = (case dns_UseDNSAnnotations (ts_DNS tenant) of
                            Some b \<Rightarrow> b | None \<Rightarrow> cdns_UseDNSAnnotations (cs_DNS config));
          a1 = (if shouldAddDNS
                then gomap_put ExternalDNSTTLAnnotation ExternalDNSTTLDefault
                       (gomap_put ExternalDNSHostnameAnnotation hostname annotations)
                else annotations);
          shouldAddCert = (case dns_UseCertificateAnnotations (ts_DNS tenant) of
                             Some b \<Rightarrow> b | None \<Rightarrow> cdns_UseCertificateAnnotations (cs_DNS config))
      in if \<not> skipCertificateAnnotations \<and> shouldAddCert then
           (case ts_DefaultClusterIssuer tenant of
              Some i \<Rightarrow> gomap_put CertManagerClusterIssuerAnnotation i a1
            | None \<Rightarrow>
                (case cs_DefaultClusterIssuer config of
                   Some i \<Rightarrow> gomap_put CertManagerClusterIssuerAnnotation i a1
                 | None \<Rightarrow> a1))
         else a1)"

definition AddDNSAndCertificateAnnotations ::
  "strmap option \<Rightarrow> tenant_spec \<Rightarrow> config_spec \<Rightarrow> string \<Rightarrow> bool \<Rightarrow> strmap option" where
  "AddDNSAndCertificateAnnotations annotations tenant config hostname skipCertificateAnnotations =
     (case annotations of
        None \<Rightarrow> None
      | Some a \<Rightarrow> Some (dns_cert_updates a tenant config hostname skipCertificateAnnotations))"

section \<open>Comparing and reconciling annotation maps (internal/util/kubernetes/util.go)\<close>

definition LastAppliedConfigAnnotation :: string where
  "LastAppliedConfigAnnotation = ''kubectl.kubernetes.io/last-applied-configuration''"

definition ManagedAnnotationsKey :: string where
  "ManagedAnnotationsKey = ''kubelb.k8c.io/managed-annotations''"

text \<open>\<open>deepEqual\<close> is \<^verbatim>\<open>equality.Semantic.DeepEqual\<close> of apimachinery at the type \<^verbatim>\<open>map[string]string\<close>.\<close>

definition CompareAnnotations ::
  "(strmap \<Rightarrow> strmap \<Rightarrow> bool) \<Rightarrow> strmap option \<Rightarrow> strmap option \<Rightarrow> bool" where
  "CompareAnnotations deepEqual a b =
     (case a of
        None \<Rightarrow> b = None
      | Some x \<Rightarrow>
          (case b of
             None \<Rightarrow> False
           | Some y \<Rightarrow>
               if deepEqual x y then True
               else deepEqual (gomap_del LastAppliedConfigAnnotation (maps_copy [] x))
                              (gomap_del LastAppliedConfigAnnotation (maps_copy [] y))))"

definition ReconcileAnnotations :: "strmap \<Rightarrow> strmap \<Rightarrow> strmap" where
  "ReconcileAnnotations existing desired =
     (let merged1 = fold (\<lambda>key m. if map_of desired key = None \<and> key \<noteq> [] then gomap_del key m else m)
                      (split_on CHR '','' (str_at existing ManagedAnnotationsKey)) (maps_copy [] existing);
          merged2 = maps_copy merged1 desired;
          managed = filter (\<lambda>key. key \<noteq> ManagedAnnotationsKey) (gomap_keys desired)
      in if managed = [] then gomap_del ManagedAnnotationsKey merged2
         else gomap_put ManagedAnnotationsKey (join '','' (sort managed)) merged2)"

definition MergeAnnotations ::
  "(strmap \<Rightarrow> strmap \<Rightarrow> bool) \<Rightarrow> strmap option \<Rightarrow> strmap option \<Rightarrow> strmap option" where
  "MergeAnnotations deepEqual existing desired =
     (if CompareAnnotations deepEqual existing desired then existing
      else Some (maps_copy (maps_copy [] (case existing of None \<Rightarrow> [] | Some e \<Rightarrow> e))
                   (case desired of None \<Rightarrow> [] | Some d \<Rightarrow> d)))"

section \<open>Facts\<close>

lemma map_of_fold_propagate:
  assumes "wf_gomap source"
  shows "map_of (fold (\<lambda>(k, v) out. if P k v then gomap_put k v out else out) source out) k =
           (case map_of source k of
              Some v \<Rightarrow> if P k v then Some v else map_of out k
            | None \<Rightarrow> map_of out k)"
  using assms
proof (induction source arbitrary: out)
  case (Cons e source)
  obtain a b where e: "e = (a, b)" by fastforce
  from Cons.prems have wf: "wf_gomap source" and a: "map_of source a = None"
    by (auto simp: wf_gomap_def e map_of_eq_None_iff)
  show ?case
    unfolding fold_simps(2) Cons.IH [OF wf] using a
    by (auto simp: e map_of_put split: option.splits)
qed simp

lemma map_of_fold_put_if_absent:
  "map_of (fold put_if_absent ds out) k = (case map_of out k of Some v \<Rightarrow> Some v | None \<Rightarrow> map_of ds k)"
proof (induction ds arbitrary: out)
  case (Cons e ds)
  obtain a b where e: "e = (a, b)" by fastforce
  show ?case
    unfolding fold_simps(2) Cons.IH by (auto simp: e put_if_absent_def map_of_put split: option.splits)
qed (simp split: option.splits)

definition effective_default :: "annotation_settings \<Rightarrow> string \<Rightarrow> string \<Rightarrow> string option" where
  "effective_default settings resource k =
     (case as_DefaultAnnotations settings of
        None \<Rightarrow> None
      | Some d \<Rightarrow>
          (case map_of (defaults_at d resource) k of
             Some v \<Rightarrow> Some v
           | None \<Rightarrow> map_of (defaults_at d AnnotatedResourceAll) k))"

lemma map_of_mergeDefaultAnnotations:
  "map_of (mergeDefaultAnnotations out settings resource) k =
     (case map_of out k of Some v \<Rightarrow> Some v | None \<Rightarrow> effective_default settings resource k)"
  by (auto simp: mergeDefaultAnnotations_def effective_default_def map_of_fold_put_if_absent
      split: option.splits)

lemma map_of_PropagateAnnotations:
  assumes "wf_gomap source"
  shows "map_of (PropagateAnnotations source settings resource) k =
     (case map_of source k of
        Some v \<Rightarrow> if propagates settings k v then Some v else effective_default settings resource k
      | None \<Rightarrow> effective_default settings resource k)"
  unfolding PropagateAnnotations_def map_of_mergeDefaultAnnotations
    map_of_fold_propagate [OF assms] by (auto split: option.splits)

lemma map_of_fold_drop:
  "map_of (fold (\<lambda>key m. if Q key then gomap_del key m else m) ks m) k =
     (if k \<in> set ks \<and> Q k then None else map_of m k)"
  by (induction ks arbitrary: m) (auto simp: map_of_del)

abbreviation managed_by :: "strmap \<Rightarrow> string list" where
  "managed_by existing \<equiv> split_on CHR '','' (str_at existing ManagedAnnotationsKey)"

lemma map_of_ReconcileAnnotations:
  assumes "wf_gomap existing" and "wf_gomap desired"
  shows "map_of (ReconcileAnnotations existing desired) k =
     (if k = ManagedAnnotationsKey then
        (let managed = filter (\<lambda>key. key \<noteq> ManagedAnnotationsKey) (gomap_keys desired)
         in if managed = [] then None else Some (join '','' (sort managed)))
      else
        (case map_of desired k of
           Some v \<Rightarrow> Some v
         | None \<Rightarrow> if k \<in> set (managed_by existing) \<and> k \<noteq> [] then None else map_of existing k))"
  using assms
  by (auto simp: ReconcileAnnotations_def Let_def map_of_put map_of_del map_of_maps_copy map_of_fold_drop
      map_add_def split: option.splits)

lemma managed_by_Reconcile:
  assumes "wf_gomap existing" and "wf_gomap desired"
    and "\<And>k. k \<in> set (gomap_keys desired) \<Longrightarrow> CHR '','' \<notin> set k"
  shows "{k \<in> set (managed_by (ReconcileAnnotations existing desired)). k \<noteq> []} =
         {k \<in> set (gomap_keys desired). k \<noteq> [] \<and> k \<noteq> ManagedAnnotationsKey}"
proof -
  let ?ks = "filter (\<lambda>key. key \<noteq> ManagedAnnotationsKey) (gomap_keys desired)"
  have at: "str_at (ReconcileAnnotations existing desired) ManagedAnnotationsKey =
      (if ?ks = [] then [] else join '','' (sort ?ks))"
    by (simp add: str_at_def map_of_ReconcileAnnotations [OF assms(1,2)] Let_def)
  show ?thesis
  proof (cases "?ks = []")
    case True
    then have "{k \<in> set (gomap_keys desired). k \<noteq> [] \<and> k \<noteq> ManagedAnnotationsKey} = {}"
      unfolding filter_empty_conv by blast
    moreover have "managed_by (ReconcileAnnotations existing desired) = [[]]"
      unfolding at using True by simp
    ultimately show ?thesis by simp
  next
    case False
    then have "sort ?ks \<noteq> []" by (metis length_0_conv length_sort)
    moreover have "CHR '','' \<notin> set x" if "x \<in> set (sort ?ks)" for x
      using that assms(3) [of x] unfolding set_sort by simp
    ultimately have "split_on CHR '','' (join '','' (sort ?ks)) = sort ?ks"
      by (intro split_on_join)
    then have "managed_by (ReconcileAnnotations existing desired) = sort ?ks"
      unfolding at using False by simp
    then show ?thesis unfolding set_sort by auto
  qed
qed

lemma wf_fold_drop: "wf_gomap m \<Longrightarrow> wf_gomap (fold (\<lambda>key m. if Q key then gomap_del key m else m) ks m)"
  by (induction ks arbitrary: m) auto

lemma wf_ReconcileAnnotations: "wf_gomap (ReconcileAnnotations e d)"
  unfolding ReconcileAnnotations_def Let_def
  by (auto intro!: wf_gomap_put wf_gomap_del wf_maps_copy wf_fold_drop)

section \<open>Literal and prefix patterns\<close>

definition literal_char :: "char \<Rightarrow> bool" where
  "literal_char c \<longleftrightarrow> c \<noteq> star \<and> c \<noteq> CHR ''?'' \<and> c \<noteq> CHR ''['' \<and> c \<noteq> backslash"

lemma star_not_backslash [simp]: "star \<noteq> backslash" "backslash \<noteq> star"
  by code_simp+

lemma literal_hd: "list_all literal_char p \<Longrightarrow> p \<noteq> [] \<Longrightarrow> hd p \<noteq> star"
  by (cases p) (auto simp: literal_char_def)

lemma skip_stars_literal: "list_all literal_char p \<Longrightarrow> p \<noteq> [] \<Longrightarrow> skip_stars (p @ q) = p @ q"
  by (cases p) (auto simp: literal_char_def)

lemma scan_body_literal:
  "list_all literal_char p \<Longrightarrow> q = [] \<or> hd q = star \<Longrightarrow> scan_body False (p @ q) = (p, q)"
proof (induction p)
  case Nil
  then show ?case by (cases "(False, q)" rule: scan_body.cases) auto
next
  case (Cons c p)
  then have c: "literal_char c" and IH: "scan_body False (p @ q) = (p, q)" by auto
  show ?case
  proof (cases "p @ q")
    case Nil
    with c show ?thesis by (simp add: literal_char_def)
  next
    case (Cons d r)
    with c IH show ?thesis by (auto simp: literal_char_def)
  qed
qed

lemma matchChunk_literal:
  "list_all literal_char p \<Longrightarrow>
     matchChunk failed p s =
       (if \<not> failed \<and> has_prefix s p then Rest (drop (length p) s) else NoMatch)"
proof (induction p arbitrary: failed s)
  case Nil
  then show ?case by (simp add: matchChunk.simps has_prefix_def)
next
  case (Cons c p)
  then have c: "literal_char c" and p: "list_all literal_char p" by auto
  show ?case
    using c Cons.IH [OF p] by (cases s) (auto simp: matchChunk.simps literal_char_def has_prefix_def)
qed

lemma path_match_literal:
  assumes "list_all literal_char p"
  shows "path_match p k = Some (p = k)"
proof (cases "p = []")
  case True
  then show ?thesis by (auto simp: path_match.simps)
next
  case False
  have scan: "scanChunk p = (False, p, [])"
    using skip_stars_literal [OF assms False, of "[]"] scan_body_literal [OF assms, of "[]"]
      literal_hd [OF assms False] by (simp add: scanChunk_def)
  have "has_prefix k p \<and> drop (length p) k = [] \<longleftrightarrow> p = k"
    by (auto simp: has_prefix_def)
  then show ?thesis
    using False scan
    by (subst path_match.simps)
      (auto simp: matchChunk_literal [OF assms] rest_valid.simps path_match.simps [of "[]"])
qed

lemma path_match_prefix:
  assumes "list_all literal_char p" and "p \<noteq> []"
  shows "path_match (p @ [star]) k = Some (\<exists>t. k = p @ t \<and> CHR ''/'' \<notin> set t)"
proof -
  have scan: "scanChunk (p @ [star]) = (False, p, [star])"
    using skip_stars_literal [OF assms, of "[star]"] scan_body_literal [OF assms(1), of "[star]"]
      literal_hd [OF assms] assms(2) by (simp add: scanChunk_def)
  have scan2: "scanChunk [star] = (True, [], [])" by (simp add: scanChunk_def)
  have valid: "rest_valid [star]"
    by (simp add: rest_valid.simps [of "[star]"] scan2 matchChunk.simps rest_valid.simps [of "[]"])
  have rest: "path_match [star] t = Some (CHR ''/'' \<notin> set t)" for t
    by (simp add: path_match.simps [of "[star]"] scan2)
  have split: "has_prefix k p \<longleftrightarrow> k = p @ drop (length p) k"
    unfolding has_prefix_def by (metis append_eq_conv_conj append_take_drop_id)
  have "path_match (p @ [star]) k =
      (if has_prefix k p then Some (CHR ''/'' \<notin> set (drop (length p) k)) else Some False)"
    by (subst path_match.simps) (simp add: scan matchChunk_literal [OF assms(1)] rest valid)
  then show ?thesis using split by (cases "has_prefix k p") (auto simp: has_prefix_def)
qed

section \<open>Properties\<close>

definition sample_settings :: annotation_settings where
  "sample_settings =
     \<lparr> as_PropagatedAnnotations = Some [(''metallb.io/*'', [])], as_PropagateAllAnnotations = None,
       as_DeniedAnnotations = Some [''secret/*''],
       as_DefaultAnnotations = Some [(''all'', [(''secret/x'', ''default'')])] \<rparr>"



text \<open>A deny or allow pattern without glob characters matches exactly the equal key, and a non-empty
  literal followed by a star matches exactly the keys that extend it without a further slash.\<close>

theorem matchPattern_literal_and_prefix:
  assumes "list_all literal_char p" and "p \<noteq> []"
  shows "(matchPattern p key \<longleftrightarrow> p = key) \<and>
         (matchPattern (p @ ''*'') key \<longleftrightarrow> (\<exists>t. key = p @ t \<and> CHR ''/'' \<notin> set t))"
  using path_match_literal [OF assms(1), of key] path_match_prefix [OF assms, of key]
  by (simp add: matchPattern_def star_def)

theorem matchPattern_literal_and_prefix_witness:
  "list_all literal_char ''a/'' \<and> \<not> matchPattern ''a/'' ''a/b'' \<and> \<not> matchPattern (''a/'' @ ''*'') ''a/b/c''"
proof -
  have l: "list_all literal_char ''a/''" by code_simp
  from matchPattern_literal_and_prefix [OF l, of "''a/b''"] matchPattern_literal_and_prefix [OF l, of "''a/b/c''"]
  show ?thesis using l by auto
qed

text \<open>The precedence note of \<^verbatim>\<open>PropagateAnnotations\<close> says that a denied annotation always loses; a
  default annotation is not filtered: a denied key that has a default and no surviving source value is
  present in the output.\<close>

theorem denied_key_reappears_as_default:
  assumes "wf_gomap source" and "compileDenyMatcher (as_DeniedAnnotations settings) k"
    and "effective_default settings resource k = Some v"
  shows "map_of (PropagateAnnotations source settings resource) k = Some v"
  using assms by (simp add: map_of_PropagateAnnotations propagates_def split: option.splits)

theorem denied_key_reappears_as_default_witness:
  "compileDenyMatcher (as_DeniedAnnotations sample_settings) ''secret/x'' \<and>
   map_of (PropagateAnnotations [(''secret/x'', ''mine'')] sample_settings ''service'') ''secret/x''
     = Some ''default''"
proof -
  have wf: "wf_gomap [(''secret/x'', ''mine'')]" by (simp add: wf_gomap_def)
  have d: "compileDenyMatcher (as_DeniedAnnotations sample_settings) ''secret/x''" by code_simp
  have e: "effective_default sample_settings ''service'' ''secret/x'' = Some ''default''" by code_simp
  show ?thesis using denied_key_reappears_as_default [OF wf d e] d by simp
qed

text \<open>C31. \<^verbatim>\<open>ReconcileAnnotations\<close> lets an annotation be un-set: after a pass that wanted \<open>d1\<close> and a pass
  that wants \<open>d2\<close>, a key of \<open>d1\<close> that \<open>d2\<close> no longer has is gone, every key of \<open>d2\<close> has its value, and a
  key that KubeLB never managed keeps the value a third party gave it.\<close>

theorem ReconcileAnnotations_unsets_and_keeps:
  assumes "wf_gomap e" and "wf_gomap d1" and "wf_gomap d2"
    and "\<And>k. k \<in> set (gomap_keys d1) \<Longrightarrow> CHR '','' \<notin> set k"
    and "k \<noteq> ManagedAnnotationsKey" and "k \<noteq> []"
  shows "map_of (ReconcileAnnotations (ReconcileAnnotations e d1) d2) k =
     (case map_of d2 k of
        Some v \<Rightarrow> Some v
      | None \<Rightarrow> if map_of d1 k \<noteq> None \<or> k \<in> set (managed_by e) then None else map_of e k)"
proof -
  note wf1 = wf_ReconcileAnnotations [of e d1]
  have "k \<in> set (managed_by (ReconcileAnnotations e d1)) \<longleftrightarrow> k \<in> set (gomap_keys d1)"
    using managed_by_Reconcile [OF assms(1,2,4)] assms(5,6) by blast
  moreover have "k \<in> set (gomap_keys d1) \<longleftrightarrow> map_of d1 k \<noteq> None"
    by (simp add: map_of_eq_None_iff)
  ultimately show ?thesis
    using assms(5,6)
    by (auto simp: map_of_ReconcileAnnotations [OF wf1 assms(3)] map_of_ReconcileAnnotations [OF assms(1,2)]
        split: option.splits)
qed

theorem ReconcileAnnotations_unsets_and_keeps_witness:
  "map_of (ReconcileAnnotations (ReconcileAnnotations [(''third/party'', ''x'')] [(''a'', ''1''), (''b'', ''2'')])
             [(''b'', ''3'')]) ''a'' = None \<and>
   map_of (ReconcileAnnotations (ReconcileAnnotations [(''third/party'', ''x'')] [(''a'', ''1''), (''b'', ''2'')])
             [(''b'', ''3'')]) ''third/party'' = Some ''x''"
proof -
  have m: "''a'' \<noteq> ManagedAnnotationsKey" "''third/party'' \<noteq> ManagedAnnotationsKey"
    and mb: "managed_by [(''third/party'', ''x'')] = [[]]"
    by code_simp+
  have c: "k \<in> set (gomap_keys [(''a'', ''1''), (''b'', ''2'')]) \<Longrightarrow> CHR '','' \<notin> set k" for k
    by auto
  note R = ReconcileAnnotations_unsets_and_keeps
    [of "[(''third/party'', ''x'')]" "[(''a'', ''1''), (''b'', ''2'')]" "[(''b'', ''3'')]", OF _ _ _ c]
  from R [OF _ _ _ _ m(1)] R [OF _ _ _ _ m(2)] mb show ?thesis
    by (simp add: wf_gomap_def)
qed

text \<open>Reconciling twice with the same desired annotations changes nothing: the second pass reproduces
  the map of the first one.\<close>

theorem ReconcileAnnotations_idempotent:
  assumes "wf_gomap e" and "wf_gomap d"
    and "\<And>k. k \<in> set (gomap_keys d) \<Longrightarrow> CHR '','' \<notin> set k"
  shows "map_of (ReconcileAnnotations (ReconcileAnnotations e d) d) = map_of (ReconcileAnnotations e d)"
proof
  fix k
  note wf1 = wf_ReconcileAnnotations [of e d]
  show "map_of (ReconcileAnnotations (ReconcileAnnotations e d) d) k = map_of (ReconcileAnnotations e d) k"
  proof (cases "k = ManagedAnnotationsKey")
    case True
    then show ?thesis
      by (simp add: map_of_ReconcileAnnotations [OF wf1 assms(2)] map_of_ReconcileAnnotations [OF assms(1,2)])
  next
    case False
    have "k \<in> set (managed_by (ReconcileAnnotations e d)) \<and> k \<noteq> [] \<Longrightarrow> map_of d k \<noteq> None"
      using managed_by_Reconcile [OF assms] by (auto simp: map_of_eq_None_iff)
    with False show ?thesis
      unfolding map_of_ReconcileAnnotations [OF wf1 assms(2), of k]
      by (auto simp: map_of_ReconcileAnnotations [OF assms(1,2)] split: option.splits)
  qed
qed

theorem ReconcileAnnotations_idempotent_witness:
  "map_of (ReconcileAnnotations (ReconcileAnnotations [(''t'', ''x'')] [(''a'', ''1'')]) [(''a'', ''1'')]) =
   map_of (ReconcileAnnotations [(''t'', ''x'')] [(''a'', ''1'')])"
proof -
  have c: "k \<in> set (gomap_keys [(''a'', ''1'')]) \<Longrightarrow> CHR '','' \<notin> set k" for k by auto
  show ?thesis
    using ReconcileAnnotations_idempotent [of "[(''t'', ''x'')]" "[(''a'', ''1'')]", OF _ _ c]
    by (simp add: wf_gomap_def)
qed

text \<open>Provided \<^verbatim>\<open>Semantic.DeepEqual\<close> is equality of maps, \<^verbatim>\<open>CompareAnnotations\<close> on two non-nil maps is
  agreement on every key but the last-applied-configuration one, and two maps of which exactly one is nil
  differ even if the other is empty.\<close>

theorem CompareAnnotations_spec:
  assumes "\<And>x y. wf_gomap x \<Longrightarrow> wf_gomap y \<Longrightarrow> deepEqual x y \<longleftrightarrow> map_of x = map_of y"
    and "wf_gomap a" and "wf_gomap b"
  shows "(CompareAnnotations deepEqual (Some a) (Some b) \<longleftrightarrow>
            (\<forall>k. k = LastAppliedConfigAnnotation \<or> map_of a k = map_of b k)) \<and>
         \<not> CompareAnnotations deepEqual None (Some b) \<and> \<not> CompareAnnotations deepEqual (Some a) None"
proof -
  let ?L = LastAppliedConfigAnnotation
  have copy: "map_of (gomap_del ?L (maps_copy [] m)) = (map_of m)(?L := None)" if "wf_gomap m" for m
    using that by (simp add: map_of_del map_of_maps_copy)
  have del: "deepEqual (gomap_del ?L (maps_copy [] a)) (gomap_del ?L (maps_copy [] b)) \<longleftrightarrow>
      (map_of a)(?L := None) = (map_of b)(?L := None)"
    using assms(1) [of "gomap_del ?L (maps_copy [] a)" "gomap_del ?L (maps_copy [] b)"]
    by (simp add: copy assms wf_gomap_del wf_maps_copy)
  have "(map_of a)(?L := None) = (map_of b)(?L := None) \<longleftrightarrow> (\<forall>k. k = ?L \<or> map_of a k = map_of b k)"
    by (auto simp: fun_eq_iff)
  then show ?thesis
    unfolding CompareAnnotations_def using assms del by auto
qed

theorem CompareAnnotations_spec_witness:
  "CompareAnnotations gomap_eq
     (Some [(''a'', ''1''), (''kubectl.kubernetes.io/last-applied-configuration'', ''{}'')]) (Some [(''a'', ''1'')])"
proof -
  have "k = ''kubectl.kubernetes.io/last-applied-configuration'' \<or>
      map_of [(''a'', ''1''), (''kubectl.kubernetes.io/last-applied-configuration'', ''{}'')] k =
      map_of [(''a'', ''1'')] k" for k
    by simp
  then show ?thesis
    using CompareAnnotations_spec [of gomap_eq
        "[(''a'', ''1''), (''kubectl.kubernetes.io/last-applied-configuration'', ''{}'')]" "[(''a'', ''1'')]"]
    by (simp add: gomap_eq_iff wf_gomap_def LastAppliedConfigAnnotation_def)
qed

end
