(* ===== verification/Ingress_Annotations.thy ===== *)
theory Ingress_Annotations
  imports Kubelb_Prelude
begin

text \<open>
  The NGINX Ingress annotation handlers of the Ingress to Gateway API conversion
  (\<^verbatim>\<open>pkg/conversion/annotations\<close>): \<^verbatim>\<open>annotations.go\<close> (keys), \<^verbatim>\<open>redirects.go\<close>, \<^verbatim>\<open>rewrite.go\<close>,
  \<^verbatim>\<open>headers.go\<close>, \<^verbatim>\<open>policies.go\<close>, \<^verbatim>\<open>complex.go\<close> (one handler per annotation) and \<^verbatim>\<open>converter.go\<close>
  (the handler table, \<^verbatim>\<open>Convert\<close> and \<^verbatim>\<open>deduplicateFilters\<close>).

  A handler is a function of the key, the value and all annotations and returns filters and warnings, as in
  the source. \<^verbatim>\<open>net/url.Parse\<close> is the argument \<open>parse\<close> of the handlers that call it: it gives an error
  text or the components of the URL, and nothing is assumed of it. \<^verbatim>\<open>URL.Hostname\<close> and \<^verbatim>\<open>URL.Port\<close> are
  modelled (\<open>splitHostPort\<close>).
\<close>

named_theorems handler_defs \<open>definitions of the annotation handlers\<close>
named_theorems parsing_handler_defs \<open>definitions of the handlers that parse their value into a filter\<close>

section \<open>Annotation keys (annotations.go)\<close>

definition nginx :: "string \<Rightarrow> string" where
  "nginx s = ''nginx.ingress.kubernetes.io/'' @ s"

definition SSLRedirect :: string where "SSLRedirect = nginx ''ssl-redirect''"
definition ForceSSLRedirect :: string where "ForceSSLRedirect = nginx ''force-ssl-redirect''"
definition PermanentRedirect :: string where "PermanentRedirect = nginx ''permanent-redirect''"
definition PermanentRedirectCode :: string where "PermanentRedirectCode = nginx ''permanent-redirect-code''"
definition TemporalRedirect :: string where "TemporalRedirect = nginx ''temporal-redirect''"
definition RewriteTarget :: string where "RewriteTarget = nginx ''rewrite-target''"
definition AppRoot :: string where "AppRoot = nginx ''app-root''"
definition CustomHeaders :: string where "CustomHeaders = nginx ''custom-headers''"
definition ProxySetHeaders :: string where "ProxySetHeaders = nginx ''proxy-set-headers''"
definition ProxyConnectTimeout :: string where "ProxyConnectTimeout = nginx ''proxy-connect-timeout''"
definition ProxySendTimeout :: string where "ProxySendTimeout = nginx ''proxy-send-timeout''"
definition ProxyReadTimeout :: string where "ProxyReadTimeout = nginx ''proxy-read-timeout''"
definition EnableCORS :: string where "EnableCORS = nginx ''enable-cors''"
definition CORSAllowOrigin :: string where "CORSAllowOrigin = nginx ''cors-allow-origin''"
definition CORSAllowMethods :: string where "CORSAllowMethods = nginx ''cors-allow-methods''"
definition CORSAllowHeaders :: string where "CORSAllowHeaders = nginx ''cors-allow-headers''"
definition CORSExposeHeaders :: string where "CORSExposeHeaders = nginx ''cors-expose-headers''"
definition CORSAllowCredentials :: string where "CORSAllowCredentials = nginx ''cors-allow-credentials''"
definition CORSMaxAge :: string where "CORSMaxAge = nginx ''cors-max-age''"
definition LimitRPS :: string where "LimitRPS = nginx ''limit-rps''"
definition LimitConnections :: string where "LimitConnections = nginx ''limit-connections''"
definition WhitelistSourceRange :: string where "WhitelistSourceRange = nginx ''whitelist-source-range''"
definition DenylistSourceRange :: string where "DenylistSourceRange = nginx ''denylist-source-range''"
definition ProxyBodySize :: string where "ProxyBodySize = nginx ''proxy-body-size''"
definition Affinity :: string where "Affinity = nginx ''affinity''"
definition SessionCookieName :: string where "SessionCookieName = nginx ''session-cookie-name''"
definition SessionCookiePath :: string where "SessionCookiePath = nginx ''session-cookie-path''"
definition SessionCookieExpires :: string where "SessionCookieExpires = nginx ''session-cookie-expires''"
definition SessionCookieSameSite :: string where "SessionCookieSameSite = nginx ''session-cookie-samesite''"
definition AuthType :: string where "AuthType = nginx ''auth-type''"
definition AuthURL :: string where "AuthURL = nginx ''auth-url''"
definition AuthSecret :: string where "AuthSecret = nginx ''auth-secret''"
definition AuthRealm :: string where "AuthRealm = nginx ''auth-realm''"
definition BackendProtocol :: string where "BackendProtocol = nginx ''backend-protocol''"
definition Canary :: string where "Canary = nginx ''canary''"
definition CanaryWeight :: string where "CanaryWeight = nginx ''canary-weight''"
definition CanaryWeightTotal :: string where "CanaryWeightTotal = nginx ''canary-weight-total''"
definition CanaryByHeader :: string where "CanaryByHeader = nginx ''canary-by-header''"
definition CanaryByHeaderValue :: string where "CanaryByHeaderValue = nginx ''canary-by-header-value''"
definition CanaryByCookie :: string where "CanaryByCookie = nginx ''canary-by-cookie''"
definition ServerSnippet :: string where "ServerSnippet = nginx ''server-snippet''"
definition ConfigurationSnippet :: string where "ConfigurationSnippet = nginx ''configuration-snippet''"
definition StreamSnippet :: string where "StreamSnippet = nginx ''stream-snippet''"
definition EnableModSecurity :: string where "EnableModSecurity = nginx ''enable-modsecurity''"
definition EnableOWASPCoreRules :: string where "EnableOWASPCoreRules = nginx ''enable-owasp-core-rules''"
definition UpstreamHashBy :: string where "UpstreamHashBy = nginx ''upstream-hash-by''"
definition UpstreamVhost :: string where "UpstreamVhost = nginx ''upstream-vhost''"
definition XForwardedPrefix :: string where "XForwardedPrefix = nginx ''x-forwarded-prefix''"
definition PreserveHost :: string where "PreserveHost = nginx ''preserve-host''"
definition SSLPassthrough :: string where "SSLPassthrough = nginx ''ssl-passthrough''"
definition ProxySSLSecret :: string where "ProxySSLSecret = nginx ''proxy-ssl-secret''"
definition ProxySSLVerify :: string where "ProxySSLVerify = nginx ''proxy-ssl-verify''"
definition ProxySSLName :: string where "ProxySSLName = nginx ''proxy-ssl-name''"
definition ProxySSLServerName :: string where "ProxySSLServerName = nginx ''proxy-ssl-server-name''"
definition LimitRPM :: string where "LimitRPM = nginx ''limit-rpm''"
definition UseRegex :: string where "UseRegex = nginx ''use-regex''"
definition HSTS :: string where "HSTS = nginx ''hsts''"
definition HSTSMaxAge :: string where "HSTSMaxAge = nginx ''hsts-max-age''"
definition HSTSIncludeSubdomains :: string where "HSTSIncludeSubdomains = nginx ''hsts-include-subdomains''"
definition HSTSPreload :: string where "HSTSPreload = nginx ''hsts-preload''"

definition boolTrue :: string where "boolTrue = ''true''"
definition boolFalse :: string where "boolFalse = ''false''"
definition schemeHTTPS :: string where "schemeHTTPS = ''https''"
definition defaultConfigEnabled :: string where "defaultConfigEnabled = ''enabled''"
definition affinityCookie :: string where "affinityCookie = ''cookie''"
definition AuthTypeBasic :: string where "AuthTypeBasic = ''basic''"
definition authTypeDigest :: string where "authTypeDigest = ''digest''"
definition backendProtocolGRPC :: string where "backendProtocolGRPC = ''GRPC''"
definition backendProtocolGRPCS :: string where "backendProtocolGRPCS = ''GRPCS''"

section \<open>Filters of the Gateway API\<close>

datatype filter_type = RequestHeaderModifierType | ResponseHeaderModifierType | RequestRedirectType | URLRewriteType

record http_header =
  hh_Name :: string
  hh_Value :: string

record header_filter =
  hf_Set :: "http_header list"
  hf_Add :: "http_header list"

datatype path_modifier = ReplaceFullPath string | ReplacePrefixMatch string

record request_redirect =
  rr_Scheme :: "string option"
  rr_Hostname :: "string option"
  rr_Path :: "path_modifier option"
  rr_Port :: "int option"
  rr_StatusCode :: int

datatype http_filter =
  RequestHeaderModifier header_filter
| ResponseHeaderModifier header_filter
| RequestRedirect request_redirect
| URLRewrite path_modifier

fun filter_type_of :: "http_filter \<Rightarrow> filter_type" where
  "filter_type_of (RequestHeaderModifier _) = RequestHeaderModifierType"
| "filter_type_of (ResponseHeaderModifier _) = ResponseHeaderModifierType"
| "filter_type_of (RequestRedirect _) = RequestRedirectType"
| "filter_type_of (URLRewrite _) = URLRewriteType"

type_synonym handled = "http_filter list \<times> string list"
type_synonym handler = "string \<Rightarrow> string \<Rightarrow> strmap \<Rightarrow> handled"

section \<open>URLs\<close>

record url =
  u_Scheme :: string
  u_Host :: string
  u_Path :: string

type_synonym url_parser = "string \<Rightarrow> string + url"

text \<open>\<^verbatim>\<open>splitHostPort\<close> of \<^verbatim>\<open>net/url\<close>: the text after the last colon is the port if it is made of
  digits; brackets of an IPv6 literal are removed from the host.\<close>

definition last_colon :: "string \<Rightarrow> nat option" where
  "last_colon s =
     (if CHR '':'' \<in> set s then Some (length s - Suc (length (takeWhile (\<lambda>c. c \<noteq> CHR '':'') (rev s)))) else None)"

definition splitHostPort :: "string \<Rightarrow> string \<times> string" where
  "splitHostPort s =
     (let (host, port) =
        (case last_colon s of
           Some i \<Rightarrow> (if list_all is_digit (drop (Suc i) s) then (take i s, drop (Suc i) s) else (s, []))
         | None \<Rightarrow> (s, []))
      in (if has_prefix host ''['' \<and> has_suffix host '']'' then butlast (tl host) else host, port))"

definition url_Hostname :: "url \<Rightarrow> string" where "url_Hostname u = fst (splitHostPort (u_Host u))"
definition url_Port :: "url \<Rightarrow> string" where "url_Port u = snd (splitHostPort (u_Host u))"

section \<open>Redirects (redirects.go)\<close>

definition statusCodeToGatewayAPI :: "int \<Rightarrow> int" where
  "statusCodeToGatewayAPI code =
     (if code = 301 \<or> code = 308 then 301 else if code = 302 \<or> code = 303 \<or> code = 307 then 302 else 302)"

definition isValidRedirectCode :: "int \<Rightarrow> bool" where
  "isValidRedirectCode code \<longleftrightarrow> 300 \<le> code \<and> code < 400"

definition createHTTPSRedirectFilter :: "int \<Rightarrow> http_filter list" where
  "createHTTPSRedirectFilter statusCode =
     [RequestRedirect \<lparr> rr_Scheme = Some schemeHTTPS, rr_Hostname = None, rr_Path = None, rr_Port = None,
        rr_StatusCode = statusCodeToGatewayAPI statusCode \<rparr>]"

definition redirect_port :: "url \<Rightarrow> int option" where
  "redirect_port u =
     (if url_Port u \<noteq> [] then
        (case atoi (url_Port u) of
           Some port \<Rightarrow> if 0 < port \<and> port \<le> 65535 then Some port else None
         | None \<Rightarrow> None)
      else None)"

definition createURLRedirectFilter :: "url \<Rightarrow> int \<Rightarrow> http_filter list" where
  "createURLRedirectFilter targetURL statusCode =
     [RequestRedirect
        \<lparr> rr_Scheme = (if u_Scheme targetURL \<noteq> [] then Some (u_Scheme targetURL) else None),
          rr_Hostname = (if u_Host targetURL \<noteq> [] then Some (url_Hostname targetURL) else None),
          rr_Path = (if u_Path targetURL \<noteq> [] \<and> u_Path targetURL \<noteq> ''/''
                     then Some (ReplaceFullPath (u_Path targetURL)) else None),
          rr_Port = (if u_Host targetURL \<noteq> [] then redirect_port targetURL else None),
          rr_StatusCode = statusCodeToGatewayAPI statusCode \<rparr>]"

definition handleSSLRedirect :: handler where
  "handleSSLRedirect key value annotations =
     (if value \<noteq> boolTrue then ([], [])
      else if map_of annotations ForceSSLRedirect = Some boolTrue then ([], [])
      else (createHTTPSRedirectFilter 301, []))"

definition handleForceSSLRedirect :: handler where
  "handleForceSSLRedirect key value annotations =
     (if value \<noteq> boolTrue then ([], []) else (createHTTPSRedirectFilter 301, []))"

definition empty_value :: "string \<Rightarrow> string" where
  "empty_value key = ''annotation '' @ go_quote key @ '' has empty value''"

definition invalid_url :: "string \<Rightarrow> string \<Rightarrow> string \<Rightarrow> string" where
  "invalid_url key value err =
     ''annotation '' @ go_quote key @ '' has invalid URL '' @ go_quote value @ '': '' @ err"

definition handlePermanentRedirect :: "url_parser \<Rightarrow> handler" where
  "handlePermanentRedirect parse key value annotations =
     (if value = [] then ([], [empty_value key])
      else case parse value of
        Inl err \<Rightarrow> ([], [invalid_url key value err])
      | Inr parsedURL \<Rightarrow>
          (let statusCode =
             (case map_of annotations PermanentRedirectCode of
                Some codeStr \<Rightarrow>
                  (case atoi codeStr of
                     Some code \<Rightarrow> if isValidRedirectCode code then code else 301
                   | None \<Rightarrow> 301)
              | None \<Rightarrow> 301)
           in (createURLRedirectFilter parsedURL statusCode, [])))"

definition handlePermanentRedirectCode :: handler where
  "handlePermanentRedirectCode key value annotations = ([], [])"

definition handleTemporalRedirect :: "url_parser \<Rightarrow> handler" where
  "handleTemporalRedirect parse key value annotations =
     (if value = [] then ([], [empty_value key])
      else case parse value of
        Inl err \<Rightarrow> ([], [invalid_url key value err])
      | Inr parsedURL \<Rightarrow> (createURLRedirectFilter parsedURL 302, []))"

lemmas [handler_defs] = handleSSLRedirect_def handleForceSSLRedirect_def handlePermanentRedirect_def
  handlePermanentRedirectCode_def handleTemporalRedirect_def

section \<open>Rewriting (rewrite.go)\<close>

definition dollar :: char where "dollar = CHR 0x24"

fun containsCaptureGroup :: "string \<Rightarrow> bool" where
  "containsCaptureGroup (c # d # s) \<longleftrightarrow> (c = dollar \<and> is_digit d) \<or> containsCaptureGroup (d # s)"
| "containsCaptureGroup _ \<longleftrightarrow> False"

function strip_loop :: "string \<Rightarrow> string" where
  "strip_loop [] = []"
| "strip_loop (c # s) =
     (if s \<noteq> [] \<and> c = dollar \<and> is_digit (hd s) then strip_loop (dropWhile is_digit (tl s))
      else c # strip_loop s)"
  by pat_completeness auto
termination
proof (relation "measure length")
  fix c :: char and s :: string
  have "length (dropWhile is_digit (tl s)) \<le> length (tl s)" by (rule length_dropWhile_le)
  then show "(dropWhile is_digit (tl s), c # s) \<in> measure length" by simp
qed auto

definition stripCaptureGroups :: "string \<Rightarrow> string" where
  "stripCaptureGroups value = (let stripped = strip_loop value in if stripped = [] then ''/'' else stripped)"

definition capture_warning :: "string \<Rightarrow> string \<Rightarrow> string" where
  "capture_warning key value =
     ''annotation '' @ go_quote key @ '' uses capture groups ('' @ value @
     '') which require regex path matching; converted to simple prefix replacement''"

definition regex_rewrite_warning :: "string \<Rightarrow> string" where
  "regex_rewrite_warning value =
     ''rewrite-target='' @ go_quote value @
     '' with use-regex=true cannot be converted; Gateway API ReplacePrefixMatch requires PathPrefix path type, not RegularExpression''"

definition handleRewriteTarget :: handler where
  "handleRewriteTarget key value annotations =
     (if value = [] then ([], [empty_value key])
      else
        (let hasCaptureGroups = containsCaptureGroup value;
             warnings = (if hasCaptureGroups then [capture_warning key value] else []);
             value' = (if hasCaptureGroups then stripCaptureGroups value else value)
         in if map_of annotations UseRegex = Some boolTrue
            then ([], warnings @ [regex_rewrite_warning value'])
            else ([URLRewrite (ReplacePrefixMatch value')], warnings)))"

definition handleAppRoot :: handler where
  "handleAppRoot key value annotations =
     (if value = [] then ([], [empty_value key])
      else
        (let value' = (if has_prefix value ''/'' then value else ''/'' @ value)
         in ([], [''app-root='' @ go_quote value' @ '' requires manual HTTPRoute: create separate rule with path='' @
                  go_quote ''/'' @ '' (Exact) and RequestRedirect filter to '' @ go_quote value' @
                  ''; cannot auto-convert as filter would apply to all paths''])))"

definition handleUseRegex :: handler where
  "handleUseRegex key value annotations =
     (if value \<noteq> boolTrue then ([], [])
      else ([], [''use-regex=true converted to pathType: RegularExpression (support is implementation-specific)'']))"

lemmas [handler_defs] = handleAppRoot_def handleUseRegex_def
lemmas [parsing_handler_defs] = handleRewriteTarget_def

section \<open>Headers (headers.go)\<close>

definition parse_header_pair :: "string \<Rightarrow> http_header list \<times> string list" where
  "parse_header_pair pair =
     (case split_n2 (CHR '':'') pair of
        [n, v] \<Rightarrow>
          (let name = trim_space n
           in if name = [] then ([], [''empty header name in '' @ go_quote pair])
              else ([\<lparr> hh_Name = name, hh_Value = trim_space v \<rparr>], []))
      | _ \<Rightarrow> ([], [''invalid header format '' @ go_quote pair @ '', expected '' @ [CHR 0x27] @ ''Name:Value'' @ [CHR 0x27]]))"

fun header_loop :: "string list \<Rightarrow> http_header list \<Rightarrow> string list \<Rightarrow> http_header list \<times> string list" where
  "header_loop [] headers warnings = (headers, warnings)"
| "header_loop (p # ps) headers warnings =
     (let pair = trim_space p
      in if pair = [] then header_loop ps headers warnings
         else (case parse_header_pair pair of (hs, ws) \<Rightarrow> header_loop ps (headers @ hs) (warnings @ ws)))"

definition parseHeaderList :: "string \<Rightarrow> http_header list \<times> string list" where
  "parseHeaderList value = header_loop (split_on (CHR '','') value) [] []"

definition is_configmap_ref :: "string \<Rightarrow> bool" where
  "is_configmap_ref value \<longleftrightarrow> str_contains value ''/'' \<and> \<not> str_contains value '':''"

definition handleProxySetHeaders :: handler where
  "handleProxySetHeaders key value annotations =
     (if value = [] then ([], [])
      else if is_configmap_ref value
      then ([], [''proxy-set-headers references ConfigMap '' @ go_quote value @ ''; manual conversion required''])
      else (case parseHeaderList value of (headers, warnings) \<Rightarrow>
        if headers = [] then ([], warnings)
        else ([RequestHeaderModifier \<lparr> hf_Set = headers, hf_Add = [] \<rparr>], warnings)))"

definition handleCustomHeaders :: handler where
  "handleCustomHeaders key value annotations =
     (if value = [] then ([], [])
      else if is_configmap_ref value
      then ([], [''custom-headers references ConfigMap '' @ go_quote value @ ''; manual conversion required''])
      else (case parseHeaderList value of (headers, warnings) \<Rightarrow>
        if headers = [] then ([], warnings)
        else ([ResponseHeaderModifier \<lparr> hf_Set = [], hf_Add = headers \<rparr>], warnings)))"

definition handleUpstreamVhost :: handler where
  "handleUpstreamVhost key value annotations =
     (if value = [] then ([], [])
      else ([RequestHeaderModifier \<lparr> hf_Set = [\<lparr> hh_Name = ''Host'', hh_Value = value \<rparr>], hf_Add = [] \<rparr>], []))"

definition handleXForwardedPrefix :: handler where
  "handleXForwardedPrefix key value annotations =
     (if value = [] then ([], [])
      else ([RequestHeaderModifier \<lparr> hf_Set = [\<lparr> hh_Name = ''X-Forwarded-Prefix'', hh_Value = value \<rparr>], hf_Add = [] \<rparr>], []))"

definition handlePreserveHost :: handler where
  "handlePreserveHost key value annotations =
     (if value \<noteq> boolFalse then ([], [])
      else ([], [''preserve-host=false requires URLRewrite filter with Hostname at backend level; '' @
                 ''add filter to BackendRef: filters: [{type: URLRewrite, urlRewrite: {hostname: <service-name>}}]'']))"

definition buildHSTSHeaderValue :: "strmap \<Rightarrow> string" where
  "buildHSTSHeaderValue annotations =
     (let maxAge = (case map_of annotations HSTSMaxAge of
                      Some v \<Rightarrow> if v \<noteq> [] then v else ''31536000''
                    | None \<Rightarrow> ''31536000'')
      in ''max-age='' @ maxAge @
         (if map_of annotations HSTSIncludeSubdomains = Some boolTrue then ''; includeSubDomains'' else []) @
         (if map_of annotations HSTSPreload = Some boolTrue then ''; preload'' else []))"

definition handleHSTS :: handler where
  "handleHSTS key value annotations =
     (if value \<noteq> boolTrue then ([], [])
      else ([ResponseHeaderModifier
               \<lparr> hf_Set = [\<lparr> hh_Name = ''Strict-Transport-Security'', hh_Value = buildHSTSHeaderValue annotations \<rparr>],
                 hf_Add = [] \<rparr>], []))"

definition handleHSTSAnnotation :: handler where
  "handleHSTSAnnotation key value annotations = ([], [])"

lemmas [parsing_handler_defs] = handleProxySetHeaders_def handleCustomHeaders_def
lemmas [handler_defs] = handleUpstreamVhost_def handleXForwardedPrefix_def handlePreserveHost_def handleHSTS_def handleHSTSAnnotation_def

section \<open>Policy suggestions (policies.go)\<close>

definition normalizeTimeout :: "string \<Rightarrow> string" where
  "normalizeTimeout value =
     (let v = trim_space value
      in if has_suffix v ''s'' \<or> has_suffix v ''m'' \<or> has_suffix v ''h'' then v
         else if atoi v \<noteq> None then v @ ''s'' else v)"

definition formatStringList :: "string \<Rightarrow> string" where
  "formatStringList value =
     join '', '' (map go_quote (filter (\<lambda>p. p \<noteq> []) (map trim_space (split_on (CHR '','') value))))"

definition suggest :: "(string \<Rightarrow> string) \<Rightarrow> string \<Rightarrow> handled" where
  "suggest warning value = (if value = [] then ([], []) else ([], [warning value]))"

definition handleProxyConnectTimeout :: handler where
  "handleProxyConnectTimeout key value annotations = suggest (\<lambda>v.
     ''proxy-connect-timeout='' @ go_quote v @ '' requires BackendTrafficPolicy: spec.timeout.tcp.connectTimeout='' @
     normalizeTimeout v) value"

definition handleProxyReadTimeout :: handler where
  "handleProxyReadTimeout key value annotations = suggest (\<lambda>v.
     ''proxy-read-timeout='' @ go_quote v @ '' requires BackendTrafficPolicy: spec.timeout.http.requestTimeout='' @
     normalizeTimeout v) value"

definition handleProxySendTimeout :: handler where
  "handleProxySendTimeout key value annotations = suggest (\<lambda>v.
     ''proxy-send-timeout='' @ go_quote v @ '' requires BackendTrafficPolicy: spec.timeout.http.requestTimeout='' @
     normalizeTimeout v) value"

definition opt_config :: "string \<Rightarrow> (string \<Rightarrow> string) \<Rightarrow> string list" where
  "opt_config v f = (if v \<noteq> [] then [f v] else [])"

definition config_text :: "string list \<Rightarrow> string" where
  "config_text config = (if config \<noteq> [] then join '', '' config else defaultConfigEnabled)"

definition cors_config :: "strmap \<Rightarrow> string list" where
  "cors_config annotations =
     opt_config (str_at annotations CORSAllowOrigin) (\<lambda>v. ''allowOrigins: ['' @ formatStringList v @ '']'') @
     opt_config (str_at annotations CORSAllowMethods) (\<lambda>v. ''allowMethods: ['' @ formatStringList v @ '']'') @
     opt_config (str_at annotations CORSAllowHeaders) (\<lambda>v. ''allowHeaders: ['' @ formatStringList v @ '']'') @
     opt_config (str_at annotations CORSExposeHeaders) (\<lambda>v. ''exposeHeaders: ['' @ formatStringList v @ '']'') @
     opt_config (str_at annotations CORSMaxAge) (\<lambda>v. ''maxAge: '' @ v) @
     (if str_at annotations CORSAllowCredentials = boolTrue then [''allowCredentials: true''] else [])"

definition handleEnableCORS :: handler where
  "handleEnableCORS key value annotations =
     (if value \<noteq> boolTrue then ([], [])
      else ([], [''enable-cors=true requires SecurityPolicy: spec.cors={'' @ config_text (cors_config annotations) @ ''}'']))"

definition handleCORSAnnotation :: handler where
  "handleCORSAnnotation key value annotations = ([], [])"

definition limit_warning :: "string \<Rightarrow> (string \<Rightarrow> string) \<Rightarrow> string \<Rightarrow> handled" where
  "limit_warning name text value =
     (if value = [] then ([], [])
      else case atoi value of
        None \<Rightarrow> ([], [name @ ''='' @ go_quote value @ '' is not a valid number''])
      | Some n \<Rightarrow> ([], [name @ ''='' @ itoa n @ '' requires BackendTrafficPolicy: '' @ text (itoa n)]))"

definition handleLimitRPS :: handler where
  "handleLimitRPS key value annotations =
     limit_warning ''limit-rps'' (\<lambda>n. ''spec.rateLimit.local.requests='' @ n @ '', unit=Second'') value"

definition handleLimitRPM :: handler where
  "handleLimitRPM key value annotations =
     limit_warning ''limit-rpm'' (\<lambda>n. ''spec.rateLimit.local.requests='' @ n @ '', unit=Minute'') value"

definition handleLimitConnections :: handler where
  "handleLimitConnections key value annotations =
     limit_warning ''limit-connections'' (\<lambda>n. ''spec.circuitBreaker.maxConnections='' @ n) value"

definition handleWhitelistSourceRange :: handler where
  "handleWhitelistSourceRange key value annotations = suggest (\<lambda>v.
     ''whitelist-source-range='' @ go_quote v @
     '' requires SecurityPolicy: spec.authorization.rules[].action=Allow, from.source.cidr=['' @ formatStringList v @ '']'') value"

definition handleDenylistSourceRange :: handler where
  "handleDenylistSourceRange key value annotations = suggest (\<lambda>v.
     ''denylist-source-range='' @ go_quote v @
     '' requires SecurityPolicy: spec.authorization.rules[].action=Deny, from.source.cidr=['' @ formatStringList v @ '']'') value"

definition handleProxyBodySize :: handler where
  "handleProxyBodySize key value annotations = suggest (\<lambda>v.
     ''proxy-body-size='' @ go_quote v @ '' requires ClientTrafficPolicy: spec.clientConfig.requestBodySize='' @ v) value"

definition handleProxySSLSecret :: handler where
  "handleProxySSLSecret key value annotations = suggest (\<lambda>v.
     ''proxy-ssl-secret='' @ go_quote v @ '' requires BackendTLSPolicy: spec.tls.clientCertificateRef.name='' @ v) value"

definition handleProxySSLVerify :: handler where
  "handleProxySSLVerify key value annotations = suggest (\<lambda>v.
     ''proxy-ssl-verify='' @ go_quote v @
     '' requires BackendTLSPolicy: configure spec.validation for server certificate verification'') value"

definition handleProxySSLName :: handler where
  "handleProxySSLName key value annotations = suggest (\<lambda>v.
     ''proxy-ssl-name='' @ go_quote v @ '' requires BackendTLSPolicy: spec.validation.hostname='' @ v) value"

definition handleProxySSLServerName :: handler where
  "handleProxySSLServerName key value annotations =
     (if value = [] \<or> value = ''off'' then ([], [])
      else ([], [''proxy-ssl-server-name='' @ go_quote value @
                 '' requires BackendTLSPolicy: configure SNI through spec.validation.hostname'']))"

lemmas [handler_defs] = suggest_def handleProxyConnectTimeout_def handleProxyReadTimeout_def
  handleProxySendTimeout_def handleEnableCORS_def handleCORSAnnotation_def limit_warning_def handleLimitRPS_def
  handleLimitRPM_def handleLimitConnections_def handleWhitelistSourceRange_def handleDenylistSourceRange_def
  handleProxyBodySize_def handleProxySSLSecret_def handleProxySSLVerify_def handleProxySSLName_def
  handleProxySSLServerName_def

section \<open>Affinity, authentication, protocol, canary, passthrough (complex.go)\<close>

definition affinity_config :: "strmap \<Rightarrow> string list" where
  "affinity_config annotations =
     opt_config (str_at annotations SessionCookieName) (\<lambda>v. ''name='' @ go_quote v) @
     opt_config (str_at annotations SessionCookiePath) (\<lambda>v. ''path='' @ go_quote v) @
     opt_config (str_at annotations SessionCookieExpires) (\<lambda>v. ''ttl='' @ v) @
     opt_config (str_at annotations SessionCookieSameSite) (\<lambda>v. ''sameSite='' @ v)"

definition handleAffinity :: handler where
  "handleAffinity key value annotations =
     (if value = [] then ([], [])
      else if value \<noteq> affinityCookie
      then ([], [''affinity='' @ go_quote value @ '' is not supported; only '' @ [CHR 0x27] @ ''cookie'' @ [CHR 0x27] @
                 '' affinity can be converted''])
      else ([], [''affinity=cookie requires BackendTrafficPolicy: spec.sessionPersistence.type=Cookie, cookie={'' @
                 config_text (affinity_config annotations) @ ''}'']))"

definition handleSessionCookieAnnotation :: handler where
  "handleSessionCookieAnnotation key value annotations = ([], [])"

definition digest_warning :: string where
  "digest_warning = ''auth-type=digest is not supported in Gateway API; consider using basic auth or external auth''"

definition auth_config :: "strmap \<Rightarrow> string list" where
  "auth_config annotations =
     opt_config (str_at annotations AuthSecret) (\<lambda>v. ''secretRef='' @ go_quote v) @
     opt_config (str_at annotations AuthRealm) (\<lambda>v. ''realm='' @ go_quote v)"

definition handleAuthType :: handler where
  "handleAuthType key value annotations =
     (if value = [] then ([], [])
      else if value = AuthTypeBasic
      then ([], [''auth-type=basic requires SecurityPolicy: spec.basicAuth={'' @ config_text (auth_config annotations) @ ''}''])
      else if value = authTypeDigest then ([], [digest_warning])
      else ([], [''auth-type='' @ go_quote value @ '' is not supported'']))"

definition handleAuthURL :: handler where
  "handleAuthURL key value annotations = suggest (\<lambda>v.
     ''auth-url='' @ go_quote v @ '' requires SecurityPolicy: spec.extAuth.http.url='' @ go_quote v) value"

definition handleAuthAnnotation :: handler where
  "handleAuthAnnotation key value annotations = ([], [])"

definition handleBackendProtocol :: handler where
  "handleBackendProtocol key value annotations =
     (if value = [] then ([], [])
      else
        (let v = to_upper value
         in if v = backendProtocolGRPC \<or> v = backendProtocolGRPCS
            then ([], [''backend-protocol='' @ v @
                       '' indicates this Ingress should be converted to GRPCRoute instead of HTTPRoute''])
            else if v = ''HTTPS''
            then ([], [''backend-protocol=HTTPS requires BackendTLSPolicy to configure TLS to the backend''])
            else if v = ''HTTP'' then ([], [])
            else if v = ''FCGI'' then ([], [''backend-protocol=FCGI is not supported in Gateway API''])
            else ([], [''backend-protocol='' @ go_quote v @ '' is not recognized''])))"

definition canary_config :: "strmap \<Rightarrow> string list" where
  "canary_config annotations =
     (let weight = str_at annotations CanaryWeight; header = str_at annotations CanaryByHeader;
          headerVal = str_at annotations CanaryByHeaderValue
      in (if weight \<noteq> [] then (''weight='' @ weight) # opt_config (str_at annotations CanaryWeightTotal) (\<lambda>v. ''total='' @ v)
          else []) @
         (if header \<noteq> [] then
            [if headerVal \<noteq> [] then ''header='' @ header @ '':'' @ headerVal else ''header='' @ header]
          else []) @
         opt_config (str_at annotations CanaryByCookie) (\<lambda>v. ''cookie='' @ v))"

definition handleCanaryEnabled :: handler where
  "handleCanaryEnabled key value annotations =
     (if value \<noteq> boolTrue then ([], [])
      else
        (let config = canary_config annotations
         in if config \<noteq> []
            then ([], [''canary ingress with {'' @ join '', '' config @
                       ''} should be converted to HTTPRoute with weighted backends or header matches''])
            else ([], [''canary ingresses should be converted to weighted HTTPRoute backends''])))"

definition handleCanaryAnnotation :: handler where
  "handleCanaryAnnotation key value annotations = ([], [])"

definition handleSSLPassthrough :: handler where
  "handleSSLPassthrough key value annotations =
     (if value \<noteq> boolTrue then ([], [])
      else ([], [''ssl-passthrough=true requires TLSRoute instead of HTTPRoute; '' @
                 ''create a TLSRoute with passthrough mode to forward encrypted traffic directly to backend'']))"

lemmas [handler_defs] = handleAffinity_def handleSessionCookieAnnotation_def handleAuthType_def handleAuthURL_def
  handleAuthAnnotation_def handleBackendProtocol_def handleCanaryEnabled_def handleCanaryAnnotation_def
  handleSSLPassthrough_def

section \<open>The converter (converter.go)\<close>

definition handleNotSupported :: handler where
  "handleNotSupported key value annotations =
     ([], [''annotation '' @ go_quote key @ '' is not supported in Gateway API conversion''])"

definition handlePolicyAnnotationSilent :: handler where
  "handlePolicyAnnotationSilent key value annotations = ([], [])"

definition handleAuthTypeSilent :: handler where
  "handleAuthTypeSilent key value annotations =
     (if value = [] then ([], [])
      else if value = AuthTypeBasic then ([], [])
      else if value = authTypeDigest then ([], [digest_warning])
      else ([], [''auth-type='' @ go_quote value @ '' is not supported'']))"

lemmas [handler_defs] = handleNotSupported_def handlePolicyAnnotationSilent_def handleAuthTypeSilent_def

text \<open>\<^verbatim>\<open>registerHandlers\<close>: the table in the order of the assignments; no key is assigned twice.\<close>

definition policy_handlers :: "bool \<Rightarrow> (string \<times> handler) list" where
  "policy_handlers skipPolicyWarnings =
     (if skipPolicyWarnings then
        map (\<lambda>k. (k, handlePolicyAnnotationSilent))
          [ProxyConnectTimeout, ProxyReadTimeout, ProxySendTimeout, EnableCORS, CORSAllowOrigin, CORSAllowMethods,
           CORSAllowHeaders, CORSExposeHeaders, CORSAllowCredentials, CORSMaxAge, LimitRPS, LimitRPM,
           LimitConnections, WhitelistSourceRange, DenylistSourceRange]
      else
        [(ProxyConnectTimeout, handleProxyConnectTimeout), (ProxyReadTimeout, handleProxyReadTimeout),
         (ProxySendTimeout, handleProxySendTimeout), (EnableCORS, handleEnableCORS),
         (CORSAllowOrigin, handleCORSAnnotation), (CORSAllowMethods, handleCORSAnnotation),
         (CORSAllowHeaders, handleCORSAnnotation), (CORSExposeHeaders, handleCORSAnnotation),
         (CORSAllowCredentials, handleCORSAnnotation), (CORSMaxAge, handleCORSAnnotation),
         (LimitRPS, handleLimitRPS), (LimitRPM, handleLimitRPM), (LimitConnections, handleLimitConnections),
         (WhitelistSourceRange, handleWhitelistSourceRange), (DenylistSourceRange, handleDenylistSourceRange)])"

definition auth_handlers :: "bool \<Rightarrow> (string \<times> handler) list" where
  "auth_handlers skipPolicyWarnings =
     (if skipPolicyWarnings then
        [(AuthType, handleAuthTypeSilent), (AuthSecret, handlePolicyAnnotationSilent),
         (AuthRealm, handlePolicyAnnotationSilent)]
      else
        [(AuthType, handleAuthType), (AuthSecret, handleAuthAnnotation), (AuthRealm, handleAuthAnnotation)]) @
     [(AuthURL, handleAuthURL)]"

definition registerHandlers :: "url_parser \<Rightarrow> bool \<Rightarrow> (string \<times> handler) list" where
  "registerHandlers parse skipPolicyWarnings =
     [(SSLRedirect, handleSSLRedirect), (ForceSSLRedirect, handleForceSSLRedirect),
      (PermanentRedirect, handlePermanentRedirect parse), (PermanentRedirectCode, handlePermanentRedirectCode),
      (TemporalRedirect, handleTemporalRedirect parse), (RewriteTarget, handleRewriteTarget),
      (AppRoot, handleAppRoot), (UseRegex, handleUseRegex), (CustomHeaders, handleCustomHeaders),
      (ProxySetHeaders, handleProxySetHeaders), (UpstreamVhost, handleUpstreamVhost),
      (XForwardedPrefix, handleXForwardedPrefix), (PreserveHost, handlePreserveHost), (HSTS, handleHSTS),
      (HSTSMaxAge, handleHSTSAnnotation), (HSTSIncludeSubdomains, handleHSTSAnnotation),
      (HSTSPreload, handleHSTSAnnotation)] @
     policy_handlers skipPolicyWarnings @
     [(ProxyBodySize, handleProxyBodySize), (Affinity, handleAffinity),
      (SessionCookieName, handleSessionCookieAnnotation), (SessionCookiePath, handleSessionCookieAnnotation),
      (SessionCookieExpires, handleSessionCookieAnnotation), (SessionCookieSameSite, handleSessionCookieAnnotation)] @
     auth_handlers skipPolicyWarnings @
     [(BackendProtocol, handleBackendProtocol), (Canary, handleCanaryEnabled),
      (CanaryWeight, handleCanaryAnnotation), (CanaryWeightTotal, handleCanaryAnnotation),
      (CanaryByHeader, handleCanaryAnnotation), (CanaryByHeaderValue, handleCanaryAnnotation),
      (CanaryByCookie, handleCanaryAnnotation), (SSLPassthrough, handleSSLPassthrough),
      (ProxySSLSecret, handleProxySSLSecret), (ProxySSLVerify, handleProxySSLVerify),
      (ProxySSLName, handleProxySSLName), (ProxySSLServerName, handleProxySSLServerName),
      (ServerSnippet, handleNotSupported), (ConfigurationSnippet, handleNotSupported),
      (StreamSnippet, handleNotSupported), (EnableModSecurity, handleNotSupported),
      (EnableOWASPCoreRules, handleNotSupported), (UpstreamHashBy, handleNotSupported)]"

text \<open>\<^verbatim>\<open>deduplicateFilters\<close>: the map \<^verbatim>\<open>seen\<close> holds the last index of each type.\<close>

definition last_index :: "http_filter list \<Rightarrow> filter_type \<Rightarrow> nat option" where
  "last_index filters = map_of (rev (map (\<lambda>(i, f). (filter_type_of f, i)) (enumerate 0 filters)))"

definition deduplicateFilters :: "http_filter list \<Rightarrow> http_filter list" where
  "deduplicateFilters filters =
     (if card (filter_type_of ` set filters) = length filters then filters
      else map snd (filter (\<lambda>(i, f). last_index filters (filter_type_of f) = Some i) (enumerate 0 filters)))"

record annotation_conversion_result =
  acr_Filters :: "http_filter list"
  acr_Warnings :: "string list"
  acr_Processed :: "string list"

fun convert_keys ::
  "(string \<times> handler) list \<Rightarrow> strmap \<Rightarrow> string list \<Rightarrow> annotation_conversion_result \<Rightarrow> annotation_conversion_result" where
  "convert_keys handlers annotations [] result = result"
| "convert_keys handlers annotations (key # keys) result =
     (case map_of handlers key of
        None \<Rightarrow> convert_keys handlers annotations keys result
      | Some handler \<Rightarrow>
          (case handler key (str_at annotations key) annotations of (filters, warnings) \<Rightarrow>
             convert_keys handlers annotations keys
               \<lparr> acr_Filters = acr_Filters result @ filters, acr_Warnings = acr_Warnings result @ warnings,
                 acr_Processed = acr_Processed result @ [key] \<rparr>))"

definition Convert :: "url_parser \<Rightarrow> bool \<Rightarrow> strmap option \<Rightarrow> annotation_conversion_result" where
  "Convert parse skipPolicyWarnings annotations =
     (let handlers = registerHandlers parse skipPolicyWarnings;
          result = \<lparr> acr_Filters = [], acr_Warnings = [], acr_Processed = [] \<rparr>
      in case annotations of
           None \<Rightarrow> result
         | Some m \<Rightarrow>
             (let keys = sort (filter (\<lambda>k. map_of handlers k \<noteq> None) (map fst m));
                  r = convert_keys handlers m keys result
              in r\<lparr> acr_Filters := deduplicateFilters (acr_Filters r) \<rparr>))"

section \<open>Deduplication\<close>

text \<open>Reference: a filter stays if no later filter has its type.\<close>

fun keep_last :: "http_filter list \<Rightarrow> http_filter list" where
  "keep_last [] = []"
| "keep_last (f # fs) =
     (if filter_type_of f \<in> filter_type_of ` set fs then keep_last fs else f # keep_last fs)"

definition last_from :: "nat \<Rightarrow> http_filter list \<Rightarrow> filter_type \<Rightarrow> nat option" where
  "last_from n fs = map_of (rev (map (\<lambda>(i, f). (filter_type_of f, i)) (enumerate n fs)))"

lemma last_from_Cons:
  "last_from n (f # fs) t =
     (case last_from (Suc n) fs t of Some i \<Rightarrow> Some i | None \<Rightarrow> if t = filter_type_of f then Some n else None)"
  by (auto simp: last_from_def map_add_def split: option.splits)

lemma last_from_None: "last_from n fs t = None \<longleftrightarrow> t \<notin> filter_type_of ` set fs"
proof (induction fs arbitrary: n)
  case (Cons f fs)
  from Cons.IH [of "Suc n"] show ?case by (cases "last_from (Suc n) fs t") (auto simp: last_from_Cons)
qed (simp add: last_from_def)

lemma last_from_ge: "last_from n fs t = Some i \<Longrightarrow> n \<le> i"
proof (induction fs arbitrary: n)
  case (Cons f fs)
  then show ?case by (fastforce simp: last_from_Cons split: option.splits if_splits)
qed (simp add: last_from_def)

lemma keep_last_indices:
  assumes "\<And>t. t \<in> filter_type_of ` set fs \<Longrightarrow> g t = last_from n fs t"
  shows "map snd (filter (\<lambda>(i, f). g (filter_type_of f) = Some i) (enumerate n fs)) = keep_last fs"
  using assms
proof (induction fs arbitrary: n)
  case (Cons f fs)
  have g: "g t = last_from (Suc n) fs t" if "t \<in> filter_type_of ` set fs" for t
    using Cons.prems [of t] that last_from_None [of "Suc n" fs t]
    by (auto simp: last_from_Cons split: option.splits)
  note IH = Cons.IH [OF g]
  show ?case
  proof (cases "filter_type_of f \<in> filter_type_of ` set fs")
    case True
    then obtain i where i: "last_from (Suc n) fs (filter_type_of f) = Some i"
      using last_from_None [of "Suc n" fs "filter_type_of f"] by auto
    with last_from_ge [OF i] g [OF True] have "g (filter_type_of f) \<noteq> Some n" by simp
    with True IH show ?thesis by simp
  next
    case False
    then have "g (filter_type_of f) = Some n"
      using Cons.prems [of "filter_type_of f"] last_from_None [of "Suc n" fs "filter_type_of f"]
      by (simp add: last_from_Cons)
    with False IH show ?thesis by simp
  qed
qed simp

lemma keep_last_distinct_id: "distinct (map filter_type_of fs) \<Longrightarrow> keep_last fs = fs"
  by (induction fs) auto

lemma deduplicateFilters_eq: "deduplicateFilters fs = keep_last fs"
proof (cases "card (filter_type_of ` set fs) = length fs")
  case True
  then have "distinct (map filter_type_of fs)"
    using card_distinct [of "map filter_type_of fs"] by simp
  with True show ?thesis by (simp add: deduplicateFilters_def keep_last_distinct_id)
next
  case False
  have "last_index fs = last_from 0 fs" by (simp add: last_index_def last_from_def)
  with False keep_last_indices [of fs "last_index fs" 0] show ?thesis
    by (simp add: deduplicateFilters_def)
qed

lemma keep_last_types: "filter_type_of ` set (keep_last fs) = filter_type_of ` set fs"
  by (induction fs) auto

lemma keep_last_subset: "set (keep_last fs) \<subseteq> set fs"
  by (induction fs) auto

lemma keep_last_distinct: "distinct (map filter_type_of (keep_last fs))"
proof (induction fs)
  case (Cons f fs)
  then show ?case using keep_last_types [of fs] by auto
qed simp

lemma keep_last_is_last:
  "f \<in> set (keep_last fs) \<Longrightarrow> find (\<lambda>g. filter_type_of g = filter_type_of f) (rev fs) = Some f"
proof (induction fs)
  case (Cons a fs)
  have find_append: "find P (xs @ ys) = (case find P xs of Some x \<Rightarrow> Some x | None \<Rightarrow> find P ys)"
    for P :: "http_filter \<Rightarrow> bool" and xs ys
    by (induction xs) auto
  show ?case
  proof (cases "f \<in> set (keep_last fs)")
    case True
    with Cons.IH show ?thesis by (simp add: find_append)
  next
    case False
    with Cons.prems have "f = a" "filter_type_of a \<notin> filter_type_of ` set fs" by (auto split: if_splits)
    then have "find (\<lambda>g. filter_type_of g = filter_type_of f) (rev fs) = None"
      by (fastforce simp: find_None_iff image_iff)
    with \<open>f = a\<close> show ?thesis by (simp add: find_append)
  qed
qed simp

section \<open>The loop of Convert\<close>

definition handle ::
  "url_parser \<Rightarrow> bool \<Rightarrow> strmap \<Rightarrow> string \<Rightarrow> handled" where
  "handle parse skip m k =
     (case map_of (registerHandlers parse skip) k of None \<Rightarrow> ([], []) | Some h \<Rightarrow> h k (str_at m k) m)"

definition handled_keys :: "url_parser \<Rightarrow> bool \<Rightarrow> strmap \<Rightarrow> string list" where
  "handled_keys parse skip m = sort (filter (\<lambda>k. map_of (registerHandlers parse skip) k \<noteq> None) (map fst m))"

lemma convert_keys_eq:
  assumes "\<And>k. k \<in> set keys \<Longrightarrow> map_of (registerHandlers parse skip) k \<noteq> None"
  shows "convert_keys (registerHandlers parse skip) m keys r =
    \<lparr> acr_Filters = acr_Filters r @ concat (map (fst \<circ> handle parse skip m) keys),
      acr_Warnings = acr_Warnings r @ concat (map (snd \<circ> handle parse skip m) keys),
      acr_Processed = acr_Processed r @ keys \<rparr>"
  using assms
proof (induction keys arbitrary: r)
  case (Cons k keys)
  from Cons.prems obtain h where "map_of (registerHandlers parse skip) k = Some h" by fastforce
  with Cons show ?case by (simp add: handle_def split: prod.splits)
qed simp

lemma Convert_eq:
  "Convert parse skip (Some m) =
    \<lparr> acr_Filters = keep_last (concat (map (fst \<circ> handle parse skip m) (handled_keys parse skip m))),
      acr_Warnings = concat (map (snd \<circ> handle parse skip m) (handled_keys parse skip m)),
      acr_Processed = handled_keys parse skip m \<rparr>"
proof -
  have "map_of (registerHandlers parse skip) k \<noteq> None" if "k \<in> set (handled_keys parse skip m)" for k
    using that by (simp add: handled_keys_def)
  note loop = convert_keys_eq [of "handled_keys parse skip m", OF this]
  have "Convert parse skip (Some m) =
    (let r = convert_keys (registerHandlers parse skip) m (handled_keys parse skip m)
               \<lparr> acr_Filters = [], acr_Warnings = [], acr_Processed = [] \<rparr>
     in r\<lparr> acr_Filters := deduplicateFilters (acr_Filters r) \<rparr>)"
    by (simp add: Convert_def Let_def handled_keys_def)
  then show ?thesis by (simp add: loop deduplicateFilters_eq)
qed

text \<open>Handlers read the annotations through lookups only.\<close>

lemmas config_defs = cors_config_def affinity_config_def auth_config_def canary_config_def buildHSTSHeaderValue_def

lemma config_cong:
  assumes "map_of m = map_of m'"
  shows "cors_config m = cors_config m'" "affinity_config m = affinity_config m'" "auth_config m = auth_config m'"
    "canary_config m = canary_config m'" "buildHSTSHeaderValue m = buildHSTSHeaderValue m'"
proof -
  have st: "str_at m = str_at m'" by (simp add: fun_eq_iff str_at_def assms)
  show "cors_config m = cors_config m'" "affinity_config m = affinity_config m'" "auth_config m = auth_config m'"
    "canary_config m = canary_config m'" "buildHSTSHeaderValue m = buildHSTSHeaderValue m'"
    unfolding config_defs assms st by (rule refl)+
qed

lemma registered_handlers:
  assumes "(k, h) \<in> set (registerHandlers parse skip)" and m: "map_of m = map_of m'"
  shows "h k v m = h k v m'"
  using assms(1) unfolding registerHandlers_def policy_handlers_def auth_handlers_def
  by (auto simp: handler_defs parsing_handler_defs config_cong [OF m] m Let_def split: if_splits sum.splits)

lemma handle_cong: "map_of m = map_of m' \<Longrightarrow> handle parse skip m k = handle parse skip m' k"
  using registered_handlers [of k _ parse skip m m'] map_of_SomeD [of "registerHandlers parse skip" k]
  by (auto simp: handle_def str_at_def split: option.splits)

section \<open>Capture groups and headers\<close>

lemma strip_loop_hd_digit:
  "strip_loop s \<noteq> [] \<Longrightarrow> is_digit (hd (strip_loop s)) \<Longrightarrow> s \<noteq> [] \<and> is_digit (hd s)"
proof (induction s rule: strip_loop.induct)
  case (2 c s)
  show ?case
  proof (cases "s \<noteq> [] \<and> c = dollar \<and> is_digit (hd s)")
    case True
    with 2 have "dropWhile is_digit (tl s) \<noteq> [] \<and> is_digit (hd (dropWhile is_digit (tl s)))" by simp
    then show ?thesis using hd_dropWhile by blast
  next
    case False
    then have "strip_loop (c # s) = c # strip_loop s" by auto
    with "2.prems" show ?thesis by simp
  qed
qed simp

lemma contains_Cons:
  "containsCaptureGroup (c # s) \<longleftrightarrow> (c = dollar \<and> s \<noteq> [] \<and> is_digit (hd s)) \<or> containsCaptureGroup s"
  by (cases s) auto

lemma strip_loop_no_group: "\<not> containsCaptureGroup (strip_loop s)"
proof (induction s rule: strip_loop.induct)
  case (2 c s)
  show ?case
  proof (cases "s \<noteq> [] \<and> c = dollar \<and> is_digit (hd s)")
    case True
    with 2 show ?thesis by simp
  next
    case False
    then have eq: "strip_loop (c # s) = c # strip_loop s" by auto
    from False 2(2) strip_loop_hd_digit [of s] show ?thesis unfolding eq contains_Cons by blast
  qed
qed simp

lemma strip_loop_id: "\<not> containsCaptureGroup s \<Longrightarrow> strip_loop s = s"
  by (induction s) (auto simp: contains_Cons)

lemma not_digit_slash [simp]: "\<not> is_digit CHR ''/''"
  by (simp add: is_digit_def char_code_def)

lemma header_loop_names:
  assumes "\<And>h. h \<in> set hs \<Longrightarrow> hh_Name h \<noteq> []"
  shows "h \<in> set (fst (header_loop ps hs ws)) \<Longrightarrow> hh_Name h \<noteq> []"
  using assms
proof (induction ps arbitrary: hs ws)
  case (Cons p ps)
  obtain hs' ws' where ph: "parse_header_pair (trim_space p) = (hs', ws')" by fastforce
  then have hs': "\<And>x. x \<in> set hs' \<Longrightarrow> hh_Name x \<noteq> []"
    by (auto simp: parse_header_pair_def Let_def split: list.splits if_splits)
  show ?case
  proof (cases "trim_space p = []")
    case True
    with Cons show ?thesis by simp
  next
    case False
    have "\<And>x. x \<in> set (hs @ hs') \<Longrightarrow> hh_Name x \<noteq> []" using Cons.prems(2) hs' by auto
    with Cons.IH [of "hs @ hs'" "ws @ ws'"] Cons.prems(1) False ph show ?thesis by simp
  qed
qed auto

text \<open>What the Gateway API requires of the filters of a rule: supported redirect codes and valid ports,
  non-empty header lists and names, prefix rewrites without capture groups.\<close>

fun filter_ok :: "http_filter \<Rightarrow> bool" where
  "filter_ok (RequestRedirect r) \<longleftrightarrow>
     (rr_StatusCode r = 301 \<or> rr_StatusCode r = 302) \<and>
     (case rr_Port r of None \<Rightarrow> True | Some p \<Rightarrow> 0 < p \<and> p \<le> 65535)"
| "filter_ok (URLRewrite p) \<longleftrightarrow>
     (case p of ReplacePrefixMatch v \<Rightarrow> v \<noteq> [] \<and> \<not> containsCaptureGroup v | ReplaceFullPath _ \<Rightarrow> False)"
| "filter_ok (RequestHeaderModifier h) \<longleftrightarrow>
     hf_Set h \<noteq> [] \<and> hf_Add h = [] \<and> list_all (\<lambda>x. hh_Name x \<noteq> []) (hf_Set h)"
| "filter_ok (ResponseHeaderModifier h) \<longleftrightarrow>
     hf_Set h @ hf_Add h \<noteq> [] \<and> list_all (\<lambda>x. hh_Name x \<noteq> []) (hf_Set h @ hf_Add h)"

lemma redirect_filters_ok:
  "f \<in> set (createHTTPSRedirectFilter c) \<Longrightarrow> filter_ok f"
  "f \<in> set (createURLRedirectFilter u c) \<Longrightarrow> filter_ok f"
  by (auto simp: createHTTPSRedirectFilter_def createURLRedirectFilter_def statusCodeToGatewayAPI_def
      redirect_port_def split: option.splits if_splits)

lemma rewrite_filters_ok: "f \<in> set (fst (handleRewriteTarget k v m)) \<Longrightarrow> filter_ok f"
  using strip_loop_no_group [of v]
  by (auto simp: handleRewriteTarget_def stripCaptureGroups_def Let_def split: if_splits)

lemma header_filters_ok:
  "f \<in> set (fst (handleProxySetHeaders k v m)) \<Longrightarrow> filter_ok f"
  "f \<in> set (fst (handleCustomHeaders k v m)) \<Longrightarrow> filter_ok f"
proof -
  have names: "list_all (\<lambda>x. hh_Name x \<noteq> []) (fst (parseHeaderList v))"
    unfolding parseHeaderList_def list_all_iff using header_loop_names [of "[]"] by auto
  show "f \<in> set (fst (handleProxySetHeaders k v m)) \<Longrightarrow> filter_ok f"
    and "f \<in> set (fst (handleCustomHeaders k v m)) \<Longrightarrow> filter_ok f"
    using names by (auto simp: handleProxySetHeaders_def handleCustomHeaders_def split: if_splits prod.splits)
qed

lemma registered_filters_ok:
  assumes "(k, h) \<in> set (registerHandlers parse skip)" and "f \<in> set (fst (h k v m))"
  shows "filter_ok f"
proof (cases "h \<in> {handleRewriteTarget, handleProxySetHeaders, handleCustomHeaders}")
  case True
  with assms(2) rewrite_filters_ok header_filters_ok show ?thesis by blast
next
  case False
  with assms show ?thesis
    unfolding registerHandlers_def policy_handlers_def auth_handlers_def
    by (auto simp: handler_defs Let_def
        dest: redirect_filters_ok split: if_splits sum.splits option.splits)
qed

lemma handle_filters_ok: "f \<in> set (fst (handle parse skip m k)) \<Longrightarrow> filter_ok f"
  using registered_filters_ok map_of_SomeD [of "registerHandlers parse skip" k]
  by (auto simp: handle_def split: option.splits)

text \<open>Among the handled keys \<^verbatim>\<open>x-forwarded-prefix\<close> is the greatest.\<close>

lemma registered_keys:
  "map fst (registerHandlers parse skip) = map fst (registerHandlers (\<lambda>_. Inl []) False)"
  by (cases skip) (simp_all add: registerHandlers_def policy_handlers_def auth_handlers_def)

lemma key_le_XForwardedPrefix:
  assumes "map_of (registerHandlers parse skip) k \<noteq> None"
  shows "k \<le> XForwardedPrefix"
proof -
  have "list_all (\<lambda>k. k \<le> XForwardedPrefix) (map fst (registerHandlers (\<lambda>_. Inl []) False))" by code_simp
  moreover have "k \<in> set (map fst (registerHandlers parse skip))"
    using assms by (auto simp: map_of_eq_None_iff)
  ultimately show ?thesis unfolding registered_keys [of parse skip] list_all_iff by blast
qed

lemma handler_XForwardedPrefix:
  "map_of (registerHandlers parse skip) XForwardedPrefix = Some handleXForwardedPrefix"
  by (cases skip) (simp_all add: registerHandlers_def nginx_def XForwardedPrefix_def SSLRedirect_def
      ForceSSLRedirect_def PermanentRedirect_def PermanentRedirectCode_def TemporalRedirect_def RewriteTarget_def
      AppRoot_def UseRegex_def CustomHeaders_def ProxySetHeaders_def UpstreamVhost_def)

lemmas redirect_key_defs = nginx_def SSLRedirect_def ForceSSLRedirect_def PermanentRedirect_def
  PermanentRedirectCode_def TemporalRedirect_def RewriteTarget_def

lemma handler_ForceSSLRedirect:
  "map_of (registerHandlers parse skip) ForceSSLRedirect = Some handleForceSSLRedirect"
  by (simp add: registerHandlers_def redirect_key_defs)

lemma handler_RewriteTarget:
  "map_of (registerHandlers parse skip) RewriteTarget = Some handleRewriteTarget"
  by (simp add: registerHandlers_def redirect_key_defs)

lemma sorted_last_max:
  assumes "sorted xs" and "x \<in> set xs" and "\<And>y. y \<in> set xs \<Longrightarrow> y \<le> x"
  shows "xs = butlast xs @ [x :: 'a :: linorder]"
proof -
  have ne: "xs \<noteq> []" using assms(2) by auto
  from assms(1) have "sorted (butlast xs @ [last xs])" using ne by simp
  then have "y \<le> last xs" if "y \<in> set (butlast xs)" for y using that by (simp add: sorted_append)
  moreover have "x \<in> set (butlast xs) \<or> x = last xs"
    using assms(2) append_butlast_last_id [OF ne] by (metis Un_iff empty_iff insert_iff list.set(1,2) set_append)
  ultimately have "x \<le> last xs" by auto
  moreover have "last xs \<le> x" using assms(3) ne by simp
  ultimately show ?thesis using ne by (metis antisym append_butlast_last_id)
qed

lemma keep_last_snoc: "keep_last (fs @ [x]) = filter (\<lambda>f. filter_type_of f \<noteq> filter_type_of x) (keep_last fs) @ [x]"
  by (induction fs) auto

text \<open>Header lists: the notation that \<^verbatim>\<open>parseHeaderList\<close> reads.\<close>

definition print_header :: "http_header \<Rightarrow> string" where
  "print_header h = hh_Name h @ '':'' @ hh_Value h"

definition trimmed :: "string \<Rightarrow> bool" where
  "trimmed s \<longleftrightarrow> s = [] \<or> \<not> is_space (hd s) \<and> \<not> is_space (last s)"

definition wf_header :: "http_header \<Rightarrow> bool" where
  "wf_header h \<longleftrightarrow> hh_Name h \<noteq> [] \<and> trimmed (hh_Name h) \<and> trimmed (hh_Value h) \<and>
     CHR '':'' \<notin> set (hh_Name h) \<and> CHR '','' \<notin> set (hh_Name h @ hh_Value h)"

lemma trim_space_trimmed: "trimmed s \<Longrightarrow> trim_space s = s"
  unfolding trimmed_def trim_space_def by (rule trim_by_id)

lemma trimmed_print_header: "wf_header h \<Longrightarrow> trimmed (print_header h)"
  by (auto simp: wf_header_def trimmed_def print_header_def is_space_def char_code_def)

lemma parse_print_header:
  assumes "wf_header h"
  shows "parse_header_pair (print_header h) = ([h], [])"
proof -
  from assms have colon: "CHR '':'' \<notin> set (hh_Name h)" and t: "trimmed (hh_Name h)" "trimmed (hh_Value h)"
    and ne: "hh_Name h \<noteq> []" by (auto simp: wf_header_def)
  have "takeWhile (\<lambda>x. x \<noteq> CHR '':'') (print_header h) = hh_Name h"
    "dropWhile (\<lambda>x. x \<noteq> CHR '':'') (print_header h) = CHR '':'' # hh_Value h"
    using colon by (auto simp: print_header_def takeWhile_append dropWhile_append3)
  then have "split_n2 (CHR '':'') (print_header h) = [hh_Name h, hh_Value h]"
    by (simp add: split_n2_def print_header_def)
  with t ne show ?thesis by (simp add: parse_header_pair_def trim_space_trimmed Let_def)
qed

lemma header_loop_print:
  "list_all wf_header hs \<Longrightarrow> header_loop (map print_header hs) acc ws = (acc @ hs, ws)"
proof (induction hs arbitrary: acc)
  case (Cons h hs)
  then have wf: "wf_header h" by simp
  have "print_header h \<noteq> []" by (simp add: print_header_def)
  with Cons parse_print_header [OF wf] trim_space_trimmed [OF trimmed_print_header [OF wf]] show ?case
    by (simp add: Let_def)
qed simp

section \<open>Properties\<close>

text \<open>C34. Whatever the annotations, the filters that \<^verbatim>\<open>Convert\<close> puts on a rule meet these requirements of
  the Gateway API: at most one filter per type, redirect codes 301 or 302 with ports between 1 and 65535, header
  modifications with non-empty names, and prefix rewrites that contain no capture group.\<close>

theorem Convert_filters_admissible:
  "distinct (map filter_type_of (acr_Filters (Convert parse skip annotations))) \<and>
   (\<forall>f \<in> set (acr_Filters (Convert parse skip annotations)). filter_ok f)"
proof (cases annotations)
  case None
  then show ?thesis by (simp add: Convert_def)
next
  case (Some m)
  have "filter_ok f" if "f \<in> set (acr_Filters (Convert parse skip (Some m)))" for f
  proof -
    from that keep_last_subset have "f \<in> set (concat (map (fst \<circ> handle parse skip m) (handled_keys parse skip m)))"
      unfolding Convert_eq by fastforce
    then show ?thesis using handle_filters_ok by fastforce
  qed
  with Some show ?thesis by (simp add: Convert_eq keep_last_distinct)
qed

theorem Convert_filters_admissible_witness:
  "let fs = acr_Filters (Convert Inl False (Some [(RewriteTarget, ''/a$1''), (ForceSSLRedirect, ''true'')]))
   in length fs = 2 \<and> distinct (map filter_type_of fs) \<and> list_all filter_ok fs"
proof -
  have "length (acr_Filters (Convert Inl False (Some [(RewriteTarget, ''/a$1''), (ForceSSLRedirect, ''true'')]))) = 2"
    by code_simp
  then show ?thesis using Convert_filters_admissible unfolding Let_def list_all_iff by blast
qed

text \<open>The conversion is deterministic: it does not depend on the order in which Go iterates over the
  annotation map.\<close>

theorem Convert_deterministic:
  assumes "wf_gomap m" and "wf_gomap m'" and "map_of m = map_of m'"
  shows "Convert parse skip (Some m) = Convert parse skip (Some m')"
proof -
  have "handled_keys parse skip m = handled_keys parse skip m'"
    unfolding handled_keys_def
    by (rule sort_cong_mset, rule mset_filter_keys, rule same_map_mset [OF assms])
  moreover have "handle parse skip m = handle parse skip m'"
    using handle_cong [OF assms(3)] by blast
  ultimately show ?thesis by (simp add: Convert_eq)
qed

theorem Convert_deterministic_witness:
  "Convert Inl False (Some [(HSTS, ''true''), (HSTSPreload, ''true'')]) =
   Convert Inl False (Some [(HSTSPreload, ''true''), (HSTS, ''true'')])"
proof (rule Convert_deterministic)
  show "wf_gomap [(HSTS, ''true''), (HSTSPreload, ''true'')]" by code_simp
  show "wf_gomap [(HSTSPreload, ''true''), (HSTS, ''true'')]" by code_simp
  have "HSTS \<noteq> HSTSPreload" by code_simp
  then show "map_of [(HSTS, ''true''), (HSTSPreload, ''true'')] = map_of [(HSTSPreload, ''true''), (HSTS, ''true'')]"
    by (auto simp: fun_eq_iff)
qed

text \<open>\<^verbatim>\<open>deduplicateFilters\<close> keeps for each filter type that occurs exactly the last filter of that type,
  and returns the list unchanged if the types differ already.\<close>

theorem deduplicateFilters_keeps_last:
  "distinct (map filter_type_of (deduplicateFilters fs)) \<and>
   filter_type_of ` set (deduplicateFilters fs) = filter_type_of ` set fs \<and>
   (\<forall>f \<in> set (deduplicateFilters fs).
      find (\<lambda>g. filter_type_of g = filter_type_of f) (rev fs) = Some f) \<and>
   (distinct (map filter_type_of fs) \<longrightarrow> deduplicateFilters fs = fs)"
  unfolding deduplicateFilters_eq
  using keep_last_distinct keep_last_types keep_last_is_last keep_last_distinct_id by blast

theorem deduplicateFilters_keeps_last_witness:
  "let a = URLRewrite (ReplacePrefixMatch ''/a''); b = URLRewrite (ReplacePrefixMatch ''/b'')
   in deduplicateFilters [a, b] = [b] \<and> filter_type_of ` set [b] = filter_type_of ` set [a, b] \<and>
      deduplicateFilters [b] = [b]"
  using deduplicateFilters_keeps_last [of "[URLRewrite (ReplacePrefixMatch ''/b'')]"]
    deduplicateFilters_keeps_last [of "[URLRewrite (ReplacePrefixMatch ''/a''), URLRewrite (ReplacePrefixMatch ''/b'')]"]
  by (simp add: deduplicateFilters_eq Let_def)

text \<open>If \<^verbatim>\<open>x-forwarded-prefix\<close> is set, its header is the only request header change that survives:
  a \<^verbatim>\<open>Host\<close> header asked for by \<^verbatim>\<open>upstream-vhost\<close>, or the headers of \<^verbatim>\<open>proxy-set-headers\<close>, are dropped by the
  deduplication although they set different headers, and the handler of \<^verbatim>\<open>upstream-vhost\<close> gives no warning.\<close>

theorem Convert_forwarded_prefix_wins:
  assumes "map_of m XForwardedPrefix = Some v" and "v \<noteq> []"
  shows "filter (\<lambda>f. filter_type_of f = RequestHeaderModifierType) (acr_Filters (Convert parse skip (Some m))) =
           [RequestHeaderModifier \<lparr> hf_Set = [\<lparr> hh_Name = ''X-Forwarded-Prefix'', hh_Value = v \<rparr>], hf_Add = [] \<rparr>] \<and>
         snd (handleUpstreamVhost UpstreamVhost (str_at m UpstreamVhost) m) = []"
proof -
  let ?x = "RequestHeaderModifier \<lparr> hf_Set = [\<lparr> hh_Name = ''X-Forwarded-Prefix'', hh_Value = v \<rparr>], hf_Add = [] \<rparr>"
  let ?keys = "handled_keys parse skip m"
  have "XForwardedPrefix \<in> fst ` set m" using assms(1) by (metis map_of_eq_None_iff option.distinct(1))
  then have mem: "XForwardedPrefix \<in> set ?keys"
    by (simp add: handled_keys_def handler_XForwardedPrefix image_iff)
  have "?keys = butlast ?keys @ [XForwardedPrefix]"
    using mem key_le_XForwardedPrefix [of parse skip]
    by (intro sorted_last_max) (auto simp: handled_keys_def)
  moreover have "fst (handle parse skip m XForwardedPrefix) = [?x]"
    using assms by (simp add: handle_def handler_XForwardedPrefix str_at_def handleXForwardedPrefix_def)
  ultimately have "concat (map (fst \<circ> handle parse skip m) ?keys) =
      concat (map (fst \<circ> handle parse skip m) (butlast ?keys)) @ [?x]"
    by (metis (no_types, lifting) comp_apply concat.simps concat_append list.simps(8,9) map_append append_Nil2)
  then show ?thesis
    by (simp add: Convert_eq keep_last_snoc handleUpstreamVhost_def)
qed

theorem Convert_forwarded_prefix_wins_witness:
  "filter (\<lambda>f. filter_type_of f = RequestHeaderModifierType)
     (acr_Filters (Convert Inl False (Some [(UpstreamVhost, ''internal''), (XForwardedPrefix, ''/api'')]))) =
   [RequestHeaderModifier \<lparr> hf_Set = [\<lparr> hh_Name = ''X-Forwarded-Prefix'', hh_Value = ''/api'' \<rparr>], hf_Add = [] \<rparr>]"
proof -
  have "map_of [(UpstreamVhost, ''internal''), (XForwardedPrefix, ''/api'')] XForwardedPrefix = Some ''/api''" by code_simp
  from Convert_forwarded_prefix_wins [OF this, of Inl False] show ?thesis by simp
qed

text \<open>\<^verbatim>\<open>parseHeaderList\<close> reads back every list of headers written as \<^verbatim>\<open>Name:Value,Name:Value\<close>, in order
  and without warnings, if names are non-empty and names and values carry no separator and no outer blanks.\<close>

theorem parseHeaderList_roundtrip:
  assumes "list_all wf_header hs"
  shows "parseHeaderList (join '','' (map print_header hs)) = (hs, [])"
proof (cases hs)
  case Nil
  then show ?thesis by (simp add: parseHeaderList_def trim_space_def trim_by_def trim_right_by_def)
next
  case (Cons h t)
  have "split_on (CHR '','') (join [CHR '',''] (map print_header hs)) = map print_header hs"
    using assms Cons by (intro split_on_join) (auto simp: list_all_iff wf_header_def print_header_def)
  with header_loop_print [OF assms, of "[]" "[]"] show ?thesis by (simp add: parseHeaderList_def)
qed

theorem parseHeaderList_roundtrip_witness:
  "parseHeaderList ''X-A:1,X-B:http://b'' =
     ([\<lparr> hh_Name = ''X-A'', hh_Value = ''1'' \<rparr>, \<lparr> hh_Name = ''X-B'', hh_Value = ''http://b'' \<rparr>], [])"
proof -
  let ?hs = "[\<lparr> hh_Name = ''X-A'', hh_Value = ''1'' \<rparr>, \<lparr> hh_Name = ''X-B'', hh_Value = ''http://b'' \<rparr>]"
  have "list_all wf_header ?hs" by code_simp
  from parseHeaderList_roundtrip [OF this] show ?thesis by (simp add: print_header_def)
qed

text \<open>The annotations \<^verbatim>\<open>rewrite-target\<close> and \<^verbatim>\<open>force-ssl-redirect\<close> together give a rule both a URLRewrite
  and a RequestRedirect filter, whatever else is set (the Gateway API forbids the two on one rule).\<close>

theorem Convert_redirect_with_rewrite:
  assumes "map_of m ForceSSLRedirect = Some boolTrue"
    and "map_of m RewriteTarget = Some v" and "v \<noteq> []" and "map_of m UseRegex \<noteq> Some boolTrue"
  shows "{RequestRedirectType, URLRewriteType} \<subseteq> filter_type_of ` set (acr_Filters (Convert parse skip (Some m)))"
proof -
  let ?keys = "handled_keys parse skip m" and ?h = "handle parse skip m"
  have mem: "k \<in> set ?keys" if "map_of m k = Some x" and "map_of (registerHandlers parse skip) k = Some h" for k x h
    using that map_of_SomeD [OF that(1)] by (force simp: handled_keys_def)
  have "RequestRedirectType \<in> filter_type_of ` set (fst (?h ForceSSLRedirect))"
    using assms(1) by (simp add: handle_def handler_ForceSSLRedirect str_at_def handleForceSSLRedirect_def
        createHTTPSRedirectFilter_def)
  moreover have "URLRewriteType \<in> filter_type_of ` set (fst (?h RewriteTarget))"
    using assms(2-4) by (simp add: handle_def handler_RewriteTarget str_at_def handleRewriteTarget_def Let_def)
  ultimately show ?thesis
    using mem [OF assms(1) handler_ForceSSLRedirect] mem [OF assms(2) handler_RewriteTarget]
    by (auto simp: Convert_eq keep_last_types)
qed

theorem Convert_redirect_with_rewrite_witness:
  "filter_type_of ` set (acr_Filters (Convert Inl False (Some [(ForceSSLRedirect, ''true''), (RewriteTarget, ''/'')]))) =
     {RequestRedirectType, URLRewriteType}"
proof -
  let ?m = "[(ForceSSLRedirect, ''true''), (RewriteTarget, ''/'')]"
  have "map_of ?m ForceSSLRedirect = Some boolTrue" "map_of ?m RewriteTarget = Some ''/''"
    "map_of ?m UseRegex \<noteq> Some boolTrue" by code_simp+
  from Convert_redirect_with_rewrite [OF this(1,2) _ this(3), of Inl False]
  have "{RequestRedirectType, URLRewriteType} \<subseteq> filter_type_of ` set (acr_Filters (Convert Inl False (Some ?m)))" by simp
  moreover have "list_all (\<lambda>f. filter_type_of f = RequestRedirectType \<or> filter_type_of f = URLRewriteType)
      (acr_Filters (Convert Inl False (Some ?m)))" by code_simp
  ultimately show ?thesis unfolding list_all_iff by blast
qed

end
