(* ===== verification/Ingress_Converter.thy ===== *)
theory Ingress_Converter
  imports Ingress_Annotations Api_Types Sha256
begin

text \<open>
  Conversion of an Ingress to Gateway API routes (\<^verbatim>\<open>pkg/conversion/converter.go\<close>) and the skip and class
  filters (\<^verbatim>\<open>filter.go\<close>).

  The hosts of an Ingress are collected in a Go map from host to rules and grouped by the signature of their
  rules; the map is an association list whose order is arbitrary. The signature is the hexadecimal SHA-256 of
  the JSON text of the rules. The JSON encoder is the argument \<open>marshal\<close> (\<^const>\<open>None\<close>: an error). Where a
  statement needs that different rules have different signatures, this is a hypothesis on the rules that occur.
  The HTTP and the gRPC variants of the source run the same loops over different rule types: the loops are
  polymorphic here and instantiated twice.
\<close>

section \<open>Ingress and Gateway API objects\<close>

record service_backend =
  sbk_Name :: string
  sbk_PortNumber :: int
  sbk_PortName :: string

record ingress_backend =
  ib_Service :: "service_backend option"
  ib_Resource :: "string option"

datatype path_type = PathTypeExact | PathTypePrefix | PathTypeImplementationSpecific | PathTypeOther string

record ingress_path =
  ip_Path :: string
  ip_PathType :: "path_type option"
  ip_Backend :: ingress_backend

record ingress_rule =
  ir_Host :: string
  ir_HTTP :: "ingress_path list option"

record ingress_tls =
  it_Hosts :: "string list"
  it_SecretName :: string

record ingress =
  ing_Meta :: object_meta
  ing_ClassName :: "string option"
  ing_DefaultBackend :: "ingress_backend option"
  ing_Rules :: "ingress_rule list"
  ing_TLS :: "ingress_tls list"

datatype path_match_type = PathMatchExact | PathMatchPathPrefix | PathMatchRegularExpression

record http_match =
  hm_Path :: "(path_match_type \<times> string) option"

record backend_ref =
  br_Name :: string
  br_Port :: "int option"

record http_rule =
  hr_Matches :: "http_match list"
  hr_Filters :: "http_filter list"
  hr_BackendRefs :: "backend_ref list"

record grpc_rule =
  gr_BackendRefs :: "backend_ref list"

record parent_ref =
  pr_Name :: string
  pr_Namespace :: "string option"

record 'r gw_route =
  gw_Name :: string
  gw_Namespace :: string
  gw_Labels :: strmap
  gw_ParentRefs :: "parent_ref list"
  gw_Hostnames :: "string list"
  gw_Rules :: "'r list"

type_synonym services = "((string \<times> string), service) gomap option"

record tls_listener =
  tl_Hostname :: string
  tl_SecretName :: string
  tl_SourceSecretNamespace :: string
  tl_SourceSecretName :: string

record conversion_input =
  in_Ingress :: ingress
  in_GatewayName :: string
  in_GatewayNamespace :: string
  in_Services :: services
  in_DomainReplace :: string
  in_DomainSuffix :: string
  in_SkipPolicyWarnings :: bool

record conversion_result =
  cr_HTTPRoutes :: "http_rule gw_route list"
  cr_GRPCRoutes :: "grpc_rule gw_route list"
  cr_TLSListeners :: "tls_listener list"
  cr_Warnings :: "string list"
  cr_ProcessedAnnotations :: "string list"

section \<open>Constants and filters (constants.go, filter.go)\<close>

definition AnnotationSkipConversion :: string where "AnnotationSkipConversion = ''kubelb.k8c.io/skip-conversion''"
definition AnnotationIngressClass :: string where "AnnotationIngressClass = ''kubernetes.io/ingress.class''"
definition NginxCanary :: string where "NginxCanary = ''nginx.ingress.kubernetes.io/canary''"
definition NginxBackendProtocol :: string where
  "NginxBackendProtocol = ''nginx.ingress.kubernetes.io/backend-protocol''"

definition ing_annotations :: "ingress \<Rightarrow> strmap" where
  "ing_annotations ing = (case om_Annotations (ing_Meta ing) of None \<Rightarrow> [] | Some m \<Rightarrow> m)"

definition ShouldSkip :: "ingress \<Rightarrow> bool" where
  "ShouldSkip ing \<longleftrightarrow>
     str_at (om_Labels (ing_Meta ing)) AnnotationSkipConversion = boolTrue \<or>
     (case om_Annotations (ing_Meta ing) of
        None \<Rightarrow> False
      | Some m \<Rightarrow> str_at m AnnotationSkipConversion = boolTrue \<or> str_at m NginxCanary = boolTrue)"

definition MatchesIngressClass :: "ingress \<Rightarrow> string \<Rightarrow> bool" where
  "MatchesIngressClass ing class =
     (case ing_ClassName ing of
        Some c \<Rightarrow> c = class
      | None \<Rightarrow>
          (case om_Annotations (ing_Meta ing) of
             None \<Rightarrow> False
           | Some m \<Rightarrow> (case map_of m AnnotationIngressClass of Some v \<Rightarrow> v = class | None \<Rightarrow> False)))"

section \<open>Parts of a rule (converter.go)\<close>

definition hasRedirectFilter :: "http_filter list \<Rightarrow> bool" where
  "hasRedirectFilter filters = list_ex (\<lambda>f. filter_type_of f = RequestRedirectType) filters"

definition isGRPCIngress :: "ingress \<Rightarrow> bool" where
  "isGRPCIngress ing =
     (case om_Annotations (ing_Meta ing) of
        None \<Rightarrow> False
      | Some m \<Rightarrow>
          (let protocol = to_upper (str_at m NginxBackendProtocol)
           in protocol = backendProtocolGRPC \<or> protocol = backendProtocolGRPCS))"

definition transformHostname :: "string \<Rightarrow> string \<Rightarrow> string \<Rightarrow> string" where
  "transformHostname host replace suffix =
     (if replace = [] \<or> suffix = [] then host
      else
        (let wildcardPrefix = (if has_prefix host ''*.'' then ''*.'' else []);
             checkHost = (if has_prefix host ''*.'' then drop 2 host else host)
         in if checkHost = replace then wildcardPrefix @ suffix
            else if has_suffix checkHost (''.'' @ replace)
            then wildcardPrefix @ trim_suffix checkHost (''.'' @ replace) @ ''.'' @ suffix
            else host))"

definition convertPathType :: "path_type option \<Rightarrow> path_match_type" where
  "convertPathType pathType = (case pathType of Some PathTypeExact \<Rightarrow> PathMatchExact | _ \<Rightarrow> PathMatchPathPrefix)"

definition convertPathTypeWithRegex :: "path_type option \<Rightarrow> bool \<Rightarrow> path_match_type" where
  "convertPathTypeWithRegex pathType useRegex =
     (if useRegex then PathMatchRegularExpression else convertPathType pathType)"

definition findPortByName :: "service \<Rightarrow> string \<Rightarrow> int option" where
  "findPortByName svc portName =
     (case find (\<lambda>p. sp_Name p = portName) (ss_Ports (svc_Spec svc)) of None \<Rightarrow> None | Some p \<Rightarrow> Some (sp_Port p))"

text \<open>The port of a backend that names a port or none; the two texts are the ones of the caller for the case that no
  Services were given.\<close>

definition resolve_named_port :: "service_backend \<Rightarrow> string \<Rightarrow> services \<Rightarrow> string \<Rightarrow> int option \<times> string list" where
  "resolve_named_port svc ns services unresolved =
     (case services of
        None \<Rightarrow> (None, [unresolved])
      | Some m \<Rightarrow>
          (case map_of m (ns, sbk_Name svc) of
             None \<Rightarrow> (None, [''service '' @ go_quote (sbk_Name svc) @ '' not found for port resolution''])
           | Some service \<Rightarrow>
               (case findPortByName service (sbk_PortName svc) of
                  Some port \<Rightarrow> (Some port, [])
                | None \<Rightarrow> (None, [''service '' @ go_quote (sbk_Name svc) @ '' has no port named '' @ go_quote (sbk_PortName svc)]))))"

definition resolve_default_port :: "service_backend \<Rightarrow> string \<Rightarrow> services \<Rightarrow> string \<Rightarrow> int option \<times> string list" where
  "resolve_default_port svc ns services unresolved =
     (case services of
        None \<Rightarrow> (None, [unresolved])
      | Some m \<Rightarrow>
          (case map_of m (ns, sbk_Name svc) of
             None \<Rightarrow> (None, [''service '' @ go_quote (sbk_Name svc) @ '' not found for port resolution''])
           | Some service \<Rightarrow>
               (case ss_Ports (svc_Spec service) of
                  [p] \<Rightarrow> (Some (sp_Port p), [])
                | [] \<Rightarrow> (None, [''service '' @ go_quote (sbk_Name svc) @ '' has no ports defined''])
                | _ \<Rightarrow> (None, [''service '' @ go_quote (sbk_Name svc) @ '' has multiple ports; specify port explicitly'']))))"

definition convertServiceBackendWithLookup :: "service_backend \<Rightarrow> string \<Rightarrow> services \<Rightarrow> backend_ref \<times> string list" where
  "convertServiceBackendWithLookup svc ns services =
     (let (port, warnings) =
        (if sbk_PortNumber svc \<noteq> 0 then
           (Some (sbk_PortNumber svc),
            if sbk_PortNumber svc < 1 \<or> sbk_PortNumber svc > 65535
            then [''service '' @ go_quote (sbk_Name svc) @ '' has invalid port number '' @ itoa (sbk_PortNumber svc) @ '' (must be 1-65535)'']
            else [])
         else if sbk_PortName svc \<noteq> [] then
           resolve_named_port svc ns services (''service '' @ go_quote (sbk_Name svc) @ '' uses named port '' @
             go_quote (sbk_PortName svc) @ '' which cannot be resolved; specify port number instead'')
         else
           resolve_default_port svc ns services (''service '' @ go_quote (sbk_Name svc) @
             '' has no port specified; Gateway API requires explicit port''))
      in (\<lparr> br_Name = sbk_Name svc, br_Port = port \<rparr>, warnings))"

definition convertServiceBackendToGRPC :: "service_backend \<Rightarrow> string \<Rightarrow> services \<Rightarrow> backend_ref \<times> string list" where
  "convertServiceBackendToGRPC svc ns services =
     (let (port, warnings) =
        (if sbk_PortNumber svc \<noteq> 0 then (Some (sbk_PortNumber svc), [])
         else if sbk_PortName svc \<noteq> [] then
           resolve_named_port svc ns services (''service '' @ go_quote (sbk_Name svc) @ '' uses named port '' @
             go_quote (sbk_PortName svc) @ '' which cannot be resolved'')
         else
           resolve_default_port svc ns services (''service '' @ go_quote (sbk_Name svc) @ '' has no port specified''))
      in (\<lparr> br_Name = sbk_Name svc, br_Port = port \<rparr>, warnings))"

definition convert_backend ::
  "(service_backend \<Rightarrow> string \<Rightarrow> services \<Rightarrow> backend_ref \<times> string list) \<Rightarrow>
   ingress_backend \<Rightarrow> string \<Rightarrow> services \<Rightarrow> backend_ref list \<times> string list" where
  "convert_backend conv backend ns services =
     (case ib_Service backend of
        Some svc \<Rightarrow> (case conv svc ns services of (ref, warnings) \<Rightarrow> ([ref], warnings))
      | None \<Rightarrow>
          (case ib_Resource backend of
             Some res \<Rightarrow> ([], [''resource backend '' @ go_quote res @ '' not supported; only Service backends are converted''])
           | None \<Rightarrow> ([], [])))"

definition convertPathWithServices :: "ingress_path \<Rightarrow> string \<Rightarrow> services \<Rightarrow> bool \<Rightarrow> http_rule \<times> string list" where
  "convertPathWithServices path ns services useRegex =
     (let match = \<lparr> hm_Path = (if ip_Path path \<noteq> []
                       then Some (convertPathTypeWithRegex (ip_PathType path) useRegex, ip_Path path) else None) \<rparr>;
          pathWarnings = (if ip_Path path \<noteq> [] \<and> ip_PathType path = Some PathTypeImplementationSpecific \<and> \<not> useRegex
                          then [''path '' @ go_quote (ip_Path path) @ '' uses ImplementationSpecific type, converted to PathPrefix'']
                          else [])
      in case convert_backend convertServiceBackendWithLookup (ip_Backend path) ns services of (refs, warnings) \<Rightarrow>
           (\<lparr> hr_Matches = [match], hr_Filters = [], hr_BackendRefs = refs \<rparr>, pathWarnings @ warnings))"

definition convertPathToGRPCRule :: "ingress_path \<Rightarrow> string \<Rightarrow> services \<Rightarrow> grpc_rule \<times> string list" where
  "convertPathToGRPCRule path ns services =
     (let pathWarnings = (if ip_Path path \<noteq> [] \<and> ip_Path path \<noteq> ''/''
                          then [''path '' @ go_quote (ip_Path path) @
                                '' will be ignored for GRPCRoute; use service/method matching in GRPCRoute spec if needed'']
                          else [])
      in case convert_backend convertServiceBackendToGRPC (ip_Backend path) ns services of (refs, warnings) \<Rightarrow>
           (\<lparr> gr_BackendRefs = refs \<rparr>, pathWarnings @ warnings))"

definition default_backend_error :: "ingress_backend \<Rightarrow> string" where
  "default_backend_error backend =
     (case ib_Resource backend of
        Some res \<Rightarrow> ''default backend uses resource '' @ go_quote res @ '' which is not supported''
      | None \<Rightarrow> ''default backend has no service reference'')"

definition convertDefaultBackendWithServices ::
  "ingress_backend \<Rightarrow> string \<Rightarrow> services \<Rightarrow> http_rule option \<times> string list" where
  "convertDefaultBackendWithServices backend ns services =
     (case ib_Service backend of
        None \<Rightarrow> (None, [default_backend_error backend])
      | Some svc \<Rightarrow>
          (case convertServiceBackendWithLookup svc ns services of (ref, warnings) \<Rightarrow>
             (Some \<lparr> hr_Matches = [\<lparr> hm_Path = Some (PathMatchPathPrefix, ''/'') \<rparr>], hr_Filters = [], hr_BackendRefs = [ref] \<rparr>,
              warnings)))"

definition convertDefaultBackendToGRPCRule ::
  "ingress_backend \<Rightarrow> string \<Rightarrow> services \<Rightarrow> grpc_rule option \<times> string list" where
  "convertDefaultBackendToGRPCRule backend ns services =
     (case ib_Service backend of
        None \<Rightarrow> (None, [default_backend_error backend])
      | Some svc \<Rightarrow>
          (case convertServiceBackendToGRPC svc ns services of (ref, warnings) \<Rightarrow>
             (Some \<lparr> gr_BackendRefs = [ref] \<rparr>, warnings)))"

definition buildParentRef :: "string \<Rightarrow> string \<Rightarrow> string \<Rightarrow> parent_ref" where
  "buildParentRef gatewayName gatewayNamespace routeNamespace =
     \<lparr> pr_Name = gatewayName,
       pr_Namespace = (if gatewayNamespace \<noteq> [] \<and> gatewayNamespace \<noteq> routeNamespace then Some gatewayNamespace else None) \<rparr>"

definition convert_tls :: "string \<Rightarrow> string \<Rightarrow> string \<Rightarrow> ingress_tls \<Rightarrow> tls_listener list \<times> string list" where
  "convert_tls ns domainReplace domainSuffix tls =
     (map (\<lambda>host. \<lparr> tl_Hostname = transformHostname host domainReplace domainSuffix, tl_SecretName = it_SecretName tls,
                    tl_SourceSecretNamespace = ns, tl_SourceSecretName = it_SecretName tls \<rparr>) (it_Hosts tls) @
      (if it_Hosts tls = [] \<and> it_SecretName tls \<noteq> []
       then [\<lparr> tl_Hostname = ''*'', tl_SecretName = it_SecretName tls, tl_SourceSecretNamespace = ns,
               tl_SourceSecretName = it_SecretName tls \<rparr>]
       else []),
      if it_Hosts tls \<noteq> [] \<and> it_SecretName tls = []
      then [''TLS config has hosts ['' @ join '' '' (it_Hosts tls) @
            ''] but no secretName; Gateway will need manual certificate configuration or cert-manager'']
      else [])"

definition convertTLSConfig :: "ingress_tls list \<Rightarrow> string \<Rightarrow> string \<Rightarrow> string \<Rightarrow> tls_listener list \<times> string list" where
  "convertTLSConfig tlsConfigs ns domainReplace domainSuffix =
     (let parts = map (convert_tls ns domainReplace domainSuffix) tlsConfigs
      in (concat (map fst parts), concat (map snd parts)))"

section \<open>Collecting the rules per host\<close>

type_synonym 'r host_rules = "(string, 'r list) gomap"

definition rules_at :: "'r host_rules \<Rightarrow> string \<Rightarrow> 'r list" where
  "rules_at m host = (case map_of m host of None \<Rightarrow> [] | Some rs \<Rightarrow> rs)"

fun collect_paths ::
  "('p \<Rightarrow> 'r \<times> string list) \<Rightarrow> string \<Rightarrow> 'p list \<Rightarrow> 'r host_rules \<times> string list \<Rightarrow> 'r host_rules \<times> string list" where
  "collect_paths conv host [] st = st"
| "collect_paths conv host (p # ps) (m, warnings) =
     (case conv p of (rule, ws) \<Rightarrow>
        collect_paths conv host ps (gomap_put host (rules_at m host @ [rule]) m, warnings @ ws))"

fun collect_rules ::
  "(ingress_path \<Rightarrow> 'r \<times> string list) \<Rightarrow> string \<Rightarrow> string \<Rightarrow> ingress_rule list \<Rightarrow>
   'r host_rules \<times> string list \<Rightarrow> 'r host_rules \<times> string list" where
  "collect_rules conv replace suffix [] st = st"
| "collect_rules conv replace suffix (rule # rules) (m, warnings) =
     (let host = transformHostname (ir_Host rule) replace suffix
      in case ir_HTTP rule of
           None \<Rightarrow>
             collect_rules conv replace suffix rules
               (if host \<noteq> [] \<and> map_of m host = None then gomap_put host [] m else m, warnings)
         | Some paths \<Rightarrow> collect_rules conv replace suffix rules (collect_paths conv host paths (m, warnings)))"

section \<open>Grouping hosts with the same rules\<close>

record 'r rule_group =
  rg_hosts :: "string list"
  rg_rules :: "'r list"

definition final_rules :: "'r option \<Rightarrow> 'r list \<Rightarrow> 'r list" where
  "final_rules defaultRule rules = (case defaultRule of None \<Rightarrow> rules | Some d \<Rightarrow> rules @ [d])"

fun sign_hosts ::
  "('r list \<Rightarrow> string) \<Rightarrow> 'r option \<Rightarrow> 'r host_rules \<Rightarrow> (string, string list) gomap \<Rightarrow> 'r host_rules \<Rightarrow>
   (string, string list) gomap \<times> 'r host_rules" where
  "sign_hosts signature defaultRule [] signatureToHosts signatureToRules = (signatureToHosts, signatureToRules)"
| "sign_hosts signature defaultRule ((host, rules) # hostRules) signatureToHosts signatureToRules =
     (let finalRules = final_rules defaultRule rules; sig = signature finalRules
      in sign_hosts signature defaultRule hostRules
           (gomap_put sig (rules_at signatureToHosts sig @ [host]) signatureToHosts)
           (gomap_put sig finalRules signatureToRules))"

definition split_group :: "string list \<Rightarrow> 'r list \<Rightarrow> 'r rule_group list" where
  "split_group hosts rules =
     (let hosts' = sort hosts; actualHosts = filter (\<lambda>h. h \<noteq> []) hosts'; hasNoHost = ([] \<in> set hosts')
      in if hasNoHost \<and> actualHosts \<noteq> []
         then [\<lparr> rg_hosts = [[]], rg_rules = rules \<rparr>, \<lparr> rg_hosts = actualHosts, rg_rules = rules \<rparr>]
         else [\<lparr> rg_hosts = hosts', rg_rules = rules \<rparr>])"

definition group_hosts :: "('r list \<Rightarrow> string) \<Rightarrow> 'r host_rules \<Rightarrow> 'r option \<Rightarrow> 'r rule_group list" where
  "group_hosts signature hostRules defaultRule =
     (case sign_hosts signature defaultRule hostRules [] [] of (signatureToHosts, signatureToRules) \<Rightarrow>
        concat (map (\<lambda>sig. split_group (rules_at signatureToHosts sig) (rules_at signatureToRules sig))
          (sort (map fst signatureToHosts))))"

type_synonym 'r marshaller = "'r list \<Rightarrow> string option"

definition rulesSignature :: "http_rule marshaller \<Rightarrow> http_rule list \<Rightarrow> string" where
  "rulesSignature marshal rules =
     (case marshal rules of
        None \<Rightarrow> ''rules-'' @ itoa (int (length rules))
      | Some data \<Rightarrow> EncodeToString (Sum256 (map char_code data)))"

definition grpcRulesSignature :: "grpc_rule marshaller \<Rightarrow> grpc_rule list \<Rightarrow> string" where
  "grpcRulesSignature marshal rules =
     (case marshal rules of
        None \<Rightarrow> ''grpc-rules-'' @ itoa (int (length rules))
      | Some data \<Rightarrow> EncodeToString (Sum256 (map char_code data)))"

definition groupHostsByRules ::
  "http_rule marshaller \<Rightarrow> http_rule host_rules \<Rightarrow> http_rule option \<Rightarrow> http_rule rule_group list" where
  "groupHostsByRules marshal hostRules defaultRule = group_hosts (rulesSignature marshal) hostRules defaultRule"

definition groupGRPCHostsByRules ::
  "grpc_rule marshaller \<Rightarrow> grpc_rule host_rules \<Rightarrow> grpc_rule option \<Rightarrow> grpc_rule rule_group list" where
  "groupGRPCHostsByRules marshal hostRules defaultRule = group_hosts (grpcRulesSignature marshal) hostRules defaultRule"

section \<open>Routes\<close>

definition generateRouteName :: "string \<Rightarrow> nat \<Rightarrow> nat \<Rightarrow> string" where
  "generateRouteName ingressName index totalGroups =
     (if totalGroups = 1 then ingressName else ingressName @ ''-'' @ itoa (int index + 1))"

definition generateGRPCRouteName :: "string \<Rightarrow> nat \<Rightarrow> nat \<Rightarrow> string" where
  "generateGRPCRouteName ingressName index totalGroups =
     (if totalGroups = 1 then ingressName else ingressName @ ''-'' @ itoa (int index + 1))"

definition copyLabels :: "strmap \<Rightarrow> strmap" where
  "copyLabels labels = maps_copy [] labels"

definition group_hostnames :: "'r rule_group \<Rightarrow> string list" where
  "group_hostnames g = (if rg_hosts g \<noteq> [] \<and> hd (rg_hosts g) \<noteq> [] then rg_hosts g else [])"

definition group_route :: "ingress \<Rightarrow> parent_ref \<Rightarrow> string \<Rightarrow> 'r rule_group \<Rightarrow> 'r gw_route" where
  "group_route ing parentRef name g =
     \<lparr> gw_Name = name, gw_Namespace = om_Namespace (ing_Meta ing), gw_Labels = copyLabels (om_Labels (ing_Meta ing)),
       gw_ParentRefs = [parentRef], gw_Hostnames = group_hostnames g, gw_Rules = rg_rules g \<rparr>"

definition build_routes ::
  "(string \<Rightarrow> nat \<Rightarrow> nat \<Rightarrow> string) \<Rightarrow> ingress \<Rightarrow> parent_ref \<Rightarrow> 'r rule_group list \<Rightarrow> 'r option \<Rightarrow> 'r gw_route list" where
  "build_routes routeName ing parentRef groups defaultRule =
     map (\<lambda>(i, g). group_route ing parentRef (routeName (om_Name (ing_Meta ing)) i (length groups)) g) (enumerate 0 groups) @
     (case defaultRule of
        Some d \<Rightarrow>
          if groups = [] then [group_route ing parentRef (om_Name (ing_Meta ing)) \<lparr> rg_hosts = [], rg_rules = [d] \<rparr>] else []
      | None \<Rightarrow> [])"

definition add_filters :: "http_filter list \<Rightarrow> http_rule \<Rightarrow> http_rule" where
  "add_filters filters rule =
     (let rule' = rule\<lparr> hr_Filters := hr_Filters rule @ filters \<rparr>
      in if hasRedirectFilter filters then rule'\<lparr> hr_BackendRefs := [] \<rparr> else rule')"

definition http_path_rule :: "conversion_input \<Rightarrow> http_filter list \<Rightarrow> ingress_path \<Rightarrow> http_rule \<times> string list" where
  "http_path_rule input filters path =
     (let ing = in_Ingress input; useRegex = (str_at (ing_annotations ing) UseRegex = boolTrue)
      in case convertPathWithServices path (om_Namespace (ing_Meta ing)) (in_Services input) useRegex of (rule, ws) \<Rightarrow>
           (add_filters filters rule, ws))"

definition http_host_rules ::
  "conversion_input \<Rightarrow> http_filter list \<Rightarrow> string list \<Rightarrow> http_rule host_rules \<times> string list" where
  "http_host_rules input filters warnings =
     collect_rules (http_path_rule input filters) (in_DomainReplace input) (in_DomainSuffix input)
       (ing_Rules (in_Ingress input)) ([], warnings)"

definition http_default_rule :: "conversion_input \<Rightarrow> http_filter list \<Rightarrow> http_rule option \<times> string list" where
  "http_default_rule input filters =
     (case ing_DefaultBackend (in_Ingress input) of
        None \<Rightarrow> (None, [])
      | Some backend \<Rightarrow>
          (case convertDefaultBackendWithServices backend (om_Namespace (ing_Meta (in_Ingress input))) (in_Services input) of
             (rule, ws) \<Rightarrow> (map_option (add_filters filters) rule, ws)))"

definition convertToHTTPRoutes ::
  "http_rule marshaller \<Rightarrow> conversion_input \<Rightarrow> parent_ref \<Rightarrow> http_filter list \<Rightarrow> string list \<Rightarrow>
   http_rule gw_route list \<times> string list" where
  "convertToHTTPRoutes marshal input parentRef filters warnings =
     (case http_host_rules input filters warnings of (hostRules, warnings1) \<Rightarrow>
      case http_default_rule input filters of (defaultRule, defaultWarnings) \<Rightarrow>
        (build_routes generateRouteName (in_Ingress input) parentRef
           (groupHostsByRules marshal hostRules defaultRule) defaultRule,
         warnings1 @ defaultWarnings))"

definition grpc_host_rules :: "conversion_input \<Rightarrow> string list \<Rightarrow> grpc_rule host_rules \<times> string list" where
  "grpc_host_rules input warnings =
     collect_rules (\<lambda>path. convertPathToGRPCRule path (om_Namespace (ing_Meta (in_Ingress input))) (in_Services input))
       (in_DomainReplace input) (in_DomainSuffix input) (ing_Rules (in_Ingress input)) ([], warnings)"

definition grpc_default_rule :: "conversion_input \<Rightarrow> grpc_rule option \<times> string list" where
  "grpc_default_rule input =
     (case ing_DefaultBackend (in_Ingress input) of
        None \<Rightarrow> (None, [])
      | Some backend \<Rightarrow>
          convertDefaultBackendToGRPCRule backend (om_Namespace (ing_Meta (in_Ingress input))) (in_Services input))"

definition convertToGRPCRoutes ::
  "grpc_rule marshaller \<Rightarrow> conversion_input \<Rightarrow> parent_ref \<Rightarrow> string list \<Rightarrow> grpc_rule gw_route list \<times> string list" where
  "convertToGRPCRoutes marshal input parentRef warnings =
     (case grpc_host_rules input warnings of (hostRules, warnings1) \<Rightarrow>
      case grpc_default_rule input of (defaultRule, defaultWarnings) \<Rightarrow>
        (build_routes generateGRPCRouteName (in_Ingress input) parentRef
           (groupGRPCHostsByRules marshal hostRules defaultRule) defaultRule,
         warnings1 @ defaultWarnings))"

definition no_routes_warning :: "'a list \<Rightarrow> 'b list \<Rightarrow> string list" where
  "no_routes_warning httpRoutes grpcRoutes =
     (if httpRoutes = [] \<and> grpcRoutes = [] then [''no routes generated, Ingress may be misconfigured''] else [])"

definition ConvertIngressWithServices ::
  "url_parser \<Rightarrow> http_rule marshaller \<Rightarrow> grpc_rule marshaller \<Rightarrow> conversion_input \<Rightarrow> conversion_result" where
  "ConvertIngressWithServices parse marshal grpc_marshal input =
     (let ing = in_Ingress input;
          parentRef = buildParentRef (in_GatewayName input) (in_GatewayNamespace input) (om_Namespace (ing_Meta ing));
          (tlsListeners, tlsWarnings) =
            convertTLSConfig (ing_TLS ing) (om_Namespace (ing_Meta ing)) (in_DomainReplace input) (in_DomainSuffix input)
      in if isGRPCIngress ing then
           (case convertToGRPCRoutes grpc_marshal input parentRef
                   ([''backend-protocol=GRPC detected, generating GRPCRoute (annotation filters not applicable to GRPCRoute)''] @
                    tlsWarnings) of (routes, warnings) \<Rightarrow>
              \<lparr> cr_HTTPRoutes = [], cr_GRPCRoutes = routes, cr_TLSListeners = tlsListeners,
                cr_Warnings = warnings @ no_routes_warning ([] :: string list) routes, cr_ProcessedAnnotations = [] \<rparr>)
         else
           (let ann = Convert parse (in_SkipPolicyWarnings input) (om_Annotations (ing_Meta ing))
            in case convertToHTTPRoutes marshal input parentRef (acr_Filters ann) (acr_Warnings ann @ tlsWarnings) of
                 (routes, warnings) \<Rightarrow>
                   \<lparr> cr_HTTPRoutes = routes, cr_GRPCRoutes = [], cr_TLSListeners = tlsListeners,
                     cr_Warnings = warnings @ no_routes_warning routes ([] :: string list),
                     cr_ProcessedAnnotations = acr_Processed ann \<rparr>))"

section \<open>Grouping: characterisation\<close>

definition signed :: "('r list \<Rightarrow> string) \<Rightarrow> 'r option \<Rightarrow> 'r host_rules \<Rightarrow> string \<Rightarrow> 'r host_rules" where
  "signed signature defaultRule hostRules sig =
     filter (\<lambda>(h, rs). signature (final_rules defaultRule rs) = sig) hostRules"

lemma signed_Cons:
  "signed signature d ((h, r) # hr) sig =
     (if signature (final_rules d r) = sig then (h, r) # signed signature d hr sig else signed signature d hr sig)"
  by (simp add: signed_def)

lemma sign_hosts_keys:
  "sign_hosts signature d hr hs rs = (hs', rs') \<Longrightarrow> wf_gomap hs \<Longrightarrow>
     wf_gomap hs' \<and> fst ` set hs' = fst ` set hs \<union> (\<lambda>x. signature (final_rules d (snd x))) ` set hr"
proof (induction hr arbitrary: hs rs)
  case (Cons x hr)
  obtain h r where x: "x = (h, r)" by (cases x)
  let ?s = "signature (final_rules d r)"
  let ?hs = "gomap_put ?s (rules_at hs ?s @ [h]) hs" and ?rs = "gomap_put ?s (final_rules d r) rs"
  have "sign_hosts signature d hr ?hs ?rs = (hs', rs')" using Cons.prems(1) x by (simp add: Let_def)
  moreover have "wf_gomap ?hs" using Cons.prems(2) by (rule wf_gomap_put)
  moreover have "fst ` set ?hs = insert ?s (fst ` set hs)"
    by (simp add: dom_map_of_conv_image_fst [symmetric] map_of_put)
  ultimately show ?case using Cons.IH x by simp
qed simp

lemma sign_hosts_hosts:
  "sign_hosts signature d hr hs rs = (hs', rs') \<Longrightarrow>
     rules_at hs' sig = rules_at hs sig @ map fst (signed signature d hr sig)"
proof (induction hr arbitrary: hs rs)
  case (Cons x hr)
  obtain h r where x: "x = (h, r)" by (cases x)
  let ?s = "signature (final_rules d r)"
  let ?hs = "gomap_put ?s (rules_at hs ?s @ [h]) hs" and ?rs = "gomap_put ?s (final_rules d r) rs"
  have "sign_hosts signature d hr ?hs ?rs = (hs', rs')" using Cons.prems x by (simp add: Let_def)
  from Cons.IH [OF this] show ?case by (simp add: x signed_Cons rules_at_def map_of_put)
qed (simp add: signed_def)

lemma sign_hosts_rules:
  "sign_hosts signature d hr hs rs = (hs', rs') \<Longrightarrow>
     map_of rs' sig =
       (if signed signature d hr sig = [] then map_of rs sig
        else Some (final_rules d (snd (last (signed signature d hr sig)))))"
proof (induction hr arbitrary: hs rs)
  case (Cons x hr)
  obtain h r where x: "x = (h, r)" by (cases x)
  let ?s = "signature (final_rules d r)"
  let ?hs = "gomap_put ?s (rules_at hs ?s @ [h]) hs" and ?rs = "gomap_put ?s (final_rules d r) rs"
  have "sign_hosts signature d hr ?hs ?rs = (hs', rs')" using Cons.prems x by (simp add: Let_def)
  from Cons.IH [OF this] show ?case by (simp add: x signed_Cons map_of_put)
qed (simp add: signed_def)

text \<open>The list of signatures and the two maps that the loop leaves behind.\<close>

definition host_signature :: "('r list \<Rightarrow> string) \<Rightarrow> 'r option \<Rightarrow> string \<times> 'r list \<Rightarrow> string" where
  "host_signature signature d x = signature (final_rules d (snd x))"

definition signatures :: "('r list \<Rightarrow> string) \<Rightarrow> 'r host_rules \<Rightarrow> 'r option \<Rightarrow> string list" where
  "signatures signature hr d = sort (remdups (map (host_signature signature d) hr))"

definition collision_free :: "('r list \<Rightarrow> string) \<Rightarrow> 'r host_rules \<Rightarrow> 'r option \<Rightarrow> bool" where
  "collision_free signature hr d \<longleftrightarrow> inj_on signature ((\<lambda>x. final_rules d (snd x)) ` set hr)"

lemma group_hosts_eq:
  assumes "collision_free signature hr d"
  obtains rules where
    "group_hosts signature hr d = concat (map (\<lambda>sig. split_group (map fst (signed signature d hr sig)) (rules sig)) (signatures signature hr d))"
    and "\<And>x. x \<in> set hr \<Longrightarrow> rules (host_signature signature d x) = final_rules d (snd x)"
proof -
  obtain hs rs where sh: "sign_hosts signature d hr [] [] = (hs, rs)" by fastforce
  have hosts: "rules_at hs sig = map fst (signed signature d hr sig)" for sig
    using sign_hosts_hosts [OF sh, of sig] by (simp add: rules_at_def)
  have "sort (map fst hs) = signatures signature hr d"
  proof -
    have "distinct (map fst hs)" "set (map fst hs) = set (remdups (map (host_signature signature d) hr))"
      using sign_hosts_keys [OF sh] by (simp_all add: wf_gomap_def host_signature_def)
    then have "mset (map fst hs) = mset (remdups (map (host_signature signature d) hr))"
      using set_eq_iff_mset_eq_distinct by blast
    then show ?thesis unfolding signatures_def by (rule sort_cong_mset)
  qed
  then have "group_hosts signature hr d =
      concat (map (\<lambda>sig. split_group (map fst (signed signature d hr sig)) (rules_at rs sig)) (signatures signature hr d))"
    by (simp add: group_hosts_def sh hosts)
  moreover have "rules_at rs (host_signature signature d x) = final_rules d (snd x)" if x: "x \<in> set hr" for x
  proof -
    let ?s = "host_signature signature d x" and ?y = "last (signed signature d hr (host_signature signature d x))"
    have "x \<in> set (signed signature d hr ?s)" using x by (simp add: signed_def host_signature_def split_def)
    then have ne: "signed signature d hr ?s \<noteq> []" by auto
    then have "?y \<in> set (signed signature d hr ?s)" by simp
    then have "?y \<in> set hr" "signature (final_rules d (snd ?y)) = signature (final_rules d (snd x))"
      by (auto simp: signed_def host_signature_def)
    then have "final_rules d (snd ?y) = final_rules d (snd x)"
      using assms x unfolding collision_free_def by (meson imageI inj_on_def)
    then show ?thesis using sign_hosts_rules [OF sh, of ?s] ne by (simp add: rules_at_def)
  qed
  ultimately show ?thesis by (rule that)
qed

lemma split_group_alt:
  assumes "distinct hosts" and "hosts \<noteq> []"
  shows "split_group hosts rules =
     (if [] \<in> set hosts then [\<lparr> rg_hosts = [[]], rg_rules = rules \<rparr>] else []) @
     (let act = sort (filter (\<lambda>h. h \<noteq> []) hosts) in if act = [] then [] else [\<lparr> rg_hosts = act, rg_rules = rules \<rparr>])"
proof (cases "[] \<in> set hosts")
  case False
  then have "filter (\<lambda>h. h \<noteq> []) hosts = hosts" by (auto simp: filter_id_conv)
  moreover have "sort hosts \<noteq> []" using assms(2) by (metis set_empty set_sort)
  ultimately show ?thesis using False by (simp add: split_group_def Let_def filter_sort)
next
  case True
  show ?thesis
  proof (cases "filter (\<lambda>h. h \<noteq> []) hosts = []")
    case none: True
    then have "set hosts = {[]}" using True by (auto simp: filter_empty_conv)
    with assms(1) have "hosts = [[]]"
      by (metis card_distinct distinct_card card.empty card_insert_disjoint empty_iff finite.emptyI
          length_0_conv length_Suc_conv list.set_intros(1) list.simps(15) singletonD)
    then show ?thesis by (simp add: split_group_def)
  next
    case some: False
    then have "sort (filter (\<lambda>h. h \<noteq> []) hosts) \<noteq> []" by (metis set_empty set_sort)
    with True show ?thesis by (simp add: split_group_def Let_def filter_sort)
  qed
qed

text \<open>What grouping promises: the groups partition the hosts, each group carries the rules of its hosts, a
  group is either the catch-all group or a sorted group of named hosts, and named hosts with the same rules share
  a group.\<close>

definition grouping_of :: "'r host_rules \<Rightarrow> 'r option \<Rightarrow> 'r rule_group list \<Rightarrow> bool" where
  "grouping_of hr d groups \<longleftrightarrow>
     mset (concat (map rg_hosts groups)) = mset (map fst hr) \<and>
     (\<forall>g \<in> set groups. (rg_hosts g = [[]] \<or> rg_hosts g \<noteq> [] \<and> [] \<notin> set (rg_hosts g) \<and> sorted (rg_hosts g)) \<and>
        (\<forall>h \<in> set (rg_hosts g). \<exists>rs. (h, rs) \<in> set hr \<and> rg_rules g = final_rules d rs)) \<and>
     (\<forall>g \<in> set groups. \<forall>g' \<in> set groups. rg_rules g = rg_rules g' \<longrightarrow> rg_hosts g \<noteq> [[]] \<longrightarrow> rg_hosts g' \<noteq> [[]] \<longrightarrow> g = g')"

lemma mset_by_key:
  "distinct ks \<Longrightarrow> mset (concat (map (\<lambda>k. filter (\<lambda>x. f x = k) xs) ks)) = mset (filter (\<lambda>x. f x \<in> set ks) xs)"
proof (induction ks)
  case (Cons k ks)
  have "filter (\<lambda>x. f x \<in> set (k # ks)) xs = filter (\<lambda>x. f x = k \<or> f x \<in> set ks) xs" by simp
  moreover have "mset (filter (\<lambda>x. f x = k \<or> f x \<in> set ks) xs) =
      mset (filter (\<lambda>x. f x = k) xs) + mset (filter (\<lambda>x. f x \<in> set ks) xs)"
    using Cons.prems by (induction xs) auto
  ultimately show ?case using Cons by simp
qed simp

lemma split_group_hosts:
  assumes "distinct hosts" and "hosts \<noteq> []"
  shows "mset (concat (map rg_hosts (split_group hosts rules))) = mset hosts"
proof -
  have "mset hosts = (if [] \<in> set hosts then {#[]#} else {#}) + mset (filter (\<lambda>h. h \<noteq> []) hosts)"
    using assms(1) by (induction hosts) (auto simp: filter_id_conv)
  moreover have "mset (sort (filter (\<lambda>h. h \<noteq> []) hosts)) = mset (filter (\<lambda>h. h \<noteq> []) hosts)" by simp
  ultimately show ?thesis
    unfolding split_group_alt [OF assms] Let_def
    by (cases "[] \<in> set hosts"; cases "sort (filter (\<lambda>h. h \<noteq> []) hosts) = []")
      (simp_all del: mset_sort mset_filter)
qed

lemma split_group_shape:
  assumes "distinct hosts" and "hosts \<noteq> []" and "g \<in> set (split_group hosts rules)"
  shows "rg_rules g = rules" and "set (rg_hosts g) \<subseteq> set hosts"
    and "rg_hosts g = [[]] \<or> rg_hosts g \<noteq> [] \<and> [] \<notin> set (rg_hosts g) \<and> sorted (rg_hosts g)"
    and "rg_hosts g \<noteq> [[]] \<Longrightarrow> rg_hosts g = sort (filter (\<lambda>h. h \<noteq> []) hosts)"
  using assms(3) unfolding split_group_alt [OF assms(1,2)] Let_def by (auto split: if_splits)

lemma group_hosts_grouping:
  assumes wf: "wf_gomap hr" and inj: "collision_free signature hr d"
  shows "grouping_of hr d (group_hosts signature hr d)"
proof -
  obtain R where G: "group_hosts signature hr d =
      concat (map (\<lambda>sig. split_group (map fst (signed signature d hr sig)) (R sig)) (signatures signature hr d))"
    and R: "\<And>x. x \<in> set hr \<Longrightarrow> R (host_signature signature d x) = final_rules d (snd x)"
    using group_hosts_eq [OF inj] by blast
  let ?H = "\<lambda>sig. map fst (signed signature d hr sig)" and ?S = "signatures signature hr d"
  have sigs: "set ?S = host_signature signature d ` set hr" "distinct ?S"
    by (simp_all add: signatures_def)
  have sgn: "signed signature d hr sig = filter (\<lambda>x. host_signature signature d x = sig) hr" for sig
    by (simp add: signed_def host_signature_def split_def)
  have dist: "distinct (?H sig)" for sig
    using wf unfolding sgn wf_gomap_def by (rule distinct_map_filter)
  have ne: "?H sig \<noteq> []" if "sig \<in> set ?S" for sig
    using that by (auto simp: sgn sigs filter_empty_conv)
  have Rsig: "R sig = final_rules d (snd x)" if "x \<in> set (signed signature d hr sig)" for sig x
    using that R [of x] by (auto simp: sgn)
  have mem: "\<exists>sig \<in> set ?S. g \<in> set (split_group (?H sig) (R sig))" if "g \<in> set (group_hosts signature hr d)" for g
    using that by (auto simp: G)
  have "mset (concat (map rg_hosts (group_hosts signature hr d))) = mset (concat (map ?H ?S))"
  proof -
    have "mset (concat (map rg_hosts (concat (map (\<lambda>sig. split_group (?H sig) (R sig)) ss)))) = mset (concat (map ?H ss))"
      if "set ss \<subseteq> set ?S" for ss
      using that
    proof (induction ss)
      case (Cons s ss)
      then have "mset (concat (map rg_hosts (split_group (?H s) (R s)))) = mset (?H s)"
        by (simp only: split_group_hosts [OF dist ne] list.set_intros subset_iff)
      with Cons show ?case
        by (simp only: list.map concat.simps map_append concat_append mset_append set_subset_Cons subset_trans list.set insert_subset)
    qed simp
    then show ?thesis unfolding G by blast
  qed
  also have "\<dots> = image_mset fst (mset (concat (map (\<lambda>sig. filter (\<lambda>x. host_signature signature d x = sig) hr) ?S)))"
    by (simp only: sgn map_concat [symmetric] map_map [symmetric] mset_map comp_def)
      (simp add: map_concat comp_def mset_map [symmetric] del: mset_map)
  also have "\<dots> = mset (map fst hr)"
  proof -
    have "filter (\<lambda>x. host_signature signature d x \<in> set ?S) hr = hr" by (auto simp: filter_id_conv sigs)
    then show ?thesis by (simp add: mset_by_key [OF sigs(2)])
  qed
  finally have part: "mset (concat (map rg_hosts (group_hosts signature hr d))) = mset (map fst hr)" .
  have shape: "(rg_hosts g = [[]] \<or> rg_hosts g \<noteq> [] \<and> [] \<notin> set (rg_hosts g) \<and> sorted (rg_hosts g)) \<and>
      (\<forall>h \<in> set (rg_hosts g). \<exists>rs. (h, rs) \<in> set hr \<and> rg_rules g = final_rules d rs)"
    if g: "g \<in> set (group_hosts signature hr d)" for g
  proof -
    obtain sig where sig: "sig \<in> set ?S" "g \<in> set (split_group (?H sig) (R sig))" using mem [OF g] by blast
    note sh = split_group_shape [OF dist ne [OF sig(1)] sig(2)]
    have "\<exists>rs. (h, rs) \<in> set hr \<and> rg_rules g = final_rules d rs" if h: "h \<in> set (rg_hosts g)" for h
    proof -
      obtain x where x: "x \<in> set (signed signature d hr sig)" "fst x = h" using sh(2) h by auto
      then have "(h, snd x) \<in> set hr" by (auto simp: sgn)
      with Rsig [OF x(1)] sh(1) show ?thesis by auto
    qed
    with sh(3) show ?thesis by blast
  qed
  have same: "g = g'"
    if asm: "g \<in> set (group_hosts signature hr d)" "g' \<in> set (group_hosts signature hr d)"
      "rg_rules g = rg_rules g'" "rg_hosts g \<noteq> [[]]" "rg_hosts g' \<noteq> [[]]" for g g'
  proof -
    obtain sig where sig: "sig \<in> set ?S" "g \<in> set (split_group (?H sig) (R sig))" using mem [OF asm(1)] by blast
    obtain sig' where sig': "sig' \<in> set ?S" "g' \<in> set (split_group (?H sig') (R sig'))" using mem [OF asm(2)] by blast
    note sh = split_group_shape [OF dist ne [OF sig(1)] sig(2)]
    note sh' = split_group_shape [OF dist ne [OF sig'(1)] sig'(2)]
    from sig(1) sig'(1) obtain x x' where x: "x \<in> set hr" "sig = host_signature signature d x"
      and x': "x' \<in> set hr" "sig' = host_signature signature d x'" by (auto simp: sigs)
    have "R sig = R sig'" using sh(1) sh'(1) asm(3) by simp
    then have "final_rules d (snd x) = final_rules d (snd x')" using R x x' by simp
    then have "sig = sig'" by (simp add: x(2) x'(2) host_signature_def)
    then show ?thesis using sh(1) sh(4) [OF asm(4)] sh'(1) sh'(4) [OF asm(5)] by simp
  qed
  show ?thesis unfolding grouping_of_def using part shape same by blast
qed

section \<open>What the routes serve\<close>

definition serves :: "'r gw_route \<Rightarrow> string \<Rightarrow> bool" where
  "serves route h \<longleftrightarrow> (if h = [] then gw_Hostnames route = [] else h \<in> set (gw_Hostnames route))"

definition declared_rules :: "(ingress_path \<Rightarrow> 'r \<times> string list) \<Rightarrow> string \<Rightarrow> string \<Rightarrow> ingress_rule list \<Rightarrow> string \<Rightarrow> 'r list" where
  "declared_rules conv replace suffix rules h =
     concat (map (\<lambda>r. if transformHostname (ir_Host r) replace suffix = h
                      then map (\<lambda>p. fst (conv p)) (case ir_HTTP r of None \<Rightarrow> [] | Some ps \<Rightarrow> ps) else []) rules)"

definition host_declared :: "string \<Rightarrow> string \<Rightarrow> ingress_rule list \<Rightarrow> string \<Rightarrow> bool" where
  "host_declared replace suffix rules h \<longleftrightarrow>
     (\<exists>r \<in> set rules. transformHostname (ir_Host r) replace suffix = h \<and>
        (case ir_HTTP r of None \<Rightarrow> h \<noteq> [] | Some ps \<Rightarrow> ps \<noteq> []))"

lemma rules_at_put: "rules_at (gomap_put k v m) k' = (if k' = k then v else rules_at m k')"
  by (simp add: rules_at_def map_of_put)

lemma collect_paths_spec:
  assumes "collect_paths conv host ps (m, ws) = (m', ws')"
  shows "wf_gomap m \<Longrightarrow> wf_gomap m'"
    and "rules_at m' h = rules_at m h @ (if h = host then map (\<lambda>p. fst (conv p)) ps else [])"
    and "map_of m' h = None \<longleftrightarrow> map_of m h = None \<and> \<not> (h = host \<and> ps \<noteq> [])"
proof -
  have "(wf_gomap m \<longrightarrow> wf_gomap m') \<and>
     (\<forall>h. rules_at m' h = rules_at m h @ (if h = host then map (\<lambda>p. fst (conv p)) ps else []) \<and>
        (map_of m' h = None \<longleftrightarrow> map_of m h = None \<and> \<not> (h = host \<and> ps \<noteq> [])))"
    using assms
  proof (induction conv host ps "(m, ws)" arbitrary: m ws rule: collect_paths.induct)
    case (2 conv host p ps m ws)
    obtain r w where c: "conv p = (r, w)" by fastforce
    let ?m = "gomap_put host (rules_at m host @ [r]) m"
    have "collect_paths conv host ps (?m, ws @ w) = (m', ws')" using 2(2) by (simp add: c)
    from 2(1) [OF c [symmetric] this] show ?case by (auto simp: rules_at_put map_of_put c)
  qed simp
  then show "wf_gomap m \<Longrightarrow> wf_gomap m'"
    and "rules_at m' h = rules_at m h @ (if h = host then map (\<lambda>p. fst (conv p)) ps else [])"
    and "map_of m' h = None \<longleftrightarrow> map_of m h = None \<and> \<not> (h = host \<and> ps \<noteq> [])" by blast+
qed

lemma collect_rules_spec:
  assumes "collect_rules conv replace suffix rules (m, ws) = (m', ws')" and "wf_gomap m"
  shows "wf_gomap m' \<and> rules_at m' h = rules_at m h @ declared_rules conv replace suffix rules h \<and>
     (map_of m' h = None \<longleftrightarrow> map_of m h = None \<and> \<not> host_declared replace suffix rules h)"
  using assms
proof (induction conv replace suffix rules "(m, ws)" arbitrary: m ws rule: collect_rules.induct)
  case (1 conv replace suffix m ws)
  then show ?case by (simp add: declared_rules_def host_declared_def)
next
  case (2 conv replace suffix rule rules m ws)
  let ?host = "transformHostname (ir_Host rule) replace suffix"
  show ?case
  proof (cases "ir_HTTP rule")
    case None
    let ?m = "if ?host \<noteq> [] \<and> map_of m ?host = None then gomap_put ?host [] m else m"
    have wf: "wf_gomap ?m" using 2(4) by simp
    have run: "collect_rules conv replace suffix rules (?m, ws) = (m', ws')" using 2(3) by (simp add: None Let_def)
    have "rules_at ?m h = rules_at m h" by (auto simp: rules_at_def map_of_put)
    moreover have "map_of ?m h = None \<longleftrightarrow> map_of m h = None \<and> \<not> (?host = h \<and> h \<noteq> [])"
      by (auto simp: map_of_put)
    ultimately show ?thesis using 2(1) [OF refl None run wf]
      by (auto simp: declared_rules_def host_declared_def None)
  next
    case (Some paths)
    obtain m1 w1 where c: "collect_paths conv ?host paths (m, ws) = (m1, w1)" by fastforce
    have run: "collect_rules conv replace suffix rules (m1, w1) = (m', ws')" using 2(3) by (simp add: Some Let_def c)
    note cp = collect_paths_spec [OF c]
    have "rules_at m1 h = rules_at m h @ (if ?host = h then map (\<lambda>p. fst (conv p)) paths else [])"
      using cp(2) [of h] by auto
    with cp(3) [of h] 2(2) [OF refl Some c run cp(1) [OF 2(4)]] show ?thesis
      by (auto simp: declared_rules_def host_declared_def Some)
  qed
qed

lemma filter_unique:
  assumes "distinct (concat (map f xs))" and "h \<in> set (concat (map f xs))"
  shows "\<exists>x \<in> set xs. filter (\<lambda>x. h \<in> set (f x)) xs = [x]"
  using assms
proof (induction xs)
  case (Cons x xs)
  show ?case
  proof (cases "h \<in> set (f x)")
    case True
    with Cons.prems have "filter (\<lambda>x. h \<in> set (f x)) xs = []" by (auto simp: filter_empty_conv)
    with True show ?thesis by simp
  next
    case False
    with Cons show ?thesis by simp
  qed
qed simp

lemma group_route_serves:
  assumes "rg_hosts g = [[]] \<or> rg_hosts g \<noteq> [] \<and> [] \<notin> set (rg_hosts g) \<and> sorted (rg_hosts g)"
  shows "serves (group_route ing pr name g) h \<longleftrightarrow> h \<in> set (rg_hosts g)"
  using assms by (cases "rg_hosts g") (auto simp: serves_def group_route_def group_hostnames_def)

lemma filter_map_enumerate:
  assumes "filter P xs = [x]"
  shows "\<exists>i. filter (\<lambda>(i, y). P y) (enumerate n xs) = [(i, x)]"
  using assms
proof (induction xs arbitrary: n)
  case (Cons y xs)
  have "filter (\<lambda>(i, y). P y) (enumerate m ys) = []" if "filter P ys = []" for m and ys :: "'a list"
    using that by (induction ys arbitrary: m) (auto split: if_splits)
  with Cons show ?case by (auto split: if_splits)
qed simp

lemma map_of_concat_hosts:
  assumes "grouping_of hr d groups"
  shows "set (concat (map rg_hosts groups)) = {h. map_of hr h \<noteq> None}"
proof -
  have "set (concat (map rg_hosts groups)) = set (map fst hr)"
    using assms unfolding grouping_of_def by (metis set_mset_mset)
  then show ?thesis by (simp add: map_of_eq_None_iff)
qed

lemma build_routes_serves:
  fixes routeName :: "string \<Rightarrow> nat \<Rightarrow> nat \<Rightarrow> string" and ing :: ingress and pr :: parent_ref
  assumes grp: "grouping_of hr d groups" and wf: "wf_gomap hr"
  defines "routes \<equiv> build_routes routeName ing pr groups d"
  shows "map_of hr h \<noteq> None \<Longrightarrow>
           \<exists>route. filter (\<lambda>r. serves r h) routes = [route] \<and> gw_Rules route = final_rules d (rules_at hr h)"
    and "map_of hr h = None \<Longrightarrow> hr \<noteq> [] \<Longrightarrow> filter (\<lambda>r. serves r h) routes = []"
proof -
  let ?r = "\<lambda>(i, g). group_route ing pr (routeName (om_Name (ing_Meta ing)) i (length groups)) g"
  have shape: "\<And>g. g \<in> set groups \<Longrightarrow> rg_hosts g = [[]] \<or> rg_hosts g \<noteq> [] \<and> [] \<notin> set (rg_hosts g) \<and> sorted (rg_hosts g)"
    and rules: "\<And>g h. g \<in> set groups \<Longrightarrow> h \<in> set (rg_hosts g) \<Longrightarrow> \<exists>rs. (h, rs) \<in> set hr \<and> rg_rules g = final_rules d rs"
    using grp unfolding grouping_of_def by blast+
  have hosts: "set (concat (map rg_hosts groups)) = {h. map_of hr h \<noteq> None}" by (rule map_of_concat_hosts [OF grp])
  have flt: "filter (\<lambda>r. serves r h) (map ?r (enumerate 0 groups)) =
      map ?r (filter (\<lambda>(i, g). h \<in> set (rg_hosts g)) (enumerate 0 groups))" for h
    unfolding filter_map
    by (intro arg_cong [where f = "map ?r"] filter_cong) (auto simp: comp_def group_route_serves shape in_set_enumerate_eq)
  have app: "routes = map ?r (enumerate 0 groups)" if "hr \<noteq> []"
  proof -
    from that obtain x where "x \<in> set hr" by (cases hr) auto
    then have "fst x \<in> set (concat (map rg_hosts groups))" unfolding hosts by (auto simp: map_of_eq_None_iff)
    then have "groups \<noteq> []" by auto
    then show ?thesis by (simp add: routes_def build_routes_def split: option.split)
  qed
  { assume h: "map_of hr h \<noteq> None"
    then have ne: "hr \<noteq> []" by auto
    have "distinct (concat (map rg_hosts groups))"
      using grp wf unfolding grouping_of_def wf_gomap_def by (metis mset_eq_imp_distinct_iff)
    with h hosts obtain g where g: "g \<in> set groups" "filter (\<lambda>g. h \<in> set (rg_hosts g)) groups = [g]"
      using filter_unique [of rg_hosts groups h] by blast
    have hg: "h \<in> set (rg_hosts g)" using arg_cong [OF g(2), of set] by auto
    from rules [OF g(1) hg] obtain rs where rs: "(h, rs) \<in> set hr" "rg_rules g = final_rules d rs" by blast
    have at: "rules_at hr h = rs" using rs(1) wf by (simp add: rules_at_def wf_gomap_map_of_mem)
    from filter_map_enumerate [OF g(2), of 0] obtain i where "filter (\<lambda>(i, y). h \<in> set (rg_hosts y)) (enumerate 0 groups) = [(i, g)]"
      by blast
    then have "filter (\<lambda>r. serves r h) routes = [?r (i, g)]" unfolding app [OF ne] flt by simp
    then show "\<exists>route. filter (\<lambda>r. serves r h) routes = [route] \<and> gw_Rules route = final_rules d (rules_at hr h)"
      by (simp add: group_route_def rs(2) at) }
  { assume "map_of hr h = None" and ne: "hr \<noteq> []"
    then have "h \<notin> set (concat (map rg_hosts groups))" unfolding hosts by simp
    then show "filter (\<lambda>r. serves r h) routes = []"
      unfolding app [OF ne] flt by (auto simp: filter_empty_conv in_set_enumerate_eq) }
qed

lemma http_routes_serve:
  assumes conv: "convertToHTTPRoutes marshal input parentRef filters ws = (routes, ws')"
    and free: "collision_free (rulesSignature marshal) (fst (http_host_rules input filters ws)) (fst (http_default_rule input filters))"
  shows "if host_declared (in_DomainReplace input) (in_DomainSuffix input) (ing_Rules (in_Ingress input)) h
     then \<exists>route. filter (\<lambda>r. serves r h) routes = [route] \<and>
        gw_Rules route = final_rules (fst (http_default_rule input filters))
          (declared_rules (http_path_rule input filters) (in_DomainReplace input) (in_DomainSuffix input) (ing_Rules (in_Ingress input)) h)
     else (\<exists>h'. host_declared (in_DomainReplace input) (in_DomainSuffix input) (ing_Rules (in_Ingress input)) h') \<longrightarrow>
        filter (\<lambda>r. serves r h) routes = []"
proof -
  obtain hr w where hr: "http_host_rules input filters ws = (hr, w)" by fastforce
  obtain d w' where d: "http_default_rule input filters = (d, w')" by fastforce
  have spec: "wf_gomap hr \<and> rules_at hr h = declared_rules (http_path_rule input filters) (in_DomainReplace input)
        (in_DomainSuffix input) (ing_Rules (in_Ingress input)) h \<and>
      (map_of hr h = None \<longleftrightarrow> \<not> host_declared (in_DomainReplace input) (in_DomainSuffix input) (ing_Rules (in_Ingress input)) h)" for h
    using collect_rules_spec [OF hr [unfolded http_host_rules_def], of h] by (simp add: rules_at_def)
  have r: "routes = build_routes generateRouteName (in_Ingress input) parentRef (groupHostsByRules marshal hr d) d"
    using conv by (simp add: convertToHTTPRoutes_def hr d)
  have grp: "grouping_of hr d (groupHostsByRules marshal hr d)"
    unfolding groupHostsByRules_def by (rule group_hosts_grouping) (use free spec in \<open>simp_all add: hr d\<close>)
  note serve = build_routes_serves [OF grp conjunct1 [OF spec], of h generateRouteName "in_Ingress input" parentRef, folded r]
  have "hr \<noteq> []" if "map_of hr h' \<noteq> None" for h' using that by auto
  then show ?thesis using serve spec by (simp add: d) blast
qed

lemma build_routes_names:
  fixes routeName :: "string \<Rightarrow> nat \<Rightarrow> nat \<Rightarrow> string"
  assumes "\<And>i j n. n \<noteq> 1 \<Longrightarrow> routeName (om_Name (ing_Meta ing)) i n = routeName (om_Name (ing_Meta ing)) j n \<Longrightarrow> i = j"
  shows "distinct (map gw_Name (build_routes routeName ing pr groups d))"
proof (cases "length groups \<le> 1")
  case True
  then have "groups = [] \<or> (\<exists>g. groups = [g])" by (cases groups) auto
  then show ?thesis by (auto simp: build_routes_def split: option.split)
next
  case False
  then have ne: "groups \<noteq> []" "length groups \<noteq> 1" by auto
  have "map gw_Name (build_routes routeName ing pr groups d) = map (\<lambda>i. routeName (om_Name (ing_Meta ing)) i (length groups)) [0..<length groups]"
    using ne(1) by (auto simp: build_routes_def group_route_def enumerate_eq_zip intro!: nth_equalityI split: option.split)
  also have "distinct \<dots>" unfolding distinct_map using assms [OF ne(2)] by (auto intro: inj_onI)
  finally show ?thesis .
qed

lemma generateRouteName_inj:
  "n \<noteq> 1 \<Longrightarrow> generateRouteName name i n = generateRouteName name j n \<Longrightarrow> i = j"
  by (simp add: generateRouteName_def)

text \<open>C24. Every host an Ingress declares is served by exactly one of the HTTPRoutes generated for it, whose rules are
  the rules of that host's paths in the order of the Ingress, each with the annotation filters and followed by the
  default backend's rule; a host the Ingress does not declare is served by none. The rules of two hosts are compared by
  a hash of their JSON, so the statement is relative to the absence of hash collisions among the Ingress's own rule
  lists.\<close>

theorem convertToHTTPRoutes_serves_every_host:
  assumes conv: "convertToHTTPRoutes marshal input parentRef filters ws = (routes, ws')"
    and free: "collision_free (rulesSignature marshal) (fst (http_host_rules input filters ws)) (fst (http_default_rule input filters))"
  shows "if host_declared (in_DomainReplace input) (in_DomainSuffix input) (ing_Rules (in_Ingress input)) h
     then \<exists>route. filter (\<lambda>r. serves r h) routes = [route] \<and>
        gw_Rules route = final_rules (fst (http_default_rule input filters))
          (declared_rules (http_path_rule input filters) (in_DomainReplace input) (in_DomainSuffix input) (ing_Rules (in_Ingress input)) h)
     else (\<exists>h'. host_declared (in_DomainReplace input) (in_DomainSuffix input) (ing_Rules (in_Ingress input)) h') \<longrightarrow>
        filter (\<lambda>r. serves r h) routes = []"
  by (rule http_routes_serve [OF assms])

definition sample_path :: "string \<Rightarrow> ingress_path" where
  "sample_path p = \<lparr> ip_Path = p, ip_PathType = Some PathTypePrefix,
     ip_Backend = \<lparr> ib_Service = Some \<lparr> sbk_Name = ''web'', sbk_PortNumber = 80, sbk_PortName = [] \<rparr>, ib_Resource = None \<rparr> \<rparr>"

definition sample_ingress :: ingress where
  "sample_ingress = \<lparr> ing_Meta = \<lparr> om_Name = ''shop'', om_Namespace = ''prod'', om_UID = ''u'', om_Labels = [], om_Annotations = None \<rparr>,
     ing_ClassName = None, ing_DefaultBackend = None,
     ing_Rules = [\<lparr> ir_Host = ''a.old'', ir_HTTP = Some [sample_path ''/'', sample_path ''/x''] \<rparr>,
                  \<lparr> ir_Host = ''b.org'', ir_HTTP = Some [sample_path ''/''] \<rparr>],
     ing_TLS = [] \<rparr>"

definition sample_conversion :: conversion_input where
  "sample_conversion = \<lparr> in_Ingress = sample_ingress, in_GatewayName = ''gw'', in_GatewayNamespace = ''kubelb'', in_Services = None,
     in_DomainReplace = ''old'', in_DomainSuffix = ''new'', in_SkipPolicyWarnings = False \<rparr>"

lemma collision_free_distinct:
  "distinct (map (\<lambda>x. signature (final_rules d (snd x))) hr) \<Longrightarrow> collision_free signature hr d"
  by (auto simp: collision_free_def distinct_map inj_on_def)

theorem convertToHTTPRoutes_serves_every_host_witness:
  "\<exists>route. filter (\<lambda>r. serves r ''a.new'')
       (fst (convertToHTTPRoutes (\<lambda>_. None) sample_conversion \<lparr> pr_Name = ''gw'', pr_Namespace = None \<rparr> [] [])) = [route] \<and>
     map hr_Matches (gw_Rules route) =
       [[\<lparr> hm_Path = Some (PathMatchPathPrefix, ''/'') \<rparr>], [\<lparr> hm_Path = Some (PathMatchPathPrefix, ''/x'') \<rparr>]]"
proof -
  let ?pr = "\<lparr> pr_Name = ''gw'', pr_Namespace = None \<rparr>"
  let ?out = "convertToHTTPRoutes (\<lambda>_. None) sample_conversion ?pr [] []"
  have free: "collision_free (rulesSignature (\<lambda>_. None)) (fst (http_host_rules sample_conversion [] []))
      (fst (http_default_rule sample_conversion []))"
    by (rule collision_free_distinct) code_simp
  have decl: "host_declared (in_DomainReplace sample_conversion) (in_DomainSuffix sample_conversion)
      (ing_Rules (in_Ingress sample_conversion)) ''a.new''" by code_simp
  have rules: "map hr_Matches (final_rules (fst (http_default_rule sample_conversion []))
        (declared_rules (http_path_rule sample_conversion []) (in_DomainReplace sample_conversion)
          (in_DomainSuffix sample_conversion) (ing_Rules (in_Ingress sample_conversion)) ''a.new'')) =
       [[\<lparr> hm_Path = Some (PathMatchPathPrefix, ''/'') \<rparr>], [\<lparr> hm_Path = Some (PathMatchPathPrefix, ''/x'') \<rparr>]]" by code_simp
  from convertToHTTPRoutes_serves_every_host [OF surjective_pairing [of ?out] free, of "''a.new''", unfolded if_P [OF decl]]
  show ?thesis by (elim exE conjE) (rule exI, rule conjI, assumption, simp only: rules)
qed

text \<open>The grouping of hosts into routes does not depend on the order in which the Go runtime iterates over the map
  of hosts: any two orders give the same groups in the same order, so reconciling an unchanged Ingress again produces the
  same routes.\<close>

theorem groupHostsByRules_order_independent:
  assumes wf: "wf_gomap hr" and perm: "mset hr' = mset hr" and free: "collision_free (rulesSignature marshal) hr d"
  shows "groupHostsByRules marshal hr' d = groupHostsByRules marshal hr d"
proof -
  let ?sig = "rulesSignature marshal"
  have set: "set hr' = set hr" using perm by (metis set_mset_mset)
  have free': "collision_free ?sig hr' d" using free by (simp add: collision_free_def set)
  obtain R where G: "group_hosts ?sig hr d = concat (map (\<lambda>s. split_group (map fst (signed ?sig d hr s)) (R s)) (signatures ?sig hr d))"
    and R: "\<And>x. x \<in> set hr \<Longrightarrow> R (host_signature ?sig d x) = final_rules d (snd x)"
    by (rule group_hosts_eq [OF free]) blast
  obtain R' where G': "group_hosts ?sig hr' d = concat (map (\<lambda>s. split_group (map fst (signed ?sig d hr' s)) (R' s)) (signatures ?sig hr' d))"
    and R': "\<And>x. x \<in> set hr' \<Longrightarrow> R' (host_signature ?sig d x) = final_rules d (snd x)"
    by (rule group_hosts_eq [OF free']) blast
  have sigs: "signatures ?sig hr' d = signatures ?sig hr d"
    unfolding signatures_def by (intro sorted_distinct_set_unique) (simp_all add: set)
  have "split_group (map fst (signed ?sig d hr' s)) (R' s) = split_group (map fst (signed ?sig d hr s)) (R s)"
    if "s \<in> set (signatures ?sig hr d)" for s
  proof -
    from that obtain x where "x \<in> set hr" "s = host_signature ?sig d x" by (auto simp: signatures_def)
    then have "R' s = R s" using R R' set by simp
    moreover have "sort (map fst (signed ?sig d hr' s)) = sort (map fst (signed ?sig d hr s))"
      by (rule properties_for_sort) (simp_all add: signed_def perm)
    ultimately show ?thesis by (simp add: split_group_def)
  qed
  then show ?thesis unfolding groupHostsByRules_def G G' sigs by (intro arg_cong [where f = concat] map_cong) simp_all
qed

theorem groupHostsByRules_order_independent_witness:
  "groupHostsByRules (\<lambda>_. None) [(''b'', []), (''a'', []), ([], [])] None =
   groupHostsByRules (\<lambda>_. None) [([], []), (''a'', []), (''b'', [])] None"
  by (rule groupHostsByRules_order_independent) (simp_all add: wf_gomap_def collision_free_def final_rules_def)

lemma has_prefix_iff: "has_prefix s p \<longleftrightarrow> (\<exists>q. s = p @ q)"
  unfolding has_prefix_def by (metis append_eq_conv_conj append_take_drop_id)

lemma has_suffix_iff: "has_suffix s p \<longleftrightarrow> (\<exists>q. s = q @ p)"
proof
  assume "has_suffix s p"
  then show "\<exists>q. s = q @ p" unfolding has_suffix_def by (metis append_take_drop_id)
qed (auto simp: has_suffix_def)

lemma trim_suffix_append: "trim_suffix (q @ p) p = q"
  by (auto simp: trim_suffix_def has_suffix_def)

definition wildcard_split :: "string \<Rightarrow> string \<times> string" where
  "wildcard_split host = (if has_prefix host ''*.'' then (''*.'', drop 2 host) else ([], host))"

lemma wildcard_split_append: "fst (wildcard_split host) @ snd (wildcard_split host) = host"
  by (auto simp: wildcard_split_def has_prefix_iff)

text \<open>The part of a host before the replaced domain: empty, or ending with a dot.\<close>

definition subdomain :: "string \<Rightarrow> bool" where
  "subdomain p \<longleftrightarrow> p = [] \<or> last p = CHR ''.''"

lemma transformHostname_unfold:
  assumes "replace \<noteq> []" and "suffix \<noteq> []" and "subdomain p" and "wildcard_split host = (w, p @ replace)"
  shows "transformHostname host replace suffix = w @ p @ suffix"
proof (cases "p = []")
  case True
  with assms show ?thesis by (auto simp: transformHostname_def Let_def wildcard_split_def split: if_splits)
next
  case False
  with assms(3) obtain q where p: "p = q @ ''.''" by (metis append_butlast_last_id subdomain_def)
  have e: "p @ replace = q @ (''.'' @ replace)" by (simp add: p)
  have "has_suffix (p @ replace) (''.'' @ replace)" unfolding has_suffix_iff e by blast
  moreover have "trim_suffix (p @ replace) (''.'' @ replace) = q" unfolding e by (rule trim_suffix_append)
  ultimately show ?thesis using assms False
    unfolding transformHostname_def Let_def wildcard_split_def by (auto simp: p split: if_splits)
qed

lemma transformHostname_changes:
  assumes "transformHostname host replace suffix \<noteq> host"
  obtains w p where "replace \<noteq> []" "suffix \<noteq> []" "subdomain p" "wildcard_split host = (w, p @ replace)"
proof -
  obtain w c where wc: "wildcard_split host = (w, c)" by fastforce
  have ne: "replace \<noteq> []" "suffix \<noteq> []" using assms by (auto simp: transformHostname_def)
  have "c = replace \<or> has_suffix c (''.'' @ replace)"
    using assms wc unfolding transformHostname_def Let_def wildcard_split_def by (auto split: if_splits)
  then have "\<exists>p. subdomain p \<and> c = p @ replace"
  proof
    assume "has_suffix c (''.'' @ replace)"
    then obtain q where "c = q @ ''.'' @ replace" by (auto simp: has_suffix_iff)
    then have "subdomain (q @ ''.'') \<and> c = (q @ ''.'') @ replace" by (simp add: subdomain_def)
    then show ?thesis by blast
  qed (simp add: subdomain_def)
  then show ?thesis using that ne wc by blast
qed

lemma wildcard_split_other_domain:
  assumes "wildcard_split host = (w, p @ replace)" and "subdomain p" and "\<not> has_prefix suffix ''*.''"
  shows "wildcard_split (w @ p @ suffix) = (w, p @ suffix)"
proof (cases "has_prefix host ''*.''")
  case True
  then have "w = ''*.''" using assms(1) by (simp add: wildcard_split_def)
  then show ?thesis by (simp add: wildcard_split_def has_prefix_def)
next
  case False
  then have w: "w = []" and host: "host = p @ replace" using assms(1) by (auto simp: wildcard_split_def)
  have "\<not> has_prefix (p @ suffix) ''*.''"
  proof (cases p)
    case (Cons c p')
    show ?thesis
    proof (cases p')
      case Nil
      with assms(2) show ?thesis by (simp add: Cons subdomain_def has_prefix_def)
    next
      case (Cons c' p'')
      with False \<open>p = c # p'\<close> show ?thesis by (simp add: host has_prefix_def)
    qed
  qed (use assms(3) in simp)
  then show ?thesis by (simp add: w wildcard_split_def)
qed

text \<open>Moving a host to another domain can be undone: a host that the domain replacement changes is mapped back to
  itself by the replacement in the other direction, so two Ingress hosts never collapse into one Gateway host. The new
  domain must not itself be a wildcard.\<close>

theorem transformHostname_roundtrip:
  assumes "transformHostname host replace suffix \<noteq> host" and "\<not> has_prefix suffix ''*.''"
  shows "transformHostname (transformHostname host replace suffix) suffix replace = host"
proof -
  from assms(1) obtain w p where ne: "replace \<noteq> []" "suffix \<noteq> []" and p: "subdomain p" and h: "wildcard_split host = (w, p @ replace)"
    by (rule transformHostname_changes)
  have "transformHostname host replace suffix = w @ p @ suffix"
    by (rule transformHostname_unfold [OF ne p h])
  moreover have "transformHostname (w @ p @ suffix) suffix replace = w @ p @ replace"
    by (rule transformHostname_unfold [OF ne(2,1) p wildcard_split_other_domain [OF h p assms(2)]])
  ultimately show ?thesis using wildcard_split_append [of host] by (simp add: h)
qed

theorem transformHostname_roundtrip_witness:
  "transformHostname ''*.shop.old.io'' ''old.io'' ''new.org'' = ''*.shop.new.org'' \<and>
   transformHostname (transformHostname ''*.shop.old.io'' ''old.io'' ''new.org'') ''new.org'' ''old.io'' = ''*.shop.old.io''"
proof
  show e: "transformHostname ''*.shop.old.io'' ''old.io'' ''new.org'' = ''*.shop.new.org''" by code_simp
  show "transformHostname (transformHostname ''*.shop.old.io'' ''old.io'' ''new.org'') ''new.org'' ''old.io'' = ''*.shop.old.io''"
    by (rule transformHostname_roundtrip) (unfold e, code_simp+)
qed

end
