(* ===== verification/Kube_Api.thy ===== *)
theory Kube_Api
  imports Api_Types
begin

text \<open>
  The Kubernetes API server as the controllers see it. The server is not part of the sources: a handler takes it as an
  argument, per kind of object a record of functions for \<^verbatim>\<open>Get\<close>, \<^verbatim>\<open>Create\<close>, \<^verbatim>\<open>Update\<close> and \<^verbatim>\<open>Delete\<close>
  on an arbitrary state type. What a statement needs of the server is the locale \<open>object_store\<close>: an object is found
  under its own key, and a successful write changes the object of that key only.
\<close>

datatype 'a get_result = Found 'a | NotFound | GetError string

datatype delete_result = Deleted | AlreadyGone | DeleteError string

type_synonym nsname = "string \<times> string"

record ('s, 'o) crud =
  c_get :: "nsname \<Rightarrow> 's \<Rightarrow> 'o get_result"
  c_create :: "'o \<Rightarrow> 's \<Rightarrow> 's \<times> string option"
  c_update :: "'o \<Rightarrow> 's \<Rightarrow> 's \<times> string option"
  c_delete :: "nsname \<Rightarrow> 's \<Rightarrow> 's \<times> delete_result"

text \<open>The writes to one kind, whatever they return.\<close>

definition writes :: "('s, 'o) crud \<Rightarrow> 's \<Rightarrow> 's \<Rightarrow> bool" where
  "writes c s s' \<longleftrightarrow>
     (\<exists>x r. c_create c x s = (s', r)) \<or> (\<exists>x r. c_update c x s = (s', r)) \<or> (\<exists>k r. c_delete c k s = (s', r))"

lemma writesI [intro]:
  "c_create c x s = (s', r) \<Longrightarrow> writes c s s'" "c_update c x s = (s', r) \<Longrightarrow> writes c s s'" "c_delete c k s = (s', d) \<Longrightarrow> writes c s s'"
  unfolding writes_def by blast+

text \<open>An event of a watch, and the predicates of \<^verbatim>\<open>internal/util/predicate/predicate.go\<close> on it. The
  predicate functions that a \<^verbatim>\<open>Funcs\<close> value leaves unset accept every event.\<close>

datatype 'o event = CreateEvent 'o | UpdateEvent 'o 'o | DeleteEvent 'o | GenericEvent 'o

definition MultiFactory :: "('o \<Rightarrow> bool) \<Rightarrow> ('o \<Rightarrow> bool) \<Rightarrow> ('o \<Rightarrow> bool) \<Rightarrow> 'o event \<Rightarrow> bool" where
  "MultiFactory createFilter updateFilter deleteFilter e =
     (case e of
        CreateEvent x \<Rightarrow> createFilter x
      | UpdateEvent old new \<Rightarrow> updateFilter old \<or> updateFilter new
      | DeleteEvent x \<Rightarrow> deleteFilter x
      | GenericEvent _ \<Rightarrow> True)"

definition TypedFactory :: "('o \<Rightarrow> bool) option \<Rightarrow> 'o event \<Rightarrow> bool" where
  "TypedFactory flt e =
     (case flt of
        None \<Rightarrow> True
      | Some f \<Rightarrow>
          (case e of
             CreateEvent x \<Rightarrow> f x
           | UpdateEvent old new \<Rightarrow> f old \<or> f new
           | DeleteEvent x \<Rightarrow> f x
           | GenericEvent _ \<Rightarrow> True))"

definition Factory :: "('o \<Rightarrow> bool) option \<Rightarrow> 'o event \<Rightarrow> bool" where
  "Factory flt = TypedFactory flt"

definition ByNamespace :: "string \<Rightarrow> object_meta event \<Rightarrow> bool" where
  "ByNamespace namespace = Factory (Some (\<lambda>x. om_Namespace x = namespace))"

definition TypedByName :: "string list \<Rightarrow> object_meta event \<Rightarrow> bool" where
  "TypedByName names = TypedFactory (Some (\<lambda>x. om_Name x \<in> set names))"

definition ByName :: "string list \<Rightarrow> object_meta event \<Rightarrow> bool" where
  "ByName names = TypedByName names"

definition ByLabel :: "string \<Rightarrow> string \<Rightarrow> object_meta event \<Rightarrow> bool" where
  "ByLabel k v = Factory (Some (\<lambda>x. map_of (om_Labels x) k = Some v))"

definition ByLabelExists :: "string \<Rightarrow> object_meta event \<Rightarrow> bool" where
  "ByLabelExists k = Factory (Some (\<lambda>x. map_of (om_Labels x) k \<noteq> None))"

definition ByAnnotation :: "string \<Rightarrow> string \<Rightarrow> bool \<Rightarrow> object_meta event \<Rightarrow> bool" where
  "ByAnnotation k v checkValue = Factory (Some (\<lambda>x.
     case om_Annotations x of
       None \<Rightarrow> False
     | Some annotations \<Rightarrow>
         (case map_of annotations k of None \<Rightarrow> False | Some existing \<Rightarrow> (\<not> checkValue \<or> existing = v))))"

definition TrueFilter :: "'o \<Rightarrow> bool" where
  "TrueFilter x = True"

locale object_store =
  fixes c :: "('s, 'o) crud" and key :: "'o \<Rightarrow> nsname"
  assumes get_key: "c_get c k s = Found x \<Longrightarrow> key x = k"
    and create_get: "c_create c x s = (s', None) \<Longrightarrow> c_get c k s' = (if k = key x then Found x else c_get c k s)"
    and update_get: "c_update c x s = (s', None) \<Longrightarrow> c_get c k s' = (if k = key x then Found x else c_get c k s)"
    and delete_get: "c_delete c k0 s = (s', r) \<Longrightarrow> r = Deleted \<or> r = AlreadyGone \<Longrightarrow>
      c_get c k s' = (if k = k0 then NotFound else c_get c k s)"

text \<open>Objects with finalizers: a deletion only marks an object that has finalizers left (\<open>held\<close> is what then
  remains of it), and the update that takes the last finalizer from a marked object (\<open>gone\<close>) removes it. Kinds
  without finalizers are the special case in which nothing is held and nothing goes by an update.\<close>

locale finalized_store =
  fixes c :: "('s, 'o) crud" and key :: "'o \<Rightarrow> nsname" and gone :: "'o \<Rightarrow> bool" and held :: "'o \<Rightarrow> 'o option"
  assumes get_key: "c_get c k s = Found x \<Longrightarrow> key x = k"
    and stored: "c_get c k s = Found x \<Longrightarrow> \<not> gone x"
    and create_get: "c_create c x s = (s', None) \<Longrightarrow> c_get c k s' = (if k = key x then Found x else c_get c k s)"
    and update_get: "c_update c x s = (s', None) \<Longrightarrow>
      c_get c k s' = (if k = key x then (if gone x then NotFound else Found x) else c_get c k s)"
    and delete_get: "c_delete c k0 s = (s', r) \<Longrightarrow> r = Deleted \<or> r = AlreadyGone \<Longrightarrow>
      c_get c k s' = (if k = k0 then
        (case c_get c k0 s of Found x \<Rightarrow> (case held x of None \<Rightarrow> NotFound | Some y \<Rightarrow> Found y) | _ \<Rightarrow> NotFound)
        else c_get c k s)"

sublocale object_store \<subseteq> fin: finalized_store c key "\<lambda>_. False" "\<lambda>_. None"
  by unfold_locales (auto simp: get_key create_get update_get delete_get split: get_result.split)

text \<open>An in-memory store keeps the promise. A kind that is never stored is \<open>absent_crud\<close>.\<close>

definition mem_crud :: "('o \<Rightarrow> nsname) \<Rightarrow> ((nsname, 'o) gomap, 'o) crud" where
  "mem_crud key =
     \<lparr> c_get = \<lambda>k s. (case map_of s k of None \<Rightarrow> NotFound | Some x \<Rightarrow> if key x = k then Found x else NotFound),
       c_create = \<lambda>x s. (gomap_put (key x) x s, None),
       c_update = \<lambda>x s. (gomap_put (key x) x s, None),
       c_delete = \<lambda>k s. (gomap_del k s, if map_of s k = None then AlreadyGone else Deleted) \<rparr>"

definition absent_crud :: "('s, 'o) crud" where
  "absent_crud = \<lparr> c_get = \<lambda>_ _. NotFound, c_create = \<lambda>_ s. (s, None), c_update = \<lambda>_ s. (s, None),
     c_delete = \<lambda>_ s. (s, AlreadyGone) \<rparr>"

lemma map_of_delete_other: "map_of (gomap_del k m) n = (if n = k then None else map_of m n)"
  by (simp add: delete_conv' fun_upd_def)

interpretation mem: object_store "mem_crud key" key
proof
  show "c_get (mem_crud key) k s = Found x \<Longrightarrow> key x = k" for k s x
    by (simp add: mem_crud_def split: option.splits if_splits)
  show "c_create (mem_crud key) x s = (s', None) \<Longrightarrow> c_get (mem_crud key) k s' = (if k = key x then Found x else c_get (mem_crud key) k s)"
    for x s s' k by (cases "k = key x") (auto simp: mem_crud_def map_of_put)
  show "c_update (mem_crud key) x s = (s', None) \<Longrightarrow> c_get (mem_crud key) k s' = (if k = key x then Found x else c_get (mem_crud key) k s)"
    for x s s' k by (cases "k = key x") (auto simp: mem_crud_def map_of_put)
  show "c_delete (mem_crud key) k0 s = (s', r) \<Longrightarrow> r = Deleted \<or> r = AlreadyGone \<Longrightarrow>
      c_get (mem_crud key) k s' = (if k = k0 then NotFound else c_get (mem_crud key) k s)" for k0 s s' r k
    by (cases "k = k0") (auto simp: mem_crud_def map_of_delete_other)
qed

definition mem_finalized :: "('o \<Rightarrow> nsname) \<Rightarrow> ('o \<Rightarrow> bool) \<Rightarrow> ('o \<Rightarrow> 'o option) \<Rightarrow> ((nsname, 'o) gomap, 'o) crud" where
  "mem_finalized key gone held =
     \<lparr> c_get = \<lambda>k s. (case map_of s k of None \<Rightarrow> NotFound | Some x \<Rightarrow> if key x = k \<and> \<not> gone x then Found x else NotFound),
       c_create = \<lambda>x s. (if gone x then (s, Some ''invalid'') else (gomap_put (key x) x s, None)),
       c_update = \<lambda>x s. (if gone x then gomap_del (key x) s else gomap_put (key x) x s, None),
       c_delete = \<lambda>k s. (case map_of s k of
         None \<Rightarrow> (s, AlreadyGone)
       | Some x \<Rightarrow> (case (if key x = k \<and> \<not> gone x then held x else None) of
             None \<Rightarrow> (gomap_del k s, Deleted)
           | Some y \<Rightarrow> if key y = k \<and> \<not> gone y then (gomap_put k y s, Deleted) else (s, DeleteError ''invalid''))) \<rparr>"

interpretation mem_fin: finalized_store "mem_finalized key gone held" key gone held
proof
  let ?c = "mem_finalized key gone held"
  note simps = mem_finalized_def map_of_put map_of_delete_other
  show "c_get ?c k s = Found x \<Longrightarrow> key x = k" and "c_get ?c k s = Found x \<Longrightarrow> \<not> gone x" for k s x
    by (simp_all add: simps split: option.splits if_splits)
  show "c_create ?c x s = (s', None) \<Longrightarrow> c_get ?c k s' = (if k = key x then Found x else c_get ?c k s)" for x s s' k
    by (cases "k = key x") (auto simp: simps split: if_splits)
  show "c_update ?c x s = (s', None) \<Longrightarrow>
      c_get ?c k s' = (if k = key x then (if gone x then NotFound else Found x) else c_get ?c k s)" for x s s' k
    by (cases "k = key x") (auto simp: simps)
  show "c_get ?c k s' = (if k = k0 then
        (case c_get ?c k0 s of Found x \<Rightarrow> (case held x of None \<Rightarrow> NotFound | Some y \<Rightarrow> Found y) | _ \<Rightarrow> NotFound)
        else c_get ?c k s)" if "c_delete ?c k0 s = (s', r)" and "r = Deleted \<or> r = AlreadyGone" for k0 s s' r k
    using that by (cases "k = k0") (auto simp: simps split: option.splits if_splits)
qed

text \<open>A store that is one part of a larger state.\<close>

definition part_crud :: "('s \<Rightarrow> 'p) \<Rightarrow> ('p \<Rightarrow> 's \<Rightarrow> 's) \<Rightarrow> ('p, 'o) crud \<Rightarrow> ('s, 'o) crud" where
  "part_crud part put c =
     \<lparr> c_get = \<lambda>k s. c_get c k (part s),
       c_create = \<lambda>x s. (case c_create c x (part s) of (p, r) \<Rightarrow> (put p s, r)),
       c_update = \<lambda>x s. (case c_update c x (part s) of (p, r) \<Rightarrow> (put p s, r)),
       c_delete = \<lambda>k s. (case c_delete c k (part s) of (p, r) \<Rightarrow> (put p s, r)) \<rparr>"

lemma part_finalized:
  assumes store: "finalized_store c key gone held" and "\<And>p s. part (put p s) = p"
  shows "finalized_store (part_crud part put c) key gone held"
proof
  let ?c = "part_crud part put c"
  note simps = part_crud_def assms(2)
  show "c_get ?c k s = Found x \<Longrightarrow> key x = k" and "c_get ?c k s = Found x \<Longrightarrow> \<not> gone x" for k s x
    using finalized_store.get_key [OF store] finalized_store.stored [OF store] by (simp_all add: simps)
  show "c_get ?c k s' = (if k = key x then Found x else c_get ?c k s)" if "c_create ?c x s = (s', None)" for x s s' k
    using that by (auto simp: simps finalized_store.create_get [OF store] split: prod.splits)
  show "c_get ?c k s' = (if k = key x then (if gone x then NotFound else Found x) else c_get ?c k s)"
    if "c_update ?c x s = (s', None)" for x s s' k
    using that by (auto simp: simps finalized_store.update_get [OF store] split: prod.splits)
  show "c_get ?c k s' = (if k = k0 then
        (case c_get ?c k0 s of Found x \<Rightarrow> (case held x of None \<Rightarrow> NotFound | Some y \<Rightarrow> Found y) | _ \<Rightarrow> NotFound)
        else c_get ?c k s)" if run: "c_delete ?c k0 s = (s', r)" and r: "r = Deleted \<or> r = AlreadyGone" for k0 s s' r k
  proof -
    from run obtain p where "c_delete c k0 (part s) = (p, r)" "s' = put p s" by (auto simp: simps split: prod.splits)
    then show ?thesis using finalized_store.delete_get [OF store _ r] by (simp add: simps)
  qed
qed

lemma object_store_finalized: "object_store c key \<longleftrightarrow> finalized_store c key (\<lambda>_. False) (\<lambda>_. None)"
proof
  show "object_store c key \<Longrightarrow> finalized_store c key (\<lambda>_. False) (\<lambda>_. None)"
    by unfold_locales (auto simp: object_store.create_get object_store.update_get object_store.delete_get
        object_store.get_key split: get_result.split)
  assume fin: "finalized_store c key (\<lambda>_. False) (\<lambda>_. None)"
  show "object_store c key"
    by unfold_locales (auto simp: finalized_store.create_get [OF fin] finalized_store.update_get [OF fin]
      finalized_store.delete_get [OF fin] finalized_store.get_key [OF fin] split: get_result.split)
qed

lemma part_store:
  assumes "object_store c key" and "\<And>p s. part (put p s) = p"
  shows "object_store (part_crud part put c) key"
  using assms unfolding object_store_finalized by (rule part_finalized)

lemma part_writes:
  assumes "writes (part_crud part put c) s s'"
  shows "\<exists>p. s' = put p s"
proof -
  from assms consider x r where "c_create (part_crud part put c) x s = (s', r)" | x r where "c_update (part_crud part put c) x s = (s', r)"
    | k r where "c_delete (part_crud part put c) k s = (s', r)" unfolding writes_def by blast
  then show ?thesis
  proof cases
    case (1 x r)
    then have "s' = put (fst (c_create c x (part s))) s" by (simp add: part_crud_def split: prod.splits)
    then show ?thesis by (rule exI)
  next
    case (2 x r)
    then have "s' = put (fst (c_update c x (part s))) s" by (simp add: part_crud_def split: prod.splits)
    then show ?thesis by (rule exI)
  next
    case (3 k r)
    then have "s' = put (fst (c_delete c k (part s))) s" by (simp add: part_crud_def split: prod.splits)
    then show ?thesis by (rule exI)
  qed
qed

end
