(* ===== verification/Gateway_Listeners.thy ===== *)
theory Gateway_Listeners
  imports Ingress_Converter Kube_Api
begin

text \<open>
  The shared Gateway of the Ingress conversion: building and merging its listeners
  (\<^verbatim>\<open>pkg/conversion/gateway.go\<close>) and keeping the Gateway object up to date
  (\<^verbatim>\<open>internal/ingress-to-gateway/gateway.go\<close>), and the conversion flags (\<^verbatim>\<open>pkg/conversion/options.go\<close>).

  An API request of the reconciler is a value: the answer of \<^verbatim>\<open>Get\<close> is an argument (\<open>get_result\<close>), and the
  write it decides on is the result (\<open>gateway_action\<close>). Of a listener the model has the fields the code reads or
  writes.
\<close>

section \<open>Objects\<close>

record certificate_ref =
  cref_Name :: string
  cref_Namespace :: "string option"

record listener_tls =
  lt_Mode :: "string option"
  lt_CertificateRefs :: "certificate_ref list"

record route_namespaces =
  rn_From :: "string option"

record allowed_routes =
  alr_Namespaces :: "route_namespaces option"

record gw_listener =
  gl_Name :: string
  gl_Hostname :: "string option"
  gl_Port :: int
  gl_Protocol :: string
  gl_AllowedRoutes :: "allowed_routes option"
  gl_TLS :: "listener_tls option"

record GatewayConfig =
  gc_Name :: string
  gc_Namespace :: string
  gc_ClassName :: string
  gc_TLSListeners :: "tls_listener list"
  gc_Annotations :: strmap
  gc_ManagedBy :: string

record gateway =
  gtw_Meta :: object_meta
  gtw_ClassName :: string
  gtw_Listeners :: "gw_listener list"

definition ControllerName :: string where "ControllerName = ''ingress-conversion-controller''"
definition ListenerNameHTTP :: string where "ListenerNameHTTP = ''http''"
definition conversion_LabelManagedBy :: string where "conversion_LabelManagedBy = ''kubelb.k8c.io/managed-by''"
definition ExternalDNSAnnotationPrefix :: string where
  "ExternalDNSAnnotationPrefix = ''external-dns.alpha.kubernetes.io/''"
definition ExternalDNSTarget :: string where "ExternalDNSTarget = ''external-dns.alpha.kubernetes.io/target''"

section \<open>Listeners (pkg/conversion/gateway.go)\<close>

definition ListenerNameFromHostname :: "string \<Rightarrow> string" where
  "ListenerNameFromHostname hostname =
     (if hostname = ''*'' then ''https-wildcard''
      else ''https-'' @ replace_char (CHR ''*'') ''wildcard'' (replace_char (CHR ''.'') ''-'' hostname))"

definition allow_all :: "allowed_routes option" where
  "allow_all = Some \<lparr> alr_Namespaces = Some \<lparr> rn_From = Some ''All'' \<rparr> \<rparr>"

definition http_listener :: gw_listener where
  "http_listener = \<lparr> gl_Name = ListenerNameHTTP, gl_Hostname = None, gl_Port = 80, gl_Protocol = ''HTTP'',
     gl_AllowedRoutes = allow_all, gl_TLS = None \<rparr>"

definition https_listener :: "tls_listener \<Rightarrow> gw_listener" where
  "https_listener tls =
     \<lparr> gl_Name = ListenerNameFromHostname (tl_Hostname tls), gl_Hostname = Some (tl_Hostname tls), gl_Port = 443,
       gl_Protocol = ''HTTPS'', gl_AllowedRoutes = allow_all,
       gl_TLS = Some \<lparr> lt_Mode = Some ''Terminate'',
                       lt_CertificateRefs = [\<lparr> cref_Name = tl_SecretName tls, cref_Namespace = None \<rparr>] \<rparr> \<rparr>"

fun https_listeners :: "string list \<Rightarrow> tls_listener list \<Rightarrow> gw_listener list" where
  "https_listeners seen [] = []"
| "https_listeners seen (tls # rest) =
     (if tl_Hostname tls \<in> set seen then https_listeners seen rest
      else https_listener tls # https_listeners (tl_Hostname tls # seen) rest)"

definition BuildListeners :: "tls_listener list \<Rightarrow> gw_listener list" where
  "BuildListeners tlsListeners = http_listener # https_listeners [] tlsListeners"

definition BuildGateway :: "GatewayConfig \<Rightarrow> gateway" where
  "BuildGateway config =
     (let managedBy = (if gc_ManagedBy config = [] then ControllerName else gc_ManagedBy config)
      in \<lparr> gtw_Meta = \<lparr> om_Name = gc_Name config, om_Namespace = gc_Namespace config, om_UID = [],
             om_Labels = [(conversion_LabelManagedBy, managedBy)], om_Annotations = Some (gc_Annotations config) \<rparr>,
           gtw_ClassName = gc_ClassName config,
           gtw_Listeners = BuildListeners (gc_TLSListeners config) \<rparr>)"

definition by_name :: "gw_listener list \<Rightarrow> (string, gw_listener) gomap" where
  "by_name ls = fold (\<lambda>l m. gomap_put (gl_Name l) l m) ls []"

fun merge_existing ::
  "gw_listener list \<Rightarrow> (string, gw_listener) gomap \<Rightarrow> gw_listener list \<times> (string, gw_listener) gomap" where
  "merge_existing [] desiredByName = ([], desiredByName)"
| "merge_existing (e # es) desiredByName =
     (case map_of desiredByName (gl_Name e) of
        Some d \<Rightarrow> (case merge_existing es (gomap_del (gl_Name e) desiredByName) of (r, m) \<Rightarrow> (d # r, m))
      | None \<Rightarrow> (case merge_existing es desiredByName of (r, m) \<Rightarrow> (e # r, m)))"

definition MergeListeners :: "gw_listener list \<Rightarrow> gw_listener list \<Rightarrow> gw_listener list" where
  "MergeListeners existing desired =
     (case merge_existing existing (by_name desired) of (result, desiredByName) \<Rightarrow>
        result @ filter (\<lambda>l. map_of desiredByName (gl_Name l) \<noteq> None) desired)"

section \<open>Comparing listeners (internal/ingress-to-gateway/gateway.go)\<close>

definition opt_eq :: "('a \<Rightarrow> 'a \<Rightarrow> bool) \<Rightarrow> 'a option \<Rightarrow> 'a option \<Rightarrow> bool" where
  "opt_eq eq a b = (case (a, b) of (None, None) \<Rightarrow> True | (Some x, Some y) \<Rightarrow> eq x y | _ \<Rightarrow> False)"

definition certificate_ref_equal :: "certificate_ref \<Rightarrow> certificate_ref \<Rightarrow> bool" where
  "certificate_ref_equal a b \<longleftrightarrow> cref_Name a = cref_Name b \<and> opt_eq (=) (cref_Namespace a) (cref_Namespace b)"

definition listenerConfigEqual :: "gw_listener \<Rightarrow> gw_listener \<Rightarrow> bool" where
  "listenerConfigEqual a b \<longleftrightarrow>
     gl_Port a = gl_Port b \<and> gl_Protocol a = gl_Protocol b \<and>
     opt_eq (=) (gl_Hostname a) (gl_Hostname b) \<and>
     opt_eq (\<lambda>x y. opt_eq (\<lambda>n m. opt_eq (=) (rn_From n) (rn_From m)) (alr_Namespaces x) (alr_Namespaces y))
       (gl_AllowedRoutes a) (gl_AllowedRoutes b) \<and>
     opt_eq (\<lambda>x y. opt_eq (=) (lt_Mode x) (lt_Mode y) \<and>
                    length (lt_CertificateRefs x) = length (lt_CertificateRefs y) \<and>
                    list_all (\<lambda>(r, s). certificate_ref_equal r s) (zip (lt_CertificateRefs x) (lt_CertificateRefs y)))
       (gl_TLS a) (gl_TLS b)"

definition listenersEqual :: "gw_listener list \<Rightarrow> gw_listener list \<Rightarrow> bool" where
  "listenersEqual a b \<longleftrightarrow>
     length a = length b \<and>
     list_all (\<lambda>lb. case map_of (by_name a) (gl_Name lb) of None \<Rightarrow> False | Some la \<Rightarrow> listenerConfigEqual la lb) b"

section \<open>Reconciling the Gateway (internal/ingress-to-gateway/gateway.go)\<close>

record Reconciler =
  r_GatewayName :: string
  r_GatewayNamespace :: string
  r_GatewayClassName :: string
  r_IngressClass :: string
  r_DomainReplace :: string
  r_DomainSuffix :: string
  r_PropagateExternalDNS :: bool
  r_GatewayAnnotations :: strmap
  r_DisableEnvoyGatewayFeatures :: bool
  r_CopyTLSSecrets :: bool

datatype gateway_action = CreateGateway gateway | UpdateGateway gateway | KeepGateway | GatewayFailure string

definition extractGatewayAnnotations :: "Reconciler \<Rightarrow> ingress \<Rightarrow> strmap" where
  "extractGatewayAnnotations r ing =
     (let result = maps_copy [] (r_GatewayAnnotations r)
      in case om_Annotations (ing_Meta ing) of
           None \<Rightarrow> result
         | Some ann \<Rightarrow>
             (if r_PropagateExternalDNS r
              then (case map_of ann ExternalDNSTarget of
                      Some target \<Rightarrow> gomap_put ExternalDNSTarget target result
                    | None \<Rightarrow> result)
              else result))"

definition extractHTTPRouteAnnotations :: "Reconciler \<Rightarrow> ingress \<Rightarrow> strmap" where
  "extractHTTPRouteAnnotations r ing =
     (case om_Annotations (ing_Meta ing) of
        None \<Rightarrow> []
      | Some ann \<Rightarrow>
          (if \<not> r_PropagateExternalDNS r then []
           else maps_copy [] (filter (\<lambda>(k, v). has_prefix k ExternalDNSAnnotationPrefix \<and> k \<noteq> ExternalDNSTarget) ann)))"

definition merge_annotation :: "string \<times> string \<Rightarrow> strmap \<times> bool \<Rightarrow> strmap \<times> bool" where
  "merge_annotation kv st =
     (case (kv, st) of ((k, v), (ann, updated)) \<Rightarrow> if str_at ann k \<noteq> v then (gomap_put k v ann, True) else (ann, updated))"

definition gateway_namespace :: "Reconciler \<Rightarrow> ingress \<Rightarrow> string" where
  "gateway_namespace r ing = (if r_GatewayNamespace r = [] then om_Namespace (ing_Meta ing) else r_GatewayNamespace r)"

definition gateway_config :: "Reconciler \<Rightarrow> ingress \<Rightarrow> tls_listener list \<Rightarrow> GatewayConfig" where
  "gateway_config r ing tlsListeners =
     \<lparr> gc_Name = r_GatewayName r, gc_Namespace = gateway_namespace r ing, gc_ClassName = r_GatewayClassName r,
       gc_TLSListeners = tlsListeners, gc_Annotations = extractGatewayAnnotations r ing, gc_ManagedBy = [] \<rparr>"

definition update_gateway :: "GatewayConfig \<Rightarrow> gateway \<Rightarrow> gateway_action" where
  "update_gateway config existing =
     (let newListeners = MergeListeners (gtw_Listeners existing) (BuildListeners (gc_TLSListeners config));
          changed = \<not> listenersEqual (gtw_Listeners existing) newListeners;
          existing' = (if changed then existing\<lparr> gtw_Listeners := newListeners \<rparr> else existing);
          ann = (case om_Annotations (gtw_Meta existing) of None \<Rightarrow> [] | Some m \<Rightarrow> m);
          (ann', updated) = fold merge_annotation (gc_Annotations config) (ann, changed)
      in if updated
         then UpdateGateway (existing'\<lparr> gtw_Meta := (gtw_Meta existing')\<lparr> om_Annotations := Some ann' \<rparr> \<rparr>)
         else KeepGateway)"

definition reconcileGateway :: "Reconciler \<Rightarrow> ingress \<Rightarrow> tls_listener list \<Rightarrow> gateway get_result \<Rightarrow> gateway_action" where
  "reconcileGateway r ing tlsListeners answer =
     (let config = gateway_config r ing tlsListeners
      in case answer of
           NotFound \<Rightarrow> CreateGateway (BuildGateway config)
         | GetError e \<Rightarrow> GatewayFailure (''failed to get Gateway: '' @ e)
         | Found existing \<Rightarrow> update_gateway config existing)"

section \<open>Flags (pkg/conversion/options.go)\<close>

record Options =
  opt_StandaloneMode :: bool
  opt_Enabled :: bool
  opt_GatewayName :: string
  opt_GatewayNamespace :: string
  opt_GatewayClassName :: string
  opt_IngressClass :: string
  opt_DomainReplace :: string
  opt_DomainSuffix :: string
  opt_PropagateExternalDNS :: bool
  opt_GatewayAnnotations :: strmap
  opt_DisableEnvoyGatewayFeatures :: bool
  opt_CopyTLSSecrets :: bool

definition Validate :: "Options \<Rightarrow> string option" where
  "Validate opts =
     (if (opt_Enabled opts \<or> opt_StandaloneMode opts) \<and> opt_GatewayNamespace opts = []
      then Some ''--conversion-gateway-namespace is required'' else None)"

definition set_pair :: "string \<Rightarrow> strmap \<Rightarrow> strmap" where
  "set_pair pair m =
     (case split_n2 (CHR ''='') pair of
        [k, v] \<Rightarrow> gomap_put (trim_space k) (trim_space v) m
      | _ \<Rightarrow> m)"

definition Set :: "string \<Rightarrow> strmap option \<Rightarrow> strmap" where
  "Set value target =
     (let m = (case target of None \<Rightarrow> [] | Some m \<Rightarrow> m)
      in if value = [] then m else fold set_pair (split_on (CHR '','') value) m)"

text \<open>The defaults of \<^verbatim>\<open>BindFlags\<close>, and the reconciler that \<^verbatim>\<open>SetupReconciler\<close>
  (\<^verbatim>\<open>standalone.go\<close>) builds from the flags.\<close>

definition BindFlags :: Options where
  "BindFlags = \<lparr> opt_StandaloneMode = False, opt_Enabled = False, opt_GatewayName = ''kubelb'', opt_GatewayNamespace = ''kubelb'',
     opt_GatewayClassName = ''kubelb'', opt_IngressClass = [], opt_DomainReplace = [], opt_DomainSuffix = [],
     opt_PropagateExternalDNS = True, opt_GatewayAnnotations = [], opt_DisableEnvoyGatewayFeatures = False,
     opt_CopyTLSSecrets = True \<rparr>"

definition SetupReconciler :: "Options \<Rightarrow> Reconciler" where
  "SetupReconciler opts =
     \<lparr> r_GatewayName = opt_GatewayName opts, r_GatewayNamespace = opt_GatewayNamespace opts,
       r_GatewayClassName = opt_GatewayClassName opts, r_IngressClass = opt_IngressClass opts,
       r_DomainReplace = opt_DomainReplace opts, r_DomainSuffix = opt_DomainSuffix opts,
       r_PropagateExternalDNS = opt_PropagateExternalDNS opts, r_GatewayAnnotations = opt_GatewayAnnotations opts,
       r_DisableEnvoyGatewayFeatures = opt_DisableEnvoyGatewayFeatures opts, r_CopyTLSSecrets = opt_CopyTLSSecrets opts \<rparr>"

definition String :: "strmap option \<Rightarrow> string" where
  "String target =
     (case target of None \<Rightarrow> [] | Some m \<Rightarrow> join '','' (map (\<lambda>(k, v). k @ ''='' @ v) m))"

section \<open>Merging\<close>

abbreviation listener_names :: "gw_listener list \<Rightarrow> string list" where
  "listener_names ls \<equiv> map gl_Name ls"

definition listener_named :: "gw_listener list \<Rightarrow> string \<Rightarrow> gw_listener option" where
  "listener_named ls n = find (\<lambda>l. gl_Name l = n) ls"

lemma listener_named_None: "listener_named ls n = None \<longleftrightarrow> n \<notin> set (listener_names ls)"
  by (auto simp: listener_named_def find_None_iff)

lemma map_of_by_name:
  assumes "distinct (listener_names ls)"
  shows "map_of (by_name ls) n = listener_named ls n"
proof -
  have "map_of (fold (\<lambda>l m. gomap_put (gl_Name l) l m) ls m) n = (case listener_named ls n of None \<Rightarrow> map_of m n | Some l \<Rightarrow> Some l)"
    for m using assms
  proof (induction ls arbitrary: m)
    case (Cons l ls)
    have "listener_named ls (gl_Name l) = None"
      using Cons.prems by (simp add: listener_named_None)
    with Cons show ?case
      by (auto simp: listener_named_def map_of_put split: option.split)
  qed (simp add: listener_named_def)
  then show ?thesis by (simp add: by_name_def split: option.split)
qed

lemma listener_named_Some:
  "listener_named ls n = Some l \<Longrightarrow> l \<in> set ls \<and> gl_Name l = n"
  by (auto simp: listener_named_def find_Some_iff)

lemma listener_named_mem:
  "distinct (listener_names ls) \<Longrightarrow> l \<in> set ls \<Longrightarrow> listener_named ls (gl_Name l) = Some l"
  by (induction ls) (auto simp: listener_named_def)

lemma merge_existing_eq:
  assumes "distinct (listener_names es)"
  shows "fst (merge_existing es m) = map (\<lambda>e. case map_of m (gl_Name e) of Some d \<Rightarrow> d | None \<Rightarrow> e) es"
    and "map_of (snd (merge_existing es m)) n = (if n \<in> set (listener_names es) then None else map_of m n)"
proof -
  have "fst (merge_existing es m) = map (\<lambda>e. case map_of m (gl_Name e) of Some d \<Rightarrow> d | None \<Rightarrow> e) es \<and>
      (\<forall>n. map_of (snd (merge_existing es m)) n = (if n \<in> set (listener_names es) then None else map_of m n))"
    using assms
  proof (induction es arbitrary: m)
    case (Cons e es)
    have d: "distinct (listener_names es)" and out: "gl_Name e \<notin> gl_Name ` set es" using Cons.prems by auto
    from out have ne: "gl_Name x \<noteq> gl_Name e" if "x \<in> set es" for x using that by (metis imageI)
    show ?case
    proof (cases "map_of m (gl_Name e)")
      case None
      with Cons.IH [OF d, of m] show ?thesis by (auto simp: split_def)
    next
      case (Some l)
      from Cons.IH [OF d, of "gomap_del (gl_Name e) m"] show ?thesis
        by (auto simp: split_def Some map_of_delete_other ne cong: map_cong)
    qed
  qed simp
  then show "fst (merge_existing es m) = map (\<lambda>e. case map_of m (gl_Name e) of Some d \<Rightarrow> d | None \<Rightarrow> e) es"
    and "map_of (snd (merge_existing es m)) n = (if n \<in> set (listener_names es) then None else map_of m n)"
    by blast+
qed

lemma MergeListeners_eq:
  assumes "distinct (listener_names existing)" and "distinct (listener_names desired)"
  shows "MergeListeners existing desired =
     map (\<lambda>e. case listener_named desired (gl_Name e) of Some d \<Rightarrow> d | None \<Rightarrow> e) existing @
     filter (\<lambda>d. gl_Name d \<notin> set (listener_names existing)) desired"
proof -
  obtain r m where rm: "merge_existing existing (by_name desired) = (r, m)" by fastforce
  have r: "r = map (\<lambda>e. case listener_named desired (gl_Name e) of Some d \<Rightarrow> d | None \<Rightarrow> e) existing"
    using merge_existing_eq(1) [OF assms(1), of "by_name desired"] by (simp add: rm map_of_by_name [OF assms(2)])
  have m: "map_of m n = (if n \<in> set (listener_names existing) then None else listener_named desired n)" for n
    using merge_existing_eq(2) [OF assms(1), of "by_name desired" n] by (simp add: rm map_of_by_name [OF assms(2)])
  have "filter (\<lambda>l. map_of m (gl_Name l) \<noteq> None) desired = filter (\<lambda>d. gl_Name d \<notin> set (listener_names existing)) desired"
    by (rule filter_cong) (auto simp: m listener_named_None)
  then show ?thesis by (simp add: MergeListeners_def rm r)
qed

lemma merged_names:
  assumes "distinct (listener_names existing)" and "distinct (listener_names desired)"
  shows "listener_names (MergeListeners existing desired) =
     listener_names existing @ filter (\<lambda>n. n \<notin> set (listener_names existing)) (listener_names desired)"
proof -
  have "gl_Name (case listener_named desired (gl_Name e) of Some d \<Rightarrow> d | None \<Rightarrow> e) = gl_Name e" for e
    by (auto split: option.split dest: listener_named_Some)
  then show ?thesis by (simp add: MergeListeners_eq [OF assms] comp_def filter_map)
qed

lemma merged_distinct:
  assumes "distinct (listener_names existing)" and "distinct (listener_names desired)"
  shows "distinct (listener_names (MergeListeners existing desired))"
  unfolding merged_names [OF assms] using assms by auto

lemma merged_contains_desired:
  assumes "distinct (listener_names existing)" and "distinct (listener_names desired)" and "d \<in> set desired"
  shows "d \<in> set (MergeListeners existing desired)"
proof (cases "gl_Name d \<in> set (listener_names existing)")
  case True
  then obtain e where "e \<in> set existing" "gl_Name e = gl_Name d" by auto
  with listener_named_mem [OF assms(2,3)] show ?thesis
    by (auto simp: MergeListeners_eq [OF assms(1,2)] intro!: image_eqI [of _ _ e])
qed (simp add: MergeListeners_eq [OF assms(1,2)] assms(3))

lemma merged_keeps_others:
  assumes "distinct (listener_names existing)" and "distinct (listener_names desired)"
    and "e \<in> set existing" and "gl_Name e \<notin> set (listener_names desired)"
  shows "e \<in> set (MergeListeners existing desired)"
proof -
  have "listener_named desired (gl_Name e) = None" using assms(4) by (simp add: listener_named_None)
  then show ?thesis using assms(3) by (auto simp: MergeListeners_eq [OF assms(1,2)] intro!: image_eqI [of _ _ e])
qed

lemma MergeListeners_idem:
  assumes "distinct (listener_names existing)" and "distinct (listener_names desired)"
  shows "MergeListeners (MergeListeners existing desired) desired = MergeListeners existing desired"
proof -
  let ?m = "MergeListeners existing desired"
  have "l \<in> set desired \<or> listener_named desired (gl_Name l) = None" if "l \<in> set ?m" for l
    using that unfolding MergeListeners_eq [OF assms] by (auto split: option.splits dest: listener_named_Some)
  then have "(case listener_named desired (gl_Name l) of Some d \<Rightarrow> d | None \<Rightarrow> l) = l" if "l \<in> set ?m" for l
    using that listener_named_mem [OF assms(2), of l] by fastforce
  moreover have "filter (\<lambda>d. gl_Name d \<notin> set (listener_names ?m)) desired = []"
    by (auto simp: merged_names [OF assms] filter_empty_conv)
  ultimately show ?thesis by (simp add: MergeListeners_eq [OF merged_distinct [OF assms] assms(2)] map_idI)
qed

section \<open>Desired listeners\<close>

lemma https_listeners_names:
  "listener_names (https_listeners seen tls) = map ListenerNameFromHostname (map the (map gl_Hostname (https_listeners seen tls)))"
  by (induction seen tls rule: https_listeners.induct) (simp_all add: https_listener_def)

lemma https_listeners_hosts:
  "distinct (map (the \<circ> gl_Hostname) (https_listeners seen tls)) \<and>
   set (map (the \<circ> gl_Hostname) (https_listeners seen tls)) = tl_Hostname ` set tls - set seen"
  by (induction seen tls rule: https_listeners.induct) (auto simp: https_listener_def)

lemma https_listeners_member:
  assumes "find (\<lambda>t. tl_Hostname t = h) tls = Some t" and "h \<notin> set seen"
  shows "https_listener t \<in> set (https_listeners seen tls)"
  using assms by (induction seen tls rule: https_listeners.induct) (auto split: if_splits)

lemma https_listener_name: "gl_Name (https_listener t) = ListenerNameFromHostname (tl_Hostname t)"
  by (simp add: https_listener_def)

lemma BuildListeners_distinct:
  assumes "inj_on ListenerNameFromHostname (tl_Hostname ` set tls)"
  shows "distinct (listener_names (BuildListeners tls))"
proof -
  define hs where "hs = map (the \<circ> gl_Hostname) (https_listeners [] tls)"
  have hs: "distinct hs" "set hs = tl_Hostname ` set tls" using https_listeners_hosts [of "[]" tls] by (simp_all add: hs_def)
  have names: "listener_names (https_listeners [] tls) = map ListenerNameFromHostname hs"
    unfolding hs_def by (subst https_listeners_names) simp
  then have "distinct (listener_names (https_listeners [] tls))"
    unfolding names distinct_map [of ListenerNameFromHostname] using hs assms by simp
  moreover have "ListenerNameHTTP \<notin> set (listener_names (https_listeners [] tls))"
    unfolding names by (auto simp: ListenerNameHTTP_def ListenerNameFromHostname_def split: if_splits)
  ultimately show ?thesis by (simp add: BuildListeners_def http_listener_def)
qed

lemma listenerConfigEqual_refl [simp]: "listenerConfigEqual l l"
proof -
  have "list_all (\<lambda>(r, s). certificate_ref_equal r s) (zip xs xs)" for xs
    by (induction xs) (auto simp: certificate_ref_equal_def opt_eq_def split: option.split)
  then show ?thesis by (auto simp: listenerConfigEqual_def opt_eq_def split: option.split)
qed

lemma listenersEqual_refl: "distinct (listener_names ls) \<Longrightarrow> listenersEqual ls ls"
  by (auto simp: listenersEqual_def list_all_iff map_of_by_name listener_named_mem)

section \<open>The Gateway after a pass\<close>

definition gateway_after :: "gateway \<Rightarrow> gateway_action \<Rightarrow> gateway" where
  "gateway_after existing action = (case action of UpdateGateway g \<Rightarrow> g | CreateGateway g \<Rightarrow> g | _ \<Rightarrow> existing)"

definition cfg_in :: "gw_listener \<Rightarrow> gw_listener list \<Rightarrow> bool" where
  "cfg_in d ls \<longleftrightarrow> (\<exists>l \<in> set ls. gl_Name l = gl_Name d \<and> listenerConfigEqual l d)"

lemma update_gateway_listeners:
  "gtw_Listeners (gateway_after g (update_gateway config g)) =
     (let merged = MergeListeners (gtw_Listeners g) (BuildListeners (gc_TLSListeners config))
      in if listenersEqual (gtw_Listeners g) merged then gtw_Listeners g else merged)"
proof -
  have mono: "snd (fold merge_annotation kvs (ann, True))" for kvs ann
    by (induction kvs arbitrary: ann) (auto simp: merge_annotation_def split: prod.split)
  let ?eq = "listenersEqual (gtw_Listeners g) (MergeListeners (gtw_Listeners g) (BuildListeners (gc_TLSListeners config)))"
  obtain ann' u where f: "fold merge_annotation (gc_Annotations config)
      (case om_Annotations (gtw_Meta g) of None \<Rightarrow> [] | Some m \<Rightarrow> m, \<not> ?eq) = (ann', u)" by fastforce
  have "u \<or> ?eq" using mono f by (cases ?eq) (simp_all, metis sndI)
  then show ?thesis using f by (auto simp: update_gateway_def gateway_after_def Let_def)
qed

lemma fold_merge_annotation:
  assumes "fold merge_annotation kvs (ann, u) = (ann', u')" and "wf_gomap kvs"
  shows "(k, v) \<in> set kvs \<Longrightarrow> str_at ann' k = v" and "\<not> u' \<Longrightarrow> ann' = ann"
proof -
  have "(\<forall>k v. (k, v) \<in> set kvs \<longrightarrow> str_at ann' k = v) \<and> (\<not> u' \<longrightarrow> ann' = ann \<and> \<not> u) \<and>
      (\<forall>k. k \<notin> fst ` set kvs \<longrightarrow> str_at ann' k = str_at ann k)"
    using assms
  proof (induction kvs arbitrary: ann u)
    case (Cons kv kvs)
    obtain k v where kv: "kv = (k, v)" by fastforce
    obtain a1 u1 where s1: "merge_annotation kv (ann, u) = (a1, u1)" by fastforce
    have wf: "wf_gomap kvs" and out: "k \<notin> fst ` set kvs" using Cons.prems(2) by (auto simp: wf_gomap_def kv)
    have "fold merge_annotation kvs (a1, u1) = (ann', u')" using Cons.prems(1) by (simp add: s1)
    note ih = Cons.IH [OF this wf]
    have a1: "str_at a1 k = v" "\<And>j. j \<noteq> k \<Longrightarrow> str_at a1 j = str_at ann j" "\<not> u1 \<Longrightarrow> a1 = ann \<and> \<not> u"
      using s1 by (auto simp: merge_annotation_def kv str_at_def map_of_put split: if_splits)
    show ?case using ih a1 out by (auto simp: kv)
  qed simp
  then show "(k, v) \<in> set kvs \<Longrightarrow> str_at ann' k = v" and "\<not> u' \<Longrightarrow> ann' = ann" by blast+
qed

lemma fold_merge_annotation_id:
  assumes "\<forall>(k, v) \<in> set kvs. str_at ann k = v"
  shows "fold merge_annotation kvs (ann, u) = (ann, u)"
  using assms by (induction kvs) (auto simp: merge_annotation_def)

lemma update_gateway_keep:
  assumes "listenersEqual (gtw_Listeners g) (MergeListeners (gtw_Listeners g) (BuildListeners (gc_TLSListeners config)))"
    and "\<forall>(k, v) \<in> set (gc_Annotations config). str_at (case om_Annotations (gtw_Meta g) of None \<Rightarrow> [] | Some m \<Rightarrow> m) k = v"
  shows "update_gateway config g = KeepGateway"
  using assms(1) fold_merge_annotation_id [OF assms(2), of False] by (simp add: update_gateway_def Let_def)


definition sample_tls :: "string \<Rightarrow> tls_listener" where
  "sample_tls h = \<lparr> tl_Hostname = h, tl_SecretName = ''cert'', tl_SourceSecretNamespace = ''prod'', tl_SourceSecretName = ''cert'' \<rparr>"

definition sample_reconciler :: Reconciler where
  "sample_reconciler = \<lparr> r_GatewayName = ''gw'', r_GatewayNamespace = ''kubelb'', r_GatewayClassName = ''kubelb'',
     r_IngressClass = [], r_DomainReplace = [], r_DomainSuffix = [], r_PropagateExternalDNS = True,
     r_GatewayAnnotations = [(''team'', ''edge'')], r_DisableEnvoyGatewayFeatures = False, r_CopyTLSSecrets = True \<rparr>"

definition sample_gateway :: gateway where
  "sample_gateway = \<lparr> gtw_Meta = \<lparr> om_Name = ''gw'', om_Namespace = ''kubelb'', om_UID = [], om_Labels = [], om_Annotations = None \<rparr>,
     gtw_ClassName = ''kubelb'', gtw_Listeners = BuildListeners [sample_tls ''other.io''] \<rparr>"


text \<open>C27. Reconciling the Gateway converges after one pass: a second pass for the same Ingress over the Gateway that the
  first pass left finds nothing to update, neither among the listeners nor among the annotations.\<close>

theorem reconcileGateway_converges:
  assumes names: "distinct (listener_names (gtw_Listeners g))"
    and inj: "inj_on ListenerNameFromHostname (tl_Hostname ` set tls)"
  shows "reconcileGateway r ing tls (Found (gateway_after g (reconcileGateway r ing tls (Found g)))) = KeepGateway"
proof -
  let ?d = "BuildListeners tls" and ?e = "gtw_Listeners g" and ?c = "gateway_config r ing tls"
  let ?m = "MergeListeners ?e ?d" and ?kvs = "gc_Annotations (gateway_config r ing tls)"
  let ?g = "gateway_after g (update_gateway ?c g)"
  let ?ann = "\<lambda>g. case om_Annotations (gtw_Meta g) of None \<Rightarrow> [] | Some m \<Rightarrow> m"
  have dd: "distinct (listener_names ?d)" by (rule BuildListeners_distinct [OF inj])
  have ls: "gtw_Listeners ?g = (if listenersEqual ?e ?m then ?e else ?m)"
    by (simp add: Let_def update_gateway_listeners gateway_config_def)
  have stable: "listenersEqual (gtw_Listeners ?g) (MergeListeners (gtw_Listeners ?g) ?d)"
    by (simp add: ls MergeListeners_idem [OF names dd] listenersEqual_refl [OF merged_distinct [OF names dd]])
  have wf: "wf_gomap ?kvs"
    by (auto simp: gateway_config_def extractGatewayAnnotations_def Let_def split: option.split)
  obtain ann' u where f: "fold merge_annotation ?kvs (?ann g, \<not> listenersEqual ?e ?m) = (ann', u)" by fastforce
  note fm = fold_merge_annotation [OF f wf]
  have "?ann ?g = ann'"
    using fm(2) f by (auto simp: update_gateway_def gateway_after_def Let_def gateway_config_def)
  then have "\<forall>(k, v) \<in> set ?kvs. str_at (?ann ?g) k = v" using fm(1) by auto
  then have "update_gateway ?c ?g = KeepGateway"
    by (intro update_gateway_keep) (use stable in \<open>simp_all add: gateway_config_def\<close>)
  then show ?thesis by (simp add: reconcileGateway_def Let_def)
qed

theorem reconcileGateway_converges_witness:
  "reconcileGateway sample_reconciler sample_ingress [sample_tls ''a.io'']
     (Found (gateway_after sample_gateway (reconcileGateway sample_reconciler sample_ingress [sample_tls ''a.io''] (Found sample_gateway)))) = KeepGateway"
  by (rule reconcileGateway_converges) (code_simp, simp)

text \<open>Two different TLS hosts can be mapped to one listener name, since dots become dashes: the Gateway built for
  them has two listeners with the same name, which the Gateway API does not admit.\<close>

theorem listener_names_collide:
  "map gl_Hostname (BuildListeners [sample_tls ''a.b.io'', sample_tls ''a-b.io'']) = [None, Some ''a.b.io'', Some ''a-b.io''] \<and>
   \<not> distinct (listener_names (BuildListeners [sample_tls ''a.b.io'', sample_tls ''a-b.io'']))"
  by (rule conjI; code_simp)

end
