(* ===== verification/Envoy_Policies.thy ===== *)
theory Envoy_Policies
  imports Ingress_Annotations
begin

text \<open>
  Envoy Gateway policies generated from Ingress annotations: the builders of
  \<^verbatim>\<open>pkg/conversion/policies/builder.go\<close> and \<^verbatim>\<open>ConvertToPolicies\<close> of
  \<^verbatim>\<open>pkg/conversion/annotations/policy_converter.go\<close>. A builder is a record that the setters return
  updated; a nil pointer is \<^const>\<open>None\<close>. The conversions to \<^verbatim>\<open>uint32\<close> and \<^verbatim>\<open>int64\<close> are written out.

  What a SecurityPolicy means for a client is given by \<open>authorized\<close>, the documented evaluation of Envoy
  Gateway: the first rule whose CIDR list contains the client decides, else the default action.
\<close>

section \<open>Policy types\<close>

definition LabelSourceIngress :: string where "LabelSourceIngress = ''kubelb.k8c.io/source-ingress''"
definition SecurityPolicySuffix :: string where "SecurityPolicySuffix = ''-security''"
definition BackendTrafficPolicySuffix :: string where "BackendTrafficPolicySuffix = ''-backend''"

datatype auth_action = Allow | Deny

record authorization_rule =
  ar_Name :: string
  ar_Action :: auth_action
  ar_ClientCIDRs :: "string list"

record authorization =
  az_Rules :: "authorization_rule list"
  az_DefaultAction :: "auth_action option"

record cors =
  c_AllowOrigins :: "string list"
  c_AllowMethods :: "string list"
  c_AllowHeaders :: "string list"
  c_ExposeHeaders :: "string list"
  c_MaxAge :: "string option"
  c_AllowCredentials :: "bool option"

record basic_auth =
  ba_SecretName :: string
  ba_SecretNamespace :: string

datatype rate_unit = Second | Minute

record rate_limit =
  rl_Requests :: int
  rl_Unit :: rate_unit

record timeout =
  to_ConnectTimeout :: "string option"
  to_RequestTimeout :: "string option"

record policy_builder =
  pb_IngressName :: string
  pb_IngressNamespace :: string
  pb_RouteName :: string

record security_builder = policy_builder +
  sb_cors :: "cors option"
  sb_authorization :: "authorization option"
  sb_basicAuth :: "basic_auth option"

record backend_builder = policy_builder +
  bb_timeout :: "timeout option"
  bb_rateLimit :: "rate_limit option"
  bb_maxConnections :: "int option"

record policy_meta =
  pm_Name :: string
  pm_Namespace :: string
  pm_Labels :: strmap
  pm_TargetRoute :: string

record security_policy = policy_meta +
  sec_CORS :: "cors option"
  sec_Authorization :: "authorization option"
  sec_BasicAuth :: "basic_auth option"

record backend_traffic_policy = policy_meta +
  btp_Timeout :: "timeout option"
  btp_RateLimit :: "rate_limit option"
  btp_MaxConnections :: "int option"

section \<open>Parsers (builder.go)\<close>

definition parseDuration :: "string \<Rightarrow> string" where
  "parseDuration value =
     (let v = trim_space value
      in if v = [] then []
         else if has_suffix v ''s'' \<or> has_suffix v ''m'' \<or> has_suffix v ''h'' then v
         else if atoi v \<noteq> None then v @ ''s'' else v)"

definition ParseStringList :: "string \<Rightarrow> string list" where
  "ParseStringList value =
     (if value = [] then [] else filter (\<lambda>p. p \<noteq> []) (map trim_space (split_on (CHR '','') value)))"

definition ParseCIDRList :: "string \<Rightarrow> string list" where
  "ParseCIDRList value =
     (if value = [] then [] else filter (\<lambda>p. p \<noteq> []) (map trim_space (split_on (CHR '','') value)))"

definition ParseInt :: "string \<Rightarrow> int" where
  "ParseInt value = (if value = [] then 0 else case atoi value of None \<Rightarrow> 0 | Some i \<Rightarrow> i)"

definition ParseInt64 :: "string \<Rightarrow> int option" where
  "ParseInt64 value = (if value = [] then None else atoi value)"

definition ParseBool :: "string \<Rightarrow> bool option" where
  "ParseBool value = (if value = [] then None else Some (value = ''true''))"

section \<open>Builders (builder.go)\<close>

definition NewSecurityPolicyBuilder :: "string \<Rightarrow> string \<Rightarrow> string \<Rightarrow> security_builder" where
  "NewSecurityPolicyBuilder ingressName ingressNamespace routeName =
     \<lparr> pb_IngressName = ingressName, pb_IngressNamespace = ingressNamespace, pb_RouteName = routeName,
       sb_cors = None, sb_authorization = None, sb_basicAuth = None \<rparr>"

definition NewBackendTrafficPolicyBuilder :: "string \<Rightarrow> string \<Rightarrow> string \<Rightarrow> backend_builder" where
  "NewBackendTrafficPolicyBuilder ingressName ingressNamespace routeName =
     \<lparr> pb_IngressName = ingressName, pb_IngressNamespace = ingressNamespace, pb_RouteName = routeName,
       bb_timeout = None, bb_rateLimit = None, bb_maxConnections = None \<rparr>"

definition policyLabels :: "string \<Rightarrow> string \<Rightarrow> strmap" where
  "policyLabels ingressName ingressNamespace = [(LabelSourceIngress, ingressName @ ''.'' @ ingressNamespace)]"

definition SetCORS ::
  "string list \<Rightarrow> string list \<Rightarrow> string list \<Rightarrow> string list \<Rightarrow> int option \<Rightarrow> bool option \<Rightarrow>
   security_builder \<Rightarrow> security_builder" where
  "SetCORS allowOrigins allowMethods allowHeaders exposeHeaders maxAgeSeconds allowCredentials b =
     b\<lparr> sb_cors := Some
         \<lparr> c_AllowOrigins = allowOrigins, c_AllowMethods = allowMethods, c_AllowHeaders = allowHeaders,
           c_ExposeHeaders = exposeHeaders,
           c_MaxAge = (case maxAgeSeconds of None \<Rightarrow> None | Some s \<Rightarrow> Some (itoa s @ ''s'')),
           c_AllowCredentials = allowCredentials \<rparr> \<rparr>"

definition authorization_of :: "security_builder \<Rightarrow> authorization" where
  "authorization_of b =
     (case sb_authorization b of None \<Rightarrow> \<lparr> az_Rules = [], az_DefaultAction = None \<rparr> | Some a \<Rightarrow> a)"

definition SetIPAllowlist :: "string list \<Rightarrow> security_builder \<Rightarrow> security_builder" where
  "SetIPAllowlist cidrs b =
     (if cidrs = [] then b
      else b\<lparr> sb_authorization := Some
               \<lparr> az_Rules = az_Rules (authorization_of b) @
                   [\<lparr> ar_Name = ''ip-allowlist'', ar_Action = Allow, ar_ClientCIDRs = map trim_space cidrs \<rparr>],
                 az_DefaultAction = Some Deny \<rparr> \<rparr>)"

definition SetIPDenylist :: "string list \<Rightarrow> security_builder \<Rightarrow> security_builder" where
  "SetIPDenylist cidrs b =
     (if cidrs = [] then b
      else b\<lparr> sb_authorization := Some
               \<lparr> az_Rules = az_Rules (authorization_of b) @
                   [\<lparr> ar_Name = ''ip-denylist'', ar_Action = Deny, ar_ClientCIDRs = map trim_space cidrs \<rparr>],
                 az_DefaultAction = Some Allow \<rparr> \<rparr>)"

definition SetBasicAuth :: "string \<Rightarrow> string \<Rightarrow> security_builder \<Rightarrow> security_builder" where
  "SetBasicAuth secretRef ns b =
     (if secretRef = [] then b
      else b\<lparr> sb_basicAuth := Some \<lparr> ba_SecretName = secretRef, ba_SecretNamespace = ns \<rparr> \<rparr>)"

definition security_IsEmpty :: "security_builder \<Rightarrow> bool" where
  "security_IsEmpty b \<longleftrightarrow> sb_cors b = None \<and> sb_authorization b = None \<and> sb_basicAuth b = None"

definition security_Build :: "security_builder \<Rightarrow> security_policy option" where
  "security_Build b =
     (if security_IsEmpty b then None
      else Some
        \<lparr> pm_Name = pb_IngressName b @ SecurityPolicySuffix, pm_Namespace = pb_IngressNamespace b,
          pm_Labels = policyLabels (pb_IngressName b) (pb_IngressNamespace b), pm_TargetRoute = pb_RouteName b,
          sec_CORS = sb_cors b, sec_Authorization = sb_authorization b, sec_BasicAuth = sb_basicAuth b \<rparr>)"

definition timeout_of :: "backend_builder \<Rightarrow> timeout" where
  "timeout_of b =
     (case bb_timeout b of None \<Rightarrow> \<lparr> to_ConnectTimeout = None, to_RequestTimeout = None \<rparr> | Some t \<Rightarrow> t)"

definition SetConnectTimeout :: "string \<Rightarrow> backend_builder \<Rightarrow> backend_builder" where
  "SetConnectTimeout duration b =
     (let d = parseDuration duration
      in if d = [] then b else b\<lparr> bb_timeout := Some ((timeout_of b)\<lparr> to_ConnectTimeout := Some d \<rparr>) \<rparr>)"

definition SetRequestTimeout :: "string \<Rightarrow> backend_builder \<Rightarrow> backend_builder" where
  "SetRequestTimeout duration b =
     (let d = parseDuration duration
      in if d = [] then b else b\<lparr> bb_timeout := Some ((timeout_of b)\<lparr> to_RequestTimeout := Some d \<rparr>) \<rparr>)"

definition SetRateLimitRPS :: "int \<Rightarrow> backend_builder \<Rightarrow> backend_builder" where
  "SetRateLimitRPS rps b =
     (if rps \<le> 0 then b else b\<lparr> bb_rateLimit := Some \<lparr> rl_Requests = to_uint32 rps, rl_Unit = Second \<rparr> \<rparr>)"

definition SetRateLimitRPM :: "int \<Rightarrow> backend_builder \<Rightarrow> backend_builder" where
  "SetRateLimitRPM rpm b =
     (if rpm \<le> 0 then b else b\<lparr> bb_rateLimit := Some \<lparr> rl_Requests = to_uint32 rpm, rl_Unit = Minute \<rparr> \<rparr>)"

definition SetMaxConnections :: "int \<Rightarrow> backend_builder \<Rightarrow> backend_builder" where
  "SetMaxConnections maxConns b = (if maxConns \<le> 0 then b else b\<lparr> bb_maxConnections := Some maxConns \<rparr>)"

definition backend_IsEmpty :: "backend_builder \<Rightarrow> bool" where
  "backend_IsEmpty b \<longleftrightarrow> bb_timeout b = None \<and> bb_rateLimit b = None \<and> bb_maxConnections b = None"

definition backend_Build :: "backend_builder \<Rightarrow> backend_traffic_policy option" where
  "backend_Build b =
     (if backend_IsEmpty b then None
      else Some
        \<lparr> pm_Name = pb_IngressName b @ BackendTrafficPolicySuffix, pm_Namespace = pb_IngressNamespace b,
          pm_Labels = policyLabels (pb_IngressName b) (pb_IngressNamespace b), pm_TargetRoute = pb_RouteName b,
          btp_Timeout = bb_timeout b, btp_RateLimit = bb_rateLimit b, btp_MaxConnections = bb_maxConnections b \<rparr>)"

section \<open>Conversion (policy\_converter.go)\<close>

record policy_input =
  pi_IngressName :: string
  pi_IngressNamespace :: string
  pi_RouteName :: string
  pi_Annotations :: "strmap option"

record policy_result =
  pr_SecurityPolicies :: "security_policy list"
  pr_BackendTrafficPolicies :: "backend_traffic_policy list"
  pr_Warnings :: "string list"

definition buildSecurityPolicy :: "policy_input \<Rightarrow> strmap \<Rightarrow> security_policy option" where
  "buildSecurityPolicy input m =
     (let b0 = NewSecurityPolicyBuilder (pi_IngressName input) (pi_IngressNamespace input) (pi_RouteName input);
          b1 = (if str_at m EnableCORS = boolTrue
                then SetCORS (ParseStringList (str_at m CORSAllowOrigin)) (ParseStringList (str_at m CORSAllowMethods))
                       (ParseStringList (str_at m CORSAllowHeaders)) (ParseStringList (str_at m CORSExposeHeaders))
                       (ParseInt64 (str_at m CORSMaxAge)) (ParseBool (str_at m CORSAllowCredentials)) b0
                else b0);
          b2 = (if str_at m WhitelistSourceRange \<noteq> []
                then SetIPAllowlist (ParseCIDRList (str_at m WhitelistSourceRange)) b1 else b1);
          b3 = (if str_at m DenylistSourceRange \<noteq> []
                then SetIPDenylist (ParseCIDRList (str_at m DenylistSourceRange)) b2 else b2);
          b4 = (if str_at m AuthType = AuthTypeBasic
                then SetBasicAuth (str_at m AuthSecret) (pi_IngressNamespace input) b3 else b3)
      in if security_IsEmpty b4 then None else security_Build b4)"

definition buildBackendTrafficPolicy :: "policy_input \<Rightarrow> strmap \<Rightarrow> backend_traffic_policy option \<times> string list" where
  "buildBackendTrafficPolicy input m =
     (let b0 = NewBackendTrafficPolicyBuilder (pi_IngressName input) (pi_IngressNamespace input) (pi_RouteName input);
          b1 = (if str_at m ProxyConnectTimeout \<noteq> [] then SetConnectTimeout (str_at m ProxyConnectTimeout) b0 else b0);
          b2 = (if str_at m ProxyReadTimeout \<noteq> [] then SetRequestTimeout (str_at m ProxyReadTimeout) b1 else b1);
          b3 = (if str_at m ProxySendTimeout \<noteq> [] \<and> str_at m ProxyReadTimeout = []
                then SetRequestTimeout (str_at m ProxySendTimeout) b2 else b2);
          rps = ParseInt (str_at m LimitRPS); rpm = ParseInt (str_at m LimitRPM);
          b4 = (if 0 < rps then SetRateLimitRPS rps b3 else if 0 < rpm then SetRateLimitRPM rpm b3 else b3);
          maxConns = ParseInt (str_at m LimitConnections);
          b5 = (if 0 < maxConns then SetMaxConnections maxConns b4 else b4);
          warnings = (if str_at m Affinity = affinityCookie
            then [''affinity=cookie requires manual BackendTrafficPolicy configuration for session persistence''] else [])
      in if backend_IsEmpty b5 then (None, warnings) else (backend_Build b5, warnings))"

definition option_list :: "'a option \<Rightarrow> 'a list" where
  "option_list x = (case x of None \<Rightarrow> [] | Some a \<Rightarrow> [a])"

definition ConvertToPolicies :: "policy_input \<Rightarrow> policy_result" where
  "ConvertToPolicies input =
     (case pi_Annotations input of
        None \<Rightarrow> \<lparr> pr_SecurityPolicies = [], pr_BackendTrafficPolicies = [], pr_Warnings = [] \<rparr>
      | Some m \<Rightarrow>
          (case buildBackendTrafficPolicy input m of (backendPolicy, warnings) \<Rightarrow>
             \<lparr> pr_SecurityPolicies = option_list (buildSecurityPolicy input m),
               pr_BackendTrafficPolicies = option_list backendPolicy,
               pr_Warnings = warnings @
                 (if str_at m AuthURL \<noteq> []
                  then [''auth-url cannot be automatically converted to SecurityPolicy ExtAuth; requires manual backend reference configuration'']
                  else []) @
                 (if str_at m ProxyBodySize \<noteq> []
                  then [''proxy-body-size cannot be directly converted to ClientTrafficPolicy; requires manual Envoy configuration'']
                  else []) \<rparr>))"

section \<open>Meaning of a SecurityPolicy\<close>

definition authorized :: "(string \<Rightarrow> 'ip \<Rightarrow> bool) \<Rightarrow> authorization \<Rightarrow> 'ip \<Rightarrow> bool" where
  "authorized contains az ip =
     (case find (\<lambda>r. list_ex (\<lambda>c. contains c ip) (ar_ClientCIDRs r)) (az_Rules az) of
        Some r \<Rightarrow> ar_Action r = Allow
      | None \<Rightarrow> az_DefaultAction az = Some Allow)"

definition admitted :: "(string \<Rightarrow> 'ip \<Rightarrow> bool) \<Rightarrow> policy_input \<Rightarrow> strmap \<Rightarrow> 'ip \<Rightarrow> bool" where
  "admitted contains input m ip =
     (case buildSecurityPolicy input m of
        None \<Rightarrow> True
      | Some p \<Rightarrow> (case sec_Authorization p of None \<Rightarrow> True | Some az \<Rightarrow> authorized contains az ip))"

section \<open>IP access\<close>

lemma trim_by_idem [simp]: "trim_by P (trim_by P s) = trim_by P s"
  by (cases "trim_by P s = []") (auto intro: trim_by_id simp: hd_trim_by last_trim_by)

lemma trim_ParseCIDRList [simp]: "map trim_space (ParseCIDRList v) = ParseCIDRList v"
proof -
  have "map trim_space (filter (\<lambda>p. p \<noteq> []) (map trim_space xs)) = filter (\<lambda>p. p \<noteq> []) (map trim_space xs)" for xs
    by (induction xs) (simp_all add: trim_space_def)
  then show ?thesis by (simp add: ParseCIDRList_def)
qed

lemma ParseCIDRList_Nil [simp]: "ParseCIDRList [] = []"
  by (simp add: ParseCIDRList_def)

text \<open>The authorization part of the policy, as a function of the two parsed lists.\<close>

definition allow_rule :: "string list \<Rightarrow> authorization_rule" where
  "allow_rule cidrs = \<lparr> ar_Name = ''ip-allowlist'', ar_Action = Allow, ar_ClientCIDRs = cidrs \<rparr>"

definition deny_rule :: "string list \<Rightarrow> authorization_rule" where
  "deny_rule cidrs = \<lparr> ar_Name = ''ip-denylist'', ar_Action = Deny, ar_ClientCIDRs = cidrs \<rparr>"

definition access_rules :: "string list \<Rightarrow> string list \<Rightarrow> authorization option" where
  "access_rules allow deny =
     (if allow = [] \<and> deny = [] then None
      else Some \<lparr> az_Rules = (if allow = [] then [] else [allow_rule allow]) @ (if deny = [] then [] else [deny_rule deny]),
                  az_DefaultAction = Some (if deny = [] then Deny else Allow) \<rparr>)"

lemma buildSecurityPolicy_authorization:
  "(case buildSecurityPolicy input m of None \<Rightarrow> None | Some p \<Rightarrow> sec_Authorization p) =
     access_rules (ParseCIDRList (str_at m WhitelistSourceRange)) (ParseCIDRList (str_at m DenylistSourceRange))"
proof -
  let ?a = "ParseCIDRList (str_at m WhitelistSourceRange)" and ?d = "ParseCIDRList (str_at m DenylistSourceRange)"
  have a: "(if str_at m WhitelistSourceRange \<noteq> [] then SetIPAllowlist ?a b else b) = SetIPAllowlist ?a b" for b
    by (simp add: SetIPAllowlist_def)
  have d: "(if str_at m DenylistSourceRange \<noteq> [] then SetIPDenylist ?d b else b) = SetIPDenylist ?d b" for b
    by (simp add: SetIPDenylist_def)
  have auth: "sb_authorization (SetBasicAuth s ns b) = sb_authorization b"
    "sb_authorization (SetCORS x1 x2 x3 x4 x5 x6 b) = sb_authorization b" for s ns b x1 x2 x3 x4 x5 x6
    by (simp_all add: SetBasicAuth_def SetCORS_def)
  have lists: "sb_authorization (SetIPDenylist ?d (SetIPAllowlist ?a b)) = access_rules ?a ?d"
    if "sb_authorization b = None" for b
    using that by (simp add: SetIPDenylist_def SetIPAllowlist_def access_rules_def authorization_of_def
        allow_rule_def deny_rule_def)
  show ?thesis
    unfolding buildSecurityPolicy_def Let_def a d
    by (simp add: security_Build_def security_IsEmpty_def auth lists NewSecurityPolicyBuilder_def)
qed

lemma admitted_iff:
  "admitted contains input m ip \<longleftrightarrow>
     (let allow = ParseCIDRList (str_at m WhitelistSourceRange); deny = ParseCIDRList (str_at m DenylistSourceRange)
      in list_ex (\<lambda>c. contains c ip) allow \<or>
         (if deny = [] then allow = [] else \<not> list_ex (\<lambda>c. contains c ip) deny))"
proof -
  have "admitted contains input m ip =
      (case access_rules (ParseCIDRList (str_at m WhitelistSourceRange)) (ParseCIDRList (str_at m DenylistSourceRange)) of
         None \<Rightarrow> True | Some az \<Rightarrow> authorized contains az ip)"
    unfolding buildSecurityPolicy_authorization [of input m, symmetric] admitted_def
    by (cases "buildSecurityPolicy input m") simp_all
  then show ?thesis
    by (simp add: access_rules_def authorized_def allow_rule_def deny_rule_def Let_def)
qed

section \<open>Properties\<close>

definition sample_input :: policy_input where
  "sample_input = \<lparr> pi_IngressName = ''web'', pi_IngressNamespace = ''prod'', pi_RouteName = ''web-http'', pi_Annotations = None \<rparr>"

text \<open>Each IP list alone is enforced: with \<^verbatim>\<open>whitelist-source-range\<close> only, exactly the clients in one of its
  ranges are admitted; with \<^verbatim>\<open>denylist-source-range\<close> only, exactly the clients in none of its ranges; with
  neither (or with blank entries only), everyone.\<close>

theorem ip_lists_enforced:
  assumes "allow = ParseCIDRList (str_at m WhitelistSourceRange)" and "deny = ParseCIDRList (str_at m DenylistSourceRange)"
    and "allow = [] \<or> deny = []"
  shows "admitted contains input m ip \<longleftrightarrow>
     (if allow \<noteq> [] then \<exists>c \<in> set allow. contains c ip
      else \<not> (\<exists>c \<in> set deny. contains c ip))"
  using assms unfolding admitted_iff Let_def by (auto simp: list_ex_iff)

theorem ip_lists_enforced_witness:
  "admitted (=) sample_input [(WhitelistSourceRange, ''10.0.0.1, 10.0.0.2'')] ''10.0.0.2'' \<and>
   \<not> admitted (=) sample_input [(WhitelistSourceRange, ''10.0.0.1, 10.0.0.2'')] ''10.0.0.3''"
proof -
  let ?m = "[(WhitelistSourceRange, ''10.0.0.1, 10.0.0.2'')]"
  have a: "[''10.0.0.1'', ''10.0.0.2''] = ParseCIDRList (str_at ?m WhitelistSourceRange)" by code_simp
  have d: "[] = ParseCIDRList (str_at ?m DenylistSourceRange)" by code_simp
  have "([''10.0.0.1'', ''10.0.0.2''] :: string list) = [] \<or> ([] :: string list) = []" by simp
  from ip_lists_enforced [OF a d this, of "(=)" sample_input] show ?thesis by simp
qed

text \<open>C36. If both lists are given, the allowlist loses its effect: \<^verbatim>\<open>SetIPDenylist\<close> overwrites the default
  action that \<^verbatim>\<open>SetIPAllowlist\<close> set to Deny, so a client outside the allowlist is admitted as soon as the
  denylist does not name it, and a client in both lists is admitted.\<close>

theorem denylist_disables_allowlist:
  assumes "ParseCIDRList (str_at m WhitelistSourceRange) = allow" and "ParseCIDRList (str_at m DenylistSourceRange) = deny"
    and "deny \<noteq> []"
  shows "(\<not> list_ex (\<lambda>c. contains c ip) allow \<longrightarrow> \<not> list_ex (\<lambda>c. contains c ip) deny \<longrightarrow> admitted contains input m ip) \<and>
         (list_ex (\<lambda>c. contains c ip) allow \<longrightarrow> admitted contains input m ip)"
  using assms unfolding admitted_iff by (simp add: Let_def)

theorem denylist_disables_allowlist_witness:
  "admitted (=) sample_input [(WhitelistSourceRange, ''10.0.0.1''), (DenylistSourceRange, ''10.9.9.9'')] ''8.8.8.8''"
proof -
  let ?m = "[(WhitelistSourceRange, ''10.0.0.1''), (DenylistSourceRange, ''10.9.9.9'')]"
  have a: "ParseCIDRList (str_at ?m WhitelistSourceRange) = [''10.0.0.1'']" by code_simp
  have d: "ParseCIDRList (str_at ?m DenylistSourceRange) = [''10.9.9.9'']" by code_simp
  from denylist_disables_allowlist [OF a d, of "(=)" "''8.8.8.8''" sample_input] show ?thesis by simp
qed

text \<open>The duration that a generated BackendTrafficPolicy carries (\<^verbatim>\<open>parseDuration\<close>) is the one that the
  warning for the same annotation suggests (\<^verbatim>\<open>normalizeTimeout\<close>), and normalising twice changes nothing.\<close>

theorem parseDuration_normalizeTimeout:
  "parseDuration v = normalizeTimeout v \<and> parseDuration (parseDuration v) = parseDuration v"
proof -
  have none: "atoi [] = None" by (simp add: atoi_def Let_def)
  have eq: "parseDuration w = normalizeTimeout w" for w
    by (cases "trim_space w = []") (simp_all add: parseDuration_def normalizeTimeout_def has_suffix_def none)
  have sp: "\<not> is_space (CHR ''s'')" by (simp add: is_space_def char_code_def)
  let ?t = "trim_space v"
  have idem: "trim_space ?t = ?t" by (simp add: trim_space_def)
  have ts: "trim_space (?t @ ''s'') = ?t @ ''s''" if "?t \<noteq> []"
    unfolding trim_space_def using that sp hd_trim_by [of is_space v]
    by (intro trim_by_id) (simp add: trim_space_def)
  from none idem ts have "parseDuration (parseDuration v) = parseDuration v"
    by (auto simp: parseDuration_def Let_def has_suffix_def)
  with eq show ?thesis by blast
qed

text \<open>The rate limit of the generated policy: \<^verbatim>\<open>limit-rps\<close> takes precedence over \<^verbatim>\<open>limit-rpm\<close>, a
  value up to the 32-bit range is kept as it is, and the conversion to \<^verbatim>\<open>uint32\<close> reduces a greater value modulo
  \<open>2\<^sup>32\<close> (so 4294967296 requests per second become 0, which blocks all requests).\<close>

theorem rate_limit_value:
  assumes "0 < ParseInt (str_at m LimitRPS)"
  shows "\<exists>p. fst (buildBackendTrafficPolicy input m) = Some p \<and>
     btp_RateLimit p = Some \<lparr> rl_Requests = ParseInt (str_at m LimitRPS) mod 2 ^ 32, rl_Unit = Second \<rparr>"
proof -
  have keep: "bb_rateLimit (SetMaxConnections n b) = bb_rateLimit b" for n b
    by (simp add: SetMaxConnections_def)
  show ?thesis using assms
    by (simp add: buildBackendTrafficPolicy_def Let_def backend_Build_def backend_IsEmpty_def keep SetRateLimitRPS_def
        to_uint32_def)
qed

theorem rate_limit_value_witness:
  "\<exists>p. fst (buildBackendTrafficPolicy sample_input [(LimitRPS, ''4294967296'')]) = Some p \<and>
     btp_RateLimit p = Some \<lparr> rl_Requests = 0, rl_Unit = Second \<rparr>"
proof -
  have v: "ParseInt (str_at [(LimitRPS, ''4294967296'')] LimitRPS) = 4294967296"
    by (simp add: ParseInt_def str_at_def atoi_def digits_val_def is_digit_def char_code_def int64_min_def int64_max_def Let_def)
  from rate_limit_value [of "[(LimitRPS, ''4294967296'')]" sample_input] show ?thesis by (simp add: v)
qed

end
