(* ===== verification/Go_Time.thy ===== *)
theory Go_Time
  imports Kubelb_Prelude
begin

text \<open>
  What the sources use of the Go package \<^verbatim>\<open>time\<close>: an instant (nanoseconds since 1970-01-01T00:00:00Z, an
  \<^typ>\<open>int\<close>), \<^verbatim>\<open>Format(time.RFC3339)\<close> in a zone with a given offset in minutes, and
  \<^verbatim>\<open>Parse(time.RFC3339, s)\<close> with its leniencies (one-digit hours, a fraction of a second after a dot or a
  comma, offsets of up to 24 hours and 60 minutes). The calendar is the proleptic Gregorian one.

  The main result is the round trip \<open>parse_format\<close>: parsing a formatted instant gives the instant truncated to
  whole seconds.
\<close>

section \<open>Calendar\<close>

definition leap :: "int \<Rightarrow> bool" where
  "leap y \<longleftrightarrow> y mod 4 = 0 \<and> (y mod 100 \<noteq> 0 \<or> y mod 400 = 0)"

definition year_days :: "int \<Rightarrow> int" where
  "year_days y = (if leap y then 366 else 365)"

text \<open>Days from 1970-01-01 to the first of January of a year.\<close>

definition days_to_year :: "int \<Rightarrow> int" where
  "days_to_year y = 365 * (y - 1970) + ((y - 1) div 4 - (y - 1) div 100 + (y - 1) div 400 - 477)"

definition month_days :: "int \<Rightarrow> nat \<Rightarrow> int" where
  "month_days y m = (if m = 2 then (if leap y then 29 else 28) else if m \<in> {4, 6, 9, 11} then 30 else 31)"

definition days_to_month :: "int \<Rightarrow> nat \<Rightarrow> int" where
  "days_to_month y m = sum_list (map (month_days y) [1..<m])"

definition days_of_civil :: "int \<Rightarrow> nat \<Rightarrow> int \<Rightarrow> int" where
  "days_of_civil y m d = days_to_year y + days_to_month y m + (d - 1)"

lemma year_days_pos: "0 < year_days y"
  by (simp add: year_days_def)

lemma month_days_pos: "0 < month_days y m"
  by (simp add: month_days_def)

lemma div_pred:
  assumes "0 < (n :: int)"
  shows "y div n = (y - 1) div n + (if y mod n = 0 then 1 else 0)"
proof -
  define q r where "q = y div n" and "r = y mod n"
  have y: "y = q * n + r" and r: "0 \<le> r" "r < n" using assms by (simp_all add: q_def r_def)
  show ?thesis
  proof (cases "r = 0")
    case True
    have "(y - 1) div n = ((q - 1) * n + (n - 1)) div n" by (simp add: y True algebra_simps)
    also have "\<dots> = q - 1" using assms by simp
    finally show ?thesis using True by (simp add: q_def [symmetric] r_def [symmetric])
  next
    case False
    have "(y - 1) div n = (q * n + (r - 1)) div n" by (simp add: y algebra_simps)
    also have "\<dots> = q" using assms r False by simp
    finally show ?thesis using False by (simp add: q_def [symmetric] r_def [symmetric])
  qed
qed

lemma days_to_year_Suc: "days_to_year (y + 1) = days_to_year y + year_days y"
proof -
  have m: "y mod 400 = 0 \<Longrightarrow> y mod 100 = 0" "y mod 100 = 0 \<Longrightarrow> y mod 4 = 0"
    unfolding mod_eq_0_iff_dvd by (erule dvd_trans [rotated], simp)+
  have bools: "(if P then 1 else (0 :: int)) - (if Q then 1 else 0) + (if R then 1 else 0) + 365 = (if P \<and> (\<not> Q \<or> R) then 366 else 365)"
    if "R \<Longrightarrow> Q" "Q \<Longrightarrow> P" for P Q R using that by (cases P; cases Q; cases R) simp_all
  define l where "l n = (if y mod n = 0 then 1 else (0 :: int))" for n
  define k where "k n = (y - 1) div n" for n
  have q: "y div n = k n + l n" if "0 < n" for n
    unfolding k_def l_def by (rule div_pred [OF that])
  have yd: "year_days y = l 4 - l 100 + l 400 + 365"
    unfolding year_days_def leap_def l_def by (rule bools [symmetric]) (fact m)+
  have "days_to_year (y + 1) = 365 * (y + 1 - 1970) + (y div 4 - y div 100 + y div 400 - 477)"
    unfolding days_to_year_def by (simp only: add_diff_cancel_right')
  also have "\<dots> = 365 * (y - 1970) + (k 4 - k 100 + k 400 - 477) + year_days y"
  proof -
    have lin: "365 * (y + 1 - 1970) + (a + p - (b + q) + (c + r) - 477) = 365 * (y - 1970) + (a - b + c - 477) + (p - q + r + 365)"
      for a b c p q r :: int by simp
    have "y div 4 = k 4 + l 4" "y div 100 = k 100 + l 100" "y div 400 = k 400 + l 400" by (rule q, simp)+
    then show ?thesis unfolding yd by (simp only: lin)
  qed
  finally show ?thesis unfolding days_to_year_def k_def .
qed

function year_split :: "int \<Rightarrow> int \<Rightarrow> int \<times> int" where
  "year_split y d = (if 0 \<le> d \<and> year_days y \<le> d then year_split (y + 1) (d - year_days y) else (y, d))"
  by pat_completeness auto
termination
  by (relation "measure (\<lambda>(y, d). nat d)") (auto simp: year_days_def split: if_splits)

declare year_split.simps [simp del]

function month_split :: "int \<Rightarrow> nat \<Rightarrow> int \<Rightarrow> nat \<times> int" where
  "month_split y m d = (if m < 12 \<and> month_days y m \<le> d then month_split y (Suc m) (d - month_days y m) else (m, d))"
  by pat_completeness auto
termination
  by (relation "measure (\<lambda>(y, m, d). 12 - m)") auto

declare month_split.simps [simp del]

text \<open>Year, month and day of the month of a day number from 1970-01-01 on.\<close>

definition civil_of_days :: "int \<Rightarrow> int \<times> nat \<times> int" where
  "civil_of_days d = (case year_split 1970 d of (y, r) \<Rightarrow> case month_split y 1 r of (m, r') \<Rightarrow> (y, m, r' + 1))"

lemma year_split_spec:
  assumes "year_split y d = (y', r)" and "0 \<le> d"
  shows "days_to_year y + d = days_to_year y' + r \<and> 0 \<le> r \<and> r < year_days y' \<and> y \<le> y'"
  using assms
proof (induction y d rule: year_split.induct)
  case (1 y d)
  show ?case
  proof (cases "year_days y \<le> d")
    case True
    then have "year_split (y + 1) (d - year_days y) = (y', r)" using 1(2,3) by (simp add: year_split.simps [of y d])
    with 1(1) 1(3) True show ?thesis by (simp add: days_to_year_Suc)
  next
    case False
    with 1(2,3) show ?thesis by (simp add: year_split.simps [of y d])
  qed
qed

lemma days_to_month_Suc: "1 \<le> m \<Longrightarrow> days_to_month y (Suc m) = days_to_month y m + month_days y m"
  by (simp add: days_to_month_def)

lemma days_to_month_12: "days_to_month y 12 = year_days y - 31"
  by (simp add: days_to_month_def upt_rec month_days_def year_days_def)

lemma month_split_spec:
  assumes "month_split y m d = (m', r)" and "0 \<le> d" and "1 \<le> m" and "m \<le> 12" and "days_to_month y m + d < year_days y"
  shows "days_to_month y m + d = days_to_month y m' + r \<and> 0 \<le> r \<and> r < month_days y m' \<and> 1 \<le> m' \<and> m' \<le> 12"
  using assms
proof (induction y m d rule: month_split.induct)
  case (1 y m d)
  show ?case
  proof (cases "m < 12 \<and> month_days y m \<le> d")
    case True
    then have "month_split y (Suc m) (d - month_days y m) = (m', r)" using 1(2) by (simp add: month_split.simps [of y m d])
    with 1 True show ?thesis by (simp add: days_to_month_Suc)
  next
    case False
    then have "month_split y m d = (m, d)" unfolding month_split.simps [of y m d] by (rule if_not_P)
    then have e: "m' = m" "r = d" using 1(2) by simp_all
    have "d < month_days y m"
    proof (cases "m = 12")
      case True
      then show ?thesis using 1(6) by (simp add: days_to_month_12 month_days_def)
    qed (use False 1(5) in auto)
    with 1 e show ?thesis by simp
  qed
qed

lemma civil_of_days_spec:
  assumes "civil_of_days n = (y, m, d)" and "0 \<le> n"
  shows "days_of_civil y m d = n" and "1970 \<le> y" and "1 \<le> m" and "m \<le> 12" and "1 \<le> d" and "d \<le> month_days y m"
proof -
  obtain y' r where ys: "year_split 1970 n = (y', r)" by fastforce
  obtain m' r' where ms: "month_split y' 1 r = (m', r')" by fastforce
  have e: "y' = y" "m' = m" "d = r' + 1" using assms(1) ms by (simp_all add: civil_of_days_def ys)
  note y = year_split_spec [OF ys assms(2)]
  have "days_to_month y' 1 = 0" by (simp add: days_to_month_def)
  with y month_split_spec [OF ms] have m: "r = days_to_month y' m' + r' \<and> 0 \<le> r' \<and> r' < month_days y' m' \<and> 1 \<le> m' \<and> m' \<le> 12"
    by simp
  have "days_to_year 1970 = 0" by (simp add: days_to_year_def)
  with y m e show "days_of_civil y m d = n" and "1970 \<le> y" and "1 \<le> m" and "m \<le> 12" and "1 \<le> d" and "d \<le> month_days y m"
    by (simp_all add: days_of_civil_def)
qed

section \<open>Formatting\<close>

abbreviation second_ns :: int where "second_ns \<equiv> 1000000000"

definition pad2 :: "int \<Rightarrow> string" where
  "pad2 n = [char_of (48 + nat n div 10), char_of (48 + nat n mod 10)]"

definition pad4 :: "int \<Rightarrow> string" where
  "pad4 n = pad2 (n div 100) @ pad2 (n mod 100)"

definition format_zone :: "int \<Rightarrow> string" where
  "format_zone off =
     (if off = 0 then ''Z''
      else (if off < 0 then ''-'' else ''+'') @ pad2 (\<bar>off\<bar> div 60) @ '':'' @ pad2 (\<bar>off\<bar> mod 60))"

text \<open>\<^verbatim>\<open>t.Format(time.RFC3339)\<close> for a year of four digits, in the zone \<open>off\<close> minutes east of UTC.\<close>

definition Format :: "int \<Rightarrow> int \<Rightarrow> string" where
  "Format off t =
     (let s = t div second_ns + 60 * off; day = s div 86400; sec = s mod 86400
      in case civil_of_days day of (y, m, d) \<Rightarrow>
           pad4 y @ ''-'' @ pad2 (int m) @ ''-'' @ pad2 d @ ''T'' @
           pad2 (sec div 3600) @ '':'' @ pad2 (sec div 60 mod 60) @ '':'' @ pad2 (sec mod 60) @ format_zone off)"

section \<open>Parsing\<close>

definition digit_val :: "char \<Rightarrow> int" where
  "digit_val c = int (char_code c) - 48"

text \<open>\<^verbatim>\<open>getnum(s, fixed)\<close>: one or two digits, two if \<open>fixed\<close>.\<close>

definition getnum :: "bool \<Rightarrow> string \<Rightarrow> (int \<times> string) option" where
  "getnum fixed s =
     (case s of
        [] \<Rightarrow> None
      | c # s' \<Rightarrow>
          if \<not> is_digit c then None
          else (case s' of
                  c' # s'' \<Rightarrow> if is_digit c' then Some (10 * digit_val c + digit_val c', s'')
                             else if fixed then None else Some (digit_val c, s')
                | [] \<Rightarrow> if fixed then None else Some (digit_val c, s')))"

definition in_range :: "int \<Rightarrow> int \<Rightarrow> int \<times> string \<Rightarrow> (int \<times> string) option" where
  "in_range lo hi r = (if lo \<le> fst r \<and> fst r \<le> hi then Some r else None)"

definition skip :: "char \<Rightarrow> string \<Rightarrow> string option" where
  "skip c s = (case s of [] \<Rightarrow> None | x # s' \<Rightarrow> if x = c then Some s' else None)"

definition get_year :: "string \<Rightarrow> (int \<times> string) option" where
  "get_year s =
     (case s of
        a # b # c # d # s' \<Rightarrow>
          if list_all is_digit [a, b, c, d]
          then Some (1000 * digit_val a + 100 * digit_val b + 10 * digit_val c + digit_val d, s') else None
      | _ \<Rightarrow> None)"

text \<open>An optional fraction of a second, in nanoseconds: digits after the ninth are ignored.\<close>

definition get_fraction :: "string \<Rightarrow> int \<times> string" where
  "get_fraction s =
     (case s of
        c # d # s' \<Rightarrow>
          if (c = CHR ''.'' \<or> c = CHR '','') \<and> is_digit d
          then (let ds = takeWhile is_digit (d # s')
                in (int (digits_val (take 9 ds)) * 10 ^ (9 - length (take 9 ds)), dropWhile is_digit (d # s')))
          else (0, s)
      | _ \<Rightarrow> (0, s))"

text \<open>The zone: \<^verbatim>\<open>Z\<close> or a signed \<^verbatim>\<open>hh:mm\<close>, in minutes, and the end of the text.\<close>

definition get_zone :: "string \<Rightarrow> int option" where
  "get_zone s =
     (if s = ''Z'' then Some 0
      else if length s = 6 \<and> s ! 3 = CHR '':'' then
        (case (getnum True (take 2 (drop 1 s)), getnum True (take 2 (drop 4 s))) of
           (Some (h, _), Some (m, _)) \<Rightarrow>
             if h \<le> 24 \<and> m \<le> 60
             then (if hd s = CHR ''+'' then Some (60 * h + m)
                   else if hd s = CHR ''-'' then Some (- (60 * h + m)) else None)
             else None
         | _ \<Rightarrow> None)
      else None)"

definition Parse :: "string \<Rightarrow> int option" where
  "Parse s0 =
     Option.bind (get_year s0) (\<lambda>(y, s1).
     Option.bind (skip (CHR ''-'') s1) (\<lambda>s2.
     Option.bind (Option.bind (getnum True s2) (in_range 1 12)) (\<lambda>(m, s3).
     Option.bind (skip (CHR ''-'') s3) (\<lambda>s4.
     Option.bind (getnum True s4) (\<lambda>(d, s5).
     Option.bind (skip (CHR ''T'') s5) (\<lambda>s6.
     Option.bind (Option.bind (getnum False s6) (in_range 0 23)) (\<lambda>(h, s7).
     Option.bind (skip (CHR '':'') s7) (\<lambda>s8.
     Option.bind (Option.bind (getnum True s8) (in_range 0 59)) (\<lambda>(mi, s9).
     Option.bind (skip (CHR '':'') s9) (\<lambda>s10.
     Option.bind (Option.bind (getnum True s10) (in_range 0 59)) (\<lambda>(sec, s11).
       case get_fraction s11 of (ns, s12) \<Rightarrow>
     Option.bind (get_zone s12) (\<lambda>off.
       if 1 \<le> d \<and> d \<le> month_days y (nat m)
       then Some ((86400 * days_of_civil y (nat m) d + 3600 * h + 60 * mi + sec - 60 * off) * second_ns + ns)
       else None))))))))))))"

section \<open>Round trip\<close>

lemma digit_char [simp]:
  assumes "n < 10"
  shows "is_digit (char_of (48 + n))" and "digit_val (char_of (48 + n)) = int n"
proof -
  have "char_code (char_of (48 + n)) = 48 + n" using assms by (simp add: char_code_def)
  then show "is_digit (char_of (48 + n))" and "digit_val (char_of (48 + n)) = int n"
    using assms by (simp_all add: is_digit_def digit_val_def)
qed

lemma digits10: "0 \<le> n \<Longrightarrow> 10 * int (nat n div 10) + int (nat n mod 10) = n"
  using div_mult_mod_eq [of "nat n" 10] by linarith

lemma getnum_pad2:
  assumes "0 \<le> n" and "n < 100"
  shows "getnum fixed (pad2 n @ s) = Some (n, s)"
proof -
  have "nat n div 10 < 10" "nat n mod 10 < 10" using assms by auto
  moreover have "10 * int (nat n div 10) + int (nat n mod 10) = n" by (rule digits10 [OF assms(1)])
  ultimately show ?thesis by (simp add: getnum_def pad2_def)
qed

lemma get_year_pad4:
  assumes "0 \<le> y" and "y < 10000"
  shows "get_year (pad4 y @ s) = Some (y, s)"
proof -
  let ?a = "nat (y div 100)" and ?b = "nat (y mod 100)"
  have "?a div 10 < 10" "?a mod 10 < 10" "?b div 10 < 10" "?b mod 10 < 10" using assms by auto
  moreover have "1000 * int (?a div 10) + 100 * int (?a mod 10) + 10 * int (?b div 10) + int (?b mod 10) = y"
  proof -
    have "0 \<le> y div 100" "0 \<le> y mod 100" using assms by (simp_all add: pos_imp_zdiv_nonneg_iff)
    note digits10 [OF this(1)] digits10 [OF this(2)] div_mult_mod_eq [of y 100]
    then show ?thesis by linarith
  qed
  ultimately show ?thesis by (simp add: get_year_def pad4_def pad2_def)
qed

lemma not_digit_zone: "\<not> is_digit (CHR ''Z'')" "\<not> is_digit (CHR ''+'')" "\<not> is_digit (CHR ''-'')"
  by (simp_all add: is_digit_def char_code_def)

lemma get_fraction_zone: "get_fraction (format_zone off) = (0, format_zone off)"
  by (auto simp: get_fraction_def format_zone_def pad2_def)

lemma get_zone_signed:
  assumes "0 \<le> h" "h < 24" "0 \<le> m" "m < 60" and "c = CHR ''+'' \<or> c = CHR ''-''"
  shows "get_zone ([c] @ pad2 h @ '':'' @ pad2 m) = Some (if c = CHR ''+'' then 60 * h + m else - (60 * h + m))"
proof -
  let ?z = "[c] @ pad2 h @ '':'' @ pad2 m"
  have g: "getnum True (pad2 h) = Some (h, [])" "getnum True (pad2 m) = Some (m, [])"
    using getnum_pad2 [of h True "[]"] getnum_pad2 [of m True "[]"] assms by simp_all
  have parts: "take 2 (drop 1 ?z) = pad2 h" "take 2 (drop 4 ?z) = pad2 m" "length ?z = 6" "?z ! 3 = CHR '':''" "hd ?z = c"
    by (simp_all add: pad2_def)
  have "?z \<noteq> ''Z''" using parts(3) by auto
  then show ?thesis unfolding get_zone_def parts g using parts(3,4) assms by auto
qed

lemma get_zone_format:
  assumes "\<bar>off\<bar> < 1440"
  shows "get_zone (format_zone off) = Some off"
proof (cases "off = 0")
  case False
  define h m where "h = \<bar>off\<bar> div 60" and "m = \<bar>off\<bar> mod 60"
  have range: "0 \<le> h" "h < 24" "0 \<le> m" "m < 60" using assms by (simp_all add: h_def m_def pos_imp_zdiv_nonneg_iff)
  have hm: "60 * h + m = \<bar>off\<bar>" by (simp add: h_def m_def)
  have f: "format_zone off = [if off < 0 then CHR ''-'' else CHR ''+''] @ pad2 h @ '':'' @ pad2 m"
    using False by (simp add: format_zone_def h_def m_def)
  show ?thesis unfolding f using get_zone_signed [OF range] hm by (cases "off < 0") simp_all
qed (simp add: format_zone_def get_zone_def)

text \<open>The instants whose local year has four digits and that are not before 1970.\<close>

definition formattable :: "int \<Rightarrow> int \<Rightarrow> bool" where
  "formattable off t \<longleftrightarrow> \<bar>off\<bar> < 1440 \<and> 0 \<le> t div second_ns + 60 * off \<and>
     fst (civil_of_days ((t div second_ns + 60 * off) div 86400)) < 10000"

lemma Parse_fields:
  assumes "0 \<le> y" "y < 10000" "1 \<le> m" "m \<le> 12" "1 \<le> d" "d \<le> month_days y m" "0 \<le> h" "h \<le> 23"
    "0 \<le> mi" "mi \<le> 59" "0 \<le> sec" "sec \<le> 59" "\<bar>off\<bar> < 1440"
  shows "Parse (pad4 y @ ''-'' @ pad2 (int m) @ ''-'' @ pad2 d @ ''T'' @ pad2 h @ '':'' @ pad2 mi @ '':'' @ pad2 sec @ format_zone off) =
    Some ((86400 * days_of_civil y m d + 3600 * h + 60 * mi + sec - 60 * off) * second_ns)"
proof -
  have sk: "skip c (c # x) = Some x" for c x by (simp add: skip_def)
  have md: "month_days y m \<le> 31" by (simp add: month_days_def)
  show ?thesis using assms md
    by (simp add: Parse_def get_year_pad4 getnum_pad2 sk in_range_def get_fraction_zone get_zone_format)
qed

lemma parse_format:
  assumes "formattable off t"
  shows "Parse (Format off t) = Some (t - t mod second_ns)"
proof -
  define s where "s = t div second_ns + 60 * off"
  define sec where "sec = s mod 86400"
  obtain y m d where c: "civil_of_days (s div 86400) = (y, m, d)" by (metis prod_cases3)
  have s0: "0 \<le> s div 86400" and off: "\<bar>off\<bar> < 1440" and y1: "y < 10000"
    using assms by (auto simp: formattable_def s_def [symmetric] c pos_imp_zdiv_nonneg_iff)
  note civ = civil_of_days_spec [OF c s0]
  have md: "month_days y m \<le> 31" by (simp add: month_days_def)
  have sec: "0 \<le> sec" "sec < 86400" by (simp_all add: sec_def)
  then have hr: "0 \<le> sec div 3600" "sec div 3600 \<le> 23" "0 \<le> sec div 60 mod 60" "sec div 60 mod 60 \<le> 59"
    "0 \<le> sec mod 60" "sec mod 60 \<le> 59"
    using zdiv_mono1 [of sec 86399 3600] pos_mod_bound [of 60 "sec div 60"] pos_mod_bound [of 60 sec]
    by (simp_all add: pos_imp_zdiv_nonneg_iff)
  have f: "Format off t = pad4 y @ ''-'' @ pad2 (int m) @ ''-'' @ pad2 d @ ''T'' @
           pad2 (sec div 3600) @ '':'' @ pad2 (sec div 60 mod 60) @ '':'' @ pad2 (sec mod 60) @ format_zone off"
    by (simp add: Format_def Let_def s_def [symmetric] c sec_def)
  have total: "86400 * (s div 86400) + 3600 * (sec div 3600) + 60 * (sec div 60 mod 60) + sec mod 60 = s"
  proof -
    have sum: "86400 * q + 3600 * b + 60 * y + x = n"
      if "n = 86400 * q + r" "r = 60 * a + x" "a = 60 * b + y" for q b a x y r n :: int
      using that by simp
    have "(3600 :: int) = 60 * 60" by simp
    then have "sec div 3600 = sec div 60 div 60" by (rule ssubst) (rule zdiv_zmult2_eq, simp)
    then show ?thesis by (rule ssubst) (rule sum, unfold sec_def, (rule mult_div_mod_eq [symmetric])+)
  qed
  have "Parse (Format off t) = Some ((86400 * days_of_civil y m d + 3600 * (sec div 3600) + 60 * (sec div 60 mod 60) + sec mod 60 - 60 * off) * second_ns)"
    unfolding f by (rule Parse_fields) (use civ(2-6) y1 off in simp, use civ(2-6) y1 off in simp, (fact civ hr off)+)
  also have "\<dots> = Some ((s - 60 * off) * second_ns)" by (simp add: civ(1) total)
  also have "(s - 60 * off) * second_ns = t - t mod second_ns"
    by (simp add: s_def minus_mod_eq_div_mult)
  finally show ?thesis .
qed

end
