(* ===== verification/Conversion_Controller.thy ===== *)
theory Conversion_Controller
  imports Gateway_Listeners Envoy_Policies Go_Time
begin

text \<open>
  The controller that converts Ingresses (\<^verbatim>\<open>internal/ingress-to-gateway/controller.go\<close>): the decision whether
  to convert, the copy of TLS secrets, the reconciliation of routes and policies, waiting for the routes to be
  accepted, and the two-pass status protocol recorded in the annotations of the Ingress.

  The Kubernetes API server is the argument \<open>api\<close>: the objects of each kind, the answers a polling loop gets before its deadline, and
  the clock. A handler is a function from the state to a result and the state after it. Logging and events are not
  part of the state.
\<close>

section \<open>The API server\<close>

record stored_ingress =
  si_Ingress :: ingress
  si_Deleting :: bool

record secret =
  sc_Meta :: object_meta
  sc_Type :: string
  sc_Data :: "(string, string) gomap"

record 'r route_object =
  ro_Route :: "'r gw_route"
  ro_Annotations :: strmap

record 'p owned_policy =
  ow_Policy :: 'p
  ow_Owner :: "string option"

record condition =
  cond_Type :: string
  cond_Status :: string
  cond_Reason :: string

record parent_status =
  ps_Name :: string
  ps_Conditions :: "condition list"

record 's api =
  api_Ingresses :: "('s, stored_ingress) crud"
  api_Services :: "('s, service) crud"
  api_Secrets :: "('s, secret) crud"
  api_Gateways :: "('s, gateway) crud"
  api_HTTPRoutes :: "('s, http_rule route_object) crud"
  api_GRPCRoutes :: "('s, grpc_rule route_object) crud"
  api_SecurityPolicies :: "('s, security_policy owned_policy) crud"
  api_BackendTrafficPolicies :: "('s, backend_traffic_policy owned_policy) crud"
  api_pollHTTPRoute :: "nsname \<Rightarrow> 's \<Rightarrow> parent_status list option list \<times> 's"
  api_pollGRPCRoute :: "nsname \<Rightarrow> 's \<Rightarrow> parent_status list option list \<times> 's"
  api_now :: "'s \<Rightarrow> int"

section \<open>Constants (pkg/conversion/constants.go)\<close>

definition AnnotationConversionStatus :: string where "AnnotationConversionStatus = ''kubelb.k8c.io/conversion-status''"
definition AnnotationConvertedHTTPRoute :: string where "AnnotationConvertedHTTPRoute = ''kubelb.k8c.io/converted-httproute''"
definition AnnotationConvertedGRPCRoute :: string where "AnnotationConvertedGRPCRoute = ''kubelb.k8c.io/converted-grpcroute''"
definition AnnotationConversionWarnings :: string where "AnnotationConversionWarnings = ''kubelb.k8c.io/conversion-warnings''"
definition AnnotationVerificationTimestamp :: string where
  "AnnotationVerificationTimestamp = ''kubelb.k8c.io/verification-timestamp''"
definition AnnotationConversionSkipReason :: string where
  "AnnotationConversionSkipReason = ''kubelb.k8c.io/conversion-skip-reason''"
definition ConversionStatusConverted :: string where "ConversionStatusConverted = ''converted''"
definition ConversionStatusPartial :: string where "ConversionStatusPartial = ''partial''"
definition ConversionStatusPending :: string where "ConversionStatusPending = ''pending''"
definition ConversionStatusSkipped :: string where "ConversionStatusSkipped = ''skipped''"
definition SkipReasonCanary :: string where "SkipReasonCanary = ''canary annotations are not supported''"
definition routeAcceptanceReasonTimeout :: string where "routeAcceptanceReasonTimeout = ''Timeout''"

section \<open>Decision\<close>

record conversionDecision =
  cd_shouldConvert :: bool
  cd_skipReason :: string
  cd_annotate :: bool

definition ingress_class_of :: "ingress \<Rightarrow> string" where
  "ingress_class_of ing =
     (case ing_ClassName ing of
        Some c \<Rightarrow> c
      | None \<Rightarrow> (case om_Annotations (ing_Meta ing) of Some m \<Rightarrow> str_at m AnnotationIngressClass | None \<Rightarrow> []))"

definition isAlreadyConverted :: "ingress \<Rightarrow> bool" where
  "isAlreadyConverted ing =
     (case om_Annotations (ing_Meta ing) of
        None \<Rightarrow> False
      | Some m \<Rightarrow> (let status = str_at m AnnotationConversionStatus
                  in status = ConversionStatusConverted \<or> status = ConversionStatusPartial))"

definition annotation_true :: "ingress \<Rightarrow> string \<Rightarrow> bool" where
  "annotation_true ing k = (case om_Annotations (ing_Meta ing) of None \<Rightarrow> False | Some m \<Rightarrow> str_at m k = boolTrue)"

definition shouldConvert :: "Reconciler \<Rightarrow> ingress \<Rightarrow> conversionDecision" where
  "shouldConvert r ing =
     (let skip = \<lparr> cd_shouldConvert = False, cd_skipReason = [], cd_annotate = False \<rparr>
      in if annotation_true ing AnnotationSkipConversion then skip
         else if isAlreadyConverted ing then skip
         else if annotation_true ing NginxCanary
         then \<lparr> cd_shouldConvert = False, cd_skipReason = SkipReasonCanary, cd_annotate = True \<rparr>
         else if r_IngressClass r \<noteq> [] \<and> ingress_class_of ing \<noteq> r_IngressClass r then skip
         else \<lparr> cd_shouldConvert = True, cd_skipReason = [], cd_annotate = False \<rparr>)"

text \<open>The event filter: creations, updates and generic events of Ingresses; deletions always pass.\<close>

definition resourceFilter :: "Reconciler \<Rightarrow> ingress \<Rightarrow> bool" where
  "resourceFilter r ing \<longleftrightarrow>
     \<not> isAlreadyConverted ing \<and> (cd_shouldConvert (shouldConvert r ing) \<or> cd_annotate (shouldConvert r ing))"

section \<open>Status\<close>

record statusDecision =
  sd_status :: string
  sd_requeue :: bool
  sd_clearVerifyTime :: bool

definition pending :: "bool \<Rightarrow> statusDecision" where
  "pending clear = \<lparr> sd_status = ConversionStatusPending, sd_requeue = True, sd_clearVerifyTime = clear \<rparr>"

definition finished :: "string \<Rightarrow> statusDecision" where
  "finished status = \<lparr> sd_status = status, sd_requeue = False, sd_clearVerifyTime = True \<rparr>"

definition determineConversionStatus ::
  "int \<Rightarrow> strmap \<Rightarrow> (string, bool) gomap \<Rightarrow> string list \<Rightarrow> bool \<Rightarrow> statusDecision" where
  "determineConversionStatus now annotations routeAcceptance warnings hasTimeout =
     (let allAccepted = list_all snd routeAcceptance
      in if hasTimeout then pending True
         else if \<not> allAccepted then finished ConversionStatusPartial
         else
           (let verifyTime = str_at annotations AnnotationVerificationTimestamp
            in if verifyTime = [] then pending False
               else (case Parse verifyTime of
                       None \<Rightarrow> pending False
                     | Some ts \<Rightarrow>
                         if now - ts < 5 * second_ns then pending False
                         else if warnings \<noteq> [] then finished ConversionStatusPartial
                         else finished ConversionStatusConverted)))"

definition set_or_delete :: "string \<Rightarrow> string \<Rightarrow> string list \<Rightarrow> strmap \<Rightarrow> strmap" where
  "set_or_delete key sep values m = (if values \<noteq> [] then gomap_put key (join sep values) m else gomap_del key m)"

text \<open>The annotations after a pass; \<open>now\<close> is the instant at which the decision reads the clock, \<open>stamp\<close> the
  one at which the timestamp is taken, in a zone \<open>off\<close> minutes east of UTC.\<close>

definition status_annotations ::
  "int \<Rightarrow> int \<Rightarrow> int \<Rightarrow> string list \<Rightarrow> string list \<Rightarrow> string list \<Rightarrow> (string, bool) gomap \<Rightarrow> bool \<Rightarrow> strmap \<Rightarrow> bool \<times> strmap" where
  "status_annotations off now stamp warnings httpRouteNames grpcRouteNames routeAcceptance hasTimeout annotations =
     (let decision = determineConversionStatus now annotations routeAcceptance warnings hasTimeout;
          a1 = (if sd_clearVerifyTime decision then gomap_del AnnotationVerificationTimestamp annotations
                else if str_at annotations AnnotationVerificationTimestamp = []
                then gomap_put AnnotationVerificationTimestamp (Format off stamp) annotations
                else annotations);
          a2 = set_or_delete AnnotationConversionWarnings ''; '' warnings a1;
          a3 = gomap_put AnnotationConversionStatus (sd_status decision) a2;
          a4 = set_or_delete AnnotationConvertedHTTPRoute '','' httpRouteNames a3;
          a5 = set_or_delete AnnotationConvertedGRPCRoute '','' grpcRouteNames a4
      in (sd_requeue decision, a5))"

definition with_annotations :: "strmap \<Rightarrow> ingress \<Rightarrow> ingress" where
  "with_annotations m ing = ing\<lparr> ing_Meta := (ing_Meta ing)\<lparr> om_Annotations := Some m \<rparr> \<rparr>"

definition ing_key :: "ingress \<Rightarrow> nsname" where
  "ing_key ing = (om_Namespace (ing_Meta ing), om_Name (ing_Meta ing))"

definition updateIngressStatusStaged ::
  "'s api \<Rightarrow> int \<Rightarrow> ingress \<Rightarrow> string list \<Rightarrow> string list \<Rightarrow> string list \<Rightarrow> (string, bool) gomap \<Rightarrow> bool \<Rightarrow> 's \<Rightarrow>
   (string + bool) \<times> 's" where
  "updateIngressStatusStaged api off ing warnings httpRouteNames grpcRouteNames routeAcceptance hasTimeout s =
     (case c_get (api_Ingresses api) (ing_key ing) s of
        NotFound \<Rightarrow> (Inl ''not found'', s)
      | GetError e \<Rightarrow> (Inl e, s)
      | Found current \<Rightarrow>
          (case status_annotations off (api_now api s) (api_now api s) warnings httpRouteNames grpcRouteNames
                  routeAcceptance hasTimeout (ing_annotations (si_Ingress current)) of
             (requeue, m) \<Rightarrow>
               (case c_update (api_Ingresses api)
                       (current\<lparr> si_Ingress := with_annotations m (si_Ingress current) \<rparr>) s of
                  (s', None) \<Rightarrow> (Inr requeue, s')
                | (s', Some e) \<Rightarrow> (Inl e, s'))))"

definition annotateSkipped :: "'s api \<Rightarrow> ingress \<Rightarrow> string \<Rightarrow> 's \<Rightarrow> string option \<times> 's" where
  "annotateSkipped api ing reason s =
     (case c_get (api_Ingresses api) (ing_key ing) s of
        NotFound \<Rightarrow> (Some ''not found'', s)
      | GetError e \<Rightarrow> (Some e, s)
      | Found current \<Rightarrow>
          (let m = ing_annotations (si_Ingress current)
           in if str_at m AnnotationConversionStatus = ConversionStatusSkipped \<and>
                 str_at m AnnotationConversionSkipReason = reason
              then (None, s)
              else (case c_update (api_Ingresses api)
                      (current\<lparr> si_Ingress := with_annotations
                         (gomap_put AnnotationConversionSkipReason reason
                           (gomap_put AnnotationConversionStatus ConversionStatusSkipped m)) (si_Ingress current) \<rparr>) s of
                      (s', err) \<Rightarrow> (err, s'))))"

section \<open>Services and TLS secrets\<close>

definition fetchService :: "'s api \<Rightarrow> 's \<Rightarrow> nsname \<Rightarrow> (nsname, service) gomap \<Rightarrow> (nsname, service) gomap" where
  "fetchService api s key services =
     (if map_of services key \<noteq> None then services
      else (case c_get (api_Services api) key s of Found svc \<Rightarrow> gomap_put key svc services | _ \<Rightarrow> services))"

definition backend_services :: "ingress \<Rightarrow> string list" where
  "backend_services ing =
     (case ing_DefaultBackend ing of
        None \<Rightarrow> []
      | Some b \<Rightarrow> (case ib_Service b of None \<Rightarrow> [] | Some svc \<Rightarrow> [sbk_Name svc])) @
     concat (map (\<lambda>rule. case ir_HTTP rule of
        None \<Rightarrow> []
      | Some paths \<Rightarrow> concat (map (\<lambda>p. case ib_Service (ip_Backend p) of None \<Rightarrow> [] | Some svc \<Rightarrow> [sbk_Name svc]) paths))
       (ing_Rules ing))"

definition fetchServicesForIngress :: "'s api \<Rightarrow> 's \<Rightarrow> ingress \<Rightarrow> (nsname, service) gomap" where
  "fetchServicesForIngress api s ing =
     fold (\<lambda>name. fetchService api s (om_Namespace (ing_Meta ing), name)) (backend_services ing) []"

definition secretDataEqual :: "(string, string) gomap \<Rightarrow> (string, string) gomap \<Rightarrow> bool" where
  "secretDataEqual a b \<longleftrightarrow> length a = length b \<and> list_all (\<lambda>(k, v). map_of b k = Some v) a"

definition synced_name :: "tls_listener \<Rightarrow> string" where
  "synced_name tls = ''ingress-'' @ tl_SourceSecretNamespace tls @ ''-'' @ tl_SourceSecretName tls"

definition source_key :: "tls_listener \<Rightarrow> string" where
  "source_key tls = tl_SourceSecretNamespace tls @ ''/'' @ tl_SourceSecretName tls"

definition synced_secret :: "string \<Rightarrow> tls_listener \<Rightarrow> secret \<Rightarrow> secret" where
  "synced_secret gatewayNs tls source =
     \<lparr> sc_Meta = \<lparr> om_Name = synced_name tls, om_Namespace = gatewayNs, om_UID = [],
         om_Labels = [(conversion_LabelManagedBy, ControllerName)],
         om_Annotations = Some [(''kubelb.k8c.io/source-secret'', source_key tls)] \<rparr>,
       sc_Type = sc_Type source, sc_Data = sc_Data source \<rparr>"

definition write_secret :: "'s api \<Rightarrow> string \<Rightarrow> tls_listener \<Rightarrow> secret \<Rightarrow> 's \<Rightarrow> string option \<times> 's" where
  "write_secret api gatewayNs tls source s =
     (let syncedName = synced_name tls
      in case c_get (api_Secrets api) (gatewayNs, syncedName) s of
           NotFound \<Rightarrow>
             (case c_create (api_Secrets api) (synced_secret gatewayNs tls source) s of
                (s', None) \<Rightarrow> (None, s')
              | (s', Some e) \<Rightarrow> (Some (''failed to create synced TLS secret '' @ syncedName @ '': '' @ e), s'))
         | GetError e \<Rightarrow> (Some (''failed to get target TLS secret '' @ syncedName @ '': '' @ e), s)
         | Found target \<Rightarrow>
             if secretDataEqual (sc_Data source) (sc_Data target) then (None, s)
             else
               (case c_update (api_Secrets api) (target\<lparr> sc_Data := sc_Data source, sc_Type := sc_Type source \<rparr>) s of
                  (s', None) \<Rightarrow> (None, s')
                | (s', Some e) \<Rightarrow> (Some (''failed to update synced TLS secret '' @ syncedName @ '': '' @ e), s')))"

fun sync_secrets ::
  "'s api \<Rightarrow> string \<Rightarrow> string list \<Rightarrow> tls_listener list \<Rightarrow> 's \<Rightarrow> (string + tls_listener list) \<times> 's" where
  "sync_secrets api gatewayNs seen [] s = (Inr [], s)"
| "sync_secrets api gatewayNs seen (tls # rest) s =
     (let skip = (\<lambda>seen' tls' s'. case sync_secrets api gatewayNs seen' rest s' of
                    (Inl e, s'') \<Rightarrow> (Inl e, s'')
                  | (Inr out, s'') \<Rightarrow> (Inr (tls' # out), s''));
          synced = tls\<lparr> tl_SecretName := synced_name tls \<rparr>
      in if tl_SourceSecretName tls = [] \<or> tl_SourceSecretNamespace tls = gatewayNs then skip seen tls s
         else if source_key tls \<in> set seen then skip seen synced s
         else
           (case c_get (api_Secrets api) (tl_SourceSecretNamespace tls, tl_SourceSecretName tls) s of
              NotFound \<Rightarrow> skip (source_key tls # seen) tls s
            | GetError e \<Rightarrow> (Inl (''failed to get TLS secret '' @ source_key tls @ '': '' @ e), s)
            | Found source \<Rightarrow>
                (case write_secret api gatewayNs tls source s of
                   (Some e, s') \<Rightarrow> (Inl e, s')
                 | (None, s') \<Rightarrow> skip (source_key tls # seen) synced s')))"

definition syncTLSSecrets :: "'s api \<Rightarrow> Reconciler \<Rightarrow> tls_listener list \<Rightarrow> 's \<Rightarrow> (string + tls_listener list) \<times> 's" where
  "syncTLSSecrets api r tlsListeners s =
     (if \<not> r_CopyTLSSecrets r then (Inr tlsListeners, s)
      else sync_secrets api (r_GatewayNamespace r) [] tlsListeners s)"

text \<open>\<^verbatim>\<open>pkg/conversion/secrets.go\<close>: the copy made by the command line tools.\<close>

definition AnnotationSourceNamespace :: string where "AnnotationSourceNamespace = ''kubelb.k8c.io/source-namespace''"

definition CopyTLSSecretWithManagedBy ::
  "'s api \<Rightarrow> string \<Rightarrow> string \<Rightarrow> string \<Rightarrow> string \<Rightarrow> 's \<Rightarrow> string option \<times> 's" where
  "CopyTLSSecretWithManagedBy api sourceNS secretName targetNS managedBy s =
     (case c_get (api_Secrets api) (sourceNS, secretName) s of
        NotFound \<Rightarrow> (Some ''failed to get source secret: not found'', s)
      | GetError e \<Rightarrow> (Some (''failed to get source secret: '' @ e), s)
      | Found source \<Rightarrow>
          (case c_get (api_Secrets api) (targetNS, secretName) s of
             Found target \<Rightarrow>
               (case c_update (api_Secrets api) (target\<lparr> sc_Data := sc_Data source, sc_Type := sc_Type source \<rparr>) s of
                  (s', None) \<Rightarrow> (None, s')
                | (s', Some e) \<Rightarrow> (Some (''failed to update target secret: '' @ e), s'))
           | GetError e \<Rightarrow> (Some (''failed to check target secret: '' @ e), s)
           | NotFound \<Rightarrow>
               (case c_create (api_Secrets api)
                  \<lparr> sc_Meta = \<lparr> om_Name = secretName, om_Namespace = targetNS, om_UID = [],
                      om_Labels = [(conversion_LabelManagedBy, managedBy)],
                      om_Annotations = Some [(AnnotationSourceNamespace, sourceNS)] \<rparr>,
                    sc_Type = sc_Type source, sc_Data = sc_Data source \<rparr> s of
                  (s', None) \<Rightarrow> (None, s')
                | (s', Some e) \<Rightarrow> (Some (''failed to create target secret: '' @ e), s'))))"

definition CopyTLSSecret :: "'s api \<Rightarrow> string \<Rightarrow> string \<Rightarrow> string \<Rightarrow> 's \<Rightarrow> string option \<times> 's" where
  "CopyTLSSecret api sourceNS secretName targetNS s = CopyTLSSecretWithManagedBy api sourceNS secretName targetNS ControllerName s"

section \<open>Routes\<close>

definition source_ingress :: "ingress \<Rightarrow> string" where
  "source_ingress ing = om_Name (ing_Meta ing) @ ''.'' @ om_Namespace (ing_Meta ing)"

definition applyRouteMetadata :: "'r gw_route \<Rightarrow> ingress \<Rightarrow> strmap \<Rightarrow> 'r route_object" where
  "applyRouteMetadata route ing annotations =
     \<lparr> ro_Route = route\<lparr> gw_Labels := gomap_put LabelSourceIngress (source_ingress ing) (gw_Labels route) \<rparr>,
       ro_Annotations = maps_copy [] annotations \<rparr>"

definition route_key :: "'r gw_route \<Rightarrow> nsname" where
  "route_key route = (gw_Namespace route, gw_Name route)"

definition create_or_update ::
  "('s, 'o) crud \<Rightarrow> string \<Rightarrow> nsname \<Rightarrow> 'o \<Rightarrow> ('o \<Rightarrow> 'o) \<Rightarrow> 's \<Rightarrow> string option \<times> 's" where
  "create_or_update c kind key obj overwrite s =
     (case c_get c key s of
        NotFound \<Rightarrow> (case c_create c obj s of
                      (s', None) \<Rightarrow> (None, s')
                    | (s', Some e) \<Rightarrow> (Some (''failed to create '' @ kind @ '': '' @ e), s'))
      | GetError e \<Rightarrow> (Some (''failed to get '' @ kind @ '': '' @ e), s)
      | Found existing \<Rightarrow> (case c_update c (overwrite existing) s of
                      (s', None) \<Rightarrow> (None, s')
                    | (s', Some e) \<Rightarrow> (Some (''failed to update '' @ kind @ '': '' @ e), s')))"

definition overwrite_route :: "'r route_object \<Rightarrow> 'r route_object \<Rightarrow> 'r route_object" where
  "overwrite_route new existing =
     \<lparr> ro_Route = (ro_Route existing)\<lparr> gw_Labels := gw_Labels (ro_Route new), gw_ParentRefs := gw_ParentRefs (ro_Route new),
         gw_Hostnames := gw_Hostnames (ro_Route new), gw_Rules := gw_Rules (ro_Route new) \<rparr>,
       ro_Annotations = ro_Annotations new \<rparr>"

fun reconcile_routes ::
  "('s, 'r route_object) crud \<Rightarrow> string \<Rightarrow> ingress \<Rightarrow> strmap \<Rightarrow> 'r gw_route list \<Rightarrow> 's \<Rightarrow> (string + string list) \<times> 's" where
  "reconcile_routes c kind ing annotations [] s = (Inr [], s)"
| "reconcile_routes c kind ing annotations (route # routes) s =
     (let obj = applyRouteMetadata route ing annotations
      in case create_or_update c kind (route_key route) obj (overwrite_route obj) s of
           (Some e, s') \<Rightarrow> (Inl e, s')
         | (None, s') \<Rightarrow>
             (case reconcile_routes c kind ing annotations routes s' of
                (Inl e, s'') \<Rightarrow> (Inl e, s'')
              | (Inr names, s'') \<Rightarrow> (Inr ((gw_Namespace route @ ''/'' @ gw_Name route) # names), s'')))"

section \<open>Policies\<close>

definition setPolicyOwnerRef :: "'a policy_meta_scheme \<Rightarrow> ingress \<Rightarrow> string option \<Rightarrow> 'a policy_meta_scheme owned_policy" where
  "setPolicyOwnerRef policy ing httpRoute =
     \<lparr> ow_Policy = policy\<lparr> pm_Labels := gomap_put LabelSourceIngress (source_ingress ing) (pm_Labels policy) \<rparr>,
       ow_Owner = httpRoute \<rparr>"

definition overwrite_policy ::
  "'a policy_meta_scheme owned_policy \<Rightarrow> 'a policy_meta_scheme owned_policy \<Rightarrow> 'a policy_meta_scheme owned_policy" where
  "overwrite_policy new existing =
     \<lparr> ow_Policy = (ow_Policy new)\<lparr> pm_Name := pm_Name (ow_Policy existing), pm_Namespace := pm_Namespace (ow_Policy existing) \<rparr>,
       ow_Owner = ow_Owner new \<rparr>"

fun apply_policies ::
  "('s, 'a policy_meta_scheme owned_policy) crud \<Rightarrow> string \<Rightarrow> ingress \<Rightarrow> string option \<Rightarrow> 'a policy_meta_scheme list \<Rightarrow> 's \<Rightarrow>
   string option \<times> 's" where
  "apply_policies c kind ing owner [] s = (None, s)"
| "apply_policies c kind ing owner (p # ps) s =
     (let obj = setPolicyOwnerRef p ing owner
      in case create_or_update c kind (pm_Namespace p, pm_Name p) obj (overwrite_policy obj) s of
           (Some e, s') \<Rightarrow> (Some e, s')
         | (None, s') \<Rightarrow> apply_policies c kind ing owner ps s')"

definition reconcilePolicies :: "'s api \<Rightarrow> ingress \<Rightarrow> string \<Rightarrow> 's \<Rightarrow> (string list \<times> string option) \<times> 's" where
  "reconcilePolicies api ing routeName s =
     (let policyResult = ConvertToPolicies \<lparr> pi_IngressName = om_Name (ing_Meta ing), pi_IngressNamespace = om_Namespace (ing_Meta ing),
                           pi_RouteName = routeName, pi_Annotations = om_Annotations (ing_Meta ing) \<rparr>;
          owner = (case c_get (api_HTTPRoutes api) (om_Namespace (ing_Meta ing), routeName) s of
                     Found route \<Rightarrow> Some (gw_Name (ro_Route route)) | _ \<Rightarrow> None)
      in case apply_policies (api_SecurityPolicies api) ''SecurityPolicy'' ing owner (pr_SecurityPolicies policyResult) s of
           (Some e, s1) \<Rightarrow> ((pr_Warnings policyResult, Some e), s1)
         | (None, s1) \<Rightarrow>
             (case apply_policies (api_BackendTrafficPolicies api) ''BackendTrafficPolicy'' ing owner
                     (pr_BackendTrafficPolicies policyResult) s1 of
                (err, s2) \<Rightarrow> ((pr_Warnings policyResult, err), s2)))"

section \<open>Acceptance\<close>

record routeAcceptanceResult =
  ra_accepted :: bool
  ra_reason :: string

definition terminal_condition :: "string \<Rightarrow> parent_status list \<Rightarrow> condition option" where
  "terminal_condition gatewayName parents =
     find (\<lambda>c. cond_Type c = ''Accepted'' \<and> (cond_Status c = ''True'' \<or> cond_Status c = ''False''))
       (concat (map ps_Conditions (filter (\<lambda>p. ps_Name p = gatewayName) parents)))"

text \<open>\<^verbatim>\<open>waitForRouteAcceptance\<close> and \<^verbatim>\<open>waitForGRPCRouteAcceptance\<close> on the answers to the polls made before the
  deadline (\<^const>\<open>None\<close>: the request failed).\<close>

fun waitForRouteAcceptance :: "string \<Rightarrow> parent_status list option list \<Rightarrow> routeAcceptanceResult" where
  "waitForRouteAcceptance gatewayName [] = \<lparr> ra_accepted = False, ra_reason = routeAcceptanceReasonTimeout \<rparr>"
| "waitForRouteAcceptance gatewayName (None # polls) = waitForRouteAcceptance gatewayName polls"
| "waitForRouteAcceptance gatewayName (Some parents # polls) =
     (case terminal_condition gatewayName parents of
        Some c \<Rightarrow> (if cond_Status c = ''True'' then \<lparr> ra_accepted = True, ra_reason = [] \<rparr>
                   else \<lparr> ra_accepted = False, ra_reason = cond_Reason c \<rparr>)
      | None \<Rightarrow> waitForRouteAcceptance gatewayName polls)"

record verification =
  vf_acceptance :: "(string, bool) gomap"
  vf_timeout :: bool
  vf_warnings :: "string list"

fun verify_routes ::
  "(nsname \<Rightarrow> 's \<Rightarrow> parent_status list option list \<times> 's) \<Rightarrow> string \<Rightarrow> string \<Rightarrow> 'r gw_route list \<Rightarrow>
   verification \<times> 's \<Rightarrow> verification \<times> 's" where
  "verify_routes poll kind gatewayName [] st = st"
| "verify_routes poll kind gatewayName (route # routes) (v, s) =
     (case poll (route_key route) s of (polls, s') \<Rightarrow>
        (let acceptance = waitForRouteAcceptance gatewayName polls;
             v1 = v\<lparr> vf_acceptance := gomap_put (gw_Name route) (ra_accepted acceptance) (vf_acceptance v) \<rparr>;
             v2 = (if ra_accepted acceptance then v1
                   else if ra_reason acceptance = routeAcceptanceReasonTimeout then v1\<lparr> vf_timeout := True \<rparr>
                   else v1\<lparr> vf_warnings := vf_warnings v1 @
                          [kind @ '' '' @ gw_Name route @ '' not accepted: '' @ ra_reason acceptance] \<rparr>)
         in verify_routes poll kind gatewayName routes (v2, s')))"

section \<open>Reconciliation\<close>

definition apply_gateway :: "'s api \<Rightarrow> gateway_action \<Rightarrow> 's \<Rightarrow> string option \<times> 's" where
  "apply_gateway api action s =
     (case action of
        CreateGateway g \<Rightarrow> (case c_create (api_Gateways api) g s of (s', err) \<Rightarrow> (err, s'))
      | UpdateGateway g \<Rightarrow> (case c_update (api_Gateways api) g s of (s', err) \<Rightarrow> (err, s'))
      | KeepGateway \<Rightarrow> (None, s)
      | GatewayFailure e \<Rightarrow> (Some e, s))"

definition conversion_of ::
  "url_parser \<Rightarrow> http_rule marshaller \<Rightarrow> grpc_rule marshaller \<Rightarrow> 's api \<Rightarrow> Reconciler \<Rightarrow> ingress \<Rightarrow> 's \<Rightarrow> conversion_result" where
  "conversion_of parse marshal grpc_marshal api r ing s =
     ConvertIngressWithServices parse marshal grpc_marshal
       \<lparr> in_Ingress = ing, in_GatewayName = r_GatewayName r, in_GatewayNamespace = r_GatewayNamespace r,
         in_Services = Some (fetchServicesForIngress api s ing), in_DomainReplace = r_DomainReplace r,
         in_DomainSuffix = r_DomainSuffix r, in_SkipPolicyWarnings = \<not> r_DisableEnvoyGatewayFeatures r \<rparr>"

definition policy_step :: "'s api \<Rightarrow> Reconciler \<Rightarrow> ingress \<Rightarrow> http_rule gw_route list \<Rightarrow> 's \<Rightarrow> string list \<times> 's" where
  "policy_step api r ing httpRoutes s =
     (if \<not> r_DisableEnvoyGatewayFeatures r \<and> httpRoutes \<noteq> [] then
        (case reconcilePolicies api ing (gw_Name (hd httpRoutes)) s of
           ((warnings, None), s') \<Rightarrow> (warnings, s')
         | ((warnings, Some e), s') \<Rightarrow> (warnings @ [''failed to reconcile policies: '' @ e], s'))
      else ([], s))"

definition finish ::
  "'s api \<Rightarrow> Reconciler \<Rightarrow> int \<Rightarrow> ingress \<Rightarrow> conversion_result \<Rightarrow> string list \<Rightarrow> string list \<Rightarrow> 's \<Rightarrow> (string + bool) \<times> 's" where
  "finish api r off ing result httpRouteNames grpcRouteNames s =
     (case policy_step api r ing (cr_HTTPRoutes result) s of (policyWarnings, s1) \<Rightarrow>
      case verify_routes (api_pollHTTPRoute api) ''HTTPRoute'' (r_GatewayName r) (cr_HTTPRoutes result)
             (\<lparr> vf_acceptance = [], vf_timeout = False, vf_warnings = cr_Warnings result @ policyWarnings \<rparr>, s1) of (v1, s2) \<Rightarrow>
      case verify_routes (api_pollGRPCRoute api) ''GRPCRoute'' (r_GatewayName r) (cr_GRPCRoutes result) (v1, s2) of (v2, s3) \<Rightarrow>
      case updateIngressStatusStaged api off ing (vf_warnings v2) httpRouteNames grpcRouteNames (vf_acceptance v2)
             (vf_timeout v2) s3 of
        (Inl e, s4) \<Rightarrow> (Inl (''failed to update Ingress status: '' @ e), s4)
      | (Inr requeue, s4) \<Rightarrow> (Inr requeue, s4))"

definition reconcile ::
  "url_parser \<Rightarrow> http_rule marshaller \<Rightarrow> grpc_rule marshaller \<Rightarrow> 's api \<Rightarrow> Reconciler \<Rightarrow> int \<Rightarrow> ingress \<Rightarrow> 's \<Rightarrow> (string + bool) \<times> 's" where
  "reconcile parse marshal grpc_marshal api r off ing s =
     (let result = conversion_of parse marshal grpc_marshal api r ing s
      in if cr_HTTPRoutes result = [] \<and> cr_GRPCRoutes result = [] then (Inl ''conversion produced no routes'', s)
         else
           (case syncTLSSecrets api r (cr_TLSListeners result) s of
              (Inl e, s1) \<Rightarrow> (Inl (''failed to sync TLS secrets: '' @ e), s1)
            | (Inr tlsListeners, s1) \<Rightarrow>
                (case apply_gateway api (reconcileGateway r ing tlsListeners
                        (c_get (api_Gateways api) (gateway_namespace r ing, r_GatewayName r) s1)) s1 of
                   (Some e, s2) \<Rightarrow> (Inl (''failed to reconcile Gateway: '' @ e), s2)
                 | (None, s2) \<Rightarrow>
                     (let annotations = extractHTTPRouteAnnotations r ing
                      in case reconcile_routes (api_HTTPRoutes api) ''HTTPRoute'' ing annotations (cr_HTTPRoutes result) s2 of
                           (Inl e, s3) \<Rightarrow> (Inl e, s3)
                         | (Inr httpRouteNames, s3) \<Rightarrow>
                             (case reconcile_routes (api_GRPCRoutes api) ''GRPCRoute'' ing annotations (cr_GRPCRoutes result) s3 of
                                (Inl e, s4) \<Rightarrow> (Inl e, s4)
                              | (Inr grpcRouteNames, s4) \<Rightarrow>
                                  finish api r off ing result httpRouteNames grpcRouteNames s4)))))"

text \<open>The result of \<^verbatim>\<open>Reconcile\<close>: an error, or the delay in seconds after which the Ingress is looked at again.\<close>

definition Reconcile ::
  "url_parser \<Rightarrow> http_rule marshaller \<Rightarrow> grpc_rule marshaller \<Rightarrow> 's api \<Rightarrow> Reconciler \<Rightarrow> int \<Rightarrow> nsname \<Rightarrow> 's \<Rightarrow>
   (string + int option) \<times> 's" where
  "Reconcile parse marshal grpc_marshal api r off req s =
     (case c_get (api_Ingresses api) req s of
        NotFound \<Rightarrow> (Inr None, s)
      | GetError e \<Rightarrow> (Inl e, s)
      | Found stored \<Rightarrow>
          (if si_Deleting stored then (Inr None, s)
           else
             (let ing = si_Ingress stored; decision = shouldConvert r ing
              in if \<not> cd_shouldConvert decision then
                   (if cd_annotate decision
                    then (case annotateSkipped api ing (cd_skipReason decision) s of
                            (Some e, s') \<Rightarrow> (Inl e, s')
                          | (None, s') \<Rightarrow> (Inr None, s'))
                    else (Inr None, s))
                 else
                   (case reconcile parse marshal grpc_marshal api r off ing s of
                      (Inl e, s') \<Rightarrow> (Inl e, s')
                    | (Inr requeue, s') \<Rightarrow> (Inr (if requeue then Some 5 else None), s')))))"

section \<open>The status protocol as a state machine\<close>

text \<open>One pass of the reconciler as the status protocol sees it, and the annotations the passes of a run leave on an
  Ingress that starts without a verification timestamp. A pass happens only while \<open>shouldConvert\<close> selects the Ingress,
  and the clock does not go back.\<close>

record status_pass =
  sp_off :: int
  sp_now :: int
  sp_stamp :: int
  sp_warnings :: "string list"
  sp_http :: "string list"
  sp_grpc :: "string list"
  sp_acceptance :: "(string, bool) gomap"
  sp_timeout :: bool

definition run_pass :: "status_pass \<Rightarrow> strmap \<Rightarrow> bool \<times> strmap" where
  "run_pass p m = status_annotations (sp_off p) (sp_now p) (sp_stamp p) (sp_warnings p) (sp_http p) (sp_grpc p)
     (sp_acceptance p) (sp_timeout p) m"

definition accepted_pass :: "status_pass \<Rightarrow> bool" where
  "accepted_pass p \<longleftrightarrow> list_all snd (sp_acceptance p) \<and> \<not> sp_timeout p"

abbreviation status_of :: "strmap \<Rightarrow> string" where
  "status_of m \<equiv> str_at m AnnotationConversionStatus"

abbreviation stamp_of :: "strmap \<Rightarrow> string" where
  "stamp_of m \<equiv> str_at m AnnotationVerificationTimestamp"

inductive passes :: "Reconciler \<Rightarrow> ingress \<Rightarrow> strmap \<Rightarrow> status_pass list \<Rightarrow> bool" for r ing where
  start: "stamp_of m = [] \<Longrightarrow> status_of m \<noteq> ConversionStatusConverted \<Longrightarrow> passes r ing m []"
| pass: "passes r ing m tr \<Longrightarrow> cd_shouldConvert (shouldConvert r (with_annotations m ing)) \<Longrightarrow>
    formattable (sp_off p) (sp_stamp p) \<Longrightarrow> sp_now p \<le> sp_stamp p \<Longrightarrow> \<forall>q \<in> set tr. sp_stamp q \<le> sp_now p \<Longrightarrow>
    passes r ing (snd (run_pass p m)) (tr @ [p])"

inductive_cases passesE: "passes r ing m tr"

lemma str_at_put [gomap_simps]: "str_at (gomap_put k v m) k' = (if k' = k then v else str_at m k')"
  by (simp add: str_at_def map_of_put)

lemma str_at_del [gomap_simps]: "str_at (gomap_del k m) k' = (if k' = k then [] else str_at m k')"
  by (simp add: str_at_def map_of_delete_other)

lemma str_at_set_or_delete: "k' \<noteq> k \<Longrightarrow> str_at (set_or_delete k sep vs m) k' = str_at m k'"
  by (simp add: set_or_delete_def str_at_put str_at_del)

lemma status_keys:
  "AnnotationConversionStatus \<noteq> AnnotationVerificationTimestamp"
  "AnnotationVerificationTimestamp \<noteq> AnnotationConversionStatus"
  "AnnotationVerificationTimestamp \<noteq> AnnotationConversionWarnings"
  "AnnotationVerificationTimestamp \<noteq> AnnotationConvertedHTTPRoute"
  "AnnotationVerificationTimestamp \<noteq> AnnotationConvertedGRPCRoute"
  "AnnotationConversionStatus \<noteq> AnnotationConvertedHTTPRoute"
  "AnnotationConversionStatus \<noteq> AnnotationConvertedGRPCRoute"
  by code_simp+

definition pass_decision :: "status_pass \<Rightarrow> strmap \<Rightarrow> statusDecision" where
  "pass_decision p m = determineConversionStatus (sp_now p) m (sp_acceptance p) (sp_warnings p) (sp_timeout p)"

lemma run_pass_status: "status_of (snd (run_pass p m)) = sd_status (pass_decision p m)"
  by (simp add: run_pass_def status_annotations_def Let_def pass_decision_def str_at_set_or_delete str_at_put status_keys)

lemma run_pass_stamp:
  "stamp_of (snd (run_pass p m)) =
     (if sd_clearVerifyTime (pass_decision p m) then []
      else if stamp_of m = [] then Format (sp_off p) (sp_stamp p) else stamp_of m)"
  by (simp add: run_pass_def status_annotations_def Let_def pass_decision_def str_at_set_or_delete str_at_put str_at_del status_keys)

lemma status_values:
  "ConversionStatusPending \<noteq> ConversionStatusConverted" "ConversionStatusPartial \<noteq> ConversionStatusConverted"
  by code_simp+

lemma pass_decision_unaccepted:
  "\<not> accepted_pass p \<Longrightarrow> pass_decision p m = pending True \<or> pass_decision p m = finished ConversionStatusPartial"
  by (auto simp: pass_decision_def determineConversionStatus_def accepted_pass_def Let_def)

lemma pass_decision_accepted:
  assumes "accepted_pass p"
  shows "pass_decision p m =
     (if stamp_of m = [] then pending False
      else (case Parse (stamp_of m) of
              None \<Rightarrow> pending False
            | Some ts \<Rightarrow> if sp_now p - ts < 5 * second_ns then pending False
                         else if sp_warnings p \<noteq> [] then finished ConversionStatusPartial
                         else finished ConversionStatusConverted))"
  using assms by (simp add: pass_decision_def determineConversionStatus_def accepted_pass_def Let_def)

lemma pass_decision_converted:
  assumes "sd_status (pass_decision p m) = ConversionStatusConverted"
  obtains ts where "accepted_pass p" "sp_warnings p = []" "stamp_of m \<noteq> []" "Parse (stamp_of m) = Some ts" "5 * second_ns \<le> sp_now p - ts"
proof -
  have st: "sd_status (pending b) \<noteq> ConversionStatusConverted" "sd_status (finished ConversionStatusPartial) \<noteq> ConversionStatusConverted" for b
    using status_values by (simp_all add: pending_def finished_def)
  have acc: "accepted_pass p" using pass_decision_unaccepted [of p m] assms st by metis
  show ?thesis
    using assms that acc st unfolding pass_decision_accepted [OF acc] by (auto split: if_splits option.splits)
qed

lemma pass_decision_keep: "\<not> sd_clearVerifyTime (pass_decision p m) \<Longrightarrow> accepted_pass p"
proof (rule ccontr)
  assume keep: "\<not> sd_clearVerifyTime (pass_decision p m)" and un: "\<not> accepted_pass p"
  have "sd_clearVerifyTime (pass_decision p m)"
    by (rule disjE [OF pass_decision_unaccepted [OF un, of m]]) (simp_all add: pending_def finished_def)
  with keep show False ..
qed

lemma Format_nonempty: "Format off t \<noteq> []"
proof -
  have "pad4 y @ x \<noteq> []" for y x by (simp add: pad4_def pad2_def)
  then show ?thesis unfolding Format_def Let_def by (simp only: split: prod.split) blast
qed

definition verified_since :: "status_pass list \<Rightarrow> string \<Rightarrow> bool" where
  "verified_since tr v \<longleftrightarrow> (\<exists>pre p0 mid. tr = pre @ p0 # mid \<and> v = Format (sp_off p0) (sp_stamp p0) \<and>
     formattable (sp_off p0) (sp_stamp p0) \<and> list_all accepted_pass (p0 # mid))"

lemma passes_stamp:
  assumes "passes r ing m tr"
  shows "stamp_of m = [] \<or> verified_since tr (stamp_of m)"
  using assms
proof (induction rule: passes.induct)
  case (pass m tr p)
  show ?case
  proof (cases "sd_clearVerifyTime (pass_decision p m)")
    case False
    have acc: "accepted_pass p" by (rule pass_decision_keep [OF False])
    show ?thesis
    proof (cases "stamp_of m = []")
      case True
      then have "verified_since (tr @ [p]) (stamp_of (snd (run_pass p m)))"
        unfolding verified_since_def
        by (intro exI [of _ tr] exI [of _ p] exI [of _ "[]"]) (use False acc pass.hyps(3) in \<open>simp add: run_pass_stamp\<close>)
      then show ?thesis ..
    next
      case stamped: False
      with pass.IH obtain pre p0 mid where "tr = pre @ p0 # mid" "stamp_of m = Format (sp_off p0) (sp_stamp p0)"
        "formattable (sp_off p0) (sp_stamp p0)" "list_all accepted_pass (p0 # mid)"
        unfolding verified_since_def by blast
      then have "tr @ [p] = pre @ p0 # (mid @ [p])" "list_all accepted_pass (p0 # (mid @ [p]))" using acc by simp_all
      then have "verified_since (tr @ [p]) (stamp_of m)"
        using \<open>stamp_of m = _\<close> \<open>formattable (sp_off p0) _\<close> unfolding verified_since_def by blast
      then show ?thesis using False stamped by (simp add: run_pass_stamp)
    qed
  qed (simp add: run_pass_stamp)
qed simp

text \<open>C21. The status \<^verbatim>\<open>converted\<close> is reached only by two-pass verification: the last pass saw every route accepted,
  no timeout and no warning, an earlier pass recorded the verification timestamp, and every pass from that one to the last
  saw every route accepted without a timeout. The timestamp has a resolution of one second, so the two passes are more
  than four seconds apart.\<close>

theorem converted_only_after_verification:
  assumes run: "passes r ing m tr" and conv: "status_of m = ConversionStatusConverted"
  shows "\<exists>pre p0 mid pn. tr = pre @ p0 # mid @ [pn] \<and> list_all accepted_pass (p0 # mid @ [pn]) \<and>
     sp_warnings pn = [] \<and> 4 * second_ns < sp_now pn - sp_stamp p0"
  using run
proof (cases rule: passes.cases)
  case (pass m0 tr0 p)
  have "sd_status (pass_decision p m0) = ConversionStatusConverted" using conv pass(1) by (simp add: run_pass_status)
  then obtain ts where acc: "accepted_pass p" "sp_warnings p = []" and ne: "stamp_of m0 \<noteq> []"
    and ts: "Parse (stamp_of m0) = Some ts" "5 * second_ns \<le> sp_now p - ts" by (rule pass_decision_converted)
  from passes_stamp [OF pass(3)] ne obtain pre p0 mid where t: "tr0 = pre @ p0 # mid" "list_all accepted_pass (p0 # mid)"
    "stamp_of m0 = Format (sp_off p0) (sp_stamp p0)" "formattable (sp_off p0) (sp_stamp p0)" unfolding verified_since_def by blast
  have "ts = sp_stamp p0 - sp_stamp p0 mod second_ns" using ts(1) parse_format [OF t(4)] by (simp add: t(3))
  then have "4 * second_ns < sp_now p - sp_stamp p0" using ts(2) pos_mod_bound [of second_ns "sp_stamp p0"] by simp
  then have "tr = pre @ p0 # mid @ [p] \<and> list_all accepted_pass (p0 # mid @ [p]) \<and>
     sp_warnings p = [] \<and> 4 * second_ns < sp_now p - sp_stamp p0" using t(1,2) acc pass(2) by simp
  then show ?thesis by blast
qed (use conv in simp)

definition sample_pass :: "int \<Rightarrow> status_pass" where
  "sample_pass t = \<lparr> sp_off = 0, sp_now = t * second_ns, sp_stamp = t * second_ns, sp_warnings = [], sp_http = [''prod/shop''],
     sp_grpc = [], sp_acceptance = [(''shop'', True)], sp_timeout = False \<rparr>"

theorem converted_only_after_verification_witness:
  "\<exists>pre p0 mid pn. [sample_pass 100, sample_pass 105] = pre @ p0 # mid @ [pn] \<and>
     list_all accepted_pass (p0 # mid @ [pn]) \<and> sp_warnings pn = [] \<and> 4 * second_ns < sp_now pn - sp_stamp p0"
proof (rule converted_only_after_verification)
  have f: "formattable (sp_off (sample_pass 100)) (sp_stamp (sample_pass 100))"
    "formattable (sp_off (sample_pass 105)) (sp_stamp (sample_pass 105))" by code_simp+
  have c: "cd_shouldConvert (shouldConvert sample_reconciler (with_annotations [] sample_ingress))"
    "cd_shouldConvert (shouldConvert sample_reconciler (with_annotations (snd (run_pass (sample_pass 100) [])) sample_ingress))"
    by code_simp+
  have "passes sample_reconciler sample_ingress [] []"
    by (rule start) (simp_all add: str_at_def ConversionStatusConverted_def)
  then have "passes sample_reconciler sample_ingress (snd (run_pass (sample_pass 100) [])) ([] @ [sample_pass 100])"
    by (rule pass) (use c(1) f(1) in \<open>simp_all add: sample_pass_def\<close>)
  then have "passes sample_reconciler sample_ingress (snd (run_pass (sample_pass 105) (snd (run_pass (sample_pass 100) []))))
      (([] @ [sample_pass 100]) @ [sample_pass 105])"
    by (rule pass) (use c(2) f(2) in \<open>simp_all add: sample_pass_def\<close>)
  then show "passes sample_reconciler sample_ingress (snd (run_pass (sample_pass 105) (snd (run_pass (sample_pass 100) []))))
      [sample_pass 100, sample_pass 105]" by simp
  show "status_of (snd (run_pass (sample_pass 105) (snd (run_pass (sample_pass 100) [])))) = ConversionStatusConverted"
    by code_simp
qed

lemma pass_decision_clean:
  assumes "accepted_pass p" and "sp_warnings p = []"
  shows "pass_decision p m =
     (if stamp_of m = [] then pending False
      else (case Parse (stamp_of m) of
              None \<Rightarrow> pending False
            | Some ts \<Rightarrow> if sp_now p - ts < 5 * second_ns then pending False else finished ConversionStatusConverted))"
  unfolding pass_decision_accepted [OF assms(1)] using assms(2) by (simp split: option.split)

text \<open>C22. Conversion does complete: from every state a run can reach, two passes that see all routes accepted without
  warnings, at least five seconds apart, bring the Ingress to the status \<^verbatim>\<open>converted\<close> (at the second pass at the
  latest).\<close>

theorem verification_completes:
  assumes run: "passes r ing m tr"
    and p1: "accepted_pass p1" "sp_warnings p1 = []" "formattable (sp_off p1) (sp_stamp p1)"
    and p2: "accepted_pass p2" "sp_warnings p2 = []"
    and clock: "\<forall>q \<in> set tr. sp_stamp q \<le> sp_stamp p1" "sp_stamp p1 + 5 * second_ns \<le> sp_now p2"
  shows "status_of (snd (run_pass p1 m)) = ConversionStatusConverted \<or>
     status_of (snd (run_pass p2 (snd (run_pass p1 m)))) = ConversionStatusConverted"
proof -
  let ?m1 = "snd (run_pass p1 m)"
  have final: "status_of (snd (run_pass p2 ?m1)) = ConversionStatusConverted"
    if ts: "stamp_of ?m1 = Format off t" "formattable off t" "t \<le> sp_stamp p1" for off t
  proof -
    have "\<not> sp_now p2 - (t - t mod second_ns) < 5 * second_ns"
      using clock(2) ts(3) pos_mod_sign [of second_ns t] by simp
    then show ?thesis
      by (simp add: run_pass_status pass_decision_clean [OF p2] ts(1) Format_nonempty parse_format [OF ts(2)] finished_def)
  qed
  show ?thesis
  proof (cases "stamp_of m = []")
    case True
    then have "stamp_of ?m1 = Format (sp_off p1) (sp_stamp p1)"
      by (simp add: run_pass_stamp pass_decision_clean [OF p1(1,2)] pending_def)
    then show ?thesis using final p1(3) by blast
  next
    case False
    with passes_stamp [OF run] obtain pre p0 mid where t: "tr = pre @ p0 # mid"
      "stamp_of m = Format (sp_off p0) (sp_stamp p0)" "formattable (sp_off p0) (sp_stamp p0)" unfolding verified_since_def by blast
    let ?ts = "sp_stamp p0 - sp_stamp p0 mod second_ns"
    show ?thesis
    proof (cases "sp_now p1 - ?ts < 5 * second_ns")
      case True
      then have "stamp_of ?m1 = Format (sp_off p0) (sp_stamp p0)"
        by (simp add: run_pass_stamp pass_decision_clean [OF p1(1,2)] t(2) Format_nonempty parse_format [OF t(3)] pending_def)
      moreover have "sp_stamp p0 \<le> sp_stamp p1" using clock(1) t(1) by simp
      ultimately show ?thesis using final t(3) by blast
    next
      case late: False
      then have "status_of ?m1 = ConversionStatusConverted"
        by (simp add: run_pass_status pass_decision_clean [OF p1(1,2)] t(2) Format_nonempty parse_format [OF t(3)] finished_def)
      then show ?thesis ..
    qed
  qed
qed

theorem verification_completes_witness:
  "status_of (snd (run_pass (sample_pass 100) [])) = ConversionStatusConverted \<or>
   status_of (snd (run_pass (sample_pass 105) (snd (run_pass (sample_pass 100) [])))) = ConversionStatusConverted"
proof (rule verification_completes)
  show "passes sample_reconciler sample_ingress [] []"
    by (rule start) (simp_all add: str_at_def ConversionStatusConverted_def)
  show "formattable (sp_off (sample_pass 100)) (sp_stamp (sample_pass 100))" by code_simp
qed (simp_all add: sample_pass_def accepted_pass_def)

text \<open>A verification timestamp that does not parse is never replaced: as long as the routes stay accepted, every
  pass leaves the Ingress \<^verbatim>\<open>pending\<close> and asks for another one, so the conversion never completes.\<close>

theorem invalid_timestamp_never_converts:
  assumes "stamp_of m \<noteq> []" and "Parse (stamp_of m) = None" and "list_all accepted_pass ps"
  shows "stamp_of (fold (\<lambda>p m. snd (run_pass p m)) ps m) = stamp_of m \<and>
    (ps \<noteq> [] \<longrightarrow> status_of (fold (\<lambda>p m. snd (run_pass p m)) ps m) = ConversionStatusPending)"
  using assms
proof (induction ps arbitrary: m)
  case (Cons p ps)
  have "pass_decision p m = pending False"
    using Cons.prems by (simp add: pass_decision_def determineConversionStatus_def accepted_pass_def Let_def)
  then have "stamp_of (snd (run_pass p m)) = stamp_of m" "status_of (snd (run_pass p m)) = ConversionStatusPending"
    using Cons.prems(1) by (simp_all add: run_pass_stamp run_pass_status pending_def)
  with Cons.IH [of "snd (run_pass p m)"] Cons.prems show ?case by (cases ps) simp_all
qed simp

theorem invalid_timestamp_never_converts_witness:
  "status_of (fold (\<lambda>p m. snd (run_pass p m)) [sample_pass 100, sample_pass 200]
     [(AnnotationVerificationTimestamp, ''yesterday'')]) = ConversionStatusPending"
proof -
  let ?m = "[(AnnotationVerificationTimestamp, ''yesterday'')]"
  have m: "stamp_of ?m \<noteq> []" "Parse (stamp_of ?m) = None" by code_simp+
  have ps: "list_all accepted_pass [sample_pass 100, sample_pass 200]" by (simp add: sample_pass_def accepted_pass_def)
  show ?thesis using conjunct2 [OF invalid_timestamp_never_converts [OF m ps]] by (rule mp) simp
qed

section \<open>What the API server promises\<close>

context object_store
begin

lemma create_or_update_stores:
  assumes "create_or_update c kind k obj overwrite s = (None, s')" and "key obj = k"
    and "\<And>e. key e = k \<Longrightarrow> key (overwrite e) = k"
  shows "(\<exists>x. c_get c k s' = Found x \<and> (x = obj \<or> (\<exists>e. x = overwrite e \<and> key e = k))) \<and>
    (\<forall>k'. k' \<noteq> k \<longrightarrow> c_get c k' s' = c_get c k' s)"
proof (cases "c_get c k s")
  case NotFound
  with assms(1) have "c_create c obj s = (s', None)" by (auto simp: create_or_update_def split: prod.splits option.splits)
  with create_get assms(2) show ?thesis by simp
next
  case (Found e)
  with assms(1) have "c_update c (overwrite e) s = (s', None)" by (auto simp: create_or_update_def split: prod.splits option.splits)
  with update_get assms(3) get_key [OF Found] show ?thesis by auto
qed (use assms(1) in \<open>simp add: create_or_update_def\<close>)

end

section \<open>Copies of TLS secrets\<close>

definition secret_key :: "secret \<Rightarrow> nsname" where
  "secret_key x = (om_Namespace (sc_Meta x), om_Name (sc_Meta x))"

definition same_data :: "secret \<Rightarrow> secret \<Rightarrow> bool" where
  "same_data a b \<longleftrightarrow> sc_Data b = sc_Data a \<or> secretDataEqual (sc_Data a) (sc_Data b)"

definition relevant :: "string \<Rightarrow> tls_listener \<Rightarrow> bool" where
  "relevant gatewayNs t \<longleftrightarrow> tl_SourceSecretName t \<noteq> [] \<and> tl_SourceSecretNamespace t \<noteq> gatewayNs"

abbreviation source_of :: "tls_listener \<Rightarrow> nsname" where
  "source_of t \<equiv> (tl_SourceSecretNamespace t, tl_SourceSecretName t)"

lemma write_secret_stores:
  assumes "object_store (api_Secrets api) secret_key" and "write_secret api gw t src s = (None, s')"
  shows "(\<exists>x. c_get (api_Secrets api) (gw, synced_name t) s' = Found x \<and> same_data src x) \<and>
    (\<forall>k. k \<noteq> (gw, synced_name t) \<longrightarrow> c_get (api_Secrets api) k s' = c_get (api_Secrets api) k s)"
proof -
  note store = object_store.get_key [OF assms(1)] object_store.create_get [OF assms(1)] object_store.update_get [OF assms(1)]
  show ?thesis
  proof (cases "c_get (api_Secrets api) (gw, synced_name t) s")
    case NotFound
    have "c_create (api_Secrets api) (synced_secret gw t src) s = (s', None)"
      using assms(2) NotFound by (auto simp: write_secret_def Let_def split: prod.splits option.splits)
    moreover have "secret_key (synced_secret gw t src) = (gw, synced_name t)" by (simp add: secret_key_def synced_secret_def)
    ultimately show ?thesis using store(2) by (simp add: same_data_def synced_secret_def)
  next
    case (Found x)
    have k: "secret_key x = (gw, synced_name t)" by (rule store(1) [OF Found])
    show ?thesis
    proof (cases "secretDataEqual (sc_Data src) (sc_Data x)")
      case True
      with assms(2) Found show ?thesis by (auto simp: write_secret_def Let_def same_data_def)
    next
      case False
      let ?x = "x\<lparr> sc_Data := sc_Data src, sc_Type := sc_Type src \<rparr>"
      have "c_update (api_Secrets api) ?x s = (s', None)"
        using assms(2) Found False by (auto simp: write_secret_def Let_def split: prod.splits option.splits)
      moreover have "secret_key ?x = (gw, synced_name t)" using k by (simp add: secret_key_def)
      ultimately show ?thesis using store(3) by (simp add: same_data_def)
    qed
  qed (use assms(2) in \<open>simp add: write_secret_def\<close>)
qed

lemma sync_secrets_ConsE:
  assumes "sync_secrets api gw seen (t # rest) s = (Inr out, s')"
  obtains (irrelevant) out' where "\<not> relevant gw t" "out = t # out'" "sync_secrets api gw seen rest s = (Inr out', s')"
  | (known) out' where "relevant gw t" "source_key t \<in> set seen" "out = t\<lparr> tl_SecretName := synced_name t \<rparr> # out'"
      "sync_secrets api gw seen rest s = (Inr out', s')"
  | (missing) out' where "relevant gw t" "source_key t \<notin> set seen" "c_get (api_Secrets api) (source_of t) s = NotFound"
      "out = t # out'" "sync_secrets api gw (source_key t # seen) rest s = (Inr out', s')"
  | (copied) src s1 out' where "relevant gw t" "source_key t \<notin> set seen" "c_get (api_Secrets api) (source_of t) s = Found src"
      "write_secret api gw t src s = (None, s1)" "out = t\<lparr> tl_SecretName := synced_name t \<rparr> # out'"
      "sync_secrets api gw (source_key t # seen) rest s1 = (Inr out', s')"
  using assms
  by (auto simp: Let_def relevant_def split: if_splits get_result.splits prod.splits option.splits sum.splits)

lemma sync_secrets_frame:
  assumes "object_store (api_Secrets api) secret_key" and "sync_secrets api gw seen tls s = (Inr out, s')"
    and "\<forall>t \<in> set tls. relevant gw t \<longrightarrow> source_key t \<notin> set seen \<longrightarrow> k \<noteq> (gw, synced_name t)"
  shows "c_get (api_Secrets api) k s' = c_get (api_Secrets api) k s"
  using assms(2,3)
proof (induction tls arbitrary: seen s out)
  case (Cons t rest)
  from Cons.prems(1) show ?case
  proof (cases rule: sync_secrets_ConsE)
    case (copied src s1 out')
    have "c_get (api_Secrets api) k s' = c_get (api_Secrets api) k s1"
      by (rule Cons.IH [OF copied(6)]) (use Cons.prems(2) in auto)
    moreover have "k \<noteq> (gw, synced_name t)" using Cons.prems(2) copied(1,2) by simp
    ultimately show ?thesis using write_secret_stores [OF assms(1) copied(4)] by simp
  qed (use Cons.IH Cons.prems(2) in auto)
qed simp

lemma sync_secrets_known:
  assumes "sync_secrets api gw seen tls s = (Inr out, s')" and "i < length tls"
    and "relevant gw (tls ! i)" and "source_key (tls ! i) \<in> set seen"
  shows "tl_SecretName (out ! i) = synced_name (tls ! i)"
  using assms
proof (induction tls arbitrary: seen s out i)
  case (Cons t rest)
  from Cons.prems(1) show ?case
    by (cases rule: sync_secrets_ConsE; cases i) (use Cons.IH Cons.prems(2-4) in auto)
qed simp

definition slash_free :: "tls_listener \<Rightarrow> bool" where
  "slash_free t \<longleftrightarrow> CHR ''/'' \<notin> set (tl_SourceSecretNamespace t)"

lemma source_key_inject:
  assumes "slash_free t" and "slash_free u" and "source_key t = source_key u"
  shows "source_of t = source_of u"
proof -
  have cut: "takeWhile (\<lambda>c. c \<noteq> CHR ''/'') (source_key x) = tl_SourceSecretNamespace x" if "slash_free x" for x
    using that unfolding source_key_def slash_free_def by (subst takeWhile_append2) auto
  have "tl_SourceSecretNamespace t = tl_SourceSecretNamespace u" using cut assms by metis
  then show ?thesis using assms(3) by (simp add: source_key_def)
qed

lemma sync_secrets_copies:
  assumes store: "object_store (api_Secrets api) secret_key"
    and names: "\<forall>t \<in> set tls. \<forall>u \<in> set tls. synced_name t = synced_name u \<longrightarrow> source_key t = source_key u"
    and slash: "\<forall>t \<in> set tls. slash_free t"
    and "sync_secrets api gw seen tls s = (Inr out, s')" and "i < length tls"
    and "relevant gw (tls ! i)" and "source_key (tls ! i) \<notin> set seen"
    and "c_get (api_Secrets api) (source_of (tls ! i)) s = Found src"
  shows "tl_SecretName (out ! i) = synced_name (tls ! i) \<and>
    (\<exists>x. c_get (api_Secrets api) (gw, synced_name (tls ! i)) s' = Found x \<and> same_data src x)"
  using names slash assms(4-8)
proof (induction tls arbitrary: seen s out i)
  case (Cons t rest)
  have sub: "\<forall>t \<in> set rest. \<forall>u \<in> set rest. synced_name t = synced_name u \<longrightarrow> source_key t = source_key u"
    "\<forall>t \<in> set rest. slash_free t" using Cons.prems(1,2) unfolding list.set by blast+
  show ?case
  proof (cases "source_key ((t # rest) ! i) = source_key t")
    case True
    let ?u = "(t # rest) ! i"
    have u: "?u \<in> set (t # rest)" by (rule nth_mem [OF Cons.prems(4)])
    have src: "source_of ?u = source_of t"
      by (rule source_key_inject [OF bspec [OF Cons.prems(2) u] bspec [OF Cons.prems(2) list.set_intros(1)] True])
    then have syn: "synced_name ?u = synced_name t" by (simp add: synced_name_def)
    have rel: "relevant gw t" using Cons.prems(5) src by (simp add: relevant_def)
    from Cons.prems(3) show ?thesis
    proof (cases rule: sync_secrets_ConsE)
      case (copied src' s1 out')
      have "src' = src" using copied(3) Cons.prems(7) src by simp
      with write_secret_stores [OF store copied(4)]
      obtain x where x: "c_get (api_Secrets api) (gw, synced_name t) s1 = Found x" "same_data src x" by blast
      have "c_get (api_Secrets api) (gw, synced_name t) s' = c_get (api_Secrets api) (gw, synced_name t) s1"
      proof (rule sync_secrets_frame [OF store copied(6)], intro ballI impI notI)
        fix v assume v: "v \<in> set rest" "source_key v \<notin> set (source_key t # seen)" "(gw, synced_name t) = (gw, synced_name v)"
        have "source_key t = source_key v" by (rule Cons.prems(1) [rule_format]) (use v(1,3) in simp_all)
        with v(2) show False by simp
      qed
      then have target: "\<exists>x. c_get (api_Secrets api) (gw, synced_name ?u) s' = Found x \<and> same_data src x"
        using x by (simp add: syn)
      have "tl_SecretName (out ! i) = synced_name ?u"
        using sync_secrets_known [OF copied(6)] Cons.prems(4,5) True by (cases i) (simp_all add: copied(5))
      with target show ?thesis by simp
    next
      case (irrelevant out')
      from irrelevant(1) rel show ?thesis ..
    next
      case (known out')
      then have False using Cons.prems(6) unfolding True by simp
      then show ?thesis ..
    next
      case (missing out')
      then have False using Cons.prems(7) unfolding src by simp
      then show ?thesis ..
    qed
  next
    case False
    then obtain j where i: "i = Suc j" by (cases i) auto
    from Cons.prems(3) show ?thesis
    proof (cases rule: sync_secrets_ConsE)
      case (copied src' s1 out')
      have "source_of (rest ! j) \<noteq> (gw, synced_name t)" using Cons.prems(5) by (simp add: i relevant_def)
      then have "c_get (api_Secrets api) (source_of (rest ! j)) s1 = Found src"
        using write_secret_stores [OF store copied(4)] Cons.prems(7) by (simp add: i)
      with Cons.IH [OF sub copied(6), of j] Cons.prems(4-6) False show ?thesis by (simp add: i copied(5))
    next
      case (missing out')
      with Cons.IH [OF sub missing(5), of j] Cons.prems(4-7) False show ?thesis by (simp add: i)
    next
      case (known out')
      with Cons.IH [OF sub known(4), of j] Cons.prems(4-7) show ?thesis by (simp add: i)
    next
      case (irrelevant out')
      with Cons.IH [OF sub irrelevant(3), of j] Cons.prems(4-7) show ?thesis by (simp add: i)
    qed
  qed
qed simp


definition secrets_api :: "(nsname, secret) gomap api" where
  "secrets_api = \<lparr> api_Ingresses = absent_crud, api_Services = absent_crud, api_Secrets = mem_crud secret_key,
     api_Gateways = absent_crud, api_HTTPRoutes = absent_crud, api_GRPCRoutes = absent_crud,
     api_SecurityPolicies = absent_crud, api_BackendTrafficPolicies = absent_crud,
     api_pollHTTPRoute = \<lambda>_ s. ([], s), api_pollGRPCRoute = \<lambda>_ s. ([], s), api_now = \<lambda>_. 0 \<rparr>"

definition sample_secret :: "string \<Rightarrow> string \<Rightarrow> string \<Rightarrow> secret" where
  "sample_secret ns name crt = \<lparr> sc_Meta = \<lparr> om_Name = name, om_Namespace = ns, om_UID = [], om_Labels = [], om_Annotations = None \<rparr>,
     sc_Type = ''kubernetes.io/tls'', sc_Data = [(''tls.crt'', crt)] \<rparr>"

definition sample_source :: "string \<Rightarrow> string \<Rightarrow> string \<Rightarrow> tls_listener" where
  "sample_source h ns name = \<lparr> tl_Hostname = h, tl_SecretName = name, tl_SourceSecretNamespace = ns, tl_SourceSecretName = name \<rparr>"


text \<open>Two secrets of different namespaces can be copied to one name: the copy of the second overwrites the copy of
  the first, and the listener of the first namespace then serves the certificate of the other one.\<close>

theorem synced_secrets_collide:
  "case syncTLSSecrets secrets_api sample_reconciler [sample_source ''x.io'' ''a'' ''b-c'', sample_source ''y.io'' ''a-b'' ''c'']
      [((''a'', ''b-c''), sample_secret ''a'' ''b-c'' ''PEM-A''), ((''a-b'', ''c''), sample_secret ''a-b'' ''c'' ''PEM-B'')] of
     (Inr out, s') \<Rightarrow> map tl_SecretName out = [''ingress-a-b-c'', ''ingress-a-b-c''] \<and>
       (case c_get (api_Secrets secrets_api) (''kubelb'', ''ingress-a-b-c'') s' of
          Found x \<Rightarrow> sc_Data x = [(''tls.crt'', ''PEM-B'')] | _ \<Rightarrow> False)
   | _ \<Rightarrow> False"
  by code_simp

section \<open>Stored routes\<close>

abbreviation route_object_key :: "'r route_object \<Rightarrow> nsname" where
  "route_object_key x \<equiv> route_key (ro_Route x)"

definition stores_route :: "'r gw_route \<Rightarrow> ingress \<Rightarrow> strmap \<Rightarrow> 'r route_object \<Rightarrow> bool" where
  "stores_route route ing annotations x \<longleftrightarrow>
     gw_Hostnames (ro_Route x) = gw_Hostnames route \<and> gw_Rules (ro_Route x) = gw_Rules route \<and>
     gw_ParentRefs (ro_Route x) = gw_ParentRefs route \<and>
     str_at (gw_Labels (ro_Route x)) LabelSourceIngress = source_ingress ing \<and> ro_Annotations x = maps_copy [] annotations"

lemma reconcile_routes_stores:
  assumes store: "object_store c route_object_key"
    and "reconcile_routes c kind ing annotations routes s = (Inr names, s')" and "distinct (map route_key routes)"
  shows "(\<forall>route \<in> set routes. \<exists>x. c_get c (route_key route) s' = Found x \<and> stores_route route ing annotations x) \<and>
    (\<forall>k. k \<notin> route_key ` set routes \<longrightarrow> c_get c k s' = c_get c k s)"
  using assms(2,3)
proof (induction routes arbitrary: s names)
  case (Cons route routes)
  let ?obj = "applyRouteMetadata route ing annotations"
  obtain s1 names' where cu: "create_or_update c kind (route_key route) ?obj (overwrite_route ?obj) s = (None, s1)"
    and rest: "reconcile_routes c kind ing annotations routes s1 = (Inr names', s')"
    using Cons.prems(1) by (auto simp: Let_def split: prod.splits option.splits sum.splits)
  have key: "route_object_key ?obj = route_key route" by (simp add: applyRouteMetadata_def route_key_def)
  have over: "route_object_key e = k \<Longrightarrow> route_object_key (overwrite_route ?obj e) = k" for e k
    by (simp add: overwrite_route_def route_key_def)
  note put = object_store.create_or_update_stores [OF store cu key over]
  have out: "route_key route \<notin> route_key ` set routes" and dist: "distinct (map route_key routes)" using Cons.prems(2) by simp_all
  note ih = Cons.IH [OF rest dist]
  from put obtain x where x: "c_get c (route_key route) s1 = Found x" "x = ?obj \<or> (\<exists>e. x = overwrite_route ?obj e)" by blast
  have "stores_route route ing annotations x"
    using x(2) by (auto simp: stores_route_def applyRouteMetadata_def overwrite_route_def str_at_put)
  moreover have "c_get c (route_key route) s' = c_get c (route_key route) s1" using ih out by blast
  ultimately have "\<exists>x. c_get c (route_key route) s' = Found x \<and> stores_route route ing annotations x" using x(1) by simp
  moreover have "\<forall>k. k \<notin> route_key ` set (route # routes) \<longrightarrow> c_get c k s' = c_get c k s" using ih put by simp
  ultimately show ?case using ih by simp
qed simp

text \<open>C23. When the HTTPRoutes converted from an Ingress have been reconciled without an error, the API server holds, for
  every host the Ingress declares, an HTTPRoute for that host whose rules are those of the host's paths followed by the
  default backend, attached to the Gateway and labelled with the Ingress, whether the route existed before or not.\<close>

theorem declared_hosts_are_stored:
  assumes store: "object_store (api_HTTPRoutes api) route_object_key"
    and conv: "convertToHTTPRoutes marshal input parentRef filters ws = (routes, ws')"
    and free: "collision_free (rulesSignature marshal) (fst (http_host_rules input filters ws)) (fst (http_default_rule input filters))"
    and run: "reconcile_routes (api_HTTPRoutes api) kind ing annotations routes s = (Inr names, s')"
    and host: "host_declared (in_DomainReplace input) (in_DomainSuffix input) (ing_Rules (in_Ingress input)) h"
  shows "\<exists>k x. c_get (api_HTTPRoutes api) k s' = Found x \<and> serves (ro_Route x) h \<and> gw_ParentRefs (ro_Route x) = [parentRef] \<and>
    str_at (gw_Labels (ro_Route x)) LabelSourceIngress = source_ingress ing \<and>
    gw_Rules (ro_Route x) = final_rules (fst (http_default_rule input filters))
      (declared_rules (http_path_rule input filters) (in_DomainReplace input) (in_DomainSuffix input) (ing_Rules (in_Ingress input)) h)"
proof -
  from http_routes_serve [OF conv free, of h, unfolded if_P [OF host]] obtain route where
    route: "filter (\<lambda>r. serves r h) routes = [route]" "gw_Rules route = final_rules (fst (http_default_rule input filters))
      (declared_rules (http_path_rule input filters) (in_DomainReplace input) (in_DomainSuffix input) (ing_Rules (in_Ingress input)) h)"
    by blast
  from route(1) have mem: "route \<in> set routes" "serves route h" by (auto dest!: arg_cong [where f = set])
  obtain groups d where r: "routes = build_routes generateRouteName (in_Ingress input) parentRef groups d"
    using conv by (auto simp: convertToHTTPRoutes_def split: prod.splits)
  have "distinct (map gw_Name routes)" unfolding r by (rule build_routes_names) (rule generateRouteName_inj)
  then have dist: "distinct (map route_key routes)"
    by (auto simp: distinct_map route_key_def inj_on_def)
  have parent: "gw_ParentRefs route = [parentRef]"
    using mem(1) unfolding r by (auto simp: build_routes_def group_route_def split: option.splits if_splits)
  from reconcile_routes_stores [OF store run dist] mem(1) obtain x where
    x: "c_get (api_HTTPRoutes api) (route_key route) s' = Found x" "stores_route route ing annotations x" by blast
  have "serves (ro_Route x) h" using mem(2) x(2) by (simp add: serves_def stores_route_def)
  then show ?thesis using x route(2) parent
    by (intro exI [of _ "route_key route"] exI [of _ x]) (simp add: stores_route_def)
qed

definition routes_api :: "(nsname, http_rule route_object) gomap api" where
  "routes_api = \<lparr> api_Ingresses = absent_crud, api_Services = absent_crud, api_Secrets = absent_crud,
     api_Gateways = absent_crud, api_HTTPRoutes = mem_crud route_object_key, api_GRPCRoutes = absent_crud,
     api_SecurityPolicies = absent_crud, api_BackendTrafficPolicies = absent_crud,
     api_pollHTTPRoute = \<lambda>_ s. ([], s), api_pollGRPCRoute = \<lambda>_ s. ([], s), api_now = \<lambda>_. 0 \<rparr>"

theorem declared_hosts_are_stored_witness:
  "let pr = \<lparr> pr_Name = ''gw'', pr_Namespace = None \<rparr>;
       routes = fst (convertToHTTPRoutes (\<lambda>_. None) sample_conversion pr [] []);
       s' = snd (reconcile_routes (api_HTTPRoutes routes_api) ''HTTPRoute'' sample_ingress [] routes [])
   in \<exists>k x. c_get (api_HTTPRoutes routes_api) k s' = Found x \<and> serves (ro_Route x) ''a.new'' \<and>
        map hr_Matches (gw_Rules (ro_Route x)) =
          [[\<lparr> hm_Path = Some (PathMatchPathPrefix, ''/'') \<rparr>], [\<lparr> hm_Path = Some (PathMatchPathPrefix, ''/x'') \<rparr>]]"
proof -
  let ?pr = "\<lparr> pr_Name = ''gw'', pr_Namespace = None \<rparr>"
  let ?out = "convertToHTTPRoutes (\<lambda>_. None) sample_conversion ?pr [] []"
  let ?run = "reconcile_routes (api_HTTPRoutes routes_api) ''HTTPRoute'' sample_ingress [] (fst ?out) []"
  have store: "object_store (api_HTTPRoutes routes_api) route_object_key" by (simp add: routes_api_def mem.object_store_axioms)
  have free: "collision_free (rulesSignature (\<lambda>_. None)) (fst (http_host_rules sample_conversion [] []))
      (fst (http_default_rule sample_conversion []))"
    by (rule collision_free_distinct) code_simp
  have "fst ?run = Inr (projr (fst ?run))" by code_simp
  then have run: "?run = (Inr (projr (fst ?run)), snd ?run)" by (metis prod.collapse)
  have decl: "host_declared (in_DomainReplace sample_conversion) (in_DomainSuffix sample_conversion)
      (ing_Rules (in_Ingress sample_conversion)) ''a.new''" by code_simp
  have rules: "map hr_Matches (final_rules (fst (http_default_rule sample_conversion []))
        (declared_rules (http_path_rule sample_conversion []) (in_DomainReplace sample_conversion)
          (in_DomainSuffix sample_conversion) (ing_Rules (in_Ingress sample_conversion)) ''a.new'')) =
       [[\<lparr> hm_Path = Some (PathMatchPathPrefix, ''/'') \<rparr>], [\<lparr> hm_Path = Some (PathMatchPathPrefix, ''/x'') \<rparr>]]" by code_simp
  from declared_hosts_are_stored [OF store surjective_pairing [of ?out] free run decl]
  show ?thesis unfolding Let_def by (elim exE conjE) (intro exI conjI, assumption, assumption, simp only: rules)
qed

end
