(* ===== verification/Port_Allocator.thy ===== *)
theory Port_Allocator
  imports Naming
begin

text \<open>
  The listener-port allocator (\<^verbatim>\<open>internal/port-lookup/allocator.go\<close> and \<^verbatim>\<open>mapper.go\<close>): a table from
  endpoint keys to port keys to ports, a reverse table of used ports, random allocation, release, the
  reconstruction of the table from the statuses of the custom resources, and the repair of duplicate
  ports found there.

  The random generator is a list of draws: \<^verbatim>\<open>rand.Intn(n)\<close> consumes one draw \<open>r\<close> and gives
  \<open>r mod n\<close>, so every outcome of the generator is some list. A computation that needs more draws than
  the list holds has not returned yet, which is the value \<^const>\<open>None\<close>. The metrics calls have no
  effect on the table and are not part of the state.
\<close>

section \<open>State\<close>

definition startPort :: int where "startPort = 10000"
definition endPort :: int where "endPort = 65535"

type_synonym port_map = "(string, int) gomap"
type_synonym lookup_table = "(string, port_map) gomap"
type_synonym port_set = "(int, bool) gomap"
type_synonym draws = "nat list"

record port_allocator =
  portLookup :: lookup_table
  portLookupReverse :: port_set

definition NewPortAllocator :: port_allocator where
  "NewPortAllocator = \<lparr> portLookup = [], portLookupReverse = [] \<rparr>"

definition table_at :: "lookup_table \<Rightarrow> string \<Rightarrow> port_map" where
  "table_at t ek = (case map_of t ek of None \<Rightarrow> [] | Some m \<Rightarrow> m)"

definition table_touch :: "string \<Rightarrow> lookup_table \<Rightarrow> lookup_table" where
  "table_touch ek t = (if map_of t ek = None then gomap_put ek [] t else t)"

definition table_set :: "string \<Rightarrow> string \<Rightarrow> int \<Rightarrow> lookup_table \<Rightarrow> lookup_table" where
  "table_set ek k v t = gomap_put ek (gomap_put k v (table_at t ek)) t"

definition table_lookup :: "lookup_table \<Rightarrow> string \<Rightarrow> string \<Rightarrow> int option" where
  "table_lookup t ek k = (case map_of t ek of None \<Rightarrow> None | Some m \<Rightarrow> map_of m k)"

text \<open>\<^verbatim>\<open>Lookup\<close> returns \<^verbatim>\<open>(port, true)\<close> or \<^verbatim>\<open>(-1, false)\<close>.\<close>

definition Lookup :: "port_allocator \<Rightarrow> string \<Rightarrow> string \<Rightarrow> int \<times> bool" where
  "Lookup pa endpointKey portKey =
     (case map_of (portLookup pa) endpointKey of
        Some endpointLookup \<Rightarrow>
          (case map_of endpointLookup portKey of Some port \<Rightarrow> (port, True) | None \<Rightarrow> (-1, False))
      | None \<Rightarrow> (-1, False))"

definition GetPortLookupTable :: "port_allocator \<Rightarrow> lookup_table" where
  "GetPortLookupTable pa =
     fold (\<lambda>(ek, ports) out. gomap_put ek (fold (\<lambda>(k, v) inner. gomap_put k v inner) ports []) out)
       (portLookup pa) []"

section \<open>Allocation and release\<close>

definition table_ports :: "lookup_table \<Rightarrow> int list" where
  "table_ports t = concat (map (\<lambda>(ek, m). map snd m) t)"

definition recomputeAvailablePorts :: "port_allocator \<Rightarrow> port_allocator" where
  "recomputeAvailablePorts pa =
     pa\<lparr> portLookupReverse := fold (\<lambda>p s. gomap_put p True s) (table_ports (portLookup pa)) [] \<rparr>"

fun allocatePort :: "port_set \<Rightarrow> draws \<Rightarrow> (int \<times> port_set \<times> draws) option" where
  "allocatePort used [] = None"
| "allocatePort used (r # rs) =
     (let port = int (r mod nat (endPort - startPort)) + startPort
      in if map_of used port = None then Some (port, gomap_put port True used, rs)
         else allocatePort used rs)"

text \<open>The first loop of \<^verbatim>\<open>AllocatePorts\<close>: every key without a port gets one.\<close>

fun allocate_keys ::
  "string list \<Rightarrow> port_map \<Rightarrow> port_set \<Rightarrow> bool \<Rightarrow> draws \<Rightarrow> (port_map \<times> port_set \<times> bool \<times> draws) option" where
  "allocate_keys [] m used updated rs = Some (m, used, updated, rs)"
| "allocate_keys (k # ks) m used updated rs =
     (if map_of m k = None then
        (case allocatePort used rs of
           None \<Rightarrow> None
         | Some (port, used', rs') \<Rightarrow> allocate_keys ks (gomap_put k port m) used' True rs')
      else allocate_keys ks m used updated rs)"

definition AllocatePorts ::
  "string \<Rightarrow> string list \<Rightarrow> port_allocator \<Rightarrow> draws \<Rightarrow> (port_allocator \<times> bool \<times> draws) option" where
  "AllocatePorts endpointKey portkeys pa rs =
     (let t = table_touch endpointKey (portLookup pa)
      in case allocate_keys portkeys (table_at t endpointKey) (portLookupReverse pa) False rs of
           None \<Rightarrow> None
         | Some (m, used, updated, rs') \<Rightarrow>
             (let m' = filter (\<lambda>(k, v). k \<in> set portkeys) m;
                  removed = (\<exists>(k, v) \<in> set m. k \<notin> set portkeys);
                  pa' = pa\<lparr> portLookup := gomap_put endpointKey m' t, portLookupReverse := used \<rparr>
              in Some (recomputeAvailablePorts pa', updated \<or> removed, rs')))"

definition DeallocatePorts ::
  "string \<Rightarrow> string list \<Rightarrow> port_allocator \<Rightarrow> port_allocator \<times> bool" where
  "DeallocatePorts endpointKey portkeys pa =
     (case map_of (portLookup pa) endpointKey of
        None \<Rightarrow> (recomputeAvailablePorts pa, False)
      | Some m \<Rightarrow>
          (recomputeAvailablePorts
             (pa\<lparr> portLookup := gomap_put endpointKey (fold gomap_del portkeys m) (portLookup pa) \<rparr>),
           portkeys \<noteq> []))"

definition DeallocateEndpoints :: "string list \<Rightarrow> port_allocator \<Rightarrow> port_allocator" where
  "DeallocateEndpoints endpointKeys pa =
     recomputeAvailablePorts (pa\<lparr> portLookup := fold gomap_del endpointKeys (portLookup pa) \<rparr>)"

section \<open>Loading the table from the custom resources\<close>

definition int_at :: "port_map \<Rightarrow> string \<Rightarrow> int" where
  "int_at m k = (case map_of m k of None \<Rightarrow> 0 | Some v \<Rightarrow> v)"

definition status_port_matches :: "endpoint_port \<Rightarrow> lb_service_port \<Rightarrow> bool" where
  "status_port_matches lbEndpointPort port \<longleftrightarrow>
     sp_Protocol port = ep_Protocol lbEndpointPort \<and>
     (if ep_Name lbEndpointPort \<noteq> [] \<or> sp_Name port \<noteq> [] then sp_Name port = ep_Name lbEndpointPort
      else lsp_UpstreamTargetPort port = ep_Port lbEndpointPort)"

definition load_lb_port ::
  "(int_or_string \<Rightarrow> int) \<Rightarrow> string \<Rightarrow> lb_service_port list \<Rightarrow> endpoint_port \<Rightarrow> lookup_table \<Rightarrow> lookup_table"
where
  "load_lb_port intValue endpointKey statusPorts lbEndpointPort t =
     (let portKey = EnvoyListenerKey (ep_Port lbEndpointPort) (ep_Protocol lbEndpointPort)
      in case find (status_port_matches lbEndpointPort) statusPorts of
           None \<Rightarrow> t
         | Some port \<Rightarrow> table_set endpointKey portKey (intValue (sp_TargetPort port)) t)"

definition load_lb_endpoint ::
  "(int_or_string \<Rightarrow> int) \<Rightarrow> load_balancer \<Rightarrow> nat \<times> load_balancer_endpoints \<Rightarrow> lookup_table \<Rightarrow> lookup_table"
where
  "load_lb_endpoint intValue lb ie t =
     (let endpointKey = EnvoyEndpointKey (om_Namespace (lb_Meta lb)) (om_Name (lb_Meta lb)) (fst ie)
      in fold (load_lb_port intValue endpointKey (lst_ServicePorts (lb_Status lb)))
           (le_Ports (snd ie)) (table_touch endpointKey t))"

definition load_lb :: "(int_or_string \<Rightarrow> int) \<Rightarrow> load_balancer \<Rightarrow> lookup_table \<Rightarrow> lookup_table" where
  "load_lb intValue lb t =
     fold (load_lb_endpoint intValue lb) (enumerate 0 (ls_Endpoints (lb_Spec lb))) t"

text \<open>The name of the source object of a Route: the embedded object's name, else the origin label,
  else the name of the Route.\<close>

definition originalRouteName :: "route \<Rightarrow> kubernetes_source \<Rightarrow> string" where
  "originalRouteName route src =
     (if us_Name (ks_Route src) \<noteq> [] then us_Name (ks_Route src)
      else if str_at (om_Labels (r_Meta route)) LabelOriginName \<noteq> []
      then str_at (om_Labels (r_Meta route)) LabelOriginName
      else om_Name (r_Meta route))"

definition route_endpoint_key :: "route \<Rightarrow> kubernetes_source \<Rightarrow> service \<Rightarrow> string" where
  "route_endpoint_key route src svc =
     EnvoyEndpointRouteKey (om_Namespace (r_Meta route)) (om_Namespace (svc_Meta svc))
       (om_Name (svc_Meta svc)) (originalRouteName route src)"

definition load_route_service ::
  "(int_or_string \<Rightarrow> int) \<Rightarrow> route \<Rightarrow> kubernetes_source \<Rightarrow> service \<Rightarrow> lookup_table \<Rightarrow> lookup_table" where
  "load_route_service intValue route src svc t =
     (let endpointKey = route_endpoint_key route src svc;
          t' = table_touch endpointKey t;
          key = RouteServiceMapKey (om_Namespace (svc_Meta svc)) (GetName (svc_Meta svc))
      in case rt_Services (r_Status route) of
           None \<Rightarrow> t'
         | Some services \<Rightarrow>
             (case map_of services key of
                None \<Rightarrow> t'
              | Some svcPort \<Rightarrow>
                  fold (\<lambda>port. table_set endpointKey (EnvoyListenerKey (sp_Port port) (sp_Protocol port))
                                 (intValue (sp_TargetPort port)))
                    (rss_Ports svcPort) t'))"

definition load_route :: "(int_or_string \<Rightarrow> int) \<Rightarrow> route \<Rightarrow> lookup_table \<Rightarrow> lookup_table" where
  "load_route intValue route t =
     (case rs_Kubernetes (r_Spec route) of
        None \<Rightarrow> t
      | Some src \<Rightarrow> fold (load_route_service intValue route src) (ks_Services src) t)"

text \<open>\<^verbatim>\<open>healLoadStateCollisions\<close>: endpoint keys and port keys in sorted order, the first endpoint that
  holds a port keeps it.\<close>

fun heal_ports ::
  "string \<Rightarrow> string list \<Rightarrow> port_map \<Rightarrow> (int, string) gomap \<Rightarrow> port_map \<times> (int, string) gomap" where
  "heal_ports ek [] m owners = (m, owners)"
| "heal_ports ek (k # ks) m owners =
     (let port = int_at m k
      in if (case map_of owners port of None \<Rightarrow> False | Some owner \<Rightarrow> owner \<noteq> ek)
         then heal_ports ek ks (gomap_del k m) owners
         else heal_ports ek ks m (gomap_put port ek owners))"

fun heal_endpoints :: "string list \<Rightarrow> lookup_table \<Rightarrow> (int, string) gomap \<Rightarrow> lookup_table" where
  "heal_endpoints [] t owners = t"
| "heal_endpoints (ek # eks) t owners =
     (let m = table_at t ek;
          r = heal_ports ek (sort (gomap_keys m)) m owners
      in heal_endpoints eks (gomap_put ek (fst r) t) (snd r))"

definition healLoadStateCollisions :: "lookup_table \<Rightarrow> lookup_table" where
  "healLoadStateCollisions t = heal_endpoints (sort (gomap_keys t)) t []"

text \<open>\<^verbatim>\<open>LoadState\<close>: the two \<^verbatim>\<open>apiReader.List\<close> results are arguments (\<open>Inl\<close> an error of the API
  server); an error leaves the allocator as it was. \<open>intValue\<close> is \<^verbatim>\<open>intstr.IntOrString.IntValue\<close>.\<close>

definition load_table ::
  "(int_or_string \<Rightarrow> int) \<Rightarrow> load_balancer list \<Rightarrow> route list \<Rightarrow> lookup_table" where
  "load_table intValue lbs routes = fold (load_route intValue) routes (fold (load_lb intValue) lbs [])"

definition LoadState ::
  "(int_or_string \<Rightarrow> int) \<Rightarrow> string + load_balancer list \<Rightarrow> string + route list \<Rightarrow>
   port_allocator \<Rightarrow> port_allocator \<times> string option" where
  "LoadState intValue listLoadBalancers listRoutes pa =
     (case listLoadBalancers of
        Inl err \<Rightarrow> (pa, Some err)
      | Inr lbs \<Rightarrow>
          (case listRoutes of
             Inl err \<Rightarrow> (pa, Some err)
           | Inr routes \<Rightarrow>
               (recomputeAvailablePorts
                  (pa\<lparr> portLookup := healLoadStateCollisions (load_table intValue lbs routes) \<rparr>),
                None)))"

section \<open>Allocation for load balancers and routes (mapper.go)\<close>

text \<open>The calls of \<^verbatim>\<open>AllocatePorts\<close> that one load balancer or route causes, in the order of the loops.\<close>

definition lb_requests :: "load_balancer \<Rightarrow> (string \<times> string list) list" where
  "lb_requests lb =
     map (\<lambda>(i, lbEndpoint).
            (EnvoyEndpointKey (om_Namespace (lb_Meta lb)) (om_Name (lb_Meta lb)) i,
             map (\<lambda>p. EnvoyListenerKey (ep_Port p) (ep_Protocol p)) (le_Ports lbEndpoint)))
       (enumerate 0 (ls_Endpoints (lb_Spec lb)))"

definition route_requests :: "route \<Rightarrow> (string \<times> string list) list" where
  "route_requests route =
     (case rs_Kubernetes (r_Spec route) of
        None \<Rightarrow> []
      | Some src \<Rightarrow>
          map (\<lambda>svc. (route_endpoint_key route src svc,
                      map (\<lambda>p. EnvoyListenerKey (sp_Port p) (sp_Protocol p)) (ss_Ports (svc_Spec svc))))
            (ks_Services src))"

fun allocate_requests ::
  "(string \<Rightarrow> string list \<Rightarrow> 's \<Rightarrow> draws \<Rightarrow> ('s \<times> bool \<times> draws) option) \<Rightarrow>
   (string \<times> string list) list \<Rightarrow> 's \<Rightarrow> draws \<Rightarrow> ('s \<times> draws) option" where
  "allocate_requests alloc [] pa rs = Some (pa, rs)"
| "allocate_requests alloc ((ek, keys) # reqs) pa rs =
     (case alloc ek keys pa rs of
        None \<Rightarrow> None
      | Some (pa', updated, rs') \<Rightarrow> allocate_requests alloc reqs pa' rs')"

definition AllocatePortsForLoadBalancers ::
  "load_balancer list \<Rightarrow> port_allocator \<Rightarrow> draws \<Rightarrow> (port_allocator \<times> draws) option" where
  "AllocatePortsForLoadBalancers lbs pa rs =
     allocate_requests AllocatePorts (concat (map lb_requests lbs)) pa rs"

definition AllocatePortsForRoutes ::
  "route list \<Rightarrow> port_allocator \<Rightarrow> draws \<Rightarrow> (port_allocator \<times> draws) option" where
  "AllocatePortsForRoutes routes pa rs =
     allocate_requests AllocatePorts (concat (map route_requests routes)) pa rs"

definition DeallocatePortsForRoute :: "route \<Rightarrow> port_allocator \<Rightarrow> port_allocator" where
  "DeallocatePortsForRoute route pa =
     (case rs_Kubernetes (r_Spec route) of
        None \<Rightarrow> pa
      | Some src \<Rightarrow> DeallocateEndpoints (map (route_endpoint_key route src) (ks_Services src)) pa)"

definition DeallocatePortsForLoadBalancer :: "load_balancer \<Rightarrow> port_allocator \<Rightarrow> port_allocator" where
  "DeallocatePortsForLoadBalancer lb pa =
     DeallocateEndpoints
       (map (EnvoyEndpointKey (om_Namespace (lb_Meta lb)) (om_Name (lb_Meta lb)))
          [0 ..< length (ls_Endpoints (lb_Spec lb))]) pa"

section \<open>Invariant\<close>

definition wf_table :: "lookup_table \<Rightarrow> bool" where
  "wf_table t \<longleftrightarrow> wf_gomap t \<and> (\<forall>(ek, m) \<in> set t. wf_gomap m)"

definition used_ports :: "lookup_table \<Rightarrow> int set" where
  "used_ports t = {p. \<exists>ek k. table_lookup t ek k = Some p}"

text \<open>The reverse table marks exactly the ports of the lookup table.\<close>

definition reverse_ok :: "port_allocator \<Rightarrow> bool" where
  "reverse_ok pa \<longleftrightarrow>
     (\<forall>p. map_of (portLookupReverse pa) p \<noteq> None \<longleftrightarrow> p \<in> used_ports (portLookup pa))"

definition unique_ports :: "lookup_table \<Rightarrow> bool" where
  "unique_ports t \<longleftrightarrow>
     (\<forall>ek k ek' k' p. table_lookup t ek k = Some p \<longrightarrow> table_lookup t ek' k' = Some p \<longrightarrow> ek = ek' \<and> k = k')"

definition valid_port :: "int \<Rightarrow> bool" where
  "valid_port p \<longleftrightarrow> startPort \<le> p \<and> p < endPort"

definition pa_wf :: "port_allocator \<Rightarrow> bool" where
  "pa_wf pa \<longleftrightarrow> wf_table (portLookup pa) \<and> reverse_ok pa"

definition pa_inv :: "port_allocator \<Rightarrow> bool" where
  "pa_inv pa \<longleftrightarrow>
     pa_wf pa \<and> unique_ports (portLookup pa) \<and> (\<forall>p \<in> used_ports (portLookup pa). valid_port p)"

lemma table_lookup_at: "table_lookup t ek k = map_of (table_at t ek) k"
  by (simp add: table_lookup_def table_at_def split: option.splits)

lemma table_lookup_Some_iff:
  "table_lookup t ek k = Some p \<longleftrightarrow> (\<exists>m. map_of t ek = Some m \<and> map_of m k = Some p)"
  by (simp add: table_lookup_def split: option.split)

lemma Lookup_table:
  "Lookup pa ek k =
     (case table_lookup (portLookup pa) ek k of Some p \<Rightarrow> (p, True) | None \<Rightarrow> (-1, False))"
  by (auto simp: Lookup_def table_lookup_def split: option.splits)

lemma table_lookup_put:
  "table_lookup (gomap_put ek m t) ek' k = (if ek = ek' then map_of m k else table_lookup t ek' k)"
  by (simp add: table_lookup_def map_of_put)

lemma table_lookup_del:
  "table_lookup (gomap_del ek t) ek' k = (if ek = ek' then None else table_lookup t ek' k)"
  by (simp add: table_lookup_def map_of_del)

lemma table_lookup_touch [simp]: "table_lookup (table_touch ek t) ek' k = table_lookup t ek' k"
  by (auto simp: table_touch_def table_lookup_def map_of_put)

lemma table_at_touch [simp]: "table_at (table_touch ek t) ek = table_at t ek"
  by (simp add: table_at_def table_touch_def map_of_put)

lemma table_lookup_set:
  "table_lookup (table_set ek k v t) ek' k' =
     (if ek = ek' \<and> k = k' then Some v else table_lookup t ek' k')"
  by (auto simp: table_set_def table_lookup_put map_of_put table_lookup_at [symmetric])

lemmas table_lookup_simps = table_lookup_put table_lookup_del table_lookup_touch table_lookup_set

lemma set_AList_update: "set (gomap_put k v m) \<subseteq> insert (k, v) (set m)"
  by (induction m) auto

lemma wf_table_put: "wf_table t \<Longrightarrow> wf_gomap m \<Longrightarrow> wf_table (gomap_put ek m t)"
  using set_AList_update [of ek m t] by (auto simp: wf_table_def)

lemma wf_table_del: "wf_table t \<Longrightarrow> wf_table (gomap_del ek t)"
  by (auto simp: wf_table_def AList.delete_eq)

lemma wf_table_touch: "wf_table t \<Longrightarrow> wf_table (table_touch ek t)"
  by (simp add: table_touch_def wf_table_put)

lemma wf_table_at: "wf_table t \<Longrightarrow> wf_gomap (table_at t ek)"
  by (auto simp: wf_table_def table_at_def split: option.splits dest: map_of_SomeD)

lemma wf_table_set: "wf_table t \<Longrightarrow> wf_table (table_set ek k v t)"
  by (simp add: table_set_def wf_table_put wf_table_at)

lemma wf_table_Nil [simp]: "wf_table []"
  by (simp add: wf_table_def)

lemma set_table_ports: "wf_table t \<Longrightarrow> set (table_ports t) = used_ports t"
proof -
  assume wf: "wf_table t"
  have "p \<in> set (table_ports t) \<longleftrightarrow> p \<in> used_ports t" for p
  proof -
    have "p \<in> set (table_ports t) \<longleftrightarrow> (\<exists>ek m k. (ek, m) \<in> set t \<and> (k, p) \<in> set m)"
      by (force simp: table_ports_def)
    also have "\<dots> \<longleftrightarrow> (\<exists>ek m k. map_of t ek = Some m \<and> map_of m k = Some p)"
      using wf unfolding wf_table_def by (metis case_prodD wf_gomap_map_of_mem)
    also have "\<dots> \<longleftrightarrow> p \<in> used_ports t"
      unfolding used_ports_def table_lookup_Some_iff by blast
    finally show ?thesis .
  qed
  then show ?thesis by blast
qed

lemma map_of_fold_mark:
  "map_of (fold (\<lambda>p s. gomap_put p True s) ps s) p \<noteq> None \<longleftrightarrow> p \<in> set ps \<or> map_of s p \<noteq> None"
  by (induction ps arbitrary: s) (auto simp: map_of_put)

lemma portLookup_recompute [simp]: "portLookup (recomputeAvailablePorts pa) = portLookup pa"
  by (simp add: recomputeAvailablePorts_def)

lemma recompute_wf: "wf_table (portLookup pa) \<Longrightarrow> pa_wf (recomputeAvailablePorts pa)"
  using map_of_fold_mark [of "table_ports (portLookup pa)" "[]"]
  by (simp add: pa_wf_def reverse_ok_def recomputeAvailablePorts_def set_table_ports)

text \<open>An operation that only removes entries keeps the whole invariant.\<close>

lemma recompute_inv_shrink:
  assumes "pa_inv pa" and "wf_table t"
    and "\<And>ek k p. table_lookup t ek k = Some p \<Longrightarrow> table_lookup (portLookup pa) ek k = Some p"
  shows "pa_inv (recomputeAvailablePorts (pa\<lparr> portLookup := t \<rparr>))"
proof -
  have "unique_ports t"
    using assms(1,3) by (simp add: pa_inv_def unique_ports_def) blast
  moreover have "used_ports t \<subseteq> used_ports (portLookup pa)"
    using assms(3) unfolding used_ports_def by blast
  ultimately show ?thesis
    using assms(1,2) recompute_wf [of "pa\<lparr> portLookup := t \<rparr>"]
    by (auto simp: pa_inv_def)
qed

lemma NewPortAllocator_inv: "pa_inv NewPortAllocator"
  by (simp add: pa_inv_def pa_wf_def NewPortAllocator_def reverse_ok_def used_ports_def
      unique_ports_def table_lookup_def)

section \<open>Allocation\<close>

lemma draw_valid: "valid_port (int (r mod nat (endPort - startPort)) + startPort)"
  by (simp add: valid_port_def startPort_def endPort_def)

lemma allocatePort_Some:
  "allocatePort used rs = Some (p, used', rs') \<Longrightarrow>
     map_of used p = None \<and> valid_port p \<and> used' = gomap_put p True used \<and> (\<exists>pre. rs = pre @ rs')"
proof (induction rs)
  case (Cons r rs)
  then show ?case
    by (auto simp: Let_def draw_valid split: if_splits)
qed simp

text \<open>What one pass over the keys has done so far: old entries stay, each key has a port, and a new port
  is neither an old one nor shared.\<close>

definition extends :: "string set \<Rightarrow> port_map \<Rightarrow> port_set \<Rightarrow> port_map \<Rightarrow> bool" where
  "extends ks m used m' \<longleftrightarrow>
     wf_gomap m' \<and>
     (\<forall>k p. map_of m k = Some p \<longrightarrow> map_of m' k = Some p) \<and>
     dom (map_of m') = dom (map_of m) \<union> ks \<and>
     (\<forall>k p. map_of m k = None \<longrightarrow> map_of m' k = Some p \<longrightarrow>
        map_of used p = None \<and> valid_port p \<and> (\<forall>k'. map_of m' k' = Some p \<longrightarrow> k' = k))"

lemma allocate_keys_Some:
  assumes "allocate_keys ks m used upd rs = Some (m', used', upd', rs')"
    and "wf_gomap m" and "\<And>k p. map_of m k = Some p \<Longrightarrow> map_of used p \<noteq> None"
  shows "extends (set ks) m used m' \<and> (upd' \<longleftrightarrow> upd \<or> \<not> set ks \<subseteq> dom (map_of m)) \<and> (\<exists>pre. rs = pre @ rs')"
  using assms
proof (induction ks arbitrary: m used upd rs)
  case Nil
  then show ?case by (auto simp: extends_def)
next
  case (Cons k ks)
  show ?case
  proof (cases "map_of m k")
    case None
    with Cons.prems(1) obtain p u r where
      ap: "allocatePort used rs = Some (p, u, r)" and
      ak: "allocate_keys ks (gomap_put k p m) u True r = Some (m', used', upd', rs')"
      by (auto split: option.splits)
    from allocatePort_Some [OF ap] obtain pre where
      p: "map_of used p = None" "valid_port p" "u = gomap_put p True used" "rs = pre @ r" by blast
    have "map_of u q \<noteq> None" if "map_of (gomap_put k p m) k' = Some q" for k' q
      using that Cons.prems(3) p(3) by (auto simp: map_of_put split: if_splits)
    from Cons.IH [OF ak _ this] Cons.prems(2) have
      ext: "extends (set ks) (gomap_put k p m) u m'" and upd: "upd'" and pre: "\<exists>pre. r = pre @ rs'"
      by auto
    have mk: "map_of m' k = Some p"
      using ext by (simp add: extends_def map_of_put)
    have other: "k' = k" if "map_of m' k' = Some p" for k'
    proof (rule ccontr)
      assume "k' \<noteq> k"
      then show False
      proof (cases "map_of m k'")
        case None
        with \<open>k' \<noteq> k\<close> have "map_of (gomap_put k p m) k' = None"
          by (simp add: map_of_put)
        with ext that have "map_of u p = None"
          unfolding extends_def by blast
        with p(3) show False by (simp add: map_of_put)
      next
        case (Some q)
        with ext \<open>k' \<noteq> k\<close> that have "q = p"
          by (simp add: extends_def map_of_put)
        with Some Cons.prems(3) p(1) show False by blast
      qed
    qed
    have "extends (set (k # ks)) m used m'"
      unfolding extends_def
    proof (intro conjI allI impI)
      show "wf_gomap m'" using ext by (simp add: extends_def)
      show "map_of m' k' = Some q" if "map_of m k' = Some q" for k' q
      proof -
        from that None have "map_of (gomap_put k p m) k' = Some q"
          by (auto simp: map_of_put)
        with ext show ?thesis unfolding extends_def by blast
      qed
      show "dom (map_of m') = dom (map_of m) \<union> set (k # ks)"
        using ext by (auto simp: extends_def map_of_put)
    next
      fix k' q
      assume n: "map_of m k' = None" and s: "map_of m' k' = Some q"
      have *: "k' \<noteq> k \<Longrightarrow> map_of u q = None \<and> valid_port q \<and> (\<forall>k''. map_of m' k'' = Some q \<longrightarrow> k'' = k')"
      proof -
        assume "k' \<noteq> k"
        with n have "map_of (gomap_put k p m) k' = None" by (simp add: map_of_put)
        with ext s show ?thesis unfolding extends_def by blast
      qed
      have same: "q = p" if "k' = k" using mk s that by simp
      have "map_of u q = None \<Longrightarrow> map_of used q = None"
        unfolding p(3) by (simp add: map_of_put split: if_splits)
      then show "map_of used q = None" using * same p(1) by (cases "k' = k") simp_all
      show "valid_port q" using * same p(2) by (cases "k' = k") simp_all
      show "k'' = k'" if "map_of m' k'' = Some q" for k''
        using * same other that by (cases "k' = k") simp_all
    qed
    moreover have "\<exists>pre. rs = pre @ rs'"
      using pre p(4) by (metis append.assoc)
    ultimately show ?thesis using upd None by auto
  next
    case (Some p)
    with Cons.prems have ak: "allocate_keys ks m used upd rs = Some (m', used', upd', rs')" by simp
    have "k \<in> dom (map_of m)" using Some by blast
    then show ?thesis
      using Cons.IH [OF ak Cons.prems(2,3)] by (auto simp: extends_def insert_absorb)
  qed
qed

text \<open>The effect of one \<^verbatim>\<open>AllocatePorts\<close> call on the table: the endpoint holds exactly the requested keys,
  keys that had a port keep it, new ports are in range, unused before and pairwise different, and no
  other endpoint changes.\<close>

definition allocated :: "string \<Rightarrow> string list \<Rightarrow> lookup_table \<Rightarrow> lookup_table \<Rightarrow> bool" where
  "allocated ek keys t t' \<longleftrightarrow>
     (\<forall>ek' k. ek' \<noteq> ek \<longrightarrow> table_lookup t' ek' k = table_lookup t ek' k) \<and>
     (\<forall>k. table_lookup t' ek k \<noteq> None \<longleftrightarrow> k \<in> set keys) \<and>
     (\<forall>k p. k \<in> set keys \<longrightarrow> table_lookup t ek k = Some p \<longrightarrow> table_lookup t' ek k = Some p) \<and>
     (\<forall>k p. table_lookup t ek k = None \<longrightarrow> table_lookup t' ek k = Some p \<longrightarrow>
        valid_port p \<and> p \<notin> used_ports t \<and> (\<forall>k'. table_lookup t' ek k' = Some p \<longrightarrow> k' = k))"

lemma AllocatePorts_cases:
  assumes "AllocatePorts ek keys pa rs = Some (pa', upd, rs')"
  obtains m used upd1 pa1 where
    "allocate_keys keys (table_at (portLookup pa) ek) (portLookupReverse pa) False rs =
       Some (m, used, upd1, rs')"
    "portLookup pa1 =
       gomap_put ek (filter (\<lambda>(k, v). k \<in> set keys) m) (table_touch ek (portLookup pa))"
    "pa' = recomputeAvailablePorts pa1"
    "upd \<longleftrightarrow> upd1 \<or> (\<exists>(k, v) \<in> set m. k \<notin> set keys)"
proof -
  from assms obtain m used upd1 where
    ak: "allocate_keys keys (table_at (portLookup pa) ek) (portLookupReverse pa) False rs =
           Some (m, used, upd1, rs')" and
    res: "pa' = recomputeAvailablePorts
             (pa\<lparr> portLookup := gomap_put ek (filter (\<lambda>(k, v). k \<in> set keys) m)
                                 (table_touch ek (portLookup pa)),
                 portLookupReverse := used \<rparr>)" and
    upd: "upd \<longleftrightarrow> upd1 \<or> (\<exists>(k, v) \<in> set m. k \<notin> set keys)"
    by (auto simp: AllocatePorts_def Let_def split: option.splits)
  show thesis by (rule that [OF ak _ res upd]) simp
qed

lemma AllocatePorts_Some:
  assumes "AllocatePorts ek keys pa rs = Some (pa', upd, rs')" and "pa_wf pa"
  shows "pa_wf pa' \<and> allocated ek keys (portLookup pa) (portLookup pa') \<and>
         (upd \<longleftrightarrow> set keys \<noteq> dom (table_lookup (portLookup pa) ek)) \<and> (\<exists>pre. rs = pre @ rs')"
proof -
  let ?t = "portLookup pa" let ?m = "table_at ?t ek"
  from AllocatePorts_cases [OF assms(1)] obtain m used upd1 pa1 where
    ak: "allocate_keys keys ?m (portLookupReverse pa) False rs = Some (m, used, upd1, rs')" and
    t1: "portLookup pa1 = gomap_put ek (filter (\<lambda>(k, v). k \<in> set keys) m) (table_touch ek ?t)" and
    rc: "pa' = recomputeAvailablePorts pa1" and
    upd: "upd \<longleftrightarrow> upd1 \<or> (\<exists>(k, v) \<in> set m. k \<notin> set keys)" .
  have t': "portLookup pa' = gomap_put ek (filter (\<lambda>(k, v). k \<in> set keys) m) (table_touch ek ?t)"
    by (simp add: rc t1)
  from assms(2) have wf: "wf_table ?t" and
    rev: "\<And>p. map_of (portLookupReverse pa) p \<noteq> None \<longleftrightarrow> p \<in> used_ports ?t"
    by (auto simp: pa_wf_def reverse_ok_def)
  have "map_of (portLookupReverse pa) p \<noteq> None" if "map_of ?m k = Some p" for k p
    using that unfolding rev used_ports_def table_lookup_at by blast
  from allocate_keys_Some [OF ak wf_table_at [OF wf] this]
  have ext: "extends (set keys) ?m (portLookupReverse pa) m"
    and upd1: "upd1 \<longleftrightarrow> \<not> set keys \<subseteq> dom (map_of ?m)" and pre: "\<exists>pre. rs = pre @ rs'"
    by auto
  have look: "table_lookup (portLookup pa') ek' k =
      (if ek = ek' then if k \<in> set keys then map_of m k else None else table_lookup ?t ek' k)" for ek' k
    by (simp add: t' table_lookup_put map_of_filter_key)
  have "wf_table (portLookup pa')"
    unfolding t' using wf ext by (intro wf_table_put wf_table_touch) (auto simp: extends_def)
  then have "pa_wf pa'" by (simp add: rc recompute_wf)
  moreover have "allocated ek keys ?t (portLookup pa')"
    unfolding allocated_def
  proof (intro conjI allI impI)
    show "table_lookup (portLookup pa') ek k \<noteq> None \<longleftrightarrow> k \<in> set keys" for k
    proof -
      have "set keys \<subseteq> dom (map_of m)" using ext unfolding extends_def by blast
      then show ?thesis by (auto simp: look)
    qed
  next
    fix k p
    assume n: "table_lookup ?t ek k = None" and s: "table_lookup (portLookup pa') ek k = Some p"
    from s have "map_of m k = Some p" by (simp add: look split: if_splits)
    with ext n have "map_of (portLookupReverse pa) p = None \<and> valid_port p \<and>
        (\<forall>k'. map_of m k' = Some p \<longrightarrow> k' = k)"
      unfolding extends_def table_lookup_at by blast
    then show "valid_port p" and "p \<notin> used_ports ?t" and
      "\<And>k'. table_lookup (portLookup pa') ek k' = Some p \<Longrightarrow> k' = k"
      using rev [of p] by (auto simp: look split: if_splits)
  next
    fix k p
    assume "k \<in> set keys" and "table_lookup ?t ek k = Some p"
    then have "map_of m k = Some p" using ext unfolding extends_def table_lookup_at by blast
    with \<open>k \<in> set keys\<close> show "table_lookup (portLookup pa') ek k = Some p" by (simp add: look)
  qed (simp add: look)
  moreover have "upd \<longleftrightarrow> set keys \<noteq> dom (table_lookup ?t ek)"
  proof -
    have a: "(\<exists>(k, v) \<in> set m. k \<notin> set keys) \<longleftrightarrow> \<not> dom (map_of m) \<subseteq> set keys"
      by (auto simp: dom_map_of_conv_image_fst)
    have b: "dom (map_of m) = dom (map_of ?m) \<union> set keys"
      using ext unfolding extends_def by blast
    have c: "dom (table_lookup ?t ek) = dom (map_of ?m)"
      by (simp add: table_lookup_at dom_def)
    show ?thesis unfolding upd upd1 a b c by blast
  qed
  ultimately show ?thesis using pre by blast
qed

lemma allocated_old_or_new:
  assumes al: "allocated ek keys t t'" and look: "table_lookup t' e k = Some p"
  shows "table_lookup t e k = Some p \<or>
      (e = ek \<and> valid_port p \<and> p \<notin> used_ports t \<and> (\<forall>k'. table_lookup t' ek k' = Some p \<longrightarrow> k' = k))"
proof (cases "e = ek")
  case True
  show ?thesis
  proof (cases "table_lookup t ek k")
    case None
    with al True look show ?thesis unfolding allocated_def by blast
  next
    case (Some q)
    moreover have "k \<in> set keys" using al True look unfolding allocated_def by blast
    ultimately have "table_lookup t' ek k = Some q" using al unfolding allocated_def by blast
    with Some True look show ?thesis by simp
  qed
next
  case False
  with al look show ?thesis unfolding allocated_def by metis
qed

lemma AllocatePorts_inv:
  assumes "AllocatePorts ek keys pa rs = Some (pa', upd, rs')" and "pa_inv pa"
  shows "pa_inv pa'"
proof -
  let ?t = "portLookup pa" let ?t' = "portLookup pa'"
  from assms(2) have wf: "pa_wf pa" and uniq: "unique_ports ?t"
    and valid: "\<And>p. p \<in> used_ports ?t \<Longrightarrow> valid_port p"
    by (auto simp: pa_inv_def)
  from AllocatePorts_Some [OF assms(1) wf] have wf': "pa_wf pa'" and al: "allocated ek keys ?t ?t'"
    by blast+
  note old_or_new = allocated_old_or_new [OF al]
  have "unique_ports ?t'"
    unfolding unique_ports_def
  proof (intro allI impI)
    fix e k e' k' p
    assume a: "table_lookup ?t' e k = Some p" and b: "table_lookup ?t' e' k' = Some p"
    have used: "p \<in> used_ports ?t" if "table_lookup ?t x y = Some p" for x y
      using that unfolding used_ports_def by blast
    show "e = e' \<and> k = k'"
    proof (cases "p \<in> used_ports ?t")
      case True
      then have "table_lookup ?t e k = Some p" and "table_lookup ?t e' k' = Some p"
        using old_or_new [OF a] old_or_new [OF b] by blast+
      then show ?thesis using uniq unfolding unique_ports_def by blast
    next
      case False
      with used old_or_new [OF a] old_or_new [OF b] a b show ?thesis by metis
    qed
  qed
  moreover have "valid_port p" if "p \<in> used_ports ?t'" for p
  proof -
    from that obtain e k where "table_lookup ?t' e k = Some p" unfolding used_ports_def by blast
    from old_or_new [OF this] valid show ?thesis unfolding used_ports_def by blast
  qed
  ultimately show ?thesis using wf' by (simp add: pa_inv_def)
qed

section \<open>Release\<close>

lemma fold_del_lookup:
  "map_of (fold gomap_del ks m) k = (if k \<in> set ks then None else map_of m k)"
  by (induction ks arbitrary: m) (auto simp: map_of_del)

lemma wf_fold_del: "wf_gomap m \<Longrightarrow> wf_gomap (fold gomap_del ks m)"
  by (induction ks arbitrary: m) auto

lemma wf_table_fold_del: "wf_table t \<Longrightarrow> wf_table (fold gomap_del eks t)"
  by (induction eks arbitrary: t) (auto simp: wf_table_del)

lemma DeallocatePorts_lookup:
  "table_lookup (portLookup (fst (DeallocatePorts ek ks pa))) ek' k =
     (if ek' = ek \<and> k \<in> set ks then None else table_lookup (portLookup pa) ek' k)"
  by (auto simp: DeallocatePorts_def table_lookup_def map_of_put fold_del_lookup split: option.splits)

lemma DeallocateEndpoints_lookup:
  "table_lookup (portLookup (DeallocateEndpoints eks pa)) ek k =
     (if ek \<in> set eks then None else table_lookup (portLookup pa) ek k)"
  by (simp add: DeallocateEndpoints_def table_lookup_def fold_del_lookup)

lemma DeallocatePorts_inv:
  assumes "pa_inv pa"
  shows "pa_inv (fst (DeallocatePorts ek ks pa))"
proof (cases "map_of (portLookup pa) ek")
  case None
  then show ?thesis
    using recompute_inv_shrink [of pa "portLookup pa"] assms
    by (simp add: DeallocatePorts_def pa_inv_def pa_wf_def)
next
  case (Some m)
  let ?t = "gomap_put ek (fold gomap_del ks m) (portLookup pa)"
  have wf: "wf_table (portLookup pa)" using assms by (simp add: pa_inv_def pa_wf_def)
  moreover have "wf_gomap m"
    using wf_table_at [OF wf, of ek] Some by (simp add: table_at_def)
  ultimately have "wf_table ?t" by (intro wf_table_put wf_fold_del)
  moreover have "table_lookup (portLookup pa) ek' k = Some p" if "table_lookup ?t ek' k = Some p" for ek' k p
    using that Some by (auto simp: table_lookup_def map_of_put fold_del_lookup split: if_splits)
  ultimately show ?thesis
    using recompute_inv_shrink [OF assms] Some by (simp add: DeallocatePorts_def)
qed

lemma DeallocateEndpoints_inv:
  assumes "pa_inv pa"
  shows "pa_inv (DeallocateEndpoints eks pa)"
  unfolding DeallocateEndpoints_def
proof (rule recompute_inv_shrink [OF assms])
  show "wf_table (fold gomap_del eks (portLookup pa))"
    using assms by (simp add: pa_inv_def pa_wf_def wf_table_fold_del)
  show "table_lookup (portLookup pa) ek k = Some p"
    if "table_lookup (fold gomap_del eks (portLookup pa)) ek k = Some p" for ek k p
    using that by (simp add: table_lookup_def fold_del_lookup split: if_splits)
qed

section \<open>Allocation returns\<close>

text \<open>\<^verbatim>\<open>allocatePort\<close> returns exactly when some draw hits an unused port of the range; \<open>hits\<close> lists
  the ports that a sequence of draws names.\<close>

definition draw_port :: "nat \<Rightarrow> int" where
  "draw_port r = int (r mod nat (endPort - startPort)) + startPort"

lemma allocatePort_returns:
  "allocatePort used rs \<noteq> None \<longleftrightarrow> (\<exists>r \<in> set rs. map_of used (draw_port r) = None)"
  by (induction rs) (auto simp: Let_def draw_port_def)

definition full_round :: "draws \<Rightarrow> bool" where
  "full_round rs \<longleftrightarrow> (\<forall>p. valid_port p \<longrightarrow> p \<in> draw_port ` set rs)"

text \<open>\<open>n\<close> rounds, each of which names every port of the range at least once, with anything before,
  between and after them.\<close>

fun rounds :: "nat \<Rightarrow> draws \<Rightarrow> bool" where
  "rounds 0 rs \<longleftrightarrow> True"
| "rounds (Suc n) rs \<longleftrightarrow> (\<exists>a b. rs = a @ b \<and> full_round a \<and> rounds n b)"

lemma full_round_append: "full_round rs \<Longrightarrow> full_round (xs @ rs)"
  unfolding full_round_def set_append image_Un by blast

lemma rounds_append: "rounds n rs \<Longrightarrow> rounds n (xs @ rs)"
proof (cases n)
  case (Suc m)
  assume "rounds n rs"
  with Suc obtain a b where "rs = a @ b" "full_round a" "rounds m b" by auto
  then show ?thesis
    unfolding Suc rounds.simps by (intro exI [of _ "xs @ a"] exI [of _ b]) (simp add: full_round_append)
qed simp

lemma allocatePort_in_prefix:
  assumes "allocatePort used a \<noteq> None"
  shows "\<exists>p used' r. allocatePort used (a @ b) = Some (p, used', r @ b)"
  using assms by (induction a) (auto simp: Let_def)

lemma card_valid_ports: "card {p. valid_port p} = 55535" and finite_valid_ports: "finite {p. valid_port p}"
proof -
  have "{p. valid_port p} = {startPort ..< endPort}" by (auto simp: valid_port_def)
  then show "card {p. valid_port p} = 55535" and "finite {p. valid_port p}"
    by (simp_all add: startPort_def endPort_def)
qed

lemma free_port_exists:
  assumes "card (dom (map_of used)) < 55535"
  shows "\<exists>p. valid_port p \<and> map_of used p = None"
proof (rule ccontr)
  assume "\<nexists>p. valid_port p \<and> map_of used p = None"
  then have "{p. valid_port p} \<subseteq> dom (map_of used)" by auto
  from card_mono [OF finite_dom_map_of this] card_valid_ports assms show False by simp
qed

lemma allocate_keys_returns:
  assumes "rounds (length ks) rs" and "card (dom (map_of used)) + length ks \<le> 55535"
  shows "allocate_keys ks m used upd rs \<noteq> None"
  using assms
proof (induction ks arbitrary: m used upd rs)
  case (Cons k ks)
  from Cons.prems(1) obtain a b where ab: "rs = a @ b" "full_round a" "rounds (length ks) b" by auto
  show ?case
  proof (cases "map_of m k")
    case None
    from free_port_exists [of used] Cons.prems(2) obtain p where
      p: "valid_port p" "map_of used p = None" by auto
    then have "allocatePort used a \<noteq> None"
      unfolding allocatePort_returns using ab(2) by (auto simp: full_round_def image_iff)
    from allocatePort_in_prefix [OF this, of b] obtain q used' r where
      ap: "allocatePort used rs = Some (q, used', r @ b)" using ab(1) by blast
    have "used' = gomap_put q True used" using allocatePort_Some [OF ap] by blast
    then have "card (dom (map_of used')) \<le> Suc (card (dom (map_of used)))"
      by (simp add: map_of_put card_insert_if finite_dom_map_of)
    then have "allocate_keys ks (gomap_put k q m) used' True (r @ b) \<noteq> None"
      using Cons.prems(2) ab(3) by (intro Cons.IH rounds_append) auto
    then show ?thesis using None ap by simp
  next
    case (Some p)
    have "allocate_keys ks m used upd rs \<noteq> None"
      unfolding ab(1) using Cons.prems(2) ab(3) by (intro Cons.IH rounds_append) auto
    then show ?thesis using Some by simp
  qed
qed simp

lemma AllocatePorts_returns:
  assumes "rounds (length keys) rs"
    and "card (dom (map_of (portLookupReverse pa))) + length keys \<le> 55535"
  shows "AllocatePorts ek keys pa rs \<noteq> None"
  using allocate_keys_returns [OF assms] by (auto simp: AllocatePorts_def Let_def split: option.splits)

lemma AllocatePorts_exhausted:
  assumes "pa_wf pa" and "{p. valid_port p} \<subseteq> used_ports (portLookup pa)"
    and "k \<in> set keys" and "table_lookup (portLookup pa) ek k = None"
  shows "AllocatePorts ek keys pa rs = None"
proof -
  have "allocatePort (portLookupReverse pa) rs' = None" for rs'
  proof -
    have "map_of (portLookupReverse pa) (draw_port r) \<noteq> None" for r
      using assms(1,2) draw_valid [of r] by (auto simp: pa_wf_def reverse_ok_def draw_port_def)
    then show ?thesis using allocatePort_returns by blast
  qed
  then have "allocate_keys ks m (portLookupReverse pa) upd rs = None"
    if "k \<in> set ks" and "map_of m k = None" for ks m upd
    using that by (induction ks) auto
  from this [OF assms(3), of "table_at (portLookup pa) ek"] assms(4) show ?thesis
    by (simp add: AllocatePorts_def Let_def table_lookup_at)
qed

section \<open>Repair of duplicate ports\<close>

definition foreign :: "(int, string) gomap \<Rightarrow> string \<Rightarrow> int \<Rightarrow> bool" where
  "foreign owners ek p \<longleftrightarrow> (case map_of owners p of None \<Rightarrow> False | Some owner \<Rightarrow> owner \<noteq> ek)"

lemma int_at_del: "k \<noteq> k' \<Longrightarrow> int_at (gomap_del k m) k' = int_at m k'"
  by (simp add: int_at_def map_of_del)

lemma foreign_put: "\<not> foreign owners ek q \<Longrightarrow> foreign (gomap_put q ek owners) ek p = foreign owners ek p"
  by (auto simp: foreign_def map_of_put)

lemma heal_ports_step:
  "heal_ports ek (k # ks) m owners =
     (if foreign owners ek (int_at m k) then heal_ports ek ks (gomap_del k m) owners
      else heal_ports ek ks m (gomap_put (int_at m k) ek owners))"
  by (simp add: Let_def foreign_def)

declare heal_ports.simps(2) [simp del]

lemma heal_ports_map:
  assumes "distinct ks"
  shows "map_of (fst (heal_ports ek ks m owners)) k =
           (if k \<in> set ks \<and> foreign owners ek (int_at m k) then None else map_of m k)"
  using assms
proof (induction ks arbitrary: m owners)
  case (Cons a ks)
  show ?case
  proof (cases "foreign owners ek (int_at m a)")
    case True
    with Cons.prems Cons.IH [of "gomap_del a m" owners] show ?thesis
      by (cases "a = k") (auto simp: heal_ports_step map_of_del int_at_del)
  next
    case False
    with Cons.prems Cons.IH [of m "gomap_put (int_at m a) ek owners"] show ?thesis
      by (auto simp: heal_ports_step foreign_put)
  qed
qed simp

lemma heal_ports_owners:
  assumes "distinct ks" and "set ks \<subseteq> dom (map_of m)"
  shows "map_of (snd (heal_ports ek ks m owners)) p =
           (if map_of owners p = None \<and> (\<exists>k \<in> set ks. map_of m k = Some p) then Some ek
            else map_of owners p)"
  using assms
proof (induction ks arbitrary: m owners)
  case (Cons a ks)
  from Cons.prems(2) obtain q where q: "map_of m a = Some q" by auto
  then have iq: "int_at m a = q" by (simp add: int_at_def)
  show ?case
  proof (cases "foreign owners ek q")
    case True
    then have own: "map_of owners q \<noteq> None" by (auto simp: foreign_def split: option.splits)
    have eq: "(\<exists>k \<in> set ks. map_of (gomap_del a m) k = Some p) \<longleftrightarrow> (\<exists>k \<in> set ks. map_of m k = Some p)"
      using Cons.prems(1) by (auto simp: map_of_del)
    have "set ks \<subseteq> dom (map_of (gomap_del a m))"
      using Cons.prems by (auto simp: map_of_del)
    with Cons.IH [of "gomap_del a m" owners] Cons.prems(1) True own q show ?thesis
      by (auto simp: heal_ports_step iq eq)
  next
    case False
    with Cons.IH [of m "gomap_put q ek owners"] Cons.prems q show ?thesis
      by (auto simp: heal_ports_step iq map_of_put foreign_def split: option.splits)
  qed
qed simp

lemma wf_heal_ports: "wf_gomap m \<Longrightarrow> wf_gomap (fst (heal_ports ek ks m owners))"
  by (induction ks arbitrary: m owners) (auto simp: heal_ports_step)

definition holds_port :: "lookup_table \<Rightarrow> string \<Rightarrow> int \<Rightarrow> bool" where
  "holds_port t ek p \<longleftrightarrow> (\<exists>k. table_lookup t ek k = Some p)"

lemma heal_endpoints_lookup:
  assumes "sorted eks" and "distinct eks" and "wf_table t"
    and "\<And>p owner. map_of owners p = Some owner \<Longrightarrow> owner \<notin> set eks"
  shows "table_lookup (heal_endpoints eks t owners) ek k = Some p \<longleftrightarrow>
           table_lookup t ek k = Some p \<and>
           (ek \<in> set eks \<longrightarrow> map_of owners p = None \<and> (\<forall>e \<in> set eks. e < ek \<longrightarrow> \<not> holds_port t e p))"
  using assms
proof (induction eks arbitrary: t owners)
  case (Cons e0 eks)
  define m where "m = table_at t e0"
  define r where "r = heal_ports e0 (sort (gomap_keys m)) m owners"
  define t1 where "t1 = gomap_put e0 (fst r) t"
  have wfm: "wf_gomap m" unfolding m_def using Cons.prems(3) by (rule wf_table_at)
  have dist: "distinct (sort (gomap_keys m))" using wfm by (simp add: wf_gomap_def)
  have keys: "set (sort (gomap_keys m)) = dom (map_of m)" by (simp add: dom_map_of_conv_image_fst)
  have look0: "table_lookup t e0 k' = map_of m k'" for k' by (simp add: m_def table_lookup_at)
  have foreign: "foreign owners e0 q \<longleftrightarrow> map_of owners q \<noteq> None" for q
    using Cons.prems(4) [of q] by (auto simp: foreign_def split: option.splits)
  have r_map: "map_of (fst r) k' = Some q \<longleftrightarrow> map_of m k' = Some q \<and> map_of owners q = None" for k' q
    unfolding r_def heal_ports_map [OF dist] keys foreign by (auto simp: int_at_def)
  have "holds_port t e0 q \<longleftrightarrow> (\<exists>k \<in> dom (map_of m). map_of m k = Some q)" for q
    unfolding holds_port_def look0 by blast
  then have r_own: "map_of (snd r) q =
      (if map_of owners q = None \<and> holds_port t e0 q then Some e0 else map_of owners q)" for q
    unfolding r_def by (subst heal_ports_owners [OF dist]) (simp_all add: keys [simplified])
  have t1: "table_lookup t1 e k' = (if e = e0 then map_of (fst r) k' else table_lookup t e k')" for e k'
    by (simp add: t1_def table_lookup_put)
  have wf1: "wf_table t1"
    unfolding t1_def r_def by (intro wf_table_put Cons.prems(3) wf_heal_ports wfm)
  have own1: "owner \<notin> set eks" if "map_of (snd r) q = Some owner" for q owner
    using that Cons.prems(2) Cons.prems(4) [of q] by (auto simp: r_own split: if_splits)
  have step: "heal_endpoints (e0 # eks) t owners = heal_endpoints eks t1 (snd r)"
    by (simp add: Let_def m_def r_def t1_def)
  have e0: "\<forall>e \<in> set eks. e0 < e"
    using Cons.prems(1,2) by (auto simp: order.strict_iff_order)
  have IH: "table_lookup (heal_endpoints (e0 # eks) t owners) ek k = Some p \<longleftrightarrow>
      table_lookup t1 ek k = Some p \<and>
      (ek \<in> set eks \<longrightarrow> map_of (snd r) p = None \<and> (\<forall>e \<in> set eks. e < ek \<longrightarrow> \<not> holds_port t1 e p))"
    unfolding step using Cons.prems(1,2) wf1 own1 by (intro Cons.IH) auto
  show ?case
  proof (cases "ek = e0")
    case True
    with e0 Cons.prems(2) show ?thesis
      unfolding IH by (auto simp: t1 r_map look0)
  next
    case False
    have h: "holds_port t1 e p \<longleftrightarrow> holds_port t e p" if "e \<in> set eks" for e
      using that e0 unfolding holds_port_def t1 by auto
    show ?thesis
      unfolding IH using False e0 h by (auto simp: t1 r_own)
  qed
qed simp

text \<open>The repair keeps an entry exactly if its endpoint key is the least one, in string order, that
  holds the port.\<close>

lemma heal_lookup:
  assumes "wf_table t"
  shows "table_lookup (healLoadStateCollisions t) ek k = Some p \<longleftrightarrow>
           table_lookup t ek k = Some p \<and> (\<forall>ek' k'. table_lookup t ek' k' = Some p \<longrightarrow> ek \<le> ek')"
proof -
  have dom: "table_lookup t e k' = Some q \<Longrightarrow> e \<in> set (gomap_keys t)" for e k' q
    by (auto simp: table_lookup_Some_iff) (metis domI dom_map_of_conv_image_fst)
  have "table_lookup (healLoadStateCollisions t) ek k = Some p \<longleftrightarrow>
     table_lookup t ek k = Some p \<and>
     (ek \<in> set (sort (gomap_keys t)) \<longrightarrow>
        map_of [] p = (None :: string option) \<and>
        (\<forall>e \<in> set (sort (gomap_keys t)). e < ek \<longrightarrow> \<not> holds_port t e p))"
    unfolding healLoadStateCollisions_def
    by (rule heal_endpoints_lookup) (use assms in \<open>auto simp: wf_table_def wf_gomap_def\<close>)
  also have "\<dots> \<longleftrightarrow> table_lookup t ek k = Some p \<and> (\<forall>ek' k'. table_lookup t ek' k' = Some p \<longrightarrow> ek \<le> ek')"
    using dom unfolding holds_port_def set_sort by (metis leD leI map_of.simps(1))
  finally show ?thesis .
qed

section \<open>Loading\<close>

lemma wf_fold_table:
  assumes "\<And>x t. wf_table t \<Longrightarrow> wf_table (f x t)" and "wf_table t"
  shows "wf_table (fold f xs t)"
  using assms(2) by (induction xs arbitrary: t) (auto intro: assms(1))

lemma wf_load_table: "wf_table (load_table intValue lbs routes)"
proof -
  have port: "wf_table (load_lb_port intValue ek sps q t)" if "wf_table t" for ek sps q t
    using that by (simp add: load_lb_port_def Let_def wf_table_set split: option.split)
  have ep: "wf_table (load_lb_endpoint intValue lb ie t)" if "wf_table t" for lb ie t
    unfolding load_lb_endpoint_def Let_def using that by (intro wf_fold_table wf_table_touch port)
  have lb: "wf_table (load_lb intValue lb t)" if "wf_table t" for lb t
    unfolding load_lb_def using that by (intro wf_fold_table ep)
  have svc: "wf_table (load_route_service intValue r src svc t)" if "wf_table t" for r src svc t
    unfolding load_route_service_def Let_def using that
    by (auto split: option.split intro!: wf_fold_table wf_table_touch wf_table_set)
  have route: "wf_table (load_route intValue r t)" if "wf_table t" for r t
    unfolding load_route_def using that by (auto split: option.split intro!: wf_fold_table svc)
  show ?thesis
    unfolding load_table_def by (intro wf_fold_table lb route wf_table_Nil)
qed

lemma wf_heal_endpoints: "wf_table t \<Longrightarrow> wf_table (heal_endpoints eks t owners)"
  by (induction eks arbitrary: t owners)
    (simp_all add: Let_def wf_table_put wf_heal_ports wf_table_at)

lemma LoadState_wf:
  assumes "pa_wf pa"
  shows "pa_wf (fst (LoadState intValue lbs routes pa))"
  using assms
  by (auto simp: LoadState_def healLoadStateCollisions_def split: sum.split
      intro!: recompute_wf wf_heal_endpoints wf_load_table)

lemma LoadState_lookup:
  "table_lookup (portLookup (fst (LoadState intValue (Inr lbs) (Inr routes) pa))) ek k = Some p \<longleftrightarrow>
     table_lookup (load_table intValue lbs routes) ek k = Some p \<and>
     (\<forall>ek' k'. table_lookup (load_table intValue lbs routes) ek' k' = Some p \<longrightarrow> ek \<le> ek')"
  by (simp add: LoadState_def heal_lookup wf_load_table)

section \<open>The allocator as an interface\<close>

text \<open>\<open>port_source\<close> is the contract behind the Go interface \<^verbatim>\<open>PortAllocator\<close> of
  \<^verbatim>\<open>internal/kubelb/loadbalancer.go\<close>: a table whose allocated ports lie in the range and belong to one
  key pair each. \<open>port_manager\<close> adds the operations that change the table.\<close>

locale port_source =
  fixes invar :: "'s \<Rightarrow> bool"
    and lookup :: "'s \<Rightarrow> string \<Rightarrow> string \<Rightarrow> int \<times> bool"
  assumes lookup_unique:
      "invar s \<Longrightarrow> lookup s ek k = (p, True) \<Longrightarrow> lookup s ek' k' = (p, True) \<Longrightarrow> ek = ek' \<and> k = k'"
    and lookup_range: "invar s \<Longrightarrow> lookup s ek k = (p, True) \<Longrightarrow> startPort \<le> p \<and> p < endPort"
begin

lemma lookup_to_uint32: "invar s \<Longrightarrow> lookup s ek k = (p, True) \<Longrightarrow> to_uint32 p = p"
  using lookup_range [of s ek k p] by (simp add: to_uint32_def startPort_def endPort_def)

lemma lookup_to_int32: "invar s \<Longrightarrow> lookup s ek k = (p, True) \<Longrightarrow> to_int32 p = p"
  using lookup_range [of s ek k p] by (simp add: to_int32_def startPort_def endPort_def)

lemma lookup_distinct:
  assumes "invar s" and "distinct keys" and "\<And>ek k. (ek, k) \<in> set keys \<Longrightarrow> snd (lookup s ek k)"
  shows "distinct (map (\<lambda>(ek, k). fst (lookup s ek k)) keys)"
proof -
  have "inj_on (\<lambda>(ek, k). fst (lookup s ek k)) (set keys)"
  proof (rule inj_onI, clarify)
    fix ek k ek' k'
    assume "(ek, k) \<in> set keys" and "(ek', k') \<in> set keys"
      and eq: "fst (lookup s ek k) = fst (lookup s ek' k')"
    then have "lookup s ek k = (fst (lookup s ek k), True)"
      and "lookup s ek' k' = (fst (lookup s ek k), True)"
      using assms(3) by (metis prod.collapse)+
    then show "ek = ek' \<and> k = k'" by (rule lookup_unique [OF assms(1)])
  qed
  with assms(2) show ?thesis by (simp add: distinct_map)
qed

end

locale port_manager = port_source +
  fixes alloc :: "string \<Rightarrow> string list \<Rightarrow> 's \<Rightarrow> draws \<Rightarrow> ('s \<times> bool \<times> draws) option"
    and release :: "string list \<Rightarrow> 's \<Rightarrow> 's"
  assumes alloc_invar: "invar s \<Longrightarrow> alloc ek keys s rs = Some (s', upd, rs') \<Longrightarrow> invar s'"
    and alloc_lookup: "invar s \<Longrightarrow> alloc ek keys s rs = Some (s', upd, rs') \<Longrightarrow>
          snd (lookup s' ek k) \<longleftrightarrow> k \<in> set keys"
    and alloc_keep: "invar s \<Longrightarrow> alloc ek keys s rs = Some (s', upd, rs') \<Longrightarrow>
          k \<in> set keys \<Longrightarrow> lookup s ek k = (p, True) \<Longrightarrow> lookup s' ek k = (p, True)"
    and alloc_other: "invar s \<Longrightarrow> alloc ek keys s rs = Some (s', upd, rs') \<Longrightarrow>
          ek' \<noteq> ek \<Longrightarrow> lookup s' ek' k = lookup s ek' k"
    and release_invar: "invar s \<Longrightarrow> invar (release eks s)"
    and release_lookup: "invar s \<Longrightarrow>
          lookup (release eks s) ek k = (if ek \<in> set eks then (-1, False) else lookup s ek k)"
begin

lemma requests_invar:
  "invar s \<Longrightarrow> allocate_requests alloc reqs s rs = Some (s', rs') \<Longrightarrow> invar s'"
proof (induction reqs arbitrary: s rs)
  case (Cons r reqs)
  then show ?case by (cases r) (auto split: option.splits intro: alloc_invar)
qed simp

lemma requests_other:
  "invar s \<Longrightarrow> allocate_requests alloc reqs s rs = Some (s', rs') \<Longrightarrow> ek \<notin> fst ` set reqs \<Longrightarrow>
     lookup s' ek k = lookup s ek k"
proof (induction reqs arbitrary: s rs)
  case (Cons r reqs)
  obtain e keys where r: "r = (e, keys)" by fastforce
  with Cons.prems(2) obtain s1 u rs1 where
    a: "alloc e keys s rs = Some (s1, u, rs1)" and b: "allocate_requests alloc reqs s1 rs1 = Some (s', rs')"
    by (auto split: option.splits)
  from Cons.IH [OF alloc_invar [OF Cons.prems(1) a] b] alloc_other [OF Cons.prems(1) a, of ek k]
    Cons.prems(3) r show ?case by auto
qed simp

lemma requests_lookup:
  assumes "invar s" and "allocate_requests alloc reqs s rs = Some (s', rs')"
    and "distinct (map fst reqs)" and "(ek, keys) \<in> set reqs"
  shows "snd (lookup s' ek k) \<longleftrightarrow> k \<in> set keys"
    and "k \<in> set keys \<Longrightarrow> lookup s ek k = (p, True) \<Longrightarrow> lookup s' ek k = (p, True)"
  using assms
proof (induction reqs arbitrary: s rs)
  case (Cons r reqs)
  obtain e ks where r: "r = (e, ks)" by fastforce
  { case 1
    with r obtain s1 u rs1 where
      a: "alloc e ks s rs = Some (s1, u, rs1)" and b: "allocate_requests alloc reqs s1 rs1 = Some (s', rs')"
      by (auto split: option.splits)
    note i1 = alloc_invar [OF 1(1) a]
    show ?case
    proof (cases "(ek, keys) \<in> set reqs")
      case True
      then show ?thesis using Cons.IH(1) [OF i1 b] 1 by simp
    next
      case False
      with 1(4) r have "ek = e" "keys = ks" by auto
      with 1(3) r requests_other [OF i1 b, of ek k] alloc_lookup [OF 1(1) a, of k] show ?thesis by simp
    qed }
  { case 2
    with r obtain s1 u rs1 where
      a: "alloc e ks s rs = Some (s1, u, rs1)" and b: "allocate_requests alloc reqs s1 rs1 = Some (s', rs')"
      by (auto split: option.splits)
    note i1 = alloc_invar [OF 2(3) a]
    show ?case
    proof (cases "(ek, keys) \<in> set reqs")
      case True
      with 2(5) r have "ek \<noteq> e" by (auto simp: rev_image_eqI)
      with alloc_other [OF 2(3) a this] 2(2) have "lookup s1 ek k = (p, True)" by simp
      with True show ?thesis using Cons.IH(2) [OF 2(1) _ i1 b] 2 by simp
    next
      case False
      with 2(6) r have "ek = e" "keys = ks" by auto
      with 2(5) r requests_other [OF i1 b, of ek k] alloc_keep [OF 2(3) a, of k p] 2(1,2)
      show ?thesis by simp
    qed }
qed simp_all

end

lemma Lookup_True: "Lookup pa ek k = (p, True) \<longleftrightarrow> table_lookup (portLookup pa) ek k = Some p"
  by (auto simp: Lookup_table split: option.splits)

lemma snd_Lookup: "snd (Lookup pa ek k) \<longleftrightarrow> table_lookup (portLookup pa) ek k \<noteq> None"
  by (auto simp: Lookup_table split: option.splits)

interpretation pa: port_source pa_inv Lookup
proof unfold_locales
  show "ek = ek' \<and> k = k'"
    if "pa_inv s" "Lookup s ek k = (p, True)" "Lookup s ek' k' = (p, True)" for s ek k p ek' k'
    using that unfolding Lookup_True pa_inv_def unique_ports_def by blast
  show "startPort \<le> p \<and> p < endPort" if "pa_inv s" "Lookup s ek k = (p, True)" for s ek k p
    using that unfolding Lookup_True pa_inv_def used_ports_def valid_port_def by blast
qed

interpretation pm: port_manager pa_inv Lookup AllocatePorts DeallocateEndpoints
proof unfold_locales
  fix s ek keys rs s' upd rs'
  assume i: "pa_inv s" and a: "AllocatePorts ek keys s rs = Some (s', upd, rs')"
  show "pa_inv s'" using a i by (rule AllocatePorts_inv)
  have al: "allocated ek keys (portLookup s) (portLookup s')"
    using AllocatePorts_Some [OF a] i by (simp add: pa_inv_def)
  show "snd (Lookup s' ek k) \<longleftrightarrow> k \<in> set keys" for k
    using al unfolding snd_Lookup allocated_def by blast
  show "Lookup s' ek k = (p, True)" if "k \<in> set keys" "Lookup s ek k = (p, True)" for k p
    using al that unfolding Lookup_True allocated_def by blast
  show "Lookup s' ek' k = Lookup s ek' k" if "ek' \<noteq> ek" for ek' k
    using al that unfolding Lookup_table allocated_def by auto
next
  show "pa_inv (DeallocateEndpoints eks s)" if "pa_inv s" for eks s
    using that by (rule DeallocateEndpoints_inv)
  show "Lookup (DeallocateEndpoints eks s) ek k = (if ek \<in> set eks then (-1, False) else Lookup s ek k)"
    if "pa_inv s" for eks s ek k
    by (simp add: Lookup_table DeallocateEndpoints_lookup)
qed

section \<open>Runs of the allocator\<close>

text \<open>The states the manager can be in: it starts empty or with what \<^verbatim>\<open>LoadState\<close> finds in the cluster,
  and then allocates and releases in any order.\<close>

inductive pa_run :: "(int_or_string \<Rightarrow> int) \<Rightarrow> port_allocator \<Rightarrow> bool" for intValue where
  run_new: "pa_run intValue NewPortAllocator"
| run_load: "pa_run intValue pa \<Longrightarrow> pa_run intValue (fst (LoadState intValue lbs routes pa))"
| run_alloc: "pa_run intValue pa \<Longrightarrow> AllocatePorts ek keys pa rs = Some (pa', upd, rs') \<Longrightarrow>
    pa_run intValue pa'"
| run_dealloc: "pa_run intValue pa \<Longrightarrow> pa_run intValue (fst (DeallocatePorts ek keys pa))"
| run_release: "pa_run intValue pa \<Longrightarrow> pa_run intValue (DeallocateEndpoints eks pa)"

definition endpoint_unique :: "lookup_table \<Rightarrow> bool" where
  "endpoint_unique t \<longleftrightarrow>
     (\<forall>ek k ek' k' p. table_lookup t ek k = Some p \<longrightarrow> table_lookup t ek' k' = Some p \<longrightarrow> ek = ek')"

lemma endpoint_unique_shrink:
  assumes "endpoint_unique t" and "\<And>ek k p. table_lookup t' ek k = Some p \<Longrightarrow> table_lookup t ek k = Some p"
  shows "endpoint_unique t'"
  using assms unfolding endpoint_unique_def by blast

lemma endpoint_unique_alloc:
  assumes "allocated ek keys t t'" and "endpoint_unique t"
  shows "endpoint_unique t'"
  unfolding endpoint_unique_def
proof (intro allI impI)
  fix e k e' k' p
  assume a: "table_lookup t' e k = Some p" and b: "table_lookup t' e' k' = Some p"
  have used: "table_lookup t x y = Some p \<Longrightarrow> p \<in> used_ports t" for x y
    unfolding used_ports_def by blast
  from allocated_old_or_new [OF assms(1) a] allocated_old_or_new [OF assms(1) b] used assms(2)
  show "e = e'" unfolding endpoint_unique_def by metis
qed

lemma DeallocatePorts_wf:
  assumes "pa_wf pa" shows "pa_wf (fst (DeallocatePorts ek ks pa))"
proof -
  have wf: "wf_table (portLookup pa)" using assms by (simp add: pa_wf_def)
  have "wf_gomap m" if "map_of (portLookup pa) ek = Some m" for m
    using wf_table_at [OF wf, of ek] that by (simp add: table_at_def)
  with wf show ?thesis
    by (auto simp: DeallocatePorts_def split: option.splits
        intro!: recompute_wf wf_table_put wf_fold_del)
qed

lemma DeallocateEndpoints_wf: "pa_wf pa \<Longrightarrow> pa_wf (DeallocateEndpoints eks pa)"
  unfolding DeallocateEndpoints_def by (intro recompute_wf) (simp add: pa_wf_def wf_table_fold_del)

lemma pa_run_inv: "pa_run intValue pa \<Longrightarrow> pa_wf pa \<and> endpoint_unique (portLookup pa)"
proof (induction rule: pa_run.induct)
  case run_new
  then show ?case
    using NewPortAllocator_inv by (auto simp: pa_inv_def endpoint_unique_def unique_ports_def)
next
  case (run_load pa lbs routes)
  have "endpoint_unique (portLookup (fst (LoadState intValue (Inr x) (Inr y) pa)))" for x y
    unfolding endpoint_unique_def LoadState_lookup by (metis order_antisym)
  with run_load LoadState_wf [of pa intValue lbs routes] show ?case
    by (cases lbs; cases routes) (auto simp: LoadState_def)
next
  case (run_alloc pa ek keys rs pa' upd rs')
  with AllocatePorts_Some [OF run_alloc.hyps(2)] endpoint_unique_alloc show ?case by blast
next
  case (run_dealloc pa ek keys)
  have "endpoint_unique (portLookup (fst (DeallocatePorts ek keys pa)))"
    by (rule endpoint_unique_shrink [of "portLookup pa"])
      (use run_dealloc in \<open>auto simp: DeallocatePorts_lookup split: if_splits\<close>)
  with run_dealloc DeallocatePorts_wf show ?case by blast
next
  case (run_release pa eks)
  have "endpoint_unique (portLookup (DeallocateEndpoints eks pa))"
    by (rule endpoint_unique_shrink [of "portLookup pa"])
      (use run_release in \<open>auto simp: DeallocateEndpoints_lookup split: if_splits\<close>)
  with run_release DeallocateEndpoints_wf show ?case by blast
qed

section \<open>Keys requested for load balancers\<close>

lemma fst_lb_requests:
  "map fst (lb_requests lb) =
     map (EnvoyEndpointKey (om_Namespace (lb_Meta lb)) (om_Name (lb_Meta lb)))
       [0 ..< length (ls_Endpoints (lb_Spec lb))]"
proof -
  let ?key = "EnvoyEndpointKey (om_Namespace (lb_Meta lb)) (om_Name (lb_Meta lb))"
  have "map fst (lb_requests lb) = map ?key (map fst (enumerate 0 (ls_Endpoints (lb_Spec lb))))"
    unfolding lb_requests_def map_map by (rule map_cong) auto
  then show ?thesis by (simp only: map_fst_enumerate add_0)
qed

lemma distinct_lb_requests:
  assumes "distinct (map (\<lambda>lb. om_Namespace (lb_Meta lb) @ ''-'' @ om_Name (lb_Meta lb)) lbs)"
  shows "distinct (map fst (concat (map lb_requests lbs)))"
  using assms
proof (induction lbs)
  case (Cons lb lbs)
  let ?id = "\<lambda>lb. om_Namespace (lb_Meta lb) @ ''-'' @ om_Name (lb_Meta lb)"
  have d1: "distinct (map fst (lb_requests lb))"
    by (simp add: fst_lb_requests distinct_map inj_on_def EnvoyEndpointKey_inj_same_ns)
  have disj: "fst ` set (lb_requests lb) \<inter> fst ` set (lb_requests lb') = {}"
    if "lb' \<in> set lbs" for lb'
  proof -
    have "?id lb \<noteq> ?id lb'" using Cons.prems that by (auto simp: image_iff)
    then have ne: "EnvoyEndpointKey (om_Namespace (lb_Meta lb)) (om_Name (lb_Meta lb)) i \<noteq>
        EnvoyEndpointKey (om_Namespace (lb_Meta lb')) (om_Name (lb_Meta lb')) j" for i j
      unfolding EnvoyEndpointKey_eq_iff by blast
    have img: "fst ` set (lb_requests l) =
        EnvoyEndpointKey (om_Namespace (lb_Meta l)) (om_Name (lb_Meta l)) `
          {0 ..< length (ls_Endpoints (lb_Spec l))}" for l
      using arg_cong [OF fst_lb_requests [of l], of set] by (simp only: set_map set_upt)
    show ?thesis unfolding img using ne by blast
  qed
  have d2: "set (map fst (lb_requests lb)) \<inter> set (map fst (concat (map lb_requests lbs))) = {}"
    unfolding set_map set_concat image_UN using disj by blast
  have d3: "distinct (map fst (concat (map lb_requests lbs)))"
    using Cons by simp
  show ?case
    unfolding list.map concat.simps map_append distinct_append using d1 d2 d3 by blast
qed simp

section \<open>Properties\<close>

definition sample_pa :: port_allocator where
  "sample_pa = \<lparr> portLookup = [(''a-b-ep-0'', [(''80-TCP'', 10005)])],
                 portLookupReverse = [(10005, True)] \<rparr>"

lemma sample_pa_alloc:
  "AllocatePorts ''a-b-ep-0'' [''80-TCP''] NewPortAllocator [5] = Some (sample_pa, True, [])"
  by (simp add: AllocatePorts_def NewPortAllocator_def sample_pa_def table_touch_def table_at_def Let_def
      startPort_def endPort_def recomputeAvailablePorts_def table_ports_def)

lemma sample_pa_inv: "pa_inv sample_pa"
  using AllocatePorts_inv [OF sample_pa_alloc NewPortAllocator_inv] .

text \<open>C2. In every state the manager can reach (from an empty allocator or from the statuses found in the
  cluster, by any sequence of loads, allocations and releases) a listener port belongs to one endpoint
  key only, and the reverse table marks exactly the ports that some lookup returns.\<close>

theorem allocator_no_cross_endpoint_collision:
  assumes "pa_run intValue pa"
  shows "(Lookup pa ek k = (p, True) \<longrightarrow> Lookup pa ek' k' = (p, True) \<longrightarrow> ek = ek') \<and>
         (map_of (portLookupReverse pa) p \<noteq> None \<longleftrightarrow> (\<exists>ek k. Lookup pa ek k = (p, True)))"
  using pa_run_inv [OF assms]
  unfolding Lookup_True endpoint_unique_def pa_wf_def reverse_ok_def used_ports_def by blast

theorem allocator_no_cross_endpoint_collision_witness:
  "pa_run (\<lambda>_. 0) sample_pa \<and> Lookup sample_pa ''a-b-ep-0'' ''80-TCP'' = (10005, True) \<and>
   Lookup sample_pa ''c-d-ep-0'' ''80-TCP'' \<noteq> (10005, True)"
proof -
  have run: "pa_run (\<lambda>_. 0) sample_pa"
    by (rule run_alloc [OF run_new sample_pa_alloc])
  moreover have held: "Lookup sample_pa ''a-b-ep-0'' ''80-TCP'' = (10005, True)"
    by (simp add: Lookup_def sample_pa_def)
  moreover have "Lookup sample_pa ''c-d-ep-0'' ''80-TCP'' \<noteq> (10005, True)"
    using allocator_no_cross_endpoint_collision [OF run, of "''a-b-ep-0''" "''80-TCP''" 10005 "''c-d-ep-0''" "''80-TCP''"] held
    by auto
  ultimately show ?thesis by blast
qed

text \<open>C28. One \<^verbatim>\<open>AllocatePorts\<close> call on a consistent allocator: the endpoint afterwards has a port for
  exactly the requested keys, a key that had a port keeps it, new ports lie in [10000, 65535), were not
  in use and are pairwise different, other endpoints are untouched, the result is consistent again, and
  the returned flag tells whether the key set changed.\<close>

theorem AllocatePorts_contract:
  assumes "pa_inv pa" and "AllocatePorts ek keys pa rs = Some (pa', updated, rs')"
  shows "pa_inv pa' \<and> allocated ek keys (portLookup pa) (portLookup pa') \<and>
         (updated \<longleftrightarrow> set keys \<noteq> {k. snd (Lookup pa ek k)})"
  using AllocatePorts_inv [OF assms(2,1)] AllocatePorts_Some [OF assms(2)] assms(1)
  by (simp add: pa_inv_def snd_Lookup dom_def)

theorem AllocatePorts_contract_witness:
  "pa_inv NewPortAllocator \<and>
   AllocatePorts ''a-b-ep-0'' [''80-TCP''] NewPortAllocator [5] = Some (sample_pa, True, []) \<and>
   allocated ''a-b-ep-0'' [''80-TCP''] (portLookup NewPortAllocator) (portLookup sample_pa)"
  using AllocatePorts_contract [OF NewPortAllocator_inv sample_pa_alloc] NewPortAllocator_inv
    sample_pa_alloc by blast

text \<open>C29. Allocation returns: if the ports in use and the requested keys fit in the range, then
  \<^verbatim>\<open>AllocatePorts\<close> returns on every sequence of draws that names each port of the range at least once per
  requested key.\<close>

theorem AllocatePorts_terminates:
  assumes "rounds (length keys) rs"
    and "card (dom (map_of (portLookupReverse pa))) + length keys \<le> 55535"
  shows "\<exists>pa' updated rs'. AllocatePorts ek keys pa rs = Some (pa', updated, rs')"
  using AllocatePorts_returns [OF assms, of ek] by auto

lemma full_round_upt: "full_round [0 ..< 55535]"
  unfolding full_round_def
proof (intro allI impI)
  fix p assume "valid_port p"
  then have "p = draw_port (nat (p - startPort))" and "nat (p - startPort) < 55535"
    by (auto simp: valid_port_def draw_port_def startPort_def endPort_def)
  then show "p \<in> draw_port ` set [0 ..< 55535]" by (auto intro!: image_eqI)
qed

theorem AllocatePorts_terminates_witness:
  "rounds (length [''80-TCP'']) [0 ..< 55535] \<and>
   (\<exists>pa' updated rs'. AllocatePorts ''a'' [''80-TCP''] NewPortAllocator [0 ..< 55535] = Some (pa', updated, rs'))"
proof -
  have r: "rounds (length [''80-TCP'']) [0 ..< 55535]"
    by (simp del: upt_rec_numeral) (metis append_Nil2 full_round_upt)
  show ?thesis
    using AllocatePorts_terminates [OF r, of NewPortAllocator "''a''"] r
    by (simp add: NewPortAllocator_def del: upt_rec_numeral)
qed

text \<open>C30. After \<^verbatim>\<open>LoadState\<close> an endpoint key holds a port exactly if the statuses recorded that port for it
  and no endpoint key that is smaller in string order recorded the same port: duplicates are cleared
  everywhere but at their least owner, and nothing else is lost.\<close>

theorem LoadState_keeps_least_owner:
  "Lookup (fst (LoadState intValue (Inr lbs) (Inr routes) pa)) ek k = (p, True) \<longleftrightarrow>
     table_lookup (load_table intValue lbs routes) ek k = Some p \<and>
     \<not> (\<exists>ek' k'. ek' < ek \<and> table_lookup (load_table intValue lbs routes) ek' k' = Some p)"
  unfolding Lookup_True LoadState_lookup by (metis leD leI)

text \<open>\<^verbatim>\<open>AllocatePortsForLoadBalancers\<close> on a consistent allocator, for load balancers whose
  namespace-name identifiers differ: every endpoint port of every load balancer has a listener port
  afterwards, one that was allocated before is still the same, and the allocator is consistent.\<close>

theorem AllocatePortsForLoadBalancers_complete:
  assumes "pa_inv pa"
    and "distinct (map (\<lambda>lb. om_Namespace (lb_Meta lb) @ ''-'' @ om_Name (lb_Meta lb)) lbs)"
    and "AllocatePortsForLoadBalancers lbs pa rs = Some (pa', rs')"
    and "lb \<in> set lbs" and "i < length (ls_Endpoints (lb_Spec lb))"
    and "q \<in> set (le_Ports (ls_Endpoints (lb_Spec lb) ! i))"
  shows "pa_inv pa' \<and>
     (let ek = EnvoyEndpointKey (om_Namespace (lb_Meta lb)) (om_Name (lb_Meta lb)) i;
          k = EnvoyListenerKey (ep_Port q) (ep_Protocol q)
      in snd (Lookup pa' ek k) \<and> (snd (Lookup pa ek k) \<longrightarrow> Lookup pa' ek k = Lookup pa ek k))"
proof -
  define ek where "ek = EnvoyEndpointKey (om_Namespace (lb_Meta lb)) (om_Name (lb_Meta lb)) i"
  define k where "k = EnvoyListenerKey (ep_Port q) (ep_Protocol q)"
  define keys where
    "keys = map (\<lambda>p. EnvoyListenerKey (ep_Port p) (ep_Protocol p)) (le_Ports (ls_Endpoints (lb_Spec lb) ! i))"
  let ?reqs = "concat (map lb_requests lbs)"
  have "(i, ls_Endpoints (lb_Spec lb) ! i) \<in> set (enumerate 0 (ls_Endpoints (lb_Spec lb)))"
    using assms(5) by (simp add: in_set_enumerate_eq)
  then have "(ek, keys) \<in> set (lb_requests lb)"
    unfolding lb_requests_def ek_def keys_def set_map by (rule rev_image_eqI) simp
  with assms(4) have mem: "(ek, keys) \<in> set ?reqs" by auto
  have run: "allocate_requests AllocatePorts ?reqs pa rs = Some (pa', rs')"
    using assms(3) by (simp add: AllocatePortsForLoadBalancers_def)
  have k: "k \<in> set keys" using assms(6) by (simp add: k_def keys_def)
  note look = pm.requests_lookup [OF assms(1) run distinct_lb_requests [OF assms(2)] mem]
  have "snd (Lookup pa' ek k)" using look(1) k by simp
  moreover have "Lookup pa' ek k = Lookup pa ek k" if "snd (Lookup pa ek k)"
    using look(2) [OF k, of "fst (Lookup pa ek k)"] that by (metis prod.collapse)
  ultimately show ?thesis
    using pm.requests_invar [OF assms(1) run] by (simp add: ek_def k_def Let_def)
qed

definition sample_lb :: load_balancer where
  "sample_lb =
     \<lparr> lb_Meta = \<lparr> om_Name = ''b'', om_Namespace = ''a'', om_UID = [], om_Labels = [], om_Annotations = None \<rparr>,
       lb_Spec = \<lparr> ls_Endpoints = [\<lparr> le_Name = [], le_Addresses = [\<lparr> ea_IP = ''10.0.0.1'', ea_Hostname = [] \<rparr>],
                                   le_AddressesReference = None,
                                   le_Ports = [\<lparr> ep_Name = [], ep_Port = 80, ep_Protocol = ''TCP'' \<rparr>] \<rparr>],
                   ls_Ports = [\<lparr> lp_Name = [], lp_Protocol = ''TCP'', lp_Port = 8080 \<rparr>],
                   ls_Hostname = [], ls_Type = ''LoadBalancer'', ls_ExternalTrafficPolicy = [],
                   ls_Persistence = None \<rparr>,
       lb_Status = \<lparr> lst_ServicePorts = [], lst_Hostname = None \<rparr> \<rparr>"

lemma sample_lb_requests: "lb_requests sample_lb = [(''a-b-ep-0'', [''80-TCP''])]"
  by code_simp

theorem AllocatePortsForLoadBalancers_complete_witness:
  "AllocatePortsForLoadBalancers [sample_lb] NewPortAllocator [5] = Some (sample_pa, []) \<and>
   snd (Lookup sample_pa (EnvoyEndpointKey ''a'' ''b'' 0) (EnvoyListenerKey 80 ''TCP''))"
proof -
  have run: "AllocatePortsForLoadBalancers [sample_lb] NewPortAllocator [5] = Some (sample_pa, [])"
    by (simp add: AllocatePortsForLoadBalancers_def sample_lb_requests sample_pa_alloc)
  from AllocatePortsForLoadBalancers_complete
    [OF NewPortAllocator_inv _ run, of sample_lb 0 "\<lparr> ep_Name = [], ep_Port = 80, ep_Protocol = ''TCP'' \<rparr>"]
  show ?thesis using run by (simp add: sample_lb_def Let_def)
qed

text \<open>When every port of the range is in use, a request for a new key never returns: the loop in
  \<^verbatim>\<open>allocatePort\<close> has no exit for a full table, whatever the random generator draws.\<close>

theorem AllocatePorts_full_table_diverges:
  assumes "pa_wf pa" and "\<And>p. valid_port p \<Longrightarrow> map_of (portLookupReverse pa) p \<noteq> None"
    and "k \<in> set keys" and "\<not> snd (Lookup pa ek k)"
  shows "AllocatePorts ek keys pa rs = None"
  using assms
  by (intro AllocatePorts_exhausted) (auto simp: pa_wf_def reverse_ok_def snd_Lookup)

definition full_pa :: port_allocator where
  "full_pa = recomputeAvailablePorts
     \<lparr> portLookup = [(''a'', map (\<lambda>i. (nat_str i, int i + startPort)) [0 ..< 55535])],
       portLookupReverse = [] \<rparr>"

theorem AllocatePorts_full_table_diverges_witness:
  "pa_wf full_pa \<and> \<not> snd (Lookup full_pa ''b'' ''80-TCP'') \<and>
   AllocatePorts ''b'' [''80-TCP''] full_pa [0, 1, 2] = None"
proof -
  let ?m = "map (\<lambda>i. (nat_str i, int i + startPort)) [0 ..< 55535]"
  have t: "portLookup full_pa = [(''a'', ?m)]" by (simp add: full_pa_def del: upt_rec_numeral)
  have "wf_gomap ?m"
    by (simp add: wf_gomap_def comp_def distinct_map inj_on_def del: upt_rec_numeral)
  then have wf: "pa_wf full_pa"
    unfolding full_pa_def by (intro recompute_wf) (simp add: wf_table_def wf_gomap_def del: upt_rec_numeral)
  have "map_of (portLookupReverse full_pa) p \<noteq> None" if "valid_port p" for p
  proof -
    have "p = int (nat (p - startPort)) + startPort" and "nat (p - startPort) \<in> set [0 ..< 55535]"
      using that by (auto simp: valid_port_def startPort_def endPort_def)
    then have "(nat_str (nat (p - startPort)), p) \<in> set ?m" by (metis (lifting) image_eqI set_map)
    then have "map_of ?m (nat_str (nat (p - startPort))) = Some p"
      using wf_gomap_map_of_mem [OF \<open>wf_gomap ?m\<close>] by blast
    then have "p \<in> used_ports (portLookup full_pa)"
      unfolding used_ports_def t table_lookup_def by auto
    then show ?thesis using wf unfolding pa_wf_def reverse_ok_def by blast
  qed
  moreover have no: "\<not> snd (Lookup full_pa ''b'' ''80-TCP'')"
    unfolding snd_Lookup t by (simp add: table_lookup_def del: upt_rec_numeral)
  ultimately show ?thesis
    using AllocatePorts_full_table_diverges [OF wf, of "''80-TCP''" "[''80-TCP'']" "''b''"] wf by simp
qed

end
