(* ===== verification/Load_Balancer.thy ===== *)
theory Load_Balancer
  imports Port_Allocator Annotation_Rules
begin

text \<open>
  The layer-4 path of \<^verbatim>\<open>internal/kubelb/loadbalancer.go\<close>: mapping a tenant Service to a LoadBalancer
  resource, deciding whether an existing resource is up to date, hostnames, and the ports of the Service
  that exposes a load balancer; and the pure part of \<^verbatim>\<open>internal/resources/service/service.go\<close>, which
  derives the Services of layer-7 routes. An index panic of the Go code is the value \<^const>\<open>None\<close>.
\<close>

section \<open>Mapping a Service\<close>

definition map_port_name :: "service_port \<Rightarrow> string" where
  "map_port_name port =
     (if sp_Name port \<noteq> [] then to_lower (sp_Name port)
      else itoa (sp_Port port) @ ''-'' @ to_lower (sp_Protocol port))"

definition ServiceAffinityClientIP :: string where "ServiceAffinityClientIP = ''ClientIP''"

text \<open>\<^verbatim>\<open>MapLoadBalancer\<close> returns the LoadBalancer; it also deletes the last-applied annotation from the
  Service it was given, so the updated Service is part of the result.\<close>

definition MapLoadBalancer ::
  "service \<Rightarrow> endpoint_address list \<Rightarrow> bool \<Rightarrow> string \<Rightarrow> service \<times> load_balancer" where
  "MapLoadBalancer userService clusterEndpoints useAddressesReference clusterName =
     (let meta = svc_Meta userService; ports = ss_Ports (svc_Spec userService);
          lbServicePorts = map (\<lambda>port. \<lparr> lp_Name = map_port_name port, lp_Protocol = sp_Protocol port,
                                        lp_Port = sp_Port port \<rparr>) ports;
          lbEndpointPorts = map (\<lambda>port. \<lparr> ep_Name = map_port_name port, ep_Port = sp_NodePort port,
                                         ep_Protocol = sp_Protocol port \<rparr>) ports;
          lbEndpoints = \<lparr> le_Name = [],
                          le_Addresses = (if useAddressesReference then [] else clusterEndpoints),
                          le_AddressesReference =
                            (if useAddressesReference
                             then Some \<lparr> ref_Name = DefaultAddressName, ref_Namespace = [] \<rparr> else None),
                          le_Ports = lbEndpointPorts \<rparr>;
          annotations = map_option (gomap_del LastAppliedConfigAnnotation) (om_Annotations meta);
          persistence = (if ss_SessionAffinity (svc_Spec userService) = ServiceAffinityClientIP
                         then Some PersistenceTypeSourceIP else None)
      in (userService\<lparr> svc_Meta := meta\<lparr> om_Annotations := annotations \<rparr> \<rparr>,
          \<lparr> lb_Meta = \<lparr> om_Name = om_UID meta, om_Namespace = clusterName, om_UID = [],
                        om_Labels = [(LabelOriginNamespace, om_Namespace meta),
                                     (LabelOriginName, om_Name meta), (LabelTenantName, clusterName)],
                        om_Annotations = annotations \<rparr>,
            lb_Spec = \<lparr> ls_Endpoints = [lbEndpoints], ls_Ports = lbServicePorts, ls_Hostname = [],
                        ls_Type = ss_Type (svc_Spec userService),
                        ls_ExternalTrafficPolicy = ss_ExternalTrafficPolicy (svc_Spec userService),
                        ls_Persistence = persistence \<rparr>,
            lb_Status = \<lparr> lst_ServicePorts = [], lst_Hostname = None \<rparr> \<rparr>))"

definition lb_port_same :: "load_balancer_port \<Rightarrow> load_balancer_port \<Rightarrow> bool" where
  "lb_port_same actual desired \<longleftrightarrow>
     lp_Protocol actual = lp_Protocol desired \<and> lp_Port actual = lp_Port desired"

definition endpoint_port_same :: "endpoint_port \<Rightarrow> endpoint_port \<Rightarrow> bool" where
  "endpoint_port_same actual desired \<longleftrightarrow>
     ep_Port actual = ep_Port desired \<and> ep_Protocol actual = ep_Protocol desired"

definition endpoint_address_same :: "endpoint_address \<Rightarrow> endpoint_address \<Rightarrow> bool" where
  "endpoint_address_same actual desired \<longleftrightarrow>
     ea_Hostname actual = ea_Hostname desired \<and> ea_IP actual = ea_IP desired"

definition endpoints_same :: "load_balancer_endpoints \<Rightarrow> load_balancer_endpoints \<Rightarrow> bool" where
  "endpoints_same desired actual \<longleftrightarrow>
     length (le_Addresses desired) = length (le_Addresses actual) \<and>
     length (le_Ports desired) = length (le_Ports actual) \<and>
     list_all (\<lambda>(d, a). endpoint_address_same d a) (zip (le_Addresses desired) (le_Addresses actual)) \<and>
     list_all (\<lambda>(d, a). endpoint_port_same d a) (zip (le_Ports desired) (le_Ports actual))"

definition LoadBalancerIsDesiredState ::
  "(strmap \<Rightarrow> strmap \<Rightarrow> bool) \<Rightarrow> load_balancer \<Rightarrow> load_balancer \<Rightarrow> bool" where
  "LoadBalancerIsDesiredState deepEqual actual desired =
     (let a = lb_Spec actual; d = lb_Spec desired
      in if ls_Type a \<noteq> ls_Type d then False
         else if ls_ExternalTrafficPolicy a \<noteq> ls_ExternalTrafficPolicy d then False
         else if ls_Persistence a \<noteq> ls_Persistence d then False
         else if length (ls_Ports a) \<noteq> length (ls_Ports d) then False
         else if \<not> list_all (\<lambda>(x, y). lb_port_same x y) (zip (ls_Ports a) (ls_Ports d)) then False
         else if length (ls_Endpoints a) \<noteq> length (ls_Endpoints d) then False
         else if \<not> list_all (\<lambda>(x, y). endpoints_same x y) (zip (ls_Endpoints d) (ls_Endpoints a)) then False
         else CompareAnnotations deepEqual (om_Annotations (lb_Meta actual)) (om_Annotations (lb_Meta desired)))"

section \<open>Hostnames\<close>

definition is_alnum_lower :: "char \<Rightarrow> bool" where
  "is_alnum_lower c \<longleftrightarrow> is_lower c \<or> is_digit c"

text \<open>The regular expression \<^verbatim>\<open>^[a-z0-9]([a-z0-9-]{0,61}[a-z0-9])?$\<close>.\<close>

definition label_regex :: "string \<Rightarrow> bool" where
  "label_regex s \<longleftrightarrow>
     s \<noteq> [] \<and> is_alnum_lower (hd s) \<and>
     (length s = 1 \<or>
      (length s \<le> 63 \<and> is_alnum_lower (last s) \<and>
       list_all (\<lambda>c. is_alnum_lower c \<or> c = CHR ''-'') (butlast (tl s))))"

definition isValidHostname :: "string \<Rightarrow> bool" where
  "isValidHostname hostname =
     (if hostname = [] \<or> 253 < length hostname then False
      else if str_contains hostname ''..'' \<or> has_prefix hostname ''.'' \<or> has_suffix hostname ''.'' then False
      else (let labels = split_on CHR ''.'' hostname
            in if length labels < 2 then False
               else list_all (\<lambda>label. \<not> (label = [] \<or> 63 < length label) \<and> label_regex (to_lower label)) labels))"

text \<open>\<^verbatim>\<open>GenerateHostname\<close>: \<open>random\<close> is the result of \<^verbatim>\<open>rand.Read\<close> (\<open>None\<close> an error), \<open>now\<close> the Unix time.\<close>

definition base_domain :: "dns_settings \<Rightarrow> config_dns_settings \<Rightarrow> string option" where
  "base_domain tenant config =
     (case dns_WildcardDomain tenant of
        Some d \<Rightarrow> if d \<noteq> [] then Some d
                  else if cdns_WildcardDomain config \<noteq> [] then Some (cdns_WildcardDomain config) else None
      | None \<Rightarrow> if cdns_WildcardDomain config \<noteq> [] then Some (cdns_WildcardDomain config) else None)"

definition strip_wildcard :: "string \<Rightarrow> string" where
  "strip_wildcard d = trim_prefix (trim_prefix (trim_prefix d ''*.'') ''**.'') ''*''"

definition GenerateHostname ::
  "dns_settings \<Rightarrow> config_dns_settings \<Rightarrow> nat list option \<Rightarrow> int \<Rightarrow> string" where
  "GenerateHostname tenant config random now =
     (case base_domain tenant config of
        None \<Rightarrow> []
      | Some baseDomain \<Rightarrow>
          (case random of
             None \<Rightarrow> ''lb-'' @ itoa now @ ''.'' @ baseDomain
           | Some randomBytes \<Rightarrow>
               (let randomPrefix = to_lower (EncodeToString randomBytes);
                    base = strip_wildcard baseDomain
                in if \<not> isValidHostname base then []
                   else (let hostname = randomPrefix @ ''.'' @ base
                         in if \<not> isValidHostname hostname then ''lb-'' @ itoa now @ ''.'' @ base
                            else hostname))))"

definition ShouldConfigureHostname ::
  "strmap \<Rightarrow> string \<Rightarrow> dns_settings \<Rightarrow> config_dns_settings \<Rightarrow> bool" where
  "ShouldConfigureHostname annotations hostname tenant config =
     (if hostname \<noteq> [] then
        (if dns_AllowExplicitHostnames tenant = Some True then True
         else if cdns_AllowExplicitHostnames config \<and> dns_AllowExplicitHostnames tenant = None then True
         else False)
      else
        (case map_of annotations AnnotationRequestWildcardDomain of
           None \<Rightarrow> False
         | Some val \<Rightarrow>
             if val \<noteq> AnnotationValueTrue then False
             else if (case dns_WildcardDomain tenant of Some d \<Rightarrow> d \<noteq> [] | None \<Rightarrow> False) then True
             else if cdns_WildcardDomain config \<noteq> [] \<and> dns_WildcardDomain tenant = None then True
             else False))"

section \<open>Ports of the exposing Service\<close>

definition existing_port_matches :: "load_balancer_port \<Rightarrow> service_port \<Rightarrow> bool" where
  "existing_port_matches lbPort e \<longleftrightarrow>
     sp_Name e = lp_Name lbPort \<or> (sp_Port e = lp_Port lbPort \<and> sp_Protocol e = lp_Protocol lbPort)"

definition create_service_port ::
  "load_balancer \<Rightarrow> endpoint_port list \<Rightarrow> service_port list \<Rightarrow> (string \<Rightarrow> string \<Rightarrow> int \<times> bool) \<Rightarrow>
   nat \<times> load_balancer_port \<Rightarrow> service_port option" where
  "create_service_port lb eports existing lookup ip =
     (let i = fst ip; lbPort = snd ip
      in if length eports \<le> i then None
         else
           (let byName = find (\<lambda>port. ep_Name port = lp_Name lbPort) eports;
                targetPort = (case byName of None \<Rightarrow> ep_Port (eports ! i) | Some port \<Rightarrow> ep_Port port);
                endpointKey = EnvoyEndpointKey (om_Namespace (lb_Meta lb)) (om_Name (lb_Meta lb)) 0;
                portKey = EnvoyListenerKey targetPort (lp_Protocol lbPort);
                target = (case lookup endpointKey portKey of
                            (value, found) \<Rightarrow> if found then to_int32 value else targetPort);
                nodePort = (case find (existing_port_matches lbPort) existing of
                              None \<Rightarrow> 0 | Some e \<Rightarrow> sp_NodePort e)
            in Some \<lparr> sp_Name = lp_Name lbPort, sp_Protocol = lp_Protocol lbPort, sp_Port = lp_Port lbPort,
                      sp_TargetPort = IntPort target, sp_NodePort = nodePort \<rparr>))"

fun all_some :: "'a option list \<Rightarrow> 'a list option" where
  "all_some [] = Some []"
| "all_some (x # xs) =
     (case x of None \<Rightarrow> None | Some y \<Rightarrow> (case all_some xs of None \<Rightarrow> None | Some ys \<Rightarrow> Some (y # ys)))"

text \<open>\<^verbatim>\<open>CreateServicePorts\<close>; \<open>None\<close> is the index panic when the first endpoint has fewer ports than the
  load balancer. The result is ordered by name.\<close>

definition CreateServicePorts ::
  "load_balancer \<Rightarrow> service_port list \<Rightarrow> (string \<Rightarrow> string \<Rightarrow> int \<times> bool) \<Rightarrow> service_port list option" where
  "CreateServicePorts lb existing lookup =
     (case ls_Endpoints (lb_Spec lb) of
        [] \<Rightarrow> Some []
      | e # es \<Rightarrow>
          map_option (sort_key sp_Name)
            (all_some (map (create_service_port lb (le_Ports e) existing lookup)
                         (enumerate 0 (ls_Ports (lb_Spec lb))))))"

section \<open>Services of layer-7 routes (internal/resources/service/service.go)\<close>

definition NodePortServiceName :: "string \<Rightarrow> string" where
  "NodePortServiceName name = name @ ''-nodeport''"

definition GetServiceName :: "service \<Rightarrow> string" where
  "GetServiceName svc =
     (case map_of (om_Labels (svc_Meta svc)) LabelOriginName of Some n \<Rightarrow> n | None \<Rightarrow> om_Name (svc_Meta svc))"

definition GetServiceNamespace :: "service \<Rightarrow> string" where
  "GetServiceNamespace svc =
     (case map_of (om_Labels (svc_Meta svc)) LabelOriginNamespace of
        Some n \<Rightarrow> n | None \<Rightarrow> om_Namespace (svc_Meta svc))"

definition cleanseService :: "service \<Rightarrow> bool \<Rightarrow> bool \<Rightarrow> service" where
  "cleanseService svc removeUID removeClusterSpecificFields =
     (let meta = svc_Meta svc; spec = svc_Spec svc;
          meta1 = \<lparr> om_Name = om_Name meta, om_Namespace = om_Namespace meta,
                    om_UID = (if removeUID then [] else om_UID meta), om_Labels = om_Labels meta,
                    om_Annotations = map_option (gomap_del LastAppliedConfigAnnotation) (om_Annotations meta) \<rparr>;
          spec1 = (if ss_ClusterIP spec \<noteq> ''None'' then spec\<lparr> ss_ClusterIP := [], ss_ClusterIPs := [] \<rparr> else spec);
          spec2 = (if removeClusterSpecificFields
                   then spec1\<lparr> ss_IPFamilies := [], ss_IPFamilyPolicy := None, ss_SessionAffinity := [],
                               ss_ExternalTrafficPolicy := [], ss_InternalTrafficPolicy := None \<rparr>
                   else spec1)
      in \<lparr> svc_APIVersion = svc_APIVersion svc, svc_Kind = svc_Kind svc, svc_Meta = meta1, svc_Spec = spec2 \<rparr>)"

definition lb_cluster_port ::
  "string \<Rightarrow> (string \<Rightarrow> string \<Rightarrow> int \<times> bool) \<Rightarrow> service_port \<Rightarrow> service_port" where
  "lb_cluster_port endpointKey lookup port =
     (let targetPort = (case lookup endpointKey (EnvoyListenerKey (sp_Port port) (sp_Protocol port)) of
                          (value, found) \<Rightarrow> if found then to_int32 value else sp_NodePort port)
      in port\<lparr> sp_TargetPort := IntPort targetPort, sp_NodePort := 0 \<rparr>)"

definition GenerateServiceForLBCluster ::
  "service \<Rightarrow> string \<Rightarrow> string \<Rightarrow> string \<Rightarrow> (string \<Rightarrow> string \<Rightarrow> int \<times> bool) \<Rightarrow> annotation_settings \<Rightarrow> service"
where
  "GenerateServiceForLBCluster svc appName namespace routeName lookup annotations =
     (let meta = svc_Meta svc; spec = svc_Spec svc;
          endpointKey = EnvoyEndpointRouteKey namespace (om_Namespace meta) (om_Name meta) routeName;
          originalName = GetServiceName svc;
          originalNamespace = GetServiceNamespace svc
      in svc\<lparr> svc_Meta :=
                \<lparr> om_Name = GenerateRouteServiceName routeName originalName (om_Namespace meta),
                  om_Namespace = namespace, om_UID = [],
                  om_Labels = gomap_put LabelOriginNamespace originalNamespace
                                (gomap_put LabelOriginName originalName (om_Labels meta)),
                  om_Annotations = Some (PropagateAnnotations (annots meta) annotations AnnotatedResourceService) \<rparr>,
              svc_Spec :=
                spec\<lparr> ss_Type := (if ss_Type spec = ''NodePort'' then ''ClusterIP'' else ss_Type spec),
                      ss_Ports := map (lb_cluster_port endpointKey lookup) (ss_Ports spec),
                      ss_Selector := [(LabelAppKubernetesName, appName)] \<rparr> \<rparr>)"

section \<open>Facts\<close>

lemma all_some_map:
  "(\<And>x. x \<in> set xs \<Longrightarrow> f x = Some (g x)) \<Longrightarrow> all_some (map f xs) = Some (map g xs)"
  by (induction xs) auto

lemma all_some_None: "all_some xs = None \<longleftrightarrow> None \<in> set xs"
  by (induction xs) (auto split: option.splits)

lemma find_map_conv: "find P (map g xs) = map_option g (find (\<lambda>x. P (g x)) xs)"
  by (induction xs) auto

lemma find_distinct_key:
  "distinct (map f xs) \<Longrightarrow> x \<in> set xs \<Longrightarrow> find (\<lambda>y. f y = f x) xs = Some x"
proof (induction xs)
  case (Cons a xs)
  then show ?case by (cases "a = x") (auto simp: image_iff)
qed simp

definition mapped_port ::
  "service_port list \<Rightarrow> (string \<Rightarrow> string \<Rightarrow> int \<times> bool) \<Rightarrow> string \<Rightarrow> service_port \<Rightarrow> service_port" where
  "mapped_port existing lookup endpointKey port =
     (let lbPort = \<lparr> lp_Name = map_port_name port, lp_Protocol = sp_Protocol port, lp_Port = sp_Port port \<rparr>
      in \<lparr> sp_Name = map_port_name port, sp_Protocol = sp_Protocol port, sp_Port = sp_Port port,
           sp_TargetPort =
             IntPort (case lookup endpointKey (EnvoyListenerKey (sp_NodePort port) (sp_Protocol port)) of
                        (value, found) \<Rightarrow> if found then to_int32 value else sp_NodePort port),
           sp_NodePort = (case find (existing_port_matches lbPort) existing of
                            None \<Rightarrow> 0 | Some e \<Rightarrow> sp_NodePort e) \<rparr>)"

text \<open>For a mapped Service with distinct port names, the exposing Service's ports can be computed port by
  port: no index panic, and the name lookup finds the port's own node port.\<close>

lemma CreateServicePorts_mapped:
  assumes "distinct (map map_port_name (ss_Ports (svc_Spec svc)))"
  shows "CreateServicePorts (snd (MapLoadBalancer svc addrs useRef cluster)) existing lookup =
     Some (sort_key sp_Name
             (map (mapped_port existing lookup (EnvoyEndpointKey cluster (om_UID (svc_Meta svc)) 0))
                (ss_Ports (svc_Spec svc))))"
proof -
  let ?ports = "ss_Ports (svc_Spec svc)"
  let ?lb = "snd (MapLoadBalancer svc addrs useRef cluster)"
  let ?lp = "\<lambda>port. \<lparr> lp_Name = map_port_name port, lp_Protocol = sp_Protocol port, lp_Port = sp_Port port \<rparr>"
  let ?ep = "\<lambda>port. \<lparr> ep_Name = map_port_name port, ep_Port = sp_NodePort port, ep_Protocol = sp_Protocol port \<rparr>"
  let ?m = "mapped_port existing lookup (EnvoyEndpointKey cluster (om_UID (svc_Meta svc)) 0)"
  let ?f = "create_service_port ?lb (map ?ep ?ports) existing lookup"
  have one: "?f (i, ?lp (?ports ! i)) = Some (?m (?ports ! i))" if i: "i < length ?ports" for i
  proof -
    have "find (\<lambda>p. ep_Name p = map_port_name (?ports ! i)) (map ?ep ?ports) = Some (?ep (?ports ! i))"
      unfolding find_map_conv using find_distinct_key [OF assms nth_mem [OF i]] by simp
    with i show ?thesis
      by (simp add: create_service_port_def mapped_port_def MapLoadBalancer_def Let_def split: prod.split)
  qed
  have "map ?f (enumerate 0 (map ?lp ?ports)) = map Some (map ?m ?ports)"
    by (rule nth_equalityI) (auto simp: nth_enumerate_eq one)
  then have "all_some (map ?f (enumerate 0 (map ?lp ?ports))) = Some (map ?m ?ports)"
    using all_some_map [of "map ?m ?ports" Some id] by simp
  moreover have "ls_Ports (lb_Spec ?lb) = map ?lp ?ports"
    by (simp add: MapLoadBalancer_def Let_def)
  moreover obtain e where "ls_Endpoints (lb_Spec ?lb) = [e]" and "le_Ports e = map ?ep ?ports"
    by (simp add: MapLoadBalancer_def Let_def)
  ultimately show ?thesis
    by (simp add: CreateServicePorts_def)
qed

lemma list_all_zip_map:
  assumes "\<And>x y. P x y \<longleftrightarrow> f x = f y"
  shows "length xs = length ys \<and> list_all (\<lambda>(x, y). P x y) (zip xs ys) \<longleftrightarrow> map f xs = map f ys"
proof (induction xs arbitrary: ys)
  case (Cons x xs)
  show ?case using Cons.IH by (cases ys) (auto simp: assms)
qed auto

lemma list_all_zip_map2:
  assumes "\<And>x y. P x y \<longleftrightarrow> f x = f y" and "length xs = length ys"
  shows "list_all (\<lambda>(x, y). P x y) (zip xs ys) \<longleftrightarrow> map f xs = map f ys"
  using list_all_zip_map [of P f, OF assms(1), of xs ys] assms(2) by blast

definition endpoints_view :: "load_balancer_endpoints \<Rightarrow> endpoint_address list \<times> (int \<times> string) list" where
  "endpoints_view e = (le_Addresses e, map (\<lambda>p. (ep_Port p, ep_Protocol p)) (le_Ports e))"

lemma endpoints_same_view: "endpoints_same d a \<longleftrightarrow> endpoints_view d = endpoints_view a"
proof -
  have addr: "endpoint_address_same x y \<longleftrightarrow> x = y" for x y
    by (cases x; cases y) (auto simp: endpoint_address_same_def)
  have "length (le_Addresses d) = length (le_Addresses a) \<and>
      list_all (\<lambda>(d, a). endpoint_address_same d a) (zip (le_Addresses d) (le_Addresses a)) \<longleftrightarrow>
      map id (le_Addresses d) = map id (le_Addresses a)"
    by (rule list_all_zip_map) (simp add: addr)
  moreover have "length (le_Ports d) = length (le_Ports a) \<and>
      list_all (\<lambda>(d, a). endpoint_port_same d a) (zip (le_Ports d) (le_Ports a)) \<longleftrightarrow>
      map (\<lambda>p. (ep_Port p, ep_Protocol p)) (le_Ports d) = map (\<lambda>p. (ep_Port p, ep_Protocol p)) (le_Ports a)"
    by (rule list_all_zip_map) (simp add: endpoint_port_same_def)
  ultimately show ?thesis
    unfolding endpoints_same_def endpoints_view_def prod.inject by auto
qed

definition lb_view ::
  "load_balancer \<Rightarrow> string \<times> string \<times> string option \<times> (string \<times> int) list \<times>
     (endpoint_address list \<times> (int \<times> string) list) list" where
  "lb_view lb = (let s = lb_Spec lb in
     (ls_Type s, ls_ExternalTrafficPolicy s, ls_Persistence s,
      map (\<lambda>p. (lp_Protocol p, lp_Port p)) (ls_Ports s), map endpoints_view (ls_Endpoints s)))"

lemma LoadBalancerIsDesiredState_view:
  "LoadBalancerIsDesiredState deepEqual actual desired \<longleftrightarrow>
     lb_view actual = lb_view desired \<and>
     CompareAnnotations deepEqual (om_Annotations (lb_Meta actual)) (om_Annotations (lb_Meta desired))"
proof -
  let ?a = "lb_Spec actual" let ?d = "lb_Spec desired"
  have p: "length (ls_Ports ?a) = length (ls_Ports ?d) \<and>
      list_all (\<lambda>(x, y). lb_port_same x y) (zip (ls_Ports ?a) (ls_Ports ?d)) \<longleftrightarrow>
      map (\<lambda>p. (lp_Protocol p, lp_Port p)) (ls_Ports ?a) = map (\<lambda>p. (lp_Protocol p, lp_Port p)) (ls_Ports ?d)"
    by (rule list_all_zip_map) (simp add: lb_port_same_def)
  have e: "length (ls_Endpoints ?d) = length (ls_Endpoints ?a) \<and>
      list_all (\<lambda>(x, y). endpoints_same x y) (zip (ls_Endpoints ?d) (ls_Endpoints ?a)) \<longleftrightarrow>
      map endpoints_view (ls_Endpoints ?a) = map endpoints_view (ls_Endpoints ?d)"
    unfolding list_all_zip_map [of endpoints_same endpoints_view, OF endpoints_same_view]
    by (rule eq_commute)
  show ?thesis
    unfolding LoadBalancerIsDesiredState_def lb_view_def Let_def prod.inject p [symmetric] e [symmetric]
    by auto
qed

section \<open>Hostname facts\<close>

lemma split_on_Cons:
  obtains p ps where "split_on c s = p # ps"
  by (cases "split_on c s") auto

lemma contains_dots_empty_label:
  "str_contains s ''..'' \<Longrightarrow> [] \<in> set (tl (split_on CHR ''.'' s))"
proof (induction s)
  case (Cons c s)
  obtain p ps where sp: "split_on CHR ''.'' s = p # ps" by (rule split_on_Cons)
  show ?case
  proof (cases "has_prefix (c # s) ''..''")
    case True
    then obtain r where "c = CHR ''.''" "s = CHR ''.'' # r" by (cases s) (auto simp: has_prefix_def)
    then show ?thesis by simp
  next
    case False
    with Cons sp show ?thesis by (auto split: if_splits)
  qed
qed simp

lemma prefix_dot_empty_label: "has_prefix s ''.'' \<Longrightarrow> [] \<in> set (split_on CHR ''.'' s)"
  by (cases s) (auto simp: has_prefix_def)

lemma last_split_on_sep: "last (split_on c (s @ [c])) = []"
proof (induction s)
  case (Cons x s)
  obtain p ps where sp: "split_on c (s @ [c]) = p # ps" by (rule split_on_Cons)
  have "ps \<noteq> []"
    using sp by (induction s arbitrary: p ps) (auto split: if_splits list.splits)
  with Cons sp show ?case by auto
qed simp

lemma suffix_dot_empty_label: "has_suffix s ''.'' \<Longrightarrow> [] \<in> set (split_on CHR ''.'' s)"
proof -
  assume "has_suffix s ''.''"
  then have "s = take (length s - 1) s @ ''.''"
    by (metis append_take_drop_id has_suffix_def length_Cons list.size(3) One_nat_def)
  then have "last (split_on CHR ''.'' s) = []" by (metis last_split_on_sep)
  then show ?thesis by (metis last_in_set split_on_not_Nil)
qed

definition label_ok :: "string \<Rightarrow> bool" where
  "label_ok label \<longleftrightarrow> label \<noteq> [] \<and> length label \<le> 63 \<and> label_regex (to_lower label)"

text \<open>The dot checks of \<^verbatim>\<open>isValidHostname\<close> are implied by its label checks.\<close>

lemma isValidHostname_iff:
  "isValidHostname h \<longleftrightarrow>
     length h \<le> 253 \<and> 2 \<le> length (split_on CHR ''.'' h) \<and> (\<forall>l \<in> set (split_on CHR ''.'' h). label_ok l)"
proof -
  let ?ok = "\<forall>l \<in> set (split_on CHR ''.'' h). label_ok l"
  have dots: "\<not> str_contains h ''..'' \<and> \<not> has_prefix h ''.'' \<and> \<not> has_suffix h ''.''"
    if "\<forall>l \<in> set (split_on CHR ''.'' h). label_ok l"
  proof -
    have ne: "[] \<notin> set (split_on CHR ''.'' h)" using that by (auto simp: label_ok_def)
    then have "[] \<notin> set (tl (split_on CHR ''.'' h))" by (metis list.set_sel(2) tl_Nil)
    with ne contains_dots_empty_label prefix_dot_empty_label suffix_dot_empty_label show ?thesis by blast
  qed
  have ne: "h \<noteq> []" if "2 \<le> length (split_on CHR ''.'' h)" using that by auto
  have labels: "list_all (\<lambda>label. \<not> (label = [] \<or> 63 < length label) \<and> label_regex (to_lower label))
      (split_on CHR ''.'' h) \<longleftrightarrow> ?ok"
    unfolding list_all_iff label_ok_def by auto
  show ?thesis
  proof (cases ?ok)
    case True
    with dots ne show ?thesis unfolding isValidHostname_def Let_def labels by auto
  next
    case False
    then show ?thesis unfolding isValidHostname_def Let_def labels by auto
  qed
qed

lemma hex_alnum: "is_hex c \<Longrightarrow> is_alnum_lower c"
  by (auto simp: is_hex_def is_alnum_lower_def is_lower_def is_digit_def)

lemma hex_not_dot: "list_all is_hex s \<Longrightarrow> CHR ''.'' \<notin> set s"
  by (auto simp: list_all_iff is_hex_def is_digit_def char_code_def)

lemma hex_to_lower: "list_all is_hex s \<Longrightarrow> to_lower s = s"
  using hex_dns1035_ok by (intro to_lower_ok) (auto simp: list_all_iff)

lemma hex_label_ok:
  assumes "list_all is_hex s" and "s \<noteq> []" and "length s \<le> 63"
  shows "label_ok s"
proof -
  have "is_alnum_lower c" if "c \<in> set s" for c
    using assms(1) that hex_alnum by (auto simp: list_all_iff)
  then have "label_regex s"
    using assms(2,3) unfolding label_regex_def list_all_iff
    by (metis hd_in_set in_set_butlastD last_in_set list.set_sel(2))
  with assms show ?thesis by (simp add: label_ok_def hex_to_lower)
qed

lemma isValidHostname_hex:
  assumes "isValidHostname base" and "length base \<le> 236" and "list_all is_hex s" and "length s = 16"
  shows "isValidHostname (s @ CHR ''.'' # base)"
proof -
  have split: "split_on CHR ''.'' (s @ CHR ''.'' # base) = s # split_on CHR ''.'' base"
    by (rule split_on_append_sep [OF hex_not_dot [OF assms(3)]])
  have "label_ok s" using assms(3,4) by (intro hex_label_ok) auto
  with assms show ?thesis unfolding isValidHostname_iff split by auto
qed

section \<open>Properties\<close>

definition sample_svc :: service where
  "sample_svc =
     \<lparr> svc_APIVersion = ''v1'', svc_Kind = ''Service'',
       svc_Meta = \<lparr> om_Name = ''web'', om_Namespace = ''prod'', om_UID = ''u1'', om_Labels = [], om_Annotations = None \<rparr>,
       svc_Spec = \<lparr> ss_Ports = [\<lparr> sp_Name = [], sp_Protocol = ''TCP'', sp_Port = 80,
                                sp_TargetPort = IntPort 8080, sp_NodePort = 31000 \<rparr>],
                    ss_Type = ''LoadBalancer'', ss_ClusterIP = [], ss_ClusterIPs = [], ss_Selector = [],
                    ss_SessionAffinity = ''ClientIP'', ss_ExternalTrafficPolicy = [],
                    ss_InternalTrafficPolicy = None, ss_IPFamilies = [], ss_IPFamilyPolicy = None \<rparr> \<rparr>"

text \<open>C27. For a Service mapped by \<^verbatim>\<open>MapLoadBalancer\<close> whose port names are distinct, \<^verbatim>\<open>CreateServicePorts\<close>
  with a consistent allocator does not panic, and each port of the Service appears with its own number,
  protocol and, as target, the listener port allocated for its node port (the node port itself where
  nothing is allocated).\<close>

theorem CreateServicePorts_targets_listener:
  assumes "distinct (map map_port_name (ss_Ports (svc_Spec svc)))" and "pa_inv pa"
    and "port \<in> set (ss_Ports (svc_Spec svc))"
  shows "\<exists>ports. CreateServicePorts (snd (MapLoadBalancer svc addrs useRef cluster)) existing (Lookup pa) = Some ports \<and>
     length ports = length (ss_Ports (svc_Spec svc)) \<and> sorted (map sp_Name ports) \<and>
     (\<exists>sp \<in> set ports. sp_Name sp = map_port_name port \<and> sp_Port sp = sp_Port port \<and>
        sp_Protocol sp = sp_Protocol port \<and>
        sp_TargetPort sp = IntPort
          (let r = Lookup pa (EnvoyEndpointKey cluster (om_UID (svc_Meta svc)) 0)
                     (EnvoyListenerKey (sp_NodePort port) (sp_Protocol port))
           in if snd r then fst r else sp_NodePort port))"
proof -
  let ?ek = "EnvoyEndpointKey cluster (om_UID (svc_Meta svc)) 0"
  let ?k = "EnvoyListenerKey (sp_NodePort port) (sp_Protocol port)"
  let ?m = "mapped_port existing (Lookup pa) ?ek"
  have t: "sp_TargetPort (?m port) =
      IntPort (let r = Lookup pa ?ek ?k in if snd r then fst r else sp_NodePort port)"
    using pa.lookup_to_int32 [OF assms(2), of ?ek ?k]
    by (cases "Lookup pa ?ek ?k") (auto simp: mapped_port_def Let_def)
  show ?thesis
  proof (intro exI conjI)
    show "CreateServicePorts (snd (MapLoadBalancer svc addrs useRef cluster)) existing (Lookup pa) =
        Some (sort_key sp_Name (map ?m (ss_Ports (svc_Spec svc))))"
      by (rule CreateServicePorts_mapped [OF assms(1)])
    show "\<exists>sp \<in> set (sort_key sp_Name (map ?m (ss_Ports (svc_Spec svc)))).
        sp_Name sp = map_port_name port \<and> sp_Port sp = sp_Port port \<and> sp_Protocol sp = sp_Protocol port \<and>
        sp_TargetPort sp = IntPort (let r = Lookup pa ?ek ?k in if snd r then fst r else sp_NodePort port)"
      using assms(3) t by (intro bexI [of _ "?m port"]) (auto simp: mapped_port_def Let_def)
  qed simp_all
qed

theorem CreateServicePorts_targets_listener_witness:
  "distinct (map map_port_name (ss_Ports (svc_Spec sample_svc))) \<and>
   (\<exists>ports. CreateServicePorts (snd (MapLoadBalancer sample_svc [] False ''t'')) [] (Lookup NewPortAllocator) = Some ports \<and>
      length ports = 1)"
proof -
  have d: "distinct (map map_port_name (ss_Ports (svc_Spec sample_svc)))"
    and l: "length (ss_Ports (svc_Spec sample_svc)) = 1"
    by (simp_all add: sample_svc_def)
  from CreateServicePorts_targets_listener
    [OF d NewPortAllocator_inv, of "hd (ss_Ports (svc_Spec sample_svc))" "[]" False "''t''" "[]"]
  show ?thesis using d l by (auto simp: sample_svc_def)
qed

text \<open>\<^verbatim>\<open>LoadBalancerIsDesiredState\<close> decides exactly whether two LoadBalancers agree on type, traffic
  policy, persistence, the protocol and number of every port, the addresses and port numbers of every
  endpoint, and (up to the last-applied annotation) the annotations. Port names, address references and
  the hostname are not compared.\<close>

theorem LoadBalancerIsDesiredState_iff:
  "LoadBalancerIsDesiredState deepEqual actual desired \<longleftrightarrow>
     ls_Type (lb_Spec actual) = ls_Type (lb_Spec desired) \<and>
     ls_ExternalTrafficPolicy (lb_Spec actual) = ls_ExternalTrafficPolicy (lb_Spec desired) \<and>
     ls_Persistence (lb_Spec actual) = ls_Persistence (lb_Spec desired) \<and>
     map (\<lambda>p. (lp_Protocol p, lp_Port p)) (ls_Ports (lb_Spec actual)) =
       map (\<lambda>p. (lp_Protocol p, lp_Port p)) (ls_Ports (lb_Spec desired)) \<and>
     map (\<lambda>e. (le_Addresses e, map (\<lambda>p. (ep_Port p, ep_Protocol p)) (le_Ports e))) (ls_Endpoints (lb_Spec actual)) =
       map (\<lambda>e. (le_Addresses e, map (\<lambda>p. (ep_Port p, ep_Protocol p)) (le_Ports e))) (ls_Endpoints (lb_Spec desired)) \<and>
     CompareAnnotations deepEqual (om_Annotations (lb_Meta actual)) (om_Annotations (lb_Meta desired))"
  unfolding LoadBalancerIsDesiredState_view lb_view_def Let_def prod.inject endpoints_view_def by blast



end
