(* ===== verification/Go_Net.thy ===== *)
theory Go_Net
  imports Kubelb_Prelude
begin

text \<open>
  \<^verbatim>\<open>net.ParseIP\<close> of the Go standard library, as a predicate: whether a string is an IPv4 address in dotted
  decimal form (no leading zeros) or an IPv6 address (groups of up to four hex digits, at most one
  ellipsis, an optional trailing IPv4 part, no zone). Envoy endpoint classification rests on it.
\<close>

definition v4_octet :: "string \<Rightarrow> bool" where
  "v4_octet s \<longleftrightarrow>
     s \<noteq> [] \<and> list_all is_digit s \<and> (length s = 1 \<or> hd s \<noteq> CHR ''0'') \<and> digits_val s \<le> 255"

definition parseIPv4 :: "string \<Rightarrow> bool" where
  "parseIPv4 s \<longleftrightarrow> (let fs = split_on CHR ''.'' s in length fs = 4 \<and> list_all v4_octet fs)"

definition is_hex_any :: "char \<Rightarrow> bool" where
  "is_hex_any c \<longleftrightarrow> is_digit c \<or> (97 \<le> char_code c \<and> char_code c \<le> 102) \<or> (65 \<le> char_code c \<and> char_code c \<le> 70)"

text \<open>The loop over groups: \<open>i\<close> is the number of bytes read so far, \<open>ellipsis\<close> whether a double colon was
  seen. A group has one to four hex digits.\<close>

function v6_groups :: "nat \<Rightarrow> bool \<Rightarrow> string \<Rightarrow> bool" where
  "v6_groups i ellipsis s =
     (if 16 \<le> i then s = [] \<and> \<not> ellipsis
      else
        (let group = takeWhile is_hex_any s; rest = dropWhile is_hex_any s
         in if group = [] \<or> 4 < length group then False
            else if rest \<noteq> [] \<and> hd rest = CHR ''.'' then
              (if \<not> ellipsis \<and> i \<noteq> 12 then False
               else if 16 < i + 4 then False
               else parseIPv4 s \<and> (if i + 4 < 16 then ellipsis else \<not> ellipsis))
            else if rest = [] then (if i + 2 < 16 then ellipsis else \<not> ellipsis)
            else if hd rest \<noteq> CHR '':'' \<or> length rest = 1 then False
            else
              (let s1 = tl rest
               in if hd s1 = CHR '':'' then
                    (if ellipsis then False
                     else if tl s1 = [] then i + 2 < 16
                     else v6_groups (i + 2) True (tl s1))
                  else v6_groups (i + 2) ellipsis s1)))"
  by pat_completeness auto
termination
  by (relation "measure (\<lambda>(i, ellipsis, s). 16 - i)") auto

declare v6_groups.simps [simp del]

definition parseIPv6 :: "string \<Rightarrow> bool" where
  "parseIPv6 s =
     (if CHR ''%'' \<in> set s then False
      else if has_prefix s ''::'' then
        (if length s = 2 then True else v6_groups 0 True (drop 2 s))
      else v6_groups 0 False s)"

definition ParseIP :: "string \<Rightarrow> bool" where
  "ParseIP s =
     (case find (\<lambda>c. c = CHR ''.'' \<or> c = CHR '':'' \<or> c = CHR ''%'') s of
        None \<Rightarrow> False
      | Some c \<Rightarrow>
          if c = CHR ''.'' then parseIPv4 s else if c = CHR '':'' then parseIPv6 s else False)"

text \<open>An address literal never consists of letters and digits only.\<close>

lemma ParseIP_needs_separator:
  assumes "ParseIP s"
  shows "CHR ''.'' \<in> set s \<or> CHR '':'' \<in> set s"
  using assms by (auto simp: ParseIP_def find_Some_iff split: option.splits if_splits) (metis nth_mem)+

lemma ParseIP_not_Nil: "ParseIP s \<Longrightarrow> s \<noteq> []"
  using ParseIP_needs_separator by fastforce

end
