(* ===== verification/Envoy_Snapshot.thy ===== *)
theory Envoy_Snapshot
  imports Load_Balancer Go_Net
begin

text \<open>
  The Envoy configuration (\<^verbatim>\<open>internal/envoy/resource.go\<close>): clusters, load assignments and listeners for
  load balancers and routes, the snapshot that the control plane publishes, and the static listeners of
  the proxy bootstrap (\<^verbatim>\<open>internal/envoy/bootstrap.go\<close>). A protobuf message is a record or datatype with
  the fields the code sets; marshalling a filter into \<^verbatim>\<open>anypb.Any\<close> keeps its content, so the model keeps
  the filter itself. Parameters: \<open>get\<close> is the API client's read of an \<^verbatim>\<open>Addresses\<close> object, \<open>marshal\<close> and
  \<open>hash\<close> are \<^verbatim>\<open>envoycache.MarshalResource\<close> and \<^verbatim>\<open>HashResource\<close>.
\<close>

section \<open>Resources\<close>

datatype discovery_type = EDS | STRICT_DNS
datatype lb_policy = ROUND_ROBIN | MAGLEV
datatype socket_protocol = SocketTCP | SocketUDP

record header_limits =
  hl_MaxRequestHeadersKb :: int
  hl_MaxRequestHeadersCount :: int
  hl_MaxResponseHeadersKb :: int

record socket_address =
  sa_Protocol :: socket_protocol
  sa_Address :: string
  sa_PortValue :: int

record load_assignment =
  cla_ClusterName :: string
  cla_LbEndpoints :: "socket_address list"

record health_check =
  hc_Timeout :: int
  hc_Interval :: int
  hc_UnhealthyThreshold :: int
  hc_HealthyThreshold :: int
  hc_NoTrafficInterval :: int

record tcp_keepalive =
  ka_Time :: int
  ka_Interval :: int
  ka_Probes :: int

datatype upstream_http = UpstreamHttp1 int int | UpstreamHttp2 int int

record cluster =
  cl_Name :: string
  cl_ConnectTimeout :: int
  cl_DiscoveryType :: discovery_type
  cl_LbPolicy :: lb_policy
  cl_HealthChecks :: "health_check list"
  cl_HealthyPanicThreshold :: int
  cl_TcpKeepalive :: "tcp_keepalive option"
  cl_LoadAssignment :: "load_assignment option"
  cl_DnsRefreshRate :: "int option"
  cl_RespectDnsTtl :: bool
  cl_EdsServiceName :: "string option"
  cl_EdsSource :: "string option"
  cl_HttpOptions :: "upstream_http option"
  cl_ProxyProtocolV2 :: bool

record http_manager =
  hm_StatPrefix :: string
  hm_RouteConfigName :: string
  hm_Cluster :: string
  hm_RouteTimeout :: int
  hm_MaxRequestHeadersCount :: int
  hm_MaxRequestHeadersKb :: int
  hm_IdleTimeout :: int
  hm_StreamIdleTimeout :: int
  hm_XffNumTrustedHops :: int

datatype listener_filter =
  TcpProxy (proxy_StatPrefix: string) (proxy_Cluster: string) (proxy_HashSourceIP: bool)
| UdpProxy (proxy_StatPrefix: string) (proxy_Cluster: string) (proxy_HashSourceIP: bool)
| HttpManager http_manager

record socket_option =
  so_Level :: int
  so_Name :: int
  so_Value :: int

record listener =
  li_Name :: string
  li_Address :: socket_address
  li_Filter :: listener_filter
  li_SocketOptions :: "socket_option list"
  li_ReusePort :: bool

datatype resource = RCluster cluster | RListener listener | REndpoint load_assignment

record snapshot =
  sn_Version :: string
  sn_Clusters :: "cluster list"
  sn_Listeners :: "listener list"
  sn_Endpoints :: "load_assignment list"

section \<open>Constants\<close>

definition xdsClusterName :: string where "xdsClusterName = ''xds_cluster''"
definition wildcardBindAddress :: string where "wildcardBindAddress = ''0.0.0.0''"
definition ProtocolTCP :: string where "ProtocolTCP = ''TCP''"
definition ProtocolUDP :: string where "ProtocolUDP = ''UDP''"

definition default_header_limits :: header_limits where
  "default_header_limits =
     \<lparr> hl_MaxRequestHeadersKb = 8192, hl_MaxRequestHeadersCount = 4096, hl_MaxResponseHeadersKb = 8192 \<rparr>"

definition upstreamTCPKeepalive :: tcp_keepalive where
  "upstreamTCPKeepalive = \<lparr> ka_Time = 180, ka_Interval = 30, ka_Probes = 3 \<rparr>"

definition downstreamTCPKeepalive :: "socket_option list" where
  "downstreamTCPKeepalive =
     [\<lparr> so_Level = 1, so_Name = 9, so_Value = 1 \<rparr>, \<lparr> so_Level = 6, so_Name = 4, so_Value = 180 \<rparr>,
      \<lparr> so_Level = 6, so_Name = 5, so_Value = 30 \<rparr>, \<lparr> so_Level = 6, so_Name = 6, so_Value = 3 \<rparr>]"

definition default_health_check :: health_check where
  "default_health_check =
     \<lparr> hc_Timeout = 5, hc_Interval = 5, hc_UnhealthyThreshold = 3, hc_HealthyThreshold = 2,
       hc_NoTrafficInterval = 5 \<rparr>"

definition ResolveHeaderLimits :: "config_spec option \<Rightarrow> header_limits" where
  "ResolveHeaderLimits config =
     (case config of
        None \<Rightarrow> default_header_limits
      | Some c \<Rightarrow>
          (case cs_HeaderLimits c of
             None \<Rightarrow> default_header_limits
           | Some h \<Rightarrow>
               (let d = default_header_limits;
                    or_default = (\<lambda>(x :: int option) (y :: int). case x of None \<Rightarrow> y | Some v \<Rightarrow> v)
                in \<lparr> hl_MaxRequestHeadersKb = or_default (hlc_MaxRequestHeadersKb h) (hl_MaxRequestHeadersKb d),
                     hl_MaxRequestHeadersCount =
                       or_default (hlc_MaxRequestHeadersCount h) (hl_MaxRequestHeadersCount d),
                     hl_MaxResponseHeadersKb =
                       or_default (hlc_MaxResponseHeadersKb h) (hl_MaxResponseHeadersKb d) \<rparr>)))"

section \<open>Building resources\<close>

definition resolveEndpointLiteral :: "endpoint_address \<Rightarrow> string \<times> bool" where
  "resolveEndpointLiteral addr =
     (if ea_IP addr \<noteq> [] then (ea_IP addr, ParseIP (ea_IP addr))
      else if ea_Hostname addr \<noteq> [] then (ea_Hostname addr, ParseIP (ea_Hostname addr))
      else ([], False))"

definition pickClusterDiscoveryType :: "endpoint_address list \<Rightarrow> discovery_type" where
  "pickClusterDiscoveryType addrs =
     (if list_ex (\<lambda>a. \<not> snd (resolveEndpointLiteral a)) addrs then STRICT_DNS else EDS)"

definition makeEndpoint :: "endpoint_address \<Rightarrow> int \<Rightarrow> socket_address" where
  "makeEndpoint addr port =
     \<lparr> sa_Protocol = SocketTCP, sa_Address = fst (resolveEndpointLiteral addr), sa_PortValue = port \<rparr>"

definition makeClusterLoadAssignment :: "string \<Rightarrow> socket_address list \<Rightarrow> load_assignment" where
  "makeClusterLoadAssignment clusterName lbEndpoints =
     \<lparr> cla_ClusterName = clusterName, cla_LbEndpoints = lbEndpoints \<rparr>"

definition persistenceType :: "string option \<Rightarrow> string" where
  "persistenceType p = (case p of None \<Rightarrow> [] | Some t \<Rightarrow> t)"

definition IsHTTPRoute :: "string \<Rightarrow> bool" where
  "IsHTTPRoute routeKind \<longleftrightarrow> routeKind \<in> {''HTTPRoute'', ''GRPCRoute'', ''Ingress''}"

definition makeCluster ::
  "string \<Rightarrow> string \<Rightarrow> string \<Rightarrow> bool \<Rightarrow> string option \<Rightarrow> discovery_type \<Rightarrow> load_assignment \<Rightarrow> header_limits \<Rightarrow> cluster"
where
  "makeCluster clusterName protocol routeKind proxyProtocol persistence discoveryType loadAssignment headerLimits =
     (let base =
        \<lparr> cl_Name = clusterName, cl_ConnectTimeout = 5, cl_DiscoveryType = discoveryType,
          cl_LbPolicy = ROUND_ROBIN,
          cl_HealthChecks = (if protocol = ProtocolUDP then [] else [default_health_check]),
          cl_HealthyPanicThreshold = 0,
          cl_TcpKeepalive = (if protocol \<noteq> ProtocolUDP then Some upstreamTCPKeepalive else None),
          cl_LoadAssignment = None, cl_DnsRefreshRate = None, cl_RespectDnsTtl = False,
          cl_EdsServiceName = None, cl_EdsSource = None, cl_HttpOptions = None, cl_ProxyProtocolV2 = False \<rparr>;
          c1 = (case discoveryType of
                  STRICT_DNS \<Rightarrow> base\<lparr> cl_LoadAssignment := Some loadAssignment, cl_DnsRefreshRate := Some 30,
                                     cl_RespectDnsTtl := True \<rparr>
                | EDS \<Rightarrow> base\<lparr> cl_EdsServiceName := Some clusterName, cl_EdsSource := Some xdsClusterName \<rparr>);
          c2 = (if persistenceType persistence = PersistenceTypeSourceIP \<and>
                   (protocol = ProtocolTCP \<or> protocol = ProtocolUDP)
                then c1\<lparr> cl_LbPolicy := MAGLEV \<rparr> else c1);
          count = hl_MaxRequestHeadersCount headerLimits; kb = hl_MaxResponseHeadersKb headerLimits;
          c3 = (if routeKind = ''GRPCRoute'' then c2\<lparr> cl_HttpOptions := Some (UpstreamHttp2 count kb) \<rparr>
                else if IsHTTPRoute routeKind then c2\<lparr> cl_HttpOptions := Some (UpstreamHttp1 count kb) \<rparr>
                else c2)
      in if proxyProtocol then c3\<lparr> cl_ProxyProtocolV2 := True \<rparr> else c3)"

definition listen_on :: "socket_protocol \<Rightarrow> int \<Rightarrow> socket_address" where
  "listen_on protocol port =
     \<lparr> sa_Protocol = protocol, sa_Address = wildcardBindAddress, sa_PortValue = port \<rparr>"

definition makeTCPListener :: "string \<Rightarrow> string \<Rightarrow> int \<Rightarrow> string option \<Rightarrow> listener" where
  "makeTCPListener clusterName listenerName listenerPort persistence =
     \<lparr> li_Name = listenerName, li_Address = listen_on SocketTCP listenerPort,
       li_Filter = TcpProxy listenerName clusterName (persistenceType persistence = PersistenceTypeSourceIP),
       li_SocketOptions = downstreamTCPKeepalive, li_ReusePort = False \<rparr>"

definition makeUDPListener :: "string \<Rightarrow> string \<Rightarrow> int \<Rightarrow> string option \<Rightarrow> listener" where
  "makeUDPListener clusterName listenerName listenerPort persistence =
     \<lparr> li_Name = listenerName, li_Address = listen_on SocketUDP listenerPort,
       li_Filter = UdpProxy listenerName clusterName (persistenceType persistence = PersistenceTypeSourceIP),
       li_SocketOptions = [], li_ReusePort = True \<rparr>"

definition makeHTTPListener :: "string \<Rightarrow> string \<Rightarrow> int \<Rightarrow> header_limits \<Rightarrow> listener" where
  "makeHTTPListener listenerName clusterName listenerPort headerLimits =
     \<lparr> li_Name = listenerName, li_Address = listen_on SocketTCP listenerPort,
       li_Filter = HttpManager
         \<lparr> hm_StatPrefix = listenerName, hm_RouteConfigName = listenerName @ ''_route'',
           hm_Cluster = clusterName, hm_RouteTimeout = 0,
           hm_MaxRequestHeadersCount = hl_MaxRequestHeadersCount headerLimits,
           hm_MaxRequestHeadersKb = hl_MaxRequestHeadersKb headerLimits,
           hm_IdleTimeout = 3600, hm_StreamIdleTimeout = 3600, hm_XffNumTrustedHops = 1 \<rparr>,
       li_SocketOptions = downstreamTCPKeepalive, li_ReusePort = False \<rparr>"

definition makeRouteListener :: "string \<Rightarrow> int \<Rightarrow> string \<Rightarrow> bool \<Rightarrow> header_limits \<Rightarrow> listener option" where
  "makeRouteListener key listenerPort protocol useHTTPListener headerLimits =
     (if protocol = ProtocolTCP then
        (if useHTTPListener then Some (makeHTTPListener key key listenerPort headerLimits)
         else Some (makeTCPListener key key listenerPort None))
      else if protocol = ProtocolUDP then Some (makeUDPListener key key listenerPort None)
      else None)"

section \<open>Route attributes\<close>

definition getOriginalRouteName :: "route \<Rightarrow> string" where
  "getOriginalRouteName route =
     (case rs_Kubernetes (r_Spec route) of
        Some src \<Rightarrow>
          if us_Name (ks_Route src) \<noteq> [] then us_Name (ks_Route src)
          else if str_at (om_Labels (r_Meta route)) LabelOriginName \<noteq> []
          then str_at (om_Labels (r_Meta route)) LabelOriginName else om_Name (r_Meta route)
      | None \<Rightarrow>
          if str_at (om_Labels (r_Meta route)) LabelOriginName \<noteq> []
          then str_at (om_Labels (r_Meta route)) LabelOriginName else om_Name (r_Meta route))"

definition getOriginalRouteNamespace :: "route \<Rightarrow> string" where
  "getOriginalRouteNamespace route =
     (case rs_Kubernetes (r_Spec route) of
        Some src \<Rightarrow>
          if us_Namespace (ks_Route src) \<noteq> [] then us_Namespace (ks_Route src)
          else str_at (om_Labels (r_Meta route)) LabelOriginNamespace
      | None \<Rightarrow> str_at (om_Labels (r_Meta route)) LabelOriginNamespace)"

definition getRouteKind :: "route \<Rightarrow> string" where
  "getRouteKind route =
     (case rs_Kubernetes (r_Spec route) of
        Some src \<Rightarrow>
          if us_Kind (ks_Route src) \<noteq> [] then us_Kind (ks_Route src)
          else str_at (om_Labels (r_Meta route)) LabelOriginResourceKind
      | None \<Rightarrow> str_at (om_Labels (r_Meta route)) LabelOriginResourceKind)"

definition isTLSBackend :: "route \<Rightarrow> bool" where
  "isTLSBackend route =
     (case rs_Kubernetes (r_Spec route) of
        None \<Rightarrow> False
      | Some src \<Rightarrow>
          if getRouteKind route \<noteq> ''Ingress'' then False
          else
            (let annotations = us_Annotations (ks_Route src);
                 proto = to_upper (str_at annotations ''nginx.ingress.kubernetes.io/backend-protocol'')
             in proto = ''HTTPS'' \<or> proto = ''GRPCS'' \<or>
                to_lower (str_at annotations ''nginx.ingress.kubernetes.io/ssl-passthrough'') = ''true''))"

section \<open>The snapshot\<close>

datatype snapshot_error =
  AddressesError string   \<comment> \<open>reading a referenced Addresses object failed\<close>
| NilAllocator            \<comment> \<open>nil dereference: a route port without a port allocator\<close>
| MarshalError string

type_synonym address_cache = "(string, endpoint_address list) gomap"
type_synonym get_addresses = "string \<Rightarrow> string \<Rightarrow> string + endpoint_address list"
type_synonym port_lookup = "(string \<Rightarrow> string \<Rightarrow> int \<times> bool) option"

record build =
  b_cache :: address_cache
  b_listeners :: "listener list"
  b_clusters :: "cluster list"
  b_endpoints :: "load_assignment list"

definition address_key :: "string \<Rightarrow> string \<Rightarrow> string" where
  "address_key namespace name = namespace @ ''-address-'' @ name"

definition resolve_reference ::
  "get_addresses \<Rightarrow> string \<Rightarrow> string \<Rightarrow> address_cache \<Rightarrow> snapshot_error + (endpoint_address list \<times> address_cache)"
where
  "resolve_reference get namespace name cache =
     (case map_of cache (address_key namespace name) of
        Some val \<Rightarrow> Inr (val, cache)
      | None \<Rightarrow>
          (case get namespace name of
             Inl err \<Rightarrow> Inl (AddressesError err)
           | Inr addrs \<Rightarrow> Inr (addrs, gomap_put (address_key namespace name) addrs cache)))"

text \<open>One port of a load balancer: a listener for TCP and UDP, a cluster, and a load assignment if the
  cluster uses EDS.\<close>

definition add_cluster :: "cluster \<Rightarrow> load_assignment \<Rightarrow> build \<Rightarrow> build" where
  "add_cluster c cla b =
     b\<lparr> b_clusters := b_clusters b @ [c],
        b_endpoints := (if cl_DiscoveryType c = EDS then b_endpoints b @ [cla] else b_endpoints b) \<rparr>"

definition add_listener :: "listener option \<Rightarrow> build \<Rightarrow> build" where
  "add_listener l b =
     (case l of None \<Rightarrow> b | Some l \<Rightarrow> b\<lparr> b_listeners := b_listeners b @ [l] \<rparr>)"

definition lb_listener_port :: "port_lookup \<Rightarrow> load_balancer \<Rightarrow> nat \<Rightarrow> endpoint_port \<Rightarrow> int" where
  "lb_listener_port lookup lb i q =
     (case lookup of
        None \<Rightarrow> to_uint32 (ep_Port q)
      | Some look \<Rightarrow>
          (case look (EnvoyEndpointKey (om_Namespace (lb_Meta lb)) (om_Name (lb_Meta lb)) i)
                     (EnvoyListenerKey (ep_Port q) (ep_Protocol q)) of
             (value, found) \<Rightarrow> if found then to_uint32 value else to_uint32 (ep_Port q)))"

definition lb_resource_key :: "load_balancer \<Rightarrow> nat \<Rightarrow> endpoint_port \<Rightarrow> string" where
  "lb_resource_key lb i q =
     EnvoyResourceIdentifier (om_Namespace (lb_Meta lb)) (om_Name (lb_Meta lb)) i (ep_Port q) (ep_Protocol q)"

definition lb_listener :: "port_lookup \<Rightarrow> load_balancer \<Rightarrow> nat \<Rightarrow> endpoint_port \<Rightarrow> listener option" where
  "lb_listener lookup lb i q =
     (let key = lb_resource_key lb i q; port = lb_listener_port lookup lb i q
      in if ep_Protocol q = ProtocolTCP then Some (makeTCPListener key key port (ls_Persistence (lb_Spec lb)))
         else if ep_Protocol q = ProtocolUDP then Some (makeUDPListener key key port (ls_Persistence (lb_Spec lb)))
         else None)"

definition lb_assignment :: "load_balancer \<Rightarrow> nat \<Rightarrow> endpoint_address list \<Rightarrow> endpoint_port \<Rightarrow> load_assignment" where
  "lb_assignment lb i addresses q =
     makeClusterLoadAssignment (lb_resource_key lb i q)
       (map (\<lambda>a. makeEndpoint a (to_uint32 (ep_Port q))) addresses)"

definition lb_cluster ::
  "header_limits \<Rightarrow> load_balancer \<Rightarrow> nat \<Rightarrow> endpoint_address list \<Rightarrow> endpoint_port \<Rightarrow> cluster" where
  "lb_cluster limits lb i addresses q =
     makeCluster (lb_resource_key lb i q) (ep_Protocol q) []
       (ep_Protocol q = ProtocolTCP \<and> str_at (annots (lb_Meta lb)) AnnotationProxyProtocol = ''v2'')
       (ls_Persistence (lb_Spec lb)) (pickClusterDiscoveryType addresses) (lb_assignment lb i addresses q) limits"

definition snapshot_lb_port ::
  "port_lookup \<Rightarrow> header_limits \<Rightarrow> load_balancer \<Rightarrow> nat \<Rightarrow> endpoint_address list \<Rightarrow> endpoint_port \<Rightarrow> build \<Rightarrow> build"
where
  "snapshot_lb_port lookup limits lb i addresses q b =
     add_cluster (lb_cluster limits lb i addresses q) (lb_assignment lb i addresses q)
       (add_listener (lb_listener lookup lb i q) b)"

definition resolve_endpoint ::
  "get_addresses \<Rightarrow> string \<Rightarrow> load_balancer_endpoints \<Rightarrow> address_cache \<Rightarrow>
   snapshot_error + (endpoint_address list \<times> address_cache)" where
  "resolve_endpoint get namespace e cache =
     (case le_AddressesReference e of
        None \<Rightarrow> Inr (le_Addresses e, cache)
      | Some ref \<Rightarrow> resolve_reference get namespace (ref_Name ref) cache)"

definition snapshot_lb_endpoint ::
  "get_addresses \<Rightarrow> port_lookup \<Rightarrow> header_limits \<Rightarrow> load_balancer \<Rightarrow> nat \<times> load_balancer_endpoints \<Rightarrow>
   build \<Rightarrow> snapshot_error + build" where
  "snapshot_lb_endpoint get lookup limits lb ie b =
     (case resolve_endpoint get (om_Namespace (lb_Meta lb)) (snd ie) (b_cache b) of
        Inl err \<Rightarrow> Inl err
      | Inr (addresses, cache) \<Rightarrow>
          Inr (fold (snapshot_lb_port lookup limits lb (fst ie) addresses) (le_Ports (snd ie))
                 (b\<lparr> b_cache := cache \<rparr>)))"

definition snapshot_lb ::
  "get_addresses \<Rightarrow> port_lookup \<Rightarrow> header_limits \<Rightarrow> load_balancer \<Rightarrow> build \<Rightarrow> snapshot_error + build" where
  "snapshot_lb get lookup limits lb b =
     fold_err (snapshot_lb_endpoint get lookup limits lb) (enumerate 0 (ls_Endpoints (lb_Spec lb))) b"

text \<open>\<^verbatim>\<open>resolveRouteAddresses\<close> fills in the addresses of referenced endpoints and returns the endpoints of the
  route with the cache.\<close>

fun resolveRouteAddresses ::
  "get_addresses \<Rightarrow> string \<Rightarrow> load_balancer_endpoints list \<Rightarrow> address_cache \<Rightarrow>
   snapshot_error + (load_balancer_endpoints list \<times> address_cache)" where
  "resolveRouteAddresses get namespace [] cache = Inr ([], cache)"
| "resolveRouteAddresses get namespace (e # es) cache =
     (case resolve_endpoint get namespace e cache of
        Inl err \<Rightarrow> Inl err
      | Inr (addresses, cache1) \<Rightarrow>
          (case resolveRouteAddresses get namespace es cache1 of
             Inl err \<Rightarrow> Inl err
           | Inr (es', cache2) \<Rightarrow> Inr (e\<lparr> le_Addresses := addresses \<rparr> # es', cache2)))"

definition use_http_listener :: "route \<Rightarrow> bool" where
  "use_http_listener route \<longleftrightarrow> IsHTTPRoute (getRouteKind route) \<and> \<not> isTLSBackend route"

definition route_resource_key :: "route \<Rightarrow> service \<Rightarrow> service_port \<Rightarrow> string" where
  "route_resource_key route svc port =
     EnvoyRoutePortIdentifier (om_Namespace (r_Meta route)) (om_Namespace (svc_Meta svc)) (om_Name (svc_Meta svc))
       (getOriginalRouteNamespace route) (getOriginalRouteName route) (sp_Port port) (sp_Protocol port)"

definition route_svc_key :: "route \<Rightarrow> service \<Rightarrow> string" where
  "route_svc_key route svc =
     EnvoyEndpointRouteKey (om_Namespace (r_Meta route)) (om_Namespace (svc_Meta svc)) (om_Name (svc_Meta svc))
       (getOriginalRouteName route)"

definition route_listener_port ::
  "(string \<Rightarrow> string \<Rightarrow> int \<times> bool) \<Rightarrow> route \<Rightarrow> service \<Rightarrow> service_port \<Rightarrow> int" where
  "route_listener_port look route svc port =
     (case look (route_svc_key route svc) (EnvoyListenerKey (sp_Port port) (sp_Protocol port)) of
        (value, found) \<Rightarrow> if found then to_uint32 value else to_uint32 (sp_Port port))"

definition route_listener ::
  "(string \<Rightarrow> string \<Rightarrow> int \<times> bool) \<Rightarrow> header_limits \<Rightarrow> route \<Rightarrow> service \<Rightarrow> service_port \<Rightarrow> listener option" where
  "route_listener look limits route svc port =
     makeRouteListener (route_resource_key route svc port) (route_listener_port look route svc port)
       (sp_Protocol port) (use_http_listener route) limits"

definition route_assignment :: "route \<Rightarrow> endpoint_address list \<Rightarrow> service \<Rightarrow> service_port \<Rightarrow> load_assignment" where
  "route_assignment route addresses svc port =
     makeClusterLoadAssignment (route_resource_key route svc port)
       (map (\<lambda>a. makeEndpoint a (to_uint32 (sp_NodePort port))) addresses)"

definition route_cluster ::
  "header_limits \<Rightarrow> route \<Rightarrow> endpoint_address list \<Rightarrow> service \<Rightarrow> service_port \<Rightarrow> cluster" where
  "route_cluster limits route addresses svc port =
     makeCluster (route_resource_key route svc port) (sp_Protocol port)
       (if use_http_listener route then getRouteKind route else []) False None
       (pickClusterDiscoveryType addresses) (route_assignment route addresses svc port) limits"

definition snapshot_route_port ::
  "port_lookup \<Rightarrow> header_limits \<Rightarrow> route \<Rightarrow> endpoint_address list \<Rightarrow> service \<Rightarrow> service_port \<Rightarrow>
   build \<Rightarrow> snapshot_error + build" where
  "snapshot_route_port lookup limits route addresses svc port b =
     (case lookup of
        None \<Rightarrow> Inl NilAllocator
      | Some look \<Rightarrow>
          Inr (add_cluster (route_cluster limits route addresses svc port) (route_assignment route addresses svc port)
                 (add_listener (route_listener look limits route svc port) b)))"

definition snapshot_route ::
  "get_addresses \<Rightarrow> port_lookup \<Rightarrow> header_limits \<Rightarrow> route \<Rightarrow> build \<Rightarrow> snapshot_error + build" where
  "snapshot_route get lookup limits route b =
     (case rs_Kubernetes (r_Spec route) of
        None \<Rightarrow> Inr b
      | Some source \<Rightarrow>
          (case resolveRouteAddresses get (om_Namespace (r_Meta route)) (rs_Endpoints (r_Spec route)) (b_cache b) of
             Inl err \<Rightarrow> Inl err
           | Inr (endpoints, cache) \<Rightarrow>
               (let addresses = concat (map le_Addresses endpoints)
                in fold_err
                     (\<lambda>svc. fold_err (snapshot_route_port lookup limits route addresses svc) (ss_Ports (svc_Spec svc)))
                     (ks_Services source) (b\<lparr> b_cache := cache \<rparr>))))"

definition protocol_name :: "socket_protocol \<Rightarrow> string" where
  "protocol_name p = (case p of SocketTCP \<Rightarrow> ''TCP'' | SocketUDP \<Rightarrow> ''UDP'')"

definition listener_address_key :: "listener \<Rightarrow> string" where
  "listener_address_key l =
     (let sa = li_Address l
      in sa_Address sa @ '':'' @ itoa (sa_PortValue sa) @ ''/'' @ protocol_name (sa_Protocol sa))"

text \<open>\<^verbatim>\<open>dedupListenersByAddress\<close>: the first listener of an address is kept.\<close>

fun dedup_loop :: "listener list \<Rightarrow> strmap \<Rightarrow> listener list" where
  "dedup_loop [] seen = []"
| "dedup_loop (l # ls) seen =
     (if map_of seen (listener_address_key l) \<noteq> None then dedup_loop ls seen
      else l # dedup_loop ls (gomap_put (listener_address_key l) (li_Name l) seen))"

definition dedupListenersByAddress :: "listener list \<Rightarrow> listener list" where
  "dedupListenersByAddress listeners =
     (if length listeners < 2 then listeners else dedup_loop listeners [])"

fun marshal_all :: "(resource \<Rightarrow> string + string) \<Rightarrow> resource list \<Rightarrow> string \<Rightarrow> snapshot_error + string" where
  "marshal_all marshal [] content = Inr content"
| "marshal_all marshal (r # rs) content =
     (case marshal r of Inl err \<Rightarrow> Inl (MarshalError err) | Inr mr \<Rightarrow> marshal_all marshal rs (content @ mr))"

definition empty_build :: build where
  "empty_build = \<lparr> b_cache = [], b_listeners = [], b_clusters = [], b_endpoints = [] \<rparr>"

definition build_resources ::
  "get_addresses \<Rightarrow> port_lookup \<Rightarrow> header_limits \<Rightarrow> load_balancer list \<Rightarrow> route list \<Rightarrow> snapshot_error + build" where
  "build_resources get lookup limits lbs routes =
     (case fold_err (snapshot_lb get lookup limits) lbs empty_build of
        Inl err \<Rightarrow> Inl err
      | Inr b \<Rightarrow> fold_err (snapshot_route get lookup limits) routes b)"

text \<open>\<^verbatim>\<open>sort.Slice\<close> orders by resource name; \<^verbatim>\<open>envoycache.NewSnapshot\<close> receives the version and the three
  resource lists, which is what the result record holds.\<close>

definition MapSnapshot ::
  "get_addresses \<Rightarrow> (resource \<Rightarrow> string + string) \<Rightarrow> (string \<Rightarrow> string) \<Rightarrow> port_lookup \<Rightarrow> header_limits \<Rightarrow>
   load_balancer list \<Rightarrow> route list \<Rightarrow> snapshot_error + snapshot" where
  "MapSnapshot get marshal hash lookup limits lbs routes =
     (case build_resources get lookup limits lbs routes of
        Inl err \<Rightarrow> Inl err
      | Inr b \<Rightarrow>
          (let clusters = sort_key cl_Name (b_clusters b);
               listeners = dedupListenersByAddress (sort_key li_Name (b_listeners b));
               endpoints = sort_key cla_ClusterName (b_endpoints b)
           in case marshal_all marshal (map RCluster clusters @ map RListener listeners @ map REndpoint endpoints) [] of
                Inl err \<Rightarrow> Inl err
              | Inr content \<Rightarrow>
                  Inr \<lparr> sn_Version = hash content, sn_Clusters = clusters, sn_Listeners = listeners,
                        sn_Endpoints = endpoints \<rparr>))"

section \<open>Static listeners of the bootstrap (internal/envoy/bootstrap.go)\<close>

definition EnvoyStatsPort :: int where "EnvoyStatsPort = 19001"
definition ShutdownManagerPort :: int where "ShutdownManagerPort = 19002"
definition EnvoyReadinessPort :: int where "EnvoyReadinessPort = 19003"
definition EnvoyHealthCheckPort :: int where "EnvoyHealthCheckPort = 19004"

definition bootstrap_listeners :: "(string \<times> socket_address) list" where
  "bootstrap_listeners =
     [(''probe_listener'', listen_on SocketTCP EnvoyReadinessPort),
      (''health_check_listener'', listen_on SocketTCP EnvoyHealthCheckPort),
      (''stats_listener'', listen_on SocketTCP EnvoyStatsPort)]"

section \<open>Deduplication\<close>

lemma dedup_loop_spec:
  "distinct (map listener_address_key (dedup_loop ls seen)) \<and>
   set (dedup_loop ls seen) \<subseteq> set ls \<and>
   listener_address_key ` set (dedup_loop ls seen) =
     {k \<in> listener_address_key ` set ls. map_of seen k = None}"
proof (induction ls arbitrary: seen)
  case (Cons l ls)
  let ?k = "listener_address_key l"
  show ?case
  proof (cases "map_of seen ?k = None")
    case True
    let ?seen = "gomap_put ?k (li_Name l) seen"
    have none: "map_of ?seen k = None \<longleftrightarrow> k \<noteq> ?k \<and> map_of seen k = None" for k
      by (simp add: map_of_put)
    note IH = Cons.IH [of ?seen, unfolded none]
    have d: "distinct (map listener_address_key (dedup_loop ls ?seen))"
      using IH by (rule conjunct1)
    have s: "set (dedup_loop ls ?seen) \<subseteq> set ls"
      using IH by (rule conjunct1 [OF conjunct2])
    have k: "listener_address_key ` set (dedup_loop ls ?seen) =
            {k \<in> listener_address_key ` set ls. k \<noteq> ?k \<and> map_of seen k = None}"
      using IH by (rule conjunct2 [OF conjunct2])
    have nk: "?k \<notin> set (map listener_address_key (dedup_loop ls ?seen))"
      unfolding set_map k by blast
    have eq: "dedup_loop (l # ls) seen = l # dedup_loop ls ?seen" using True by simp
    show ?thesis
    proof (intro conjI)
      show "distinct (map listener_address_key (dedup_loop (l # ls) seen))"
        unfolding eq list.map distinct.simps using d nk by blast
      show "set (dedup_loop (l # ls) seen) \<subseteq> set (l # ls)" unfolding eq using s by auto
      show "listener_address_key ` set (dedup_loop (l # ls) seen) =
          {k \<in> listener_address_key ` set (l # ls). map_of seen k = None}"
        unfolding eq list.set image_insert k using True by auto
    qed
  next
    case False
    then have eq: "dedup_loop (l # ls) seen = dedup_loop ls seen" by simp
    have "{k \<in> listener_address_key ` set (l # ls). map_of seen k = None} =
        {k \<in> listener_address_key ` set ls. map_of seen k = None}" using False by auto
    with Cons.IH [of seen] show ?thesis unfolding eq by auto
  qed
qed simp

lemma dedup_loop_id:
  assumes "distinct (map listener_address_key ls)"
    and "\<And>l. l \<in> set ls \<Longrightarrow> map_of seen (listener_address_key l) = None"
  shows "dedup_loop ls seen = ls"
  using assms
proof (induction ls arbitrary: seen)
  case (Cons l ls)
  have "map_of (gomap_put (listener_address_key l) (li_Name l) seen) (listener_address_key x) = None"
    if "x \<in> set ls" for x
    using Cons.prems that by (auto simp: map_of_put image_iff)
  with Cons.IH [of "gomap_put (listener_address_key l) (li_Name l) seen"] Cons.prems show ?case by simp
qed simp

lemma dedup_distinct: "distinct (map listener_address_key (dedupListenersByAddress ls))"
proof (cases "length ls < 2")
  case True
  then have "ls = [] \<or> (\<exists>l. ls = [l])" by (cases ls) (auto simp: less_Suc_eq)
  then show ?thesis by (auto simp: dedupListenersByAddress_def)
next
  case False
  then show ?thesis using dedup_loop_spec [of ls "[]"] by (simp add: dedupListenersByAddress_def)
qed

lemma dedup_subset: "set (dedupListenersByAddress ls) \<subseteq> set ls"
  using dedup_loop_spec [of ls "[]"] by (simp add: dedupListenersByAddress_def)

lemma dedup_covers:
  "listener_address_key ` set (dedupListenersByAddress ls) = listener_address_key ` set ls"
  using dedup_loop_spec [of ls "[]"] by (simp add: dedupListenersByAddress_def)

lemma dedup_id: "distinct (map listener_address_key ls) \<Longrightarrow> dedupListenersByAddress ls = ls"
  by (simp add: dedupListenersByAddress_def dedup_loop_id)

section \<open>Consistency of the snapshot\<close>

definition listener_cluster :: "listener \<Rightarrow> string" where
  "listener_cluster l =
     (case li_Filter l of TcpProxy _ c _ \<Rightarrow> c | UdpProxy _ c _ \<Rightarrow> c | HttpManager m \<Rightarrow> hm_Cluster m)"

lemma makeCluster_simps [simp]:
  "cl_Name (makeCluster n p k pp per d la h) = n"
  "cl_DiscoveryType (makeCluster n p k pp per d la h) = d"
  "cl_LoadAssignment (makeCluster n p k pp per d la h) = (if d = STRICT_DNS then Some la else None)"
  by (cases d; simp add: makeCluster_def Let_def)+

lemma listener_simps [simp]:
  "listener_cluster (makeTCPListener c n p per) = c" "li_Name (makeTCPListener c n p per) = n"
  "li_Address (makeTCPListener c n p per) = listen_on SocketTCP p"
  "listener_cluster (makeUDPListener c n p per) = c" "li_Name (makeUDPListener c n p per) = n"
  "li_Address (makeUDPListener c n p per) = listen_on SocketUDP p"
  "listener_cluster (makeHTTPListener n c p h) = c" "li_Name (makeHTTPListener n c p h) = n"
  "li_Address (makeHTTPListener n c p h) = listen_on SocketTCP p"
  by (simp_all add: makeTCPListener_def makeUDPListener_def makeHTTPListener_def listener_cluster_def)

lemma EDS_all_ip:
  "pickClusterDiscoveryType addrs = EDS \<longleftrightarrow> (\<forall>a \<in> set addrs. ParseIP (fst (resolveEndpointLiteral a)))"
proof -
  have "snd (resolveEndpointLiteral a) \<longleftrightarrow> ParseIP (fst (resolveEndpointLiteral a))" for a
    using ParseIP_not_Nil [of "[]"] by (auto simp: resolveEndpointLiteral_def)
  then show ?thesis by (simp add: pickClusterDiscoveryType_def list_ex_iff)
qed

text \<open>What Envoy needs of a configuration: listeners point to clusters that exist, EDS clusters and load
  assignments correspond by name, assignments list IP literals only, and a DNS cluster carries its own
  endpoints.\<close>

definition config_ok :: "listener list \<Rightarrow> cluster list \<Rightarrow> load_assignment list \<Rightarrow> bool" where
  "config_ok ls cs es \<longleftrightarrow>
     (\<forall>l \<in> set ls. listener_cluster l \<in> cl_Name ` set cs) \<and>
     cla_ClusterName ` set es = {cl_Name c | c. c \<in> set cs \<and> cl_DiscoveryType c = EDS} \<and>
     (\<forall>e \<in> set es. \<forall>a \<in> set (cla_LbEndpoints e). ParseIP (sa_Address a)) \<and>
     (\<forall>c \<in> set cs. cl_DiscoveryType c = STRICT_DNS \<longrightarrow>
        (\<exists>la. cl_LoadAssignment c = Some la \<and> cla_ClusterName la = cl_Name c))"

definition build_ok :: "build \<Rightarrow> bool" where
  "build_ok b \<longleftrightarrow> config_ok (b_listeners b) (b_clusters b) (b_endpoints b)"

lemma build_ok_step:
  assumes "build_ok b"
    and "\<And>x. l = Some x \<Longrightarrow> listener_cluster x = cl_Name c"
    and "cla_ClusterName cla = cl_Name c"
    and "cl_DiscoveryType c = EDS \<Longrightarrow> \<forall>a \<in> set (cla_LbEndpoints cla). ParseIP (sa_Address a)"
    and "cl_DiscoveryType c = STRICT_DNS \<Longrightarrow> cl_LoadAssignment c = Some cla"
  shows "build_ok (add_cluster c cla (add_listener l b))"
proof -
  let ?ls = "case l of None \<Rightarrow> b_listeners b | Some x \<Rightarrow> b_listeners b @ [x]"
  let ?es = "if cl_DiscoveryType c = EDS then b_endpoints b @ [cla] else b_endpoints b"
  have eq: "b_listeners (add_cluster c cla (add_listener l b)) = ?ls"
      "b_clusters (add_cluster c cla (add_listener l b)) = b_clusters b @ [c]"
      "b_endpoints (add_cluster c cla (add_listener l b)) = ?es"
    by (simp_all add: add_cluster_def add_listener_def split: option.split)
  note ok = assms(1) [unfolded build_ok_def config_ok_def]
  show ?thesis
    unfolding build_ok_def config_ok_def eq
  proof (intro conjI)
    show "\<forall>l \<in> set ?ls. listener_cluster l \<in> cl_Name ` set (b_clusters b @ [c])"
      using ok assms(2) by (auto split: option.splits)
    have "{cl_Name x | x. x \<in> set (b_clusters b @ [c]) \<and> cl_DiscoveryType x = EDS} =
        {cl_Name x | x. x \<in> set (b_clusters b) \<and> cl_DiscoveryType x = EDS} \<union>
        (if cl_DiscoveryType c = EDS then {cl_Name c} else {})"
      by auto
    with ok assms(3) show "cla_ClusterName ` set ?es =
        {cl_Name x | x. x \<in> set (b_clusters b @ [c]) \<and> cl_DiscoveryType x = EDS}"
      by simp
    show "\<forall>e \<in> set ?es. \<forall>a \<in> set (cla_LbEndpoints e). ParseIP (sa_Address a)"
      using ok assms(4) by auto
    show "\<forall>x \<in> set (b_clusters b @ [c]). cl_DiscoveryType x = STRICT_DNS \<longrightarrow>
        (\<exists>la. cl_LoadAssignment x = Some la \<and> cla_ClusterName la = cl_Name x)"
      using ok assms(3,5) by auto
  qed
qed

lemma build_ok_cache [simp]: "build_ok (b\<lparr> b_cache := c \<rparr>) = build_ok b"
  by (simp add: build_ok_def)

lemma build_ok_lb_port: "build_ok b \<Longrightarrow> build_ok (snapshot_lb_port lookup limits lb i addrs q b)"
  unfolding snapshot_lb_port_def
  by (rule build_ok_step)
    (auto simp: lb_listener_def lb_cluster_def lb_assignment_def makeClusterLoadAssignment_def Let_def
      EDS_all_ip makeEndpoint_def split: if_splits)

lemma build_ok_route_port:
  "build_ok b \<Longrightarrow> snapshot_route_port lookup limits route addrs svc port b = Inr b' \<Longrightarrow> build_ok b'"
  unfolding snapshot_route_port_def
  by (auto split: option.splits intro!: build_ok_step)
    (auto simp: route_listener_def makeRouteListener_def route_cluster_def route_assignment_def
      makeClusterLoadAssignment_def EDS_all_ip makeEndpoint_def split: if_splits)

lemma fold_build_ok:
  "(\<And>x b. build_ok b \<Longrightarrow> build_ok (f x b)) \<Longrightarrow> build_ok b \<Longrightarrow> build_ok (fold f xs b)"
  by (induction xs arbitrary: b) auto

lemma build_ok_lb: "build_ok b \<Longrightarrow> snapshot_lb get lookup limits lb b = Inr b' \<Longrightarrow> build_ok b'"
  unfolding snapshot_lb_def
  by (erule fold_err_inv [where I = build_ok, rotated])
    (auto simp: snapshot_lb_endpoint_def split: sum.splits prod.splits intro!: fold_build_ok build_ok_lb_port)

lemma build_ok_route: "build_ok b \<Longrightarrow> snapshot_route get lookup limits route b = Inr b' \<Longrightarrow> build_ok b'"
proof -
  have inner: "build_ok s'"
    if "build_ok s" "fold_err (snapshot_route_port lookup limits route addrs svc) ps s = Inr s'" for addrs svc ps s s'
    using that by (rule fold_err_inv [where I = build_ok, rotated]) (rule build_ok_route_port)
  have outer: "build_ok s'"
    if "build_ok s"
      "fold_err (\<lambda>svc. fold_err (snapshot_route_port lookup limits route addrs svc) (ss_Ports (svc_Spec svc))) svcs s = Inr s'"
    for addrs svcs s s'
    using that by (rule fold_err_inv [where I = build_ok, rotated]) (rule inner)
  assume "build_ok b" and "snapshot_route get lookup limits route b = Inr b'"
  then show ?thesis
    unfolding snapshot_route_def Let_def
    by (auto split: option.splits sum.splits prod.splits intro: outer [rotated])
qed

lemma build_resources_ok:
  assumes "build_resources get lookup limits lbs routes = Inr b"
  shows "build_ok b"
proof -
  from assms obtain b1 where b1: "fold_err (snapshot_lb get lookup limits) lbs empty_build = Inr b1"
    and b: "fold_err (snapshot_route get lookup limits) routes b1 = Inr b"
    by (auto simp: build_resources_def split: sum.splits)
  have "build_ok empty_build" by (simp add: build_ok_def config_ok_def empty_build_def)
  then have "build_ok b1"
    using b1 by (rule fold_err_inv [where I = build_ok, rotated]) (rule build_ok_lb)
  then show ?thesis
    using b by (rule fold_err_inv [where I = build_ok, rotated]) (rule build_ok_route)
qed

section \<open>The snapshot as a comprehension\<close>

text \<open>The items of a snapshot: one per endpoint port of a load balancer and per service port of a route.
  The listener of an item depends on the port lookup only; its cluster and load assignment depend on the
  addresses of its endpoint, read directly from the API.\<close>

datatype item =
  LBItem load_balancer nat load_balancer_endpoints endpoint_port
| RouteItem route service service_port

definition lb_items :: "load_balancer \<Rightarrow> item list" where
  "lb_items lb =
     concat (map (\<lambda>(i, e). map (LBItem lb i e) (le_Ports e)) (enumerate 0 (ls_Endpoints (lb_Spec lb))))"

definition route_items :: "route \<Rightarrow> item list" where
  "route_items route =
     (case rs_Kubernetes (r_Spec route) of
        None \<Rightarrow> []
      | Some src \<Rightarrow> concat (map (\<lambda>svc. map (RouteItem route svc) (ss_Ports (svc_Spec svc))) (ks_Services src)))"

definition snapshot_items :: "load_balancer list \<Rightarrow> route list \<Rightarrow> item list" where
  "snapshot_items lbs routes = concat (map lb_items lbs) @ concat (map route_items routes)"

fun item_listener :: "(string \<Rightarrow> string \<Rightarrow> int \<times> bool) \<Rightarrow> header_limits \<Rightarrow> item \<Rightarrow> listener option" where
  "item_listener look limits (LBItem lb i e q) = lb_listener (Some look) lb i q"
| "item_listener look limits (RouteItem r svc p) = route_listener look limits r svc p"

fun item_key :: "item \<Rightarrow> string \<times> string" where
  "item_key (LBItem lb i e q) =
     (EnvoyEndpointKey (om_Namespace (lb_Meta lb)) (om_Name (lb_Meta lb)) i,
      EnvoyListenerKey (ep_Port q) (ep_Protocol q))"
| "item_key (RouteItem r svc p) = (route_svc_key r svc, EnvoyListenerKey (sp_Port p) (sp_Protocol p))"

fun item_name :: "item \<Rightarrow> string" where
  "item_name (LBItem lb i e q) = lb_resource_key lb i q"
| "item_name (RouteItem r svc p) = route_resource_key r svc p"

definition ref_addresses :: "get_addresses \<Rightarrow> string \<Rightarrow> load_balancer_endpoints \<Rightarrow> endpoint_address list" where
  "ref_addresses get ns e =
     (case le_AddressesReference e of
        None \<Rightarrow> le_Addresses e
      | Some ref \<Rightarrow> (case get ns (ref_Name ref) of Inl _ \<Rightarrow> [] | Inr a \<Rightarrow> a))"

fun item_cluster :: "get_addresses \<Rightarrow> header_limits \<Rightarrow> item \<Rightarrow> cluster" where
  "item_cluster get limits (LBItem lb i e q) =
     lb_cluster limits lb i (ref_addresses get (om_Namespace (lb_Meta lb)) e) q"
| "item_cluster get limits (RouteItem r svc p) =
     route_cluster limits r (concat (map (ref_addresses get (om_Namespace (r_Meta r))) (rs_Endpoints (r_Spec r)))) svc p"

fun item_assignment :: "get_addresses \<Rightarrow> item \<Rightarrow> load_assignment" where
  "item_assignment get (LBItem lb i e q) =
     lb_assignment lb i (ref_addresses get (om_Namespace (lb_Meta lb)) e) q"
| "item_assignment get (RouteItem r svc p) =
     route_assignment r (concat (map (ref_addresses get (om_Namespace (r_Meta r))) (rs_Endpoints (r_Spec r)))) svc p"

definition spec_listeners :: "(string \<Rightarrow> string \<Rightarrow> int \<times> bool) \<Rightarrow> header_limits \<Rightarrow> item list \<Rightarrow> listener list" where
  "spec_listeners look limits items = List.map_filter (item_listener look limits) items"

definition spec_clusters :: "get_addresses \<Rightarrow> header_limits \<Rightarrow> item list \<Rightarrow> cluster list" where
  "spec_clusters get limits items = map (item_cluster get limits) items"

definition spec_endpoints :: "get_addresses \<Rightarrow> header_limits \<Rightarrow> item list \<Rightarrow> load_assignment list" where
  "spec_endpoints get limits items =
     map (item_assignment get) (filter (\<lambda>it. cl_DiscoveryType (item_cluster get limits it) = EDS) items)"

subsection \<open>Listeners\<close>

lemma add_simps [simp]:
  "b_cache (add_cluster c cla b) = b_cache b" "b_listeners (add_cluster c cla b) = b_listeners b"
  "b_clusters (add_cluster c cla b) = b_clusters b @ [c]"
  "b_endpoints (add_cluster c cla b) = b_endpoints b @ (if cl_DiscoveryType c = EDS then [cla] else [])"
  "b_cache (add_listener l b) = b_cache b" "b_clusters (add_listener l b) = b_clusters b"
  "b_endpoints (add_listener l b) = b_endpoints b"
  "b_listeners (add_listener l b) = b_listeners b @ (case l of None \<Rightarrow> [] | Some x \<Rightarrow> [x])"
  by (simp_all add: add_cluster_def add_listener_def split: option.split)

lemma fold_lb_port:
  fixes lookup limits lb i addrs qs b
  defines "b' \<equiv> fold (snapshot_lb_port lookup limits lb i addrs) qs b"
  shows "b_cache b' = b_cache b"
    and "b_listeners b' = b_listeners b @ List.map_filter (lb_listener lookup lb i) qs"
    and "b_clusters b' = b_clusters b @ map (lb_cluster limits lb i addrs) qs"
    and "b_endpoints b' = b_endpoints b @
           map (lb_assignment lb i addrs) (filter (\<lambda>q. cl_DiscoveryType (lb_cluster limits lb i addrs q) = EDS) qs)"
  unfolding b'_def
  by (induction qs arbitrary: b)
    (auto simp: snapshot_lb_port_def List.map_filter_simps split: option.split)

lemma map_filter_map: "List.map_filter f (map g xs) = List.map_filter (\<lambda>x. f (g x)) xs"
  by (simp add: List.map_filter_def filter_map comp_def)

lemma snapshot_lb_listeners:
  assumes "snapshot_lb get (Some look) limits lb b = Inr b'"
  shows "b_listeners b' = b_listeners b @ spec_listeners look limits (lb_items lb)"
proof -
  have "True \<and> b_listeners b' = b_listeners b @
      concat (map (\<lambda>(i, e). spec_listeners look limits (map (LBItem lb i e) (le_Ports e)))
                (enumerate 0 (ls_Endpoints (lb_Spec lb))))"
    using assms unfolding snapshot_lb_def
  proof (rule fold_err_collect [where I = "\<lambda>_. True", rotated 2])
    fix ie s s'
    assume "snapshot_lb_endpoint get (Some look) limits lb ie s = Inr s'"
    then show "True \<and> b_listeners s' = b_listeners s @
        (case ie of (i, e) \<Rightarrow> spec_listeners look limits (map (LBItem lb i e) (le_Ports e)))"
      by (auto simp: snapshot_lb_endpoint_def fold_lb_port spec_listeners_def map_filter_map
          split: sum.splits prod.splits)
  qed simp
  then show ?thesis
    by (simp add: lb_items_def spec_listeners_def map_filter_concat comp_def split_def)
qed

lemma spec_listeners_singletons:
  "concat (map (\<lambda>p. spec_listeners look limits [f p]) xs) = spec_listeners look limits (map f xs)"
  by (induction xs) (simp_all add: spec_listeners_def List.map_filter_simps split: option.split)

lemma snapshot_route_listeners:
  assumes "snapshot_route get (Some look) limits route b = Inr b'"
  shows "b_listeners b' = b_listeners b @ spec_listeners look limits (route_items route)"
proof (cases "rs_Kubernetes (r_Spec route)")
  case None
  with assms show ?thesis by (simp add: snapshot_route_def route_items_def spec_listeners_def List.map_filter_simps)
next
  case (Some src)
  obtain endpoints cache where
    rr: "resolveRouteAddresses get (om_Namespace (r_Meta route)) (rs_Endpoints (r_Spec route)) (b_cache b) =
           Inr (endpoints, cache)"
    using assms Some
    by (cases "resolveRouteAddresses get (om_Namespace (r_Meta route)) (rs_Endpoints (r_Spec route)) (b_cache b)")
      (auto simp: snapshot_route_def)
  have run: "fold_err (\<lambda>svc. fold_err (snapshot_route_port (Some look) limits route (concat (map le_Addresses endpoints)) svc)
                     (ss_Ports (svc_Spec svc))) (ks_Services src) (b\<lparr> b_cache := cache \<rparr>) = Inr b'"
    using assms Some rr by (simp add: snapshot_route_def Let_def)
  have port: "True \<and> b_listeners s' = b_listeners s @ spec_listeners look limits [RouteItem route svc p]"
    if "snapshot_route_port (Some look) limits route addrs svc p s = Inr s'" for addrs svc p s s'
    using that by (auto simp: snapshot_route_port_def spec_listeners_def List.map_filter_simps split: option.split)
  have svc: "True \<and> b_listeners s' = b_listeners s @
      spec_listeners look limits (map (RouteItem route svc) (ss_Ports (svc_Spec svc)))"
    if "fold_err (snapshot_route_port (Some look) limits route addrs svc) (ss_Ports (svc_Spec svc)) s = Inr s'"
    for addrs svc s s'
  proof -
    have "True \<and> b_listeners s' = b_listeners s @
        concat (map (\<lambda>p. spec_listeners look limits [RouteItem route svc p]) (ss_Ports (svc_Spec svc)))"
      using that by (rule fold_err_collect [where I = "\<lambda>_. True", rotated 2]) (simp_all add: port)
    then show ?thesis by (simp only: spec_listeners_singletons)
  qed
  have "True \<and> b_listeners b' = b_listeners (b\<lparr> b_cache := cache \<rparr>) @
      concat (map (\<lambda>svc. spec_listeners look limits (map (RouteItem route svc) (ss_Ports (svc_Spec svc)))) (ks_Services src))"
    using run by (rule fold_err_collect [where I = "\<lambda>_. True", rotated 2]) (simp_all add: svc)
  then show ?thesis
    using Some by (simp add: route_items_def spec_listeners_def map_filter_concat comp_def)
qed

lemma build_listeners:
  assumes "build_resources get (Some look) limits lbs routes = Inr b"
  shows "b_listeners b = spec_listeners look limits (snapshot_items lbs routes)"
proof -
  from assms obtain b1 where b1: "fold_err (snapshot_lb get (Some look) limits) lbs empty_build = Inr b1"
    and b: "fold_err (snapshot_route get (Some look) limits) routes b1 = Inr b"
    by (auto simp: build_resources_def split: sum.splits)
  have "True \<and> b_listeners b1 = b_listeners empty_build @ concat (map (\<lambda>lb. spec_listeners look limits (lb_items lb)) lbs)"
    using b1 by (rule fold_err_collect [where I = "\<lambda>_. True", rotated 2]) (simp_all add: snapshot_lb_listeners)
  moreover have "True \<and> b_listeners b = b_listeners b1 @ concat (map (\<lambda>r. spec_listeners look limits (route_items r)) routes)"
    using b by (rule fold_err_collect [where I = "\<lambda>_. True", rotated 2]) (simp_all add: snapshot_route_listeners)
  ultimately show ?thesis
    by (simp add: empty_build_def snapshot_items_def spec_listeners_def map_filter_append map_filter_concat comp_def)
qed

lemma item_listener_simps:
  assumes "item_listener look limits it = Some l"
  shows "li_Name l = item_name it" and "sa_Address (li_Address l) = wildcardBindAddress"
    and "snd (look (fst (item_key it)) (snd (item_key it))) \<Longrightarrow>
         sa_PortValue (li_Address l) = to_uint32 (fst (look (fst (item_key it)) (snd (item_key it))))"
  using assms
  by (cases it; auto simp: lb_listener_def route_listener_def makeRouteListener_def lb_listener_port_def
      route_listener_port_def listen_on_def Let_def split: if_splits prod.splits)+

lemma listener_address_key_port:
  assumes "listener_address_key l = listener_address_key l'"
    and "sa_Address (li_Address l) = sa_Address (li_Address l')"
  shows "sa_PortValue (li_Address l) = sa_PortValue (li_Address l')"
proof -
  from assms have "itoa (sa_PortValue (li_Address l)) @ CHR ''/'' # protocol_name (sa_Protocol (li_Address l)) =
      itoa (sa_PortValue (li_Address l')) @ CHR ''/'' # protocol_name (sa_Protocol (li_Address l'))"
    by (simp add: listener_address_key_def Let_def)
  from sep_prefix_unique [OF itoa_no_slash itoa_no_slash this] show ?thesis by simp
qed

lemma spec_listener_addresses_distinct:
  assumes "pa_inv pa" and "distinct (map item_key items)"
    and "\<And>it. it \<in> set items \<Longrightarrow> snd (Lookup pa (fst (item_key it)) (snd (item_key it)))"
  shows "distinct (map listener_address_key (spec_listeners (Lookup pa) limits items))"
  unfolding spec_listeners_def
proof (rule distinct_map_filter_key [OF assms(2)])
  fix x y a b
  assume xy: "x \<in> set items" "y \<in> set items"
    and f: "item_listener (Lookup pa) limits x = Some a" "item_listener (Lookup pa) limits y = Some b"
    and eq: "listener_address_key a = listener_address_key b"
  let ?lx = "Lookup pa (fst (item_key x)) (snd (item_key x))"
  let ?ly = "Lookup pa (fst (item_key y)) (snd (item_key y))"
  have sx: "?lx = (fst ?lx, True)" and sy: "?ly = (fst ?ly, True)"
    using assms(3) xy by (simp_all add: prod_eq_iff)
  have "sa_PortValue (li_Address a) = sa_PortValue (li_Address b)"
    using listener_address_key_port [OF eq] item_listener_simps(2) [OF f(1)] item_listener_simps(2) [OF f(2)] by simp
  then have "to_uint32 (fst ?lx) = to_uint32 (fst ?ly)"
    using item_listener_simps(3) [OF f(1)] item_listener_simps(3) [OF f(2)] assms(3) xy by simp
  then have "fst ?lx = fst ?ly"
    using pa.lookup_to_uint32 [OF assms(1) sx] pa.lookup_to_uint32 [OF assms(1) sy] by simp
  then have "?ly = (fst ?lx, True)" using sy by simp
  from pa.lookup_unique [OF assms(1) sx this] show "item_key x = item_key y"
    by (simp add: prod_eq_iff)
qed

lemma distinct_map_sort_key: "distinct (map f (sort_key g xs)) = distinct (map f xs)"
  by (rule mset_eq_imp_distinct_iff) simp

lemma MapSnapshot_cases:
  assumes "MapSnapshot get marshal hash lookup limits lbs routes = Inr sn"
  obtains b where "build_resources get lookup limits lbs routes = Inr b"
    and "sn_Clusters sn = sort_key cl_Name (b_clusters b)"
    and "sn_Listeners sn = dedupListenersByAddress (sort_key li_Name (b_listeners b))"
    and "sn_Endpoints sn = sort_key cla_ClusterName (b_endpoints b)"
  using assms by (auto simp: MapSnapshot_def Let_def split: sum.splits)

subsection \<open>Addresses\<close>

definition ref_ok :: "get_addresses \<Rightarrow> string \<Rightarrow> load_balancer_endpoints \<Rightarrow> bool" where
  "ref_ok get ns e \<longleftrightarrow>
     (case le_AddressesReference e of None \<Rightarrow> True | Some ref \<Rightarrow> (\<exists>a. get ns (ref_Name ref) = Inr a))"

definition cache_ok :: "get_addresses \<Rightarrow> string \<Rightarrow> address_cache \<Rightarrow> bool" where
  "cache_ok get ns cache \<longleftrightarrow> (\<forall>name v. map_of cache (address_key ns name) = Some v \<longrightarrow> get ns name = Inr v)"

text \<open>Within one namespace the address cache is transparent: resolving an endpoint gives what the API
  holds, and fails exactly if the read fails.\<close>

lemma resolve_endpoint_spec:
  assumes "cache_ok get ns cache"
  shows "if ref_ok get ns e
         then \<exists>cache'. resolve_endpoint get ns e cache = Inr (ref_addresses get ns e, cache') \<and> cache_ok get ns cache'
         else \<exists>err. resolve_endpoint get ns e cache = Inl err"
proof (cases "le_AddressesReference e")
  case None
  with assms show ?thesis by (simp add: ref_ok_def resolve_endpoint_def ref_addresses_def)
next
  case (Some ref)
  let ?k = "address_key ns (ref_Name ref)"
  have inj: "address_key ns n = ?k \<longleftrightarrow> n = ref_Name ref" for n by (simp add: address_key_def)
  show ?thesis
  proof (cases "map_of cache ?k")
    case (Some v)
    with assms have "get ns (ref_Name ref) = Inr v" by (simp add: cache_ok_def)
    with Some \<open>le_AddressesReference e = Some ref\<close> assms show ?thesis
      by (simp add: ref_ok_def resolve_endpoint_def resolve_reference_def ref_addresses_def)
  next
    case None
    show ?thesis
    proof (cases "get ns (ref_Name ref)")
      case (Inl err)
      with None Some show ?thesis
        by (simp add: ref_ok_def resolve_endpoint_def resolve_reference_def)
    next
      case (Inr a)
      have "cache_ok get ns (gomap_put ?k a cache)"
        using assms Inr by (auto simp: cache_ok_def map_of_put inj split: if_splits)
      with None Inr Some show ?thesis
        by (simp add: ref_ok_def resolve_endpoint_def resolve_reference_def ref_addresses_def)
    qed
  qed
qed

lemma resolveRouteAddresses_spec:
  assumes "cache_ok get ns cache"
  shows "if \<forall>e \<in> set es. ref_ok get ns e
         then \<exists>es' cache'. resolveRouteAddresses get ns es cache = Inr (es', cache') \<and>
                map le_Addresses es' = map (ref_addresses get ns) es \<and> cache_ok get ns cache'
         else \<exists>err. resolveRouteAddresses get ns es cache = Inl err"
  using assms
proof (induction es arbitrary: cache)
  case (Cons e es)
  show ?case
  proof (cases "ref_ok get ns e")
    case True
    with resolve_endpoint_spec [OF Cons.prems, of e] obtain c1 where
      r: "resolve_endpoint get ns e cache = Inr (ref_addresses get ns e, c1)" and c1: "cache_ok get ns c1" by auto
    from Cons.IH [OF c1] True r show ?thesis by (auto split: if_splits)
  next
    case False
    with resolve_endpoint_spec [OF Cons.prems, of e] show ?thesis by auto
  qed
qed simp

subsection \<open>Clusters and load assignments\<close>

text \<open>One step of a loop that either fails or appends known clusters and assignments.\<close>

definition appends ::
  "get_addresses \<Rightarrow> string \<Rightarrow> header_limits \<Rightarrow> snapshot_error + build \<Rightarrow> build \<Rightarrow> bool \<Rightarrow> item list \<Rightarrow> bool" where
  "appends get ns limits r b ok items \<longleftrightarrow>
     (if ok then \<exists>b'. r = Inr b' \<and> cache_ok get ns (b_cache b') \<and>
                  b_clusters b' = b_clusters b @ spec_clusters get limits items \<and>
                  b_endpoints b' = b_endpoints b @ spec_endpoints get limits items
      else \<exists>err. r = Inl err)"

lemma spec_append:
  "spec_clusters get limits (xs @ ys) = spec_clusters get limits xs @ spec_clusters get limits ys"
  "spec_endpoints get limits (xs @ ys) = spec_endpoints get limits xs @ spec_endpoints get limits ys"
  by (simp_all add: spec_clusters_def spec_endpoints_def)

lemma appends_fold_err:
  assumes "\<And>x b. x \<in> set xs \<Longrightarrow> cache_ok get ns (b_cache b) \<Longrightarrow> appends get ns limits (f x b) b (ok x) (h x)"
    and "cache_ok get ns (b_cache b)"
  shows "appends get ns limits (fold_err f xs b) b (\<forall>x \<in> set xs. ok x) (concat (map h xs))"
  using assms
proof (induction xs arbitrary: b)
  case Nil
  then show ?case by (simp add: appends_def spec_clusters_def spec_endpoints_def)
next
  case (Cons x xs)
  have step: "appends get ns limits (f x b) b (ok x) (h x)"
    by (rule Cons.prems(1)) (simp_all add: Cons.prems(2))
  show ?case
  proof (cases "ok x")
    case True
    with step obtain b1 where
      b1: "f x b = Inr b1" "cache_ok get ns (b_cache b1)"
        "b_clusters b1 = b_clusters b @ spec_clusters get limits (h x)"
        "b_endpoints b1 = b_endpoints b @ spec_endpoints get limits (h x)"
      by (auto simp: appends_def)
    have "appends get ns limits (fold_err f xs b1) b1 (\<forall>x \<in> set xs. ok x) (concat (map h xs))"
      by (rule Cons.IH) (simp_all add: Cons.prems(1) b1(2))
    with b1 True show ?thesis by (auto simp: appends_def spec_append split: if_splits)
  next
    case False
    with step show ?thesis by (auto simp: appends_def)
  qed
qed

lemma appends_lb_endpoint:
  assumes "cache_ok get ns (b_cache b)" and "om_Namespace (lb_Meta lb) = ns"
  shows "appends get ns limits (snapshot_lb_endpoint get lookup limits lb (i, e) b) b (ref_ok get ns e)
           (map (LBItem lb i e) (le_Ports e))"
proof (cases "ref_ok get ns e")
  case True
  with resolve_endpoint_spec [OF assms(1), of e] obtain c where
    r: "resolve_endpoint get ns e (b_cache b) = Inr (ref_addresses get ns e, c)" and c: "cache_ok get ns c"
    by auto
  with True assms(2) show ?thesis
    by (simp add: appends_def snapshot_lb_endpoint_def fold_lb_port spec_clusters_def spec_endpoints_def
        filter_map comp_def)
next
  case False
  with resolve_endpoint_spec [OF assms(1), of e] assms(2) show ?thesis
    by (auto simp: appends_def snapshot_lb_endpoint_def)
qed

definition lb_ok :: "get_addresses \<Rightarrow> load_balancer \<Rightarrow> bool" where
  "lb_ok get lb \<longleftrightarrow> (\<forall>e \<in> set (ls_Endpoints (lb_Spec lb)). ref_ok get (om_Namespace (lb_Meta lb)) e)"

definition route_ok :: "get_addresses \<Rightarrow> route \<Rightarrow> bool" where
  "route_ok get r \<longleftrightarrow> rs_Kubernetes (r_Spec r) = None \<or>
     (\<forall>e \<in> set (rs_Endpoints (r_Spec r)). ref_ok get (om_Namespace (r_Meta r)) e)"

lemma appends_lb:
  assumes "cache_ok get ns (b_cache b)" and "om_Namespace (lb_Meta lb) = ns"
  shows "appends get ns limits (snapshot_lb get lookup limits lb b) b (lb_ok get lb) (lb_items lb)"
proof -
  have "appends get ns limits (snapshot_lb get lookup limits lb b) b
      (\<forall>x \<in> set (enumerate 0 (ls_Endpoints (lb_Spec lb))). ref_ok get ns (snd x))
      (concat (map (\<lambda>x. map (LBItem lb (fst x) (snd x)) (le_Ports (snd x))) (enumerate 0 (ls_Endpoints (lb_Spec lb)))))"
    unfolding snapshot_lb_def
  proof (rule appends_fold_err [OF _ assms(1)])
    fix x and b :: build
    assume "cache_ok get ns (b_cache b)"
    then show "appends get ns limits (snapshot_lb_endpoint get lookup limits lb x b) b (ref_ok get ns (snd x))
        (map (LBItem lb (fst x) (snd x)) (le_Ports (snd x)))"
      using appends_lb_endpoint [OF _ assms(2), of get b limits lookup "fst x" "snd x"] by simp
  qed
  moreover have "(\<forall>x \<in> set (enumerate 0 (ls_Endpoints (lb_Spec lb))). ref_ok get ns (snd x)) \<longleftrightarrow> lb_ok get lb"
    using assms(2) by (metis (no_types, lifting) image_iff lb_ok_def map_snd_enumerate set_map)
  ultimately show ?thesis by (simp add: lb_items_def split_def)
qed

lemma appends_route:
  assumes "cache_ok get ns (b_cache b)" and "om_Namespace (r_Meta route) = ns"
  shows "appends get ns limits (snapshot_route get (Some look) limits route b) b (route_ok get route) (route_items route)"
proof (cases "rs_Kubernetes (r_Spec route)")
  case None
  with assms(1) show ?thesis
    by (simp add: appends_def snapshot_route_def route_ok_def route_items_def spec_clusters_def spec_endpoints_def)
next
  case (Some src)
  let ?es = "rs_Endpoints (r_Spec route)"
  show ?thesis
  proof (cases "\<forall>e \<in> set ?es. ref_ok get ns e")
    case False
    with resolveRouteAddresses_spec [OF assms(1), of ?es] Some assms(2) show ?thesis
      by (auto simp: appends_def snapshot_route_def route_ok_def split: if_splits)
  next
    case True
    with resolveRouteAddresses_spec [OF assms(1), of ?es] obtain es' c where
      r: "resolveRouteAddresses get ns ?es (b_cache b) = Inr (es', c)"
      and es': "map le_Addresses es' = map (ref_addresses get ns) ?es" and c: "cache_ok get ns c"
      by auto
    let ?addrs = "concat (map (ref_addresses get ns) ?es)"
    let ?b = "b\<lparr> b_cache := c \<rparr>"
    have port: "appends get ns limits (snapshot_route_port (Some look) limits route ?addrs svc p s) s True [RouteItem route svc p]"
      if "cache_ok get ns (b_cache s)" for svc p s
      using that assms(2) by (simp add: appends_def snapshot_route_port_def spec_clusters_def spec_endpoints_def)
    have svc: "appends get ns limits (fold_err (snapshot_route_port (Some look) limits route ?addrs svc) ps s) s True
        (map (RouteItem route svc) ps)" if "cache_ok get ns (b_cache s)" for svc ps s
      using appends_fold_err [of ps get ns limits "snapshot_route_port (Some look) limits route ?addrs svc" "\<lambda>_. True"
          "\<lambda>p. [RouteItem route svc p]", OF port that] by simp
    have "appends get ns limits
        (fold_err (\<lambda>svc. fold_err (snapshot_route_port (Some look) limits route ?addrs svc) (ss_Ports (svc_Spec svc)))
           (ks_Services src) ?b) ?b (\<forall>svc \<in> set (ks_Services src). True)
        (concat (map (\<lambda>svc. map (RouteItem route svc) (ss_Ports (svc_Spec svc))) (ks_Services src)))"
      by (rule appends_fold_err) (simp_all add: svc c)
    with r es' True Some assms(2) show ?thesis
      by (simp add: appends_def snapshot_route_def route_ok_def route_items_def Let_def)
  qed
qed

text \<open>The whole construction for objects of one namespace, as a function of the items.\<close>

lemma build_resources_spec:
  assumes "\<And>lb. lb \<in> set lbs \<Longrightarrow> om_Namespace (lb_Meta lb) = ns"
    and "\<And>r. r \<in> set routes \<Longrightarrow> om_Namespace (r_Meta r) = ns"
  shows "if (\<forall>lb \<in> set lbs. lb_ok get lb) \<and> (\<forall>r \<in> set routes. route_ok get r)
         then \<exists>b. build_resources get (Some look) limits lbs routes = Inr b \<and>
                b_listeners b = spec_listeners look limits (snapshot_items lbs routes) \<and>
                b_clusters b = spec_clusters get limits (snapshot_items lbs routes) \<and>
                b_endpoints b = spec_endpoints get limits (snapshot_items lbs routes)
         else \<exists>err. build_resources get (Some look) limits lbs routes = Inl err"
proof -
  have c0: "cache_ok get ns (b_cache empty_build)" by (simp add: cache_ok_def empty_build_def)
  have lbs: "appends get ns limits (fold_err (snapshot_lb get (Some look) limits) lbs empty_build) empty_build
      (\<forall>lb \<in> set lbs. lb_ok get lb) (concat (map lb_items lbs))"
    by (rule appends_fold_err [OF _ c0]) (simp add: appends_lb assms(1))
  have rts: "appends get ns limits (fold_err (snapshot_route get (Some look) limits) routes b) b
      (\<forall>r \<in> set routes. route_ok get r) (concat (map route_items routes))" if "cache_ok get ns (b_cache b)" for b
    by (rule appends_fold_err [OF _ that]) (simp add: appends_route assms(2))
  show ?thesis
  proof (cases "\<forall>lb \<in> set lbs. lb_ok get lb")
    case False
    with lbs show ?thesis by (auto simp: appends_def build_resources_def)
  next
    case True
    with lbs obtain b1 where
      b1: "fold_err (snapshot_lb get (Some look) limits) lbs empty_build = Inr b1" "cache_ok get ns (b_cache b1)"
        "b_clusters b1 = spec_clusters get limits (concat (map lb_items lbs))"
        "b_endpoints b1 = spec_endpoints get limits (concat (map lb_items lbs))"
      by (auto simp: appends_def empty_build_def)
    show ?thesis
    proof (cases "\<forall>r \<in> set routes. route_ok get r")
      case False
      with rts [OF b1(2)] b1(1) show ?thesis by (auto simp: appends_def build_resources_def)
    next
      case rok: True
      with rts [OF b1(2)] obtain b where
        b: "fold_err (snapshot_route get (Some look) limits) routes b1 = Inr b"
          "b_clusters b = b_clusters b1 @ spec_clusters get limits (concat (map route_items routes))"
          "b_endpoints b = b_endpoints b1 @ spec_endpoints get limits (concat (map route_items routes))"
        by (auto simp: appends_def)
      have res: "build_resources get (Some look) limits lbs routes = Inr b"
        using b1(1) b(1) by (simp add: build_resources_def)
      with build_listeners [OF res] b1 b True rok show ?thesis
        by (simp add: snapshot_items_def spec_append)
    qed
  qed
qed

subsection \<open>Order independence\<close>

lemma mset_snapshot_items:
  assumes "mset lbs = mset lbs'" and "mset routes = mset routes'"
  shows "mset (snapshot_items lbs routes) = mset (snapshot_items lbs' routes')"
  unfolding snapshot_items_def mset_append
  using mset_concat_cong [OF assms(1), of lb_items] mset_concat_cong [OF assms(2), of route_items] by simp

lemma item_resource_names:
  "cl_Name (item_cluster get limits it) = item_name it"
  "cla_ClusterName (item_assignment get it) = item_name it"
  by (cases it; simp add: lb_cluster_def route_cluster_def lb_assignment_def route_assignment_def
      makeClusterLoadAssignment_def)+

lemma spec_names_distinct:
  assumes "distinct (map item_name items)"
  shows "distinct (map li_Name (spec_listeners look limits items))"
    and "distinct (map cl_Name (spec_clusters get limits items))"
    and "distinct (map cla_ClusterName (spec_endpoints get limits items))"
proof -
  show "distinct (map li_Name (spec_listeners look limits items))"
    unfolding spec_listeners_def
    by (rule distinct_map_filter_key [OF assms]) (auto dest!: item_listener_simps(1))
  show "distinct (map cl_Name (spec_clusters get limits items))"
    using assms by (simp add: spec_clusters_def item_resource_names comp_def)
  have "distinct (map item_name (filter P items))" for P
    using assms by (rule distinct_map_filter)
  then show "distinct (map cla_ClusterName (spec_endpoints get limits items))"
    by (simp add: spec_endpoints_def item_resource_names comp_def)
qed

lemma mset_spec:
  assumes "mset items = mset items'"
  shows "mset (spec_listeners look limits items) = mset (spec_listeners look limits items')"
    and "mset (spec_clusters get limits items) = mset (spec_clusters get limits items')"
    and "mset (spec_endpoints get limits items) = mset (spec_endpoints get limits items')"
  using assms
  by (simp_all add: spec_listeners_def spec_clusters_def spec_endpoints_def List.map_filter_def mset_filter)

lemma sort_key_unique:
  assumes "mset xs = mset ys" and "distinct (map f xs)"
  shows "sort_key f xs = sort_key f ys"
proof -
  have "inj_on f (set xs)" using assms(2) by (simp add: distinct_map)
  then show ?thesis
    by (rule sort_key_inj_key_eq [rotated]) (simp_all add: assms(1))
qed

lemma dedup_loop_first:
  "l \<in> set (dedup_loop ls seen) \<Longrightarrow>
     map_of seen (listener_address_key l) = None \<and>
     find (\<lambda>l'. listener_address_key l' = listener_address_key l) ls = Some l"
proof (induction ls arbitrary: seen)
  case (Cons a ls)
  show ?case
  proof (cases "map_of seen (listener_address_key a)")
    case None
    with Cons.prems consider "l = a" | "l \<in> set (dedup_loop ls (gomap_put (listener_address_key a) (li_Name a) seen))"
      by auto
    then show ?thesis
    proof cases
      case 2
      from Cons.IH [OF this] show ?thesis by (auto simp: map_of_put split: if_splits)
    qed (use None in simp)
  next
    case (Some n)
    with Cons show ?thesis by (fastforce)
  qed
qed simp

lemma dedup_first:
  assumes "l \<in> set (dedupListenersByAddress ls)"
  shows "find (\<lambda>l'. listener_address_key l' = listener_address_key l) ls = Some l"
  using assms dedup_loop_first [of l ls "[]"]
  by (cases ls rule: list.exhaust; cases "tl ls") (auto simp: dedupListenersByAddress_def split: if_splits)

section \<open>Properties\<close>

text \<open>C3. Every snapshot that \<^verbatim>\<open>MapSnapshot\<close> produces can be accepted by Envoy: listeners bind pairwise
  different addresses and forward to clusters of the snapshot, load assignments correspond by name to the
  EDS clusters and list IP literals only, and every DNS cluster carries its own endpoints.\<close>

theorem MapSnapshot_consistent:
  assumes "MapSnapshot get marshal hash lookup limits lbs routes = Inr sn"
  shows "config_ok (sn_Listeners sn) (sn_Clusters sn) (sn_Endpoints sn) \<and>
         distinct (map listener_address_key (sn_Listeners sn))"
proof -
  from assms obtain b where b: "build_resources get lookup limits lbs routes = Inr b"
    and c: "sn_Clusters sn = sort_key cl_Name (b_clusters b)"
    and l: "sn_Listeners sn = dedupListenersByAddress (sort_key li_Name (b_listeners b))"
    and e: "sn_Endpoints sn = sort_key cla_ClusterName (b_endpoints b)"
    by (rule MapSnapshot_cases)
  have "set (sn_Listeners sn) \<subseteq> set (b_listeners b)"
    using dedup_subset [of "sort_key li_Name (b_listeners b)"] by (simp add: l)
  moreover have "config_ok (b_listeners b) (b_clusters b) (b_endpoints b)"
    using build_resources_ok [OF b] by (simp add: build_ok_def)
  ultimately have "config_ok (sn_Listeners sn) (sn_Clusters sn) (sn_Endpoints sn)"
    unfolding config_ok_def c e set_sort by blast
  then show ?thesis using dedup_distinct [of "sort_key li_Name (b_listeners b)"] by (simp add: l)
qed

definition sample_listener :: listener where
  "sample_listener = makeTCPListener ''a-b-ep-0-port-80-TCP'' ''a-b-ep-0-port-80-TCP'' 10005 None"

lemma sample_build:
  "\<exists>b. build_resources (\<lambda>_ _. Inl ''absent'') (Some (Lookup sample_pa)) default_header_limits [sample_lb] [] = Inr b"
proof -
  have "lb_ok (\<lambda>_ _. Inl ''absent'') sample_lb" by (simp add: lb_ok_def ref_ok_def sample_lb_def)
  then show ?thesis
    using build_resources_spec [of "[sample_lb]" "''a''" "[]" "\<lambda>_ _. Inl ''absent''" "Lookup sample_pa" default_header_limits]
    by (auto simp: sample_lb_def)
qed

lemma marshal_all_total: "\<exists>c. marshal_all (\<lambda>_. Inr m) rs content = Inr c"
  by (induction rs arbitrary: content) auto

lemma sample_snapshot:
  "\<exists>sn. MapSnapshot (\<lambda>_ _. Inl ''absent'') (\<lambda>_. Inr ''m'') id (Some (Lookup sample_pa)) default_header_limits [sample_lb] []
     = Inr sn"
proof -
  from sample_build obtain b where
    b: "build_resources (\<lambda>_ _. Inl ''absent'') (Some (Lookup sample_pa)) default_header_limits [sample_lb] [] = Inr b"
    by blast
  then show ?thesis
    using marshal_all_total [of "''m''"] by (auto simp: MapSnapshot_def Let_def) (metis sum.case(2))
qed

theorem MapSnapshot_consistent_witness:
  "\<exists>sn. MapSnapshot (\<lambda>_ _. Inl ''absent'') (\<lambda>_. Inr ''m'') id (Some (Lookup sample_pa)) default_header_limits [sample_lb] []
     = Inr sn \<and> config_ok (sn_Listeners sn) (sn_Clusters sn) (sn_Endpoints sn)"
  using sample_snapshot MapSnapshot_consistent by blast

text \<open>C5. With a consistent port allocator that has a port for every item of the snapshot, and with
  different lookup keys for different items, deduplication drops nothing: the snapshot holds exactly one
  listener per TCP or UDP port of the load balancers and routes, in name order.\<close>

theorem MapSnapshot_keeps_every_listener:
  assumes "MapSnapshot get marshal hash (Some (Lookup pa)) limits lbs routes = Inr sn"
    and "pa_inv pa" and "distinct (map item_key (snapshot_items lbs routes))"
    and "\<And>it. it \<in> set (snapshot_items lbs routes) \<Longrightarrow> snd (Lookup pa (fst (item_key it)) (snd (item_key it)))"
  shows "sn_Listeners sn =
           sort_key li_Name (List.map_filter (item_listener (Lookup pa) limits) (snapshot_items lbs routes))"
proof -
  from assms(1) obtain b where b: "build_resources get (Some (Lookup pa)) limits lbs routes = Inr b"
    and l: "sn_Listeners sn = dedupListenersByAddress (sort_key li_Name (b_listeners b))"
    by (rule MapSnapshot_cases)
  have "distinct (map listener_address_key (b_listeners b))"
    unfolding build_listeners [OF b] by (rule spec_listener_addresses_distinct [OF assms(2-4)])
  then show ?thesis
    unfolding l build_listeners [OF b] spec_listeners_def [symmetric]
    by (intro dedup_id) (simp add: distinct_map_sort_key)
qed

theorem MapSnapshot_keeps_every_listener_witness:
  "\<exists>sn. MapSnapshot (\<lambda>_ _. Inl ''absent'') (\<lambda>_. Inr ''m'') id (Some (Lookup sample_pa)) default_header_limits [sample_lb] []
     = Inr sn \<and> sn_Listeners sn = [sample_listener]"
proof -
  from sample_snapshot obtain sn where
    sn: "MapSnapshot (\<lambda>_ _. Inl ''absent'') (\<lambda>_. Inr ''m'') id (Some (Lookup sample_pa)) default_header_limits [sample_lb] []
       = Inr sn" by blast
  let ?e = "hd (ls_Endpoints (lb_Spec sample_lb))"
  have items: "snapshot_items [sample_lb] [] = [LBItem sample_lb 0 ?e (hd (le_Ports ?e))]"
    by (simp add: snapshot_items_def lb_items_def sample_lb_def)
  have key: "item_key (LBItem sample_lb 0 ?e (hd (le_Ports ?e))) = (''a-b-ep-0'', ''80-TCP'')" by code_simp
  have lis: "item_listener (Lookup sample_pa) default_header_limits (LBItem sample_lb 0 ?e (hd (le_Ports ?e))) =
      Some sample_listener"
  proof -
    have "lb_resource_key sample_lb 0 (hd (le_Ports ?e)) = ''a-b-ep-0-port-80-TCP''" by code_simp
    moreover have "lb_listener_port (Some (Lookup sample_pa)) sample_lb 0 (hd (le_Ports ?e)) = 10005"
      using key by (simp add: lb_listener_port_def Lookup_def sample_pa_def to_uint32_def)
    ultimately show ?thesis
      by (simp add: lb_listener_def sample_listener_def Let_def) (simp add: sample_lb_def ProtocolTCP_def)
  qed
  have "sn_Listeners sn = sort_key li_Name
      (List.map_filter (item_listener (Lookup sample_pa) default_header_limits) (snapshot_items [sample_lb] []))"
  proof (rule MapSnapshot_keeps_every_listener [OF sn sample_pa_inv])
    show "distinct (map item_key (snapshot_items [sample_lb] []))" unfolding items by simp
    show "snd (Lookup sample_pa (fst (item_key it)) (snd (item_key it)))"
      if "it \<in> set (snapshot_items [sample_lb] [])" for it
      using that key unfolding items by (simp add: Lookup_def sample_pa_def)
  qed
  then show ?thesis using sn lis unfolding items by (auto simp: List.map_filter_simps)
qed

text \<open>C20. For the objects of one tenant namespace whose resource names differ, the result of
  \<^verbatim>\<open>MapSnapshot\<close> does not depend on the order in which the load balancers and routes are listed: an
  unchanged configuration keeps its version, and a failure stays a failure.\<close>

theorem MapSnapshot_order_independent:
  assumes "mset lbs = mset lbs'" and "mset routes = mset routes'"
    and "\<And>lb. lb \<in> set lbs \<Longrightarrow> om_Namespace (lb_Meta lb) = ns"
    and "\<And>r. r \<in> set routes \<Longrightarrow> om_Namespace (r_Meta r) = ns"
    and "distinct (map item_name (snapshot_items lbs routes))"
  shows "MapSnapshot get marshal hash (Some look) limits lbs routes =
           MapSnapshot get marshal hash (Some look) limits lbs' routes' \<or>
         isl (MapSnapshot get marshal hash (Some look) limits lbs routes) \<and>
           isl (MapSnapshot get marshal hash (Some look) limits lbs' routes')"
proof -
  let ?ok = "\<lambda>lbs routes. (\<forall>lb \<in> set lbs. lb_ok get lb) \<and> (\<forall>r \<in> set routes. route_ok get r)"
  have sets: "set lbs = set lbs'" "set routes = set routes'"
    using mset_eq_setD [OF assms(1)] mset_eq_setD [OF assms(2)] .
  note items = mset_snapshot_items [OF assms(1,2)]
  let ?built = "\<lambda>lbs routes. if ?ok lbs routes
      then \<exists>b. build_resources get (Some look) limits lbs routes = Inr b \<and>
             b_listeners b = spec_listeners look limits (snapshot_items lbs routes) \<and>
             b_clusters b = spec_clusters get limits (snapshot_items lbs routes) \<and>
             b_endpoints b = spec_endpoints get limits (snapshot_items lbs routes)
      else \<exists>err. build_resources get (Some look) limits lbs routes = Inl err"
  have A: "?built lbs routes" by (rule build_resources_spec) (use assms(3,4) in simp_all)
  have B: "?built lbs' routes'" by (rule build_resources_spec) (use assms(3,4) sets in simp_all)
  show ?thesis
  proof (cases "?ok lbs routes")
    case False
    obtain err err' where
      "build_resources get (Some look) limits lbs routes = Inl err"
      "build_resources get (Some look) limits lbs' routes' = Inl err'"
      using A B unfolding sets [symmetric] if_not_P [OF False] by blast
    then show ?thesis by (simp add: MapSnapshot_def)
  next
    case True
    obtain b b' where
      b: "build_resources get (Some look) limits lbs routes = Inr b"
        "b_listeners b = spec_listeners look limits (snapshot_items lbs routes)"
        "b_clusters b = spec_clusters get limits (snapshot_items lbs routes)"
        "b_endpoints b = spec_endpoints get limits (snapshot_items lbs routes)" and
      b': "build_resources get (Some look) limits lbs' routes' = Inr b'"
        "b_listeners b' = spec_listeners look limits (snapshot_items lbs' routes')"
        "b_clusters b' = spec_clusters get limits (snapshot_items lbs' routes')"
        "b_endpoints b' = spec_endpoints get limits (snapshot_items lbs' routes')"
      using A B unfolding sets [symmetric] if_P [OF True] by blast
    have "sort_key li_Name (b_listeners b) = sort_key li_Name (b_listeners b')"
      "sort_key cl_Name (b_clusters b) = sort_key cl_Name (b_clusters b')"
      "sort_key cla_ClusterName (b_endpoints b) = sort_key cla_ClusterName (b_endpoints b')"
      unfolding b b' by (rule sort_key_unique [OF mset_spec(1) [OF items] spec_names_distinct(1) [OF assms(5)]]
          sort_key_unique [OF mset_spec(2) [OF items] spec_names_distinct(2) [OF assms(5)]]
          sort_key_unique [OF mset_spec(3) [OF items] spec_names_distinct(3) [OF assms(5)]])+
    then show ?thesis using b(1) b'(1) by (simp add: MapSnapshot_def)
  qed
qed

definition sample_lb2 :: load_balancer where
  "sample_lb2 = sample_lb\<lparr> lb_Meta := (lb_Meta sample_lb)\<lparr> om_Name := ''c'' \<rparr> \<rparr>"

theorem MapSnapshot_order_independent_witness:
  "MapSnapshot (\<lambda>_ _. Inl ''absent'') (\<lambda>_. Inr ''m'') id (Some (Lookup sample_pa)) default_header_limits [sample_lb, sample_lb2] [] =
     MapSnapshot (\<lambda>_ _. Inl ''absent'') (\<lambda>_. Inr ''m'') id (Some (Lookup sample_pa)) default_header_limits [sample_lb2, sample_lb] [] \<or>
   isl (MapSnapshot (\<lambda>_ _. Inl ''absent'') (\<lambda>_. Inr ''m'') id (Some (Lookup sample_pa)) default_header_limits [sample_lb, sample_lb2] []) \<and>
     isl (MapSnapshot (\<lambda>_ _. Inl ''absent'') (\<lambda>_. Inr ''m'') id (Some (Lookup sample_pa)) default_header_limits [sample_lb2, sample_lb] [])"
proof (rule MapSnapshot_order_independent)
  show "distinct (map item_name (snapshot_items [sample_lb, sample_lb2] []))" by code_simp
  show "om_Namespace (lb_Meta lb) = ''a''" if "lb \<in> set [sample_lb, sample_lb2]" for lb
    using that by (auto simp: sample_lb_def sample_lb2_def)
  show "om_Namespace (r_Meta r) = ''a''" if "r \<in> set []" for r using that by simp
qed simp_all

text \<open>\<^verbatim>\<open>dedupListenersByAddress\<close> keeps a subset of the listeners with pairwise different bind
  addresses, loses no address, keeps the first listener of every address in the given order, and changes
  nothing if the addresses differ already.\<close>

theorem dedupListenersByAddress_first_wins:
  "distinct (map listener_address_key (dedupListenersByAddress ls)) \<and>
   listener_address_key ` set (dedupListenersByAddress ls) = listener_address_key ` set ls \<and>
   (\<forall>l \<in> set (dedupListenersByAddress ls).
      find (\<lambda>l'. listener_address_key l' = listener_address_key l) ls = Some l) \<and>
   (distinct (map listener_address_key ls) \<longrightarrow> dedupListenersByAddress ls = ls)"
  using dedup_distinct [of ls] dedup_covers [of ls] dedup_id [of ls] dedup_first [of _ ls] by blast

theorem dedupListenersByAddress_first_wins_witness:
  "let l1 = makeTCPListener ''x'' ''x'' 10 None; l2 = makeTCPListener ''y'' ''y'' 10 None; l3 = makeUDPListener ''z'' ''z'' 10 None
   in dedupListenersByAddress [l1, l2, l3] = [l1, l3] \<and>
      find (\<lambda>l'. listener_address_key l' = listener_address_key l1) [l1, l2, l3] = Some l1 \<and>
      dedupListenersByAddress [l1, l3] = [l1, l3]"
proof -
  let ?l1 = "makeTCPListener ''x'' ''x'' 10 None" and ?l2 = "makeTCPListener ''y'' ''y'' 10 None"
    and ?l3 = "makeUDPListener ''z'' ''z'' 10 None"
  have d: "dedupListenersByAddress [?l1, ?l2, ?l3] = [?l1, ?l3]" by code_simp
  have a: "distinct (map listener_address_key [?l1, ?l3])" by code_simp
  show ?thesis
    using dedupListenersByAddress_first_wins [of "[?l1, ?l2, ?l3]"] dedupListenersByAddress_first_wins [of "[?l1, ?l3]"] d a
    unfolding Let_def by (metis list.set_intros(1))
qed

text \<open>C35. Two routes of a tenant with the same original name but different origin namespaces that share a
  backend service have resources of different names, but one port lookup key: their listeners for a port of
  the service always bind the same address, so at most one of the two survives the deduplication. (The key
  \<^verbatim>\<open>EnvoyEndpointRoutePattern\<close> lacks the origin namespace that \<^verbatim>\<open>EnvoyRoutePortIdentifierPattern\<close> has.)\<close>

theorem same_named_routes_share_listener_address:
  assumes "om_Namespace (r_Meta r1) = om_Namespace (r_Meta r2)"
    and "getOriginalRouteName r1 = getOriginalRouteName r2"
    and "getOriginalRouteNamespace r1 \<noteq> getOriginalRouteNamespace r2"
    and "route_listener look limits r1 svc p = Some l1" and "route_listener look limits r2 svc p = Some l2"
  shows "li_Name l1 \<noteq> li_Name l2 \<and> listener_address_key l1 = listener_address_key l2 \<and>
         \<not> {l1, l2} \<subseteq> set (dedupListenersByAddress ls)"
proof -
  have names: "li_Name l1 = route_resource_key r1 svc p" "li_Name l2 = route_resource_key r2 svc p"
    and addr: "li_Address l1 = li_Address l2"
    using assms(1,2,4,5)
    by (auto simp: route_listener_def makeRouteListener_def route_listener_port_def route_svc_key_def split: if_splits)
  have ne: "li_Name l1 \<noteq> li_Name l2"
    using assms(1-3) by (simp add: names route_resource_key_def EnvoyRoutePortIdentifier_def)
  have key: "listener_address_key l1 = listener_address_key l2"
    using addr by (simp add: listener_address_key_def)
  have "\<not> {l1, l2} \<subseteq> set (dedupListenersByAddress ls)"
  proof
    assume "{l1, l2} \<subseteq> set (dedupListenersByAddress ls)"
    then have "find (\<lambda>l'. listener_address_key l' = listener_address_key l2) ls = Some l1"
      "find (\<lambda>l'. listener_address_key l' = listener_address_key l2) ls = Some l2"
      using dedup_first [of l1 ls, unfolded key] dedup_first [of l2 ls] by simp_all
    then show False using ne by simp
  qed
  with ne key show ?thesis by (intro conjI)
qed

definition sample_route :: "string \<Rightarrow> route" where
  "sample_route origin_ns =
     \<lparr> r_Meta = \<lparr> om_Name = ''u'', om_Namespace = ''tenant-t'', om_UID = ''u'', om_Labels = [], om_Annotations = None \<rparr>,
       r_Spec = \<lparr> rs_Endpoints = [],
         rs_Kubernetes = Some \<lparr> ks_Route = \<lparr> us_APIVersion = ''v1'', us_Kind = ''Ingress'', us_Name = ''web'',
             us_Namespace = origin_ns, us_UID = [], us_Labels = [], us_Annotations = [],
             us_OwnerReferences = [], us_Spec = [], us_Status = [] \<rparr>, ks_Services = [sample_svc] \<rparr> \<rparr>,
       r_Status = \<lparr> rt_Services = None, rt_Route = \<lparr> rst_APIVersion = [], rst_Kind = [], rst_Name = [], rst_Namespace = [],
         rst_GeneratedName = [], rst_Status = [], rst_Conditions = [] \<rparr> \<rparr> \<rparr>"

theorem same_named_routes_share_listener_address_witness:
  "let p = \<lparr> sp_Name = [], sp_Protocol = ''TCP'', sp_Port = 80, sp_TargetPort = IntPort 80, sp_NodePort = 30000 \<rparr>;
       l1 = the (route_listener (\<lambda>_ _. (10005, True)) default_header_limits (sample_route ''a'') sample_svc p);
       l2 = the (route_listener (\<lambda>_ _. (10005, True)) default_header_limits (sample_route ''b'') sample_svc p)
   in listener_address_key l1 = listener_address_key l2 \<and> \<not> {l1, l2} \<subseteq> set (dedupListenersByAddress [l1, l2])"
proof -
  let ?p = "\<lparr> sp_Name = [], sp_Protocol = ''TCP'', sp_Port = 80, sp_TargetPort = IntPort 80, sp_NodePort = 30000 \<rparr>"
  let ?l = "\<lambda>n. route_listener (\<lambda>_ _. (10005, True)) default_header_limits (sample_route n) sample_svc ?p"
  have some: "?l n = Some (the (?l n))" for n
    by (simp add: route_listener_def makeRouteListener_def ProtocolTCP_def)
  have orig: "getOriginalRouteName (sample_route n) = ''web''"
    "om_Namespace (r_Meta (sample_route n)) = ''tenant-t''" for n
    by (simp_all add: getOriginalRouteName_def sample_route_def)
  have ns: "getOriginalRouteNamespace (sample_route ''a'') \<noteq> getOriginalRouteNamespace (sample_route ''b'')"
    by (simp add: getOriginalRouteNamespace_def sample_route_def)
  have "om_Namespace (r_Meta (sample_route ''a'')) = om_Namespace (r_Meta (sample_route ''b''))"
    "getOriginalRouteName (sample_route ''a'') = getOriginalRouteName (sample_route ''b'')"
    by (simp_all add: orig)
  from same_named_routes_share_listener_address [OF this ns some some, of "[the (?l ''a''), the (?l ''b'')]"]
  show ?thesis unfolding Let_def by blast
qed

end
