(* ===== verification/LB_Controller.thy ===== *)
theory LB_Controller
  imports Load_Balancer Ingress_Converter Kube_Api
begin

text \<open>
  The controller of LoadBalancer objects in the management cluster
  (\<^verbatim>\<open>internal/controllers/kubelb/loadbalancer_controller.go\<close>): finalizers, port allocation, the exposing
  Service, the hostname with its Ingress (\<^verbatim>\<open>internal/resources/ingress\<close>) or HTTPRoute
  (\<^verbatim>\<open>internal/resources/gatewayapi/httproute\<close>), and the status that the port allocator is rebuilt from after
  a restart.

  The API server, the DNS and TLS probes and the random sources are arguments. The state is the pair of the port
  allocator and the cluster. A status write that \<^verbatim>\<open>retry.RetryOnConflict\<close> repeats is its last attempt. Owner
  references, metrics and log lines are left out.
\<close>

section \<open>Objects\<close>

record lb_ingress =
  lbi_IP :: string
  lbi_Hostname :: string

record managed_lb =
  ml_LB :: load_balancer
  ml_Finalizers :: "string list"
  ml_Deleting :: bool
  ml_Ingress :: "lb_ingress list"

record exposed_service = service +
  es_LoadBalancerClass :: "string option"
  es_Ingress :: "lb_ingress list"

record kind_ref = backend_ref +
  kr_Kind :: "string option"

record hostname_route =
  hro_Meta :: object_meta
  hro_ParentRefs :: "parent_ref list"
  hro_Hostnames :: "string list"
  hro_Rules :: "kind_ref list list"

record 's tenant_api =
  ta_getTenant :: "string \<Rightarrow> 's \<Rightarrow> tenant_spec get_result"
  ta_getConfig :: "nsname \<Rightarrow> 's \<Rightarrow> config_spec get_result"

record 's lb_api = "'s tenant_api" +
  la_LBs :: "('s, managed_lb) crud"
  la_updateStatus :: "managed_lb \<Rightarrow> 's \<Rightarrow> 's \<times> string option"
  la_listLBs :: "string \<Rightarrow> 's \<Rightarrow> string + managed_lb list"
  la_listAllLBs :: "'s \<Rightarrow> string + managed_lb list"
  la_Services :: "('s, exposed_service) crud"
  la_Ingresses :: "('s, ingress) crud"
  la_HTTPRoutes :: "('s, hostname_route) crud"
  la_resolves :: "string \<Rightarrow> 's \<Rightarrow> bool"
  la_tlsWorks :: "string \<Rightarrow> 's \<Rightarrow> bool"
  la_deepEqual :: "strmap \<Rightarrow> strmap \<Rightarrow> bool"

definition CleanupFinalizer :: string where "CleanupFinalizer = ''kubelb.k8c.io/cleanup''"
definition envoyProxyCleanupFinalizer :: string where "envoyProxyCleanupFinalizer = ''kubelb.k8c.io/cleanup-envoy-proxy''"
definition hostnameCleanupFinalizer :: string where "hostnameCleanupFinalizer = ''kubelb.k8c.io/cleanup-hostname''"
definition LabelLoadBalancerName :: string where "LabelLoadBalancerName = ''kubelb.k8c.io/lb-name''"
definition LabelLoadBalancerNamespace :: string where "LabelLoadBalancerNamespace = ''kubelb.k8c.io/lb-namespace''"
definition DefaultConfigResourceName :: string where "DefaultConfigResourceName = ''default''"

definition envoyResourceName :: "string \<Rightarrow> string" where
  "envoyResourceName name = ''envoy-'' @ name"

definition tenantNamespace :: "string \<Rightarrow> string" where
  "tenantNamespace name = ''tenant-'' @ name"

definition RemoveTenantPrefix :: "string \<Rightarrow> string" where
  "RemoveTenantPrefix namespace = (if has_prefix namespace ''tenant-'' then trim_prefix namespace ''tenant-'' else namespace)"

section \<open>Tenant and Config (shared.go)\<close>

definition GetTenant :: "('s, 'b) tenant_api_scheme \<Rightarrow> string \<Rightarrow> 's \<Rightarrow> string + tenant_spec" where
  "GetTenant api tenantName s =
     (case ta_getTenant api tenantName s of Found t \<Rightarrow> Inr t | NotFound \<Rightarrow> Inl ''not found'' | GetError e \<Rightarrow> Inl e)"

definition GetConfig :: "('s, 'b) tenant_api_scheme \<Rightarrow> string \<Rightarrow> 's \<Rightarrow> string + config_spec" where
  "GetConfig api configNamespace s =
     (case ta_getConfig api (configNamespace, DefaultConfigResourceName) s of
        Found c \<Rightarrow> Inr c | NotFound \<Rightarrow> Inr DefaultConfig | GetError e \<Rightarrow> Inl e)"

definition GetTenantAndConfig :: "('s, 'b) tenant_api_scheme \<Rightarrow> string \<Rightarrow> string \<Rightarrow> 's \<Rightarrow> string + tenant_spec \<times> config_spec" where
  "GetTenantAndConfig api configNamespace tenantName s =
     (case GetTenant api tenantName s of
        Inl e \<Rightarrow> Inl e
      | Inr t \<Rightarrow> (case GetConfig api configNamespace s of Inl e \<Rightarrow> Inl e | Inr c \<Rightarrow> Inr (t, c)))"

section \<open>The exposing Service\<close>

definition service_key :: "'a service_scheme \<Rightarrow> nsname" where
  "service_key svc = (om_Namespace (svc_Meta svc), om_Name (svc_Meta svc))"

definition desired_service ::
  "load_balancer \<Rightarrow> string \<Rightarrow> string \<Rightarrow> string \<Rightarrow> string option \<Rightarrow> annotation_settings \<Rightarrow> exposed_service" where
  "desired_service lb svcName appName namespace className annotations =
     (let meta = lb_Meta lb
      in \<lparr> svc_APIVersion = [], svc_Kind = [],
           svc_Meta = \<lparr> om_Name = svcName, om_Namespace = namespace, om_UID = [],
             om_Labels = [(LabelAppKubernetesName, appName), (LabelManagedBy, LabelControllerName),
               (LabelLoadBalancerName, om_Name meta), (LabelLoadBalancerNamespace, om_Namespace meta),
               (LabelOriginNamespace, str_at (om_Labels meta) LabelOriginNamespace),
               (LabelOriginName, str_at (om_Labels meta) LabelOriginName)],
             om_Annotations = Some (PropagateAnnotations (annots meta) annotations AnnotatedResourceService) \<rparr>,
           svc_Spec = \<lparr> ss_Ports = [], ss_Type = ls_Type (lb_Spec lb), ss_ClusterIP = [], ss_ClusterIPs = [],
             ss_Selector = [(LabelAppKubernetesName, appName)], ss_SessionAffinity = [],
             ss_ExternalTrafficPolicy = ls_ExternalTrafficPolicy (lb_Spec lb), ss_InternalTrafficPolicy = None,
             ss_IPFamilies = [], ss_IPFamilyPolicy = None \<rparr>,
           es_LoadBalancerClass = className, es_Ingress = [] \<rparr>)"

definition service_outdated :: "(strmap \<Rightarrow> strmap \<Rightarrow> bool) \<Rightarrow> exposed_service \<Rightarrow> exposed_service \<Rightarrow> bool" where
  "service_outdated deepEqual existing desired \<longleftrightarrow>
     ss_Ports (svc_Spec existing) \<noteq> ss_Ports (svc_Spec desired) \<or>
     \<not> deepEqual (ss_Selector (svc_Spec existing)) (ss_Selector (svc_Spec desired)) \<or>
     ss_Type (svc_Spec existing) \<noteq> ss_Type (svc_Spec desired) \<or>
     ss_ExternalTrafficPolicy (svc_Spec existing) \<noteq> ss_ExternalTrafficPolicy (svc_Spec desired) \<or>
     es_LoadBalancerClass existing \<noteq> es_LoadBalancerClass desired \<or>
     \<not> deepEqual (om_Labels (svc_Meta existing)) (om_Labels (svc_Meta desired)) \<or>
     \<not> CompareAnnotations deepEqual (om_Annotations (svc_Meta existing)) (om_Annotations (svc_Meta desired))"

datatype 'a outcome = Done 'a | Failed string | Panic

definition service_with_ports :: "exposed_service \<Rightarrow> service_port list \<Rightarrow> strmap \<Rightarrow> exposed_service" where
  "service_with_ports desired ports existingAnnotations =
     desired\<lparr> svc_Spec := (svc_Spec desired)\<lparr> ss_Ports := ports \<rparr>,
             svc_Meta := (svc_Meta desired)\<lparr> om_Annotations :=
               Some (ReconcileAnnotations existingAnnotations (annots (svc_Meta desired))) \<rparr> \<rparr>"

definition overwrite_service :: "exposed_service \<Rightarrow> exposed_service \<Rightarrow> exposed_service" where
  "overwrite_service existing svc =
     existing\<lparr> svc_Spec := svc_Spec svc, es_LoadBalancerClass := es_LoadBalancerClass svc,
              svc_Meta := (svc_Meta existing)\<lparr> om_Labels := om_Labels (svc_Meta svc),
                                               om_Annotations := om_Annotations (svc_Meta svc) \<rparr> \<rparr>"

definition reconcileService ::
  "'s lb_api \<Rightarrow> load_balancer \<Rightarrow> string \<Rightarrow> string \<Rightarrow> string \<Rightarrow> port_allocator \<Rightarrow> string option \<Rightarrow> annotation_settings \<Rightarrow>
   's \<Rightarrow> unit outcome \<times> 's" where
  "reconcileService api lb svcName appName namespace pa className annotations s =
     (let desired = desired_service lb svcName appName namespace className annotations
      in case c_get (la_Services api) (namespace, svcName) s of
           GetError e \<Rightarrow> (Failed e, s)
         | NotFound \<Rightarrow>
             (case CreateServicePorts lb [] (Lookup pa) of
                None \<Rightarrow> (Panic, s)
              | Some ports \<Rightarrow>
                  (case c_create (la_Services api) (service_with_ports desired ports []) s of
                     (s', None) \<Rightarrow> (Done (), s')
                   | (s', Some e) \<Rightarrow> (Failed (''failed to create service: '' @ e), s')))
         | Found existing \<Rightarrow>
             (case CreateServicePorts lb (ss_Ports (svc_Spec existing)) (Lookup pa) of
                None \<Rightarrow> (Panic, s)
              | Some ports \<Rightarrow>
                  (let svc = service_with_ports desired ports (annots (svc_Meta existing))
                   in if service_outdated (la_deepEqual api) existing svc then
                        (case c_update (la_Services api) (overwrite_service existing svc) s of
                           (s', None) \<Rightarrow> (Done (), s')
                         | (s', Some e) \<Rightarrow> (Failed (''failed to update service: '' @ e), s'))
                      else (Done (), s))))"

section \<open>Hostname resources\<close>

text \<open>Creating or updating an object whose annotations are merged with the existing ones. \<open>same\<close> compares the spec
  and the labels.\<close>

definition merge_and_write ::
  "('s, 'o) crud \<Rightarrow> (strmap \<Rightarrow> strmap \<Rightarrow> bool) \<Rightarrow> string \<Rightarrow> nsname \<Rightarrow> 'o \<Rightarrow> ('o \<Rightarrow> strmap option) \<Rightarrow>
   ('o \<Rightarrow> 'o \<Rightarrow> bool) \<Rightarrow> ('o \<Rightarrow> strmap option \<Rightarrow> 'o) \<Rightarrow> 's \<Rightarrow> string option \<times> 's" where
  "merge_and_write c deepEqual kind key obj annotations_of same overwrite s =
     (case c_get c key s of
        GetError e \<Rightarrow> (Some (''failed to get '' @ kind @ '': '' @ e), s)
      | NotFound \<Rightarrow>
          (case c_create c obj s of
             (s', None) \<Rightarrow> (None, s') | (s', Some e) \<Rightarrow> (Some (''failed to create '' @ kind @ '': '' @ e), s'))
      | Found existing \<Rightarrow>
          (let merged = MergeAnnotations deepEqual (annotations_of existing) (annotations_of obj)
           in if same existing obj \<and> CompareAnnotations deepEqual (annotations_of existing) merged then (None, s)
              else (case c_update c (overwrite existing merged) s of
                      (s', None) \<Rightarrow> (None, s')
                    | (s', Some e) \<Rightarrow> (Some (''failed to update '' @ kind @ '': '' @ e), s'))))"

definition hostname_labels :: "load_balancer \<Rightarrow> strmap" where
  "hostname_labels lb = [(LabelLoadBalancerName, om_Name (lb_Meta lb)), (LabelLoadBalancerNamespace, om_Namespace (lb_Meta lb))]"

definition hostname_ingress ::
  "load_balancer \<Rightarrow> int \<Rightarrow> string \<Rightarrow> string \<Rightarrow> tenant_spec \<Rightarrow> config_spec \<Rightarrow> annotation_settings \<Rightarrow> ingress" where
  "hostname_ingress lb port svcName hostname tenant config annotations =
     (let meta = lb_Meta lb; ingressName = om_Name meta @ ''-ingress'';
          class = (case ts_IngressClass tenant of Some c \<Rightarrow> Some c | None \<Rightarrow> cs_IngressClass config)
      in \<lparr> ing_Meta = \<lparr> om_Name = ingressName, om_Namespace = om_Namespace meta, om_UID = [], om_Labels = hostname_labels lb,
             om_Annotations = AddDNSAndCertificateAnnotations
               (Some (PropagateAnnotations (annots meta) annotations AnnotatedResourceIngress)) tenant config hostname False \<rparr>,
           ing_ClassName = class, ing_DefaultBackend = None,
           ing_Rules = [\<lparr> ir_Host = hostname, ir_HTTP = Some [\<lparr> ip_Path = ''/'', ip_PathType = Some PathTypePrefix,
             ip_Backend = \<lparr> ib_Service = Some \<lparr> sbk_Name = svcName, sbk_PortNumber = port, sbk_PortName = [] \<rparr>,
                            ib_Resource = None \<rparr> \<rparr>] \<rparr>],
           ing_TLS = [\<lparr> it_Hosts = [hostname], it_SecretName = ingressName @ ''-tls'' \<rparr>] \<rparr>)"

definition CreateIngressForHostname ::
  "'s lb_api \<Rightarrow> load_balancer \<Rightarrow> string \<Rightarrow> string \<Rightarrow> tenant_spec \<Rightarrow> config_spec \<Rightarrow> annotation_settings \<Rightarrow> 's \<Rightarrow> unit outcome \<times> 's" where
  "CreateIngressForHostname api lb svcName hostname tenant config annotations s =
     (case ls_Ports (lb_Spec lb) of
        [] \<Rightarrow> (Panic, s)
      | p # _ \<Rightarrow>
          (let ing = hostname_ingress lb (lp_Port p) svcName hostname tenant config annotations
           in case merge_and_write (la_Ingresses api) (la_deepEqual api) ''ingress''
                     (om_Namespace (lb_Meta lb), om_Name (lb_Meta lb) @ ''-ingress'') ing (\<lambda>i. om_Annotations (ing_Meta i))
                     (\<lambda>a b. ing_ClassName a = ing_ClassName b \<and> ing_DefaultBackend a = ing_DefaultBackend b \<and>
                            ing_Rules a = ing_Rules b \<and> ing_TLS a = ing_TLS b \<and>
                            la_deepEqual api (om_Labels (ing_Meta a)) (om_Labels (ing_Meta b)))
                     (\<lambda>existing ann. ing\<lparr> ing_Meta := (ing_Meta existing)\<lparr> om_Labels := om_Labels (ing_Meta ing),
                                                         om_Annotations := ann \<rparr> \<rparr>) s of
                (None, s') \<Rightarrow> (Done (), s')
              | (Some e, s') \<Rightarrow> (Failed e, s')))"

definition gateway_ref :: "object_reference \<Rightarrow> parent_ref" where
  "gateway_ref g = \<lparr> pr_Name = ref_Name g, pr_Namespace = (if ref_Namespace g \<noteq> [] then Some (ref_Namespace g) else None) \<rparr>"

definition hostname_parent :: "tenant_spec \<Rightarrow> config_spec \<Rightarrow> parent_ref option" where
  "hostname_parent tenant config =
     (case ts_DefaultGateway tenant of
        Some g \<Rightarrow> Some (gateway_ref g)
      | None \<Rightarrow> (case cs_DefaultGateway config of Some g \<Rightarrow> Some (gateway_ref g) | None \<Rightarrow> None))"

definition hostname_httproute ::
  "load_balancer \<Rightarrow> parent_ref \<Rightarrow> int \<Rightarrow> string \<Rightarrow> string \<Rightarrow> tenant_spec \<Rightarrow> config_spec \<Rightarrow> annotation_settings \<Rightarrow> hostname_route" where
  "hostname_httproute lb parent port svcName hostname tenant config annotations =
     (let meta = lb_Meta lb
      in \<lparr> hro_Meta = \<lparr> om_Name = om_Name meta @ ''-httproute'', om_Namespace = om_Namespace meta, om_UID = [],
             om_Labels = hostname_labels lb,
             om_Annotations = AddDNSAndCertificateAnnotations
               (Some (PropagateAnnotations (annots meta) annotations AnnotatedResourceHTTPRoute)) tenant config hostname True \<rparr>,
           hro_ParentRefs = [parent], hro_Hostnames = [hostname],
           hro_Rules = [[\<lparr> br_Name = svcName, br_Port = Some port, kr_Kind = Some ''Service'' \<rparr>]] \<rparr>)"

definition CreateHTTPRouteForHostname ::
  "'s lb_api \<Rightarrow> load_balancer \<Rightarrow> string \<Rightarrow> string \<Rightarrow> tenant_spec \<Rightarrow> config_spec \<Rightarrow> annotation_settings \<Rightarrow> 's \<Rightarrow> unit outcome \<times> 's" where
  "CreateHTTPRouteForHostname api lb svcName hostname tenant config annotations s =
     (case hostname_parent tenant config of
        None \<Rightarrow> (Failed ''no default gateway specified for tenant or config'', s)
      | Some parent \<Rightarrow>
          (case ls_Ports (lb_Spec lb) of
             [] \<Rightarrow> (Panic, s)
           | p # _ \<Rightarrow>
               (let route = hostname_httproute lb parent (lp_Port p) svcName hostname tenant config annotations
                in case merge_and_write (la_HTTPRoutes api) (la_deepEqual api) ''httproute''
                          (om_Namespace (lb_Meta lb), om_Name (lb_Meta lb) @ ''-httproute'') route (\<lambda>r. om_Annotations (hro_Meta r))
                          (\<lambda>a b. hro_ParentRefs a = hro_ParentRefs b \<and> hro_Hostnames a = hro_Hostnames b \<and> hro_Rules a = hro_Rules b \<and>
                                 la_deepEqual api (om_Labels (hro_Meta a)) (om_Labels (hro_Meta b)))
                          (\<lambda>existing ann. route\<lparr> hro_Meta := (hro_Meta existing)\<lparr> om_Labels := om_Labels (hro_Meta route),
                                                                om_Annotations := ann \<rparr> \<rparr>) s of
                     (None, s') \<Rightarrow> (Done (), s')
                   | (Some e, s') \<Rightarrow> (Failed e, s'))))"

section \<open>Hostname\<close>

definition lb_status_hostname :: "load_balancer \<Rightarrow> string" where
  "lb_status_hostname lb = (case lst_Hostname (lb_Status lb) of None \<Rightarrow> [] | Some h \<Rightarrow> hs_Hostname h)"

definition set_status :: "(load_balancer_status \<Rightarrow> load_balancer_status) \<Rightarrow> managed_lb \<Rightarrow> managed_lb" where
  "set_status f m = m\<lparr> ml_LB := (ml_LB m)\<lparr> lb_Status := f (lb_Status (ml_LB m)) \<rparr> \<rparr>"

text \<open>The first part of \<^verbatim>\<open>configureHostname\<close>: the hostname of the status, or a new one that is persisted
  first. \<open>random\<close> and \<open>now\<close> are as for \<open>GenerateHostname\<close>.\<close>

definition pick_hostname ::
  "'s lb_api \<Rightarrow> managed_lb \<Rightarrow> tenant_spec \<Rightarrow> config_spec \<Rightarrow> nat list option \<Rightarrow> int \<Rightarrow> 's \<Rightarrow> (string + string \<times> managed_lb) \<times> 's" where
  "pick_hostname api m tenant config random now s =
     (let lb = ml_LB m
      in if lb_status_hostname lb \<noteq> [] then (Inr (lb_status_hostname lb, m), s)
         else
           (let hostname = (if ls_Hostname (lb_Spec lb) \<noteq> [] then ls_Hostname (lb_Spec lb)
                            else GenerateHostname (ts_DNS tenant) (cs_DNS config) random now)
            in if hostname = [] then (Inr ([], m), s)
               else
                 (let m' = set_status (\<lambda>st. st\<lparr> lst_Hostname := Some \<lparr> hs_Hostname = hostname, hs_TLSEnabled = False,
                                                       hs_DNSRecordCreated = False \<rparr> \<rparr>) m
                  in case la_updateStatus api m' s of
                       (s', None) \<Rightarrow> (Inr (hostname, m'), s')
                     | (s', Some e) \<Rightarrow> (Inl (''failed to update LoadBalancer status: '' @ e), s'))))"

definition add_finalizer :: "string \<Rightarrow> managed_lb \<Rightarrow> managed_lb" where
  "add_finalizer f m = (if f \<in> set (ml_Finalizers m) then m else m\<lparr> ml_Finalizers := ml_Finalizers m @ [f] \<rparr>)"

definition remove_finalizer :: "string \<Rightarrow> managed_lb \<Rightarrow> managed_lb" where
  "remove_finalizer f m = m\<lparr> ml_Finalizers := filter (\<lambda>g. g \<noteq> f) (ml_Finalizers m) \<rparr>"

definition uses_gateway_api :: "tenant_spec \<Rightarrow> config_spec \<Rightarrow> bool" where
  "uses_gateway_api tenant config \<longleftrightarrow>
     \<not> ts_GatewayAPIDisable tenant \<and> \<not> cs_GatewayAPIDisable config \<and>
     (ts_GatewayClass tenant \<noteq> None \<or> cs_GatewayClass config \<noteq> None)"

definition configureHostname ::
  "'s lb_api \<Rightarrow> managed_lb \<Rightarrow> string \<Rightarrow> tenant_spec \<Rightarrow> config_spec \<Rightarrow> annotation_settings \<Rightarrow> nat list option \<Rightarrow> int \<Rightarrow> 's \<Rightarrow>
   (string \<times> managed_lb) outcome \<times> 's" where
  "configureHostname api m svcName tenant config annotations random now s =
     (case pick_hostname api m tenant config random now s of
        (Inl e, s1) \<Rightarrow> (Failed e, s1)
      | (Inr (hostname, m1), s1) \<Rightarrow>
          if hostname = [] then (Done ([], m1), s1)
          else
            (let m2 = add_finalizer hostnameCleanupFinalizer m1;
                 (s2, err) = (if hostnameCleanupFinalizer \<in> set (ml_Finalizers m1) then (s1, None)
                              else c_update (la_LBs api) m2 s1)
             in case err of
                  Some e \<Rightarrow> (Failed (''failed to add hostname finalizer: '' @ e), s2)
                | None \<Rightarrow>
                    (case (if uses_gateway_api tenant config
                           then CreateHTTPRouteForHostname api (ml_LB m2) svcName hostname tenant config annotations s2
                           else CreateIngressForHostname api (ml_LB m2) svcName hostname tenant config annotations s2) of
                       (Done _, s3) \<Rightarrow> (Done (hostname, m2), s3)
                     | (Failed e, s3) \<Rightarrow> (Failed e, s3)
                     | (Panic, s3) \<Rightarrow> (Panic, s3))))"

section \<open>Status\<close>

definition upstream_port :: "service_port \<Rightarrow> endpoint_port list \<Rightarrow> int" where
  "upstream_port svcPort endpointPorts =
     (case find (\<lambda>ep. ep_Name ep = sp_Name svcPort \<and> ep_Protocol ep = sp_Protocol svcPort) endpointPorts of
        Some ep \<Rightarrow> ep_Port ep | None \<Rightarrow> 0)"

definition buildServicePortStatus :: "service_port list \<Rightarrow> endpoint_port list \<Rightarrow> lb_service_port list" where
  "buildServicePortStatus svcPorts endpointPorts =
     map (\<lambda>p. service_port.extend p (lb_service_port.fields (upstream_port p endpointPorts))) svcPorts"

definition hostname_status_of :: "'s lb_api \<Rightarrow> load_balancer \<Rightarrow> string \<Rightarrow> 's \<Rightarrow> hostname_status option" where
  "hostname_status_of api lb hostname s =
     (if hostname = [] then None
      else (let h = (if lb_status_hostname lb \<noteq> [] then lb_status_hostname lb else hostname)
            in Some \<lparr> hs_Hostname = h, hs_TLSEnabled = la_tlsWorks api (''https://'' @ h) s,
                      hs_DNSRecordCreated = la_resolves api h s \<rparr>))"

definition lb_key :: "load_balancer \<Rightarrow> nsname" where
  "lb_key lb = (om_Namespace (lb_Meta lb), om_Name (lb_Meta lb))"

definition updateLoadBalancerStatus :: "'s lb_api \<Rightarrow> managed_lb \<Rightarrow> exposed_service \<Rightarrow> string \<Rightarrow> 's \<Rightarrow> string option \<times> 's" where
  "updateLoadBalancerStatus api m svc hostname s =
     (let lb = ml_LB m
      in case ls_Endpoints (lb_Spec lb) of
           [] \<Rightarrow> (None, s)
         | e # _ \<Rightarrow>
             (let updatedPorts = buildServicePortStatus (ss_Ports (svc_Spec svc)) (le_Ports e);
                  status = \<lparr> lst_ServicePorts = updatedPorts, lst_Hostname = hostname_status_of api lb hostname s \<rparr>;
                  updateStatus = (lst_ServicePorts (lb_Status lb) \<noteq> updatedPorts \<or>
                     (ls_Type (lb_Spec lb) = ''LoadBalancer'' \<and> ml_Ingress m \<noteq> es_Ingress svc) \<or>
                     lst_Hostname (lb_Status lb) \<noteq> lst_Hostname status)
              in if \<not> updateStatus then (None, s)
                 else (case c_get (la_LBs api) (lb_key lb) s of
                         NotFound \<Rightarrow> (Some ''not found'', s)
                       | GetError err \<Rightarrow> (Some err, s)
                       | Found current \<Rightarrow>
                           (let current' = (set_status (\<lambda>_. status) current)\<lparr> ml_Ingress := es_Ingress svc \<rparr>
                            in if current' = current then (None, s)
                               else (case la_updateStatus api current' s of (s', err) \<Rightarrow> (err, s'))))))"

section \<open>Clean-up\<close>

definition ignore_gone :: "delete_result \<Rightarrow> string option" where
  "ignore_gone r = (case r of DeleteError e \<Rightarrow> Some e | _ \<Rightarrow> None)"

definition cleanupHostnameResources :: "'s lb_api \<Rightarrow> load_balancer \<Rightarrow> string \<Rightarrow> 's \<Rightarrow> string option \<times> 's" where
  "cleanupHostnameResources api lb namespace s =
     (let ingressName = om_Name (lb_Meta lb) @ ''-ingress''; routeName = om_Name (lb_Meta lb) @ ''-httproute''
      in case c_delete (la_Ingresses api) (namespace, ingressName) s of (s1, r1) \<Rightarrow>
           (case ignore_gone r1 of
              Some e \<Rightarrow> (Some (''failed to delete ingress '' @ ingressName @ '': '' @ e), s1)
            | None \<Rightarrow>
                (case c_delete (la_HTTPRoutes api) (namespace, routeName) s1 of (s2, r2) \<Rightarrow>
                   (case ignore_gone r2 of
                      Some e \<Rightarrow> (Some (''failed to delete httproute '' @ routeName @ '': '' @ e), s2)
                    | None \<Rightarrow> (None, s2)))))"

definition cleanup_resources :: "'s lb_api \<Rightarrow> managed_lb \<Rightarrow> string \<Rightarrow> 's \<Rightarrow> string option \<times> 's" where
  "cleanup_resources api m namespace s =
     (let lb = ml_LB m; svcName = envoyResourceName (om_Name (lb_Meta lb));
          (err1, s1) = (if hostnameCleanupFinalizer \<in> set (ml_Finalizers m)
                        then cleanupHostnameResources api lb namespace s else (None, s))
      in case err1 of
           Some e \<Rightarrow> (Some e, s1)
         | None \<Rightarrow>
             (case c_delete (la_Services api) (namespace, svcName) s1 of (s2, r2) \<Rightarrow>
                (case ignore_gone r2 of
                   Some e \<Rightarrow> (Some (''failed to delete service '' @ svcName @ '': '' @ om_Name (lb_Meta lb) @ ''/'' @
                                    om_Namespace (lb_Meta lb) @ '' against LoadBalancer '' @ e), s2)
                 | None \<Rightarrow>
                     (case c_update (la_LBs api)
                        (remove_finalizer hostnameCleanupFinalizer (remove_finalizer envoyProxyCleanupFinalizer
                           (remove_finalizer CleanupFinalizer m))) s2 of
                        (s3, None) \<Rightarrow> (None, s3)
                      | (s3, Some e) \<Rightarrow> (Some (''failed to remove finalizer: '' @ e), s3)))))"

definition lb_cleanup ::
  "'s lb_api \<Rightarrow> managed_lb \<Rightarrow> string \<Rightarrow> port_allocator \<times> 's \<Rightarrow> unit outcome \<times> port_allocator \<times> 's" where
  "lb_cleanup api m namespace st =
     (case st of (pa, s) \<Rightarrow>
        (case cleanup_resources api m namespace s of
           (None, s') \<Rightarrow> (Done (), DeallocatePortsForLoadBalancer (ml_LB m) pa, s')
         | (Some e, s') \<Rightarrow> (Failed e, DeallocatePortsForLoadBalancer (ml_LB m) pa, s')))"

section \<open>Reconciliation\<close>

definition lb_shouldReconcile :: "tenant_spec \<Rightarrow> config_spec \<Rightarrow> bool \<times> bool" where
  "lb_shouldReconcile tenant config =
     (if cs_LoadBalancerDisable config then (False, True)
      else if ts_LoadBalancerDisable tenant then (False, True) else (True, False))"

definition lb_expose ::
  "'s lb_api \<Rightarrow> managed_lb \<Rightarrow> string \<Rightarrow> tenant_spec \<Rightarrow> config_spec \<Rightarrow> nat list option \<Rightarrow> int \<Rightarrow> port_allocator \<Rightarrow> 's \<Rightarrow>
   unit outcome \<times> 's" where
  "lb_expose api m namespace tenant config random now pa s =
     (let lb = ml_LB m; svcName = envoyResourceName (om_Name (lb_Meta lb)); annotations = GetAnnotations tenant config;
          className = (case ts_LoadBalancerClass tenant of Some c \<Rightarrow> Some c | None \<Rightarrow> cs_LoadBalancerClass config)
      in case reconcileService api lb svcName namespace namespace pa className annotations s of
           (Failed e, s1) \<Rightarrow> (Failed e, s1)
         | (Panic, s1) \<Rightarrow> (Panic, s1)
         | (Done _, s1) \<Rightarrow>
             (case c_get (la_Services api) (namespace, svcName) s1 of
                NotFound \<Rightarrow> (Failed ''not found'', s1)
              | GetError e \<Rightarrow> (Failed e, s1)
              | Found svc \<Rightarrow>
                  (case (if ShouldConfigureHostname (annots (lb_Meta lb)) (ls_Hostname (lb_Spec lb)) (ts_DNS tenant) (cs_DNS config)
                         then configureHostname api m svcName tenant config annotations random now s1
                         else (Done ([], m), s1)) of
                     (Failed e, s2) \<Rightarrow> (Failed e, s2)
                   | (Panic, s2) \<Rightarrow> (Panic, s2)
                   | (Done (hostname, m'), s2) \<Rightarrow>
                       (case updateLoadBalancerStatus api m' svc hostname s2 of
                          (None, s3) \<Rightarrow> (Done (), s3)
                        | (Some e, s3) \<Rightarrow> (Failed e, s3)))))"

text \<open>\<^verbatim>\<open>Reconcile\<close>; \<^const>\<open>None\<close> as the whole result: the allocation of ports does not return.\<close>

definition lb_Reconcile ::
  "'s lb_api \<Rightarrow> string \<Rightarrow> nsname \<Rightarrow> nat list option \<Rightarrow> int \<Rightarrow> draws \<Rightarrow> port_allocator \<times> 's \<Rightarrow>
   (unit outcome \<times> port_allocator \<times> 's) option" where
  "lb_Reconcile api configNamespace req random now rs st =
     (case st of (pa, s) \<Rightarrow>
      case c_get (la_LBs api) req s of
        NotFound \<Rightarrow> Some (Done (), pa, s)
      | GetError e \<Rightarrow> Some (Done (), pa, s)
      | Found m \<Rightarrow>
          (if ls_Endpoints (lb_Spec (ml_LB m)) = [] then Some (Done (), pa, s)
           else
             (case la_listLBs api (fst req) s of
                Inl e \<Rightarrow> Some (Failed e, pa, s)
              | Inr all \<Rightarrow>
                  (if ml_Deleting m then
                     (if envoyProxyCleanupFinalizer \<in> set (ml_Finalizers m) \<or> CleanupFinalizer \<in> set (ml_Finalizers m) \<or>
                         hostnameCleanupFinalizer \<in> set (ml_Finalizers m)
                      then Some (lb_cleanup api m (fst req) (pa, s)) else Some (Done (), pa, s))
                   else
                     (case GetTenantAndConfig api configNamespace (RemoveTenantPrefix (om_Namespace (lb_Meta (ml_LB m)))) s of
                        Inl e \<Rightarrow> Some (Failed e, pa, s)
                      | Inr (tenant, config) \<Rightarrow>
                          (case lb_shouldReconcile tenant config of (should, disabled) \<Rightarrow>
                             if CleanupFinalizer \<in> set (ml_Finalizers m) \<and> disabled then Some (lb_cleanup api m (fst req) (pa, s))
                             else if \<not> should then Some (Done (), pa, s)
                             else
                               (let m1 = (if CleanupFinalizer \<in> set (ml_Finalizers m) then m
                                          else remove_finalizer envoyProxyCleanupFinalizer (add_finalizer CleanupFinalizer m));
                                    (s1, err) = (if CleanupFinalizer \<in> set (ml_Finalizers m) then (s, None)
                                                 else c_update (la_LBs api) m1 s)
                                in case err of
                                     Some e \<Rightarrow> Some (Failed (''failed to add finalizer: '' @ e), pa, s1)
                                   | None \<Rightarrow>
                                       (case AllocatePortsForLoadBalancers (map ml_LB all) pa rs of
                                          None \<Rightarrow> None
                                        | Some (pa', _) \<Rightarrow>
                                            (case lb_expose api m1 (fst req) tenant config random now pa' s1 of
                                               (r, s2) \<Rightarrow> Some (r, pa', s2))))))))))"

section \<open>Watches\<close>

definition enqueueLoadBalancers :: "strmap \<Rightarrow> nsname list" where
  "enqueueLoadBalancers labels =
     (case map_of labels LabelLoadBalancerName of
        None \<Rightarrow> []
      | Some name \<Rightarrow>
          (case map_of labels LabelLoadBalancerNamespace of None \<Rightarrow> [] | Some namespace \<Rightarrow> [(namespace, name)]))"

definition enqueueLoadBalancersForConfig :: "'s lb_api \<Rightarrow> 's \<Rightarrow> nsname list" where
  "enqueueLoadBalancersForConfig api s =
     (case la_listAllLBs api s of Inl e \<Rightarrow> [] | Inr lbs \<Rightarrow> map (\<lambda>m. lb_key (ml_LB m)) lbs)"

definition enqueueLoadBalancersForTenant :: "'s lb_api \<Rightarrow> string \<Rightarrow> 's \<Rightarrow> nsname list" where
  "enqueueLoadBalancersForTenant api tenantName s =
     (case la_listLBs api (tenantNamespace tenantName) s of
        Inl e \<Rightarrow> [] | Inr lbs \<Rightarrow> map (\<lambda>m. lb_key (ml_LB m)) lbs)"

definition filterServicesPredicate :: "exposed_service event \<Rightarrow> bool" where
  "filterServicesPredicate e =
     (let managed = (\<lambda>svc. str_at (om_Labels (svc_Meta svc)) LabelLoadBalancerName \<noteq> [])
      in case e of
           CreateEvent svc \<Rightarrow> managed svc
         | DeleteEvent svc \<Rightarrow> managed svc
         | UpdateEvent old new \<Rightarrow> managed new \<and> es_Ingress new \<noteq> es_Ingress old
         | GenericEvent _ \<Rightarrow> False)"

section \<open>Loading what the statuses report\<close>

text \<open>A function on lookup tables that reads a status is harmless for an allocator when it only adds entries of the
  allocator's own table.\<close>

definition agrees :: "port_allocator \<Rightarrow> lookup_table \<Rightarrow> bool" where
  "agrees pa t \<longleftrightarrow> (\<forall>ek k p. table_lookup t ek k = Some p \<longrightarrow> table_lookup (portLookup pa) ek k = Some p)"

definition grows :: "(lookup_table \<Rightarrow> lookup_table) \<Rightarrow> bool" where
  "grows f \<longleftrightarrow> (\<forall>t ek k. table_lookup t ek k \<noteq> None \<longrightarrow> table_lookup (f t) ek k \<noteq> None)"

definition enters :: "(lookup_table \<Rightarrow> lookup_table) \<Rightarrow> string \<Rightarrow> string \<Rightarrow> bool" where
  "enters f ek k \<longleftrightarrow> (\<forall>t. table_lookup (f t) ek k \<noteq> None)"

lemma grows_fold: "(\<And>x. x \<in> set xs \<Longrightarrow> grows (f x)) \<Longrightarrow> grows (fold f xs)"
proof (induction xs)
  case (Cons x xs)
  then have "grows (f x)" and "grows (fold f xs)" by simp_all
  then show ?case by (simp add: grows_def)
qed (simp add: grows_def)

lemma enters_fold:
  assumes "x \<in> set xs" and "enters (f x) ek k" and "\<And>y. y \<in> set xs \<Longrightarrow> grows (f y)"
  shows "enters (fold f xs) ek k"
proof -
  from split_list [OF assms(1)] obtain ys zs where xs: "xs = ys @ x # zs" by blast
  have "grows (fold f zs)" by (rule grows_fold) (simp add: assms(3) xs)
  with assms(2) show ?thesis unfolding xs enters_def grows_def by simp
qed

lemma agrees_fold:
  assumes "\<And>x t. x \<in> set xs \<Longrightarrow> agrees pa t \<Longrightarrow> agrees pa (f x t)" and "agrees pa t"
  shows "agrees pa (fold f xs t)"
  using assms by (induction xs arbitrary: t) simp_all

lemma agrees_touch [simp]: "agrees pa (table_touch ek t) = agrees pa t"
  by (simp add: agrees_def)

lemma agrees_set: "agrees pa t \<Longrightarrow> table_lookup (portLookup pa) ek k = Some p \<Longrightarrow> agrees pa (table_set ek k p t)"
  by (auto simp: agrees_def table_lookup_set)

lemma grows_set: "grows (table_set ek k p)"
  by (simp add: grows_def table_lookup_set)

lemma grows_touch: "grows f \<Longrightarrow> grows (\<lambda>t. f (table_touch ek t))"
  by (simp add: grows_def)

lemma grows_load_lb: "grows (load_lb intValue lb)"
proof -
  have port: "grows (load_lb_port intValue ek sps q)" for ek sps q
    using grows_set by (auto simp: load_lb_port_def Let_def grows_def split: option.split)
  have "grows (load_lb_endpoint intValue lb ie)" for ie
    unfolding load_lb_endpoint_def Let_def by (intro grows_touch grows_fold port)
  then show ?thesis unfolding load_lb_def by (intro grows_fold)
qed

text \<open>When the loaded table agrees with an allocator that holds every port once, the repair removes nothing.\<close>

lemma LoadState_agrees:
  assumes "unique_ports (portLookup pa)" and "agrees pa (load_table intValue lbs routes)"
  shows "table_lookup (portLookup (fst (LoadState intValue (Inr lbs) (Inr routes) pa0))) ek k =
    table_lookup (load_table intValue lbs routes) ek k"
proof -
  let ?t = "load_table intValue lbs routes" let ?l = "portLookup (fst (LoadState intValue (Inr lbs) (Inr routes) pa0))"
  have "table_lookup ?l ek k = Some p \<longleftrightarrow> table_lookup ?t ek k = Some p" for p
  proof
    assume here: "table_lookup ?t ek k = Some p"
    have "ek \<le> ek'" if "table_lookup ?t ek' k' = Some p" for ek' k'
    proof -
      have "table_lookup (portLookup pa) ek k = Some p" "table_lookup (portLookup pa) ek' k' = Some p"
        using assms(2) here that unfolding agrees_def by blast+
      with assms(1) have "ek = ek'" unfolding unique_ports_def by blast
      then show ?thesis by simp
    qed
    with here show "table_lookup ?l ek k = Some p" unfolding LoadState_lookup by blast
  qed (simp add: LoadState_lookup)
  then show ?thesis by (metis not_None_eq)
qed

lemma Lookup_restored:
  assumes "unique_ports (portLookup pa)" and "agrees pa (load_table intValue lbs routes)"
    and "table_lookup (load_table intValue lbs routes) ek k \<noteq> None"
  shows "Lookup (fst (LoadState intValue (Inr lbs) (Inr routes) pa0)) ek k = Lookup pa ek k"
proof -
  obtain p where p: "table_lookup (load_table intValue lbs routes) ek k = Some p" using assms(3) by blast
  then have "table_lookup (portLookup pa) ek k = Some p" using assms(2) by (auto simp: agrees_def)
  with p show ?thesis unfolding Lookup_table LoadState_agrees [OF assms(1,2)] by simp
qed

section \<open>Reported ports\<close>

definition all_allocated :: "port_allocator \<Rightarrow> (string \<times> string list) list \<Rightarrow> bool" where
  "all_allocated pa reqs \<longleftrightarrow> (\<forall>(ek, keys) \<in> set reqs. \<forall>k \<in> set keys. snd (Lookup pa ek k))"

text \<open>A load balancer that was mapped from a Service and whose status is what \<^verbatim>\<open>updateLoadBalancerStatus\<close>
  writes for the ports that \<^verbatim>\<open>CreateServicePorts\<close> gives the exposing Service.\<close>

definition lb_reported :: "port_allocator \<Rightarrow> load_balancer \<Rightarrow> bool" where
  "lb_reported pa lb \<longleftrightarrow>
     (\<exists>svc addrs useRef cluster existing ports st.
        distinct (map map_port_name (ss_Ports (svc_Spec svc))) \<and>
        lb = (snd (MapLoadBalancer svc addrs useRef cluster))\<lparr> lb_Status := st \<rparr> \<and>
        CreateServicePorts lb existing (Lookup pa) = Some ports \<and>
        lst_ServicePorts st = buildServicePortStatus ports (le_Ports (hd (ls_Endpoints (lb_Spec lb)))))"

lemma find_unique: "x \<in> set xs \<Longrightarrow> P x \<Longrightarrow> (\<And>y. y \<in> set xs \<Longrightarrow> P y \<Longrightarrow> y = x) \<Longrightarrow> find P xs = Some x"
proof (induction xs)
  case (Cons a xs)
  show ?case
  proof (cases "P a")
    case True
    then have "a = x" by (rule Cons.prems(3) [OF list.set_intros(1)])
    with True show ?thesis by simp
  next
    case False
    with Cons.prems(1,2) have "x \<in> set xs" by auto
    then have "find P xs = Some x" using Cons.prems(2,3) by (intro Cons.IH) simp_all
    with False show ?thesis by simp
  qed
qed simp

lemma map_port_name_nonempty: "map_port_name port \<noteq> []"
  by (simp add: map_port_name_def to_lower_def)

lemma CreateServicePorts_status:
  "CreateServicePorts (lb\<lparr> lb_Status := st \<rparr>) existing lookup = CreateServicePorts lb existing lookup"
proof -
  have "create_service_port (lb\<lparr> lb_Status := st \<rparr>) = create_service_port lb"
    by (intro ext) (simp add: create_service_port_def Let_def)
  then show ?thesis by (simp add: CreateServicePorts_def split: list.split)
qed

lemma reported_port:
  fixes existing :: "service_port list" and lookup :: "string \<Rightarrow> string \<Rightarrow> int \<times> bool" and ek :: string and eps :: "endpoint_port list"
  assumes dist: "distinct (map map_port_name ports)" and port: "port \<in> set ports"
  defines "sps \<equiv> buildServicePortStatus (sort_key sp_Name (map (mapped_port existing lookup ek) ports)) eps"
  shows "\<exists>sp. find (status_port_matches \<lparr> ep_Name = map_port_name port, ep_Port = sp_NodePort port,
      ep_Protocol = sp_Protocol port \<rparr>) sps = Some sp \<and> sp_TargetPort sp = sp_TargetPort (mapped_port existing lookup ek port)"
proof -
  let ?m = "mapped_port existing lookup ek"
  let ?b = "\<lambda>p. service_port.extend p (lb_service_port.fields (upstream_port p eps))"
  have name: "sp_Name (?b (?m p)) = map_port_name p" "sp_Protocol (?b (?m p)) = sp_Protocol p"
      "sp_TargetPort (?b (?m p)) = sp_TargetPort (?m p)" for p
    by (simp_all add: mapped_port_def Let_def service_port.defs lb_service_port.defs)
  have set: "set sps = (\<lambda>p. ?b (?m p)) ` set ports"
    by (auto simp: sps_def buildServicePortStatus_def)
  have "find (status_port_matches \<lparr> ep_Name = map_port_name port, ep_Port = sp_NodePort port,
      ep_Protocol = sp_Protocol port \<rparr>) sps = Some (?b (?m port))"
  proof (rule find_unique)
    show "?b (?m port) \<in> set sps" using port by (simp add: set)
    show "status_port_matches \<lparr> ep_Name = map_port_name port, ep_Port = sp_NodePort port,
        ep_Protocol = sp_Protocol port \<rparr> (?b (?m port))"
      using map_port_name_nonempty by (simp add: status_port_matches_def name)
    fix y assume "y \<in> set sps" and match: "status_port_matches \<lparr> ep_Name = map_port_name port,
        ep_Port = sp_NodePort port, ep_Protocol = sp_Protocol port \<rparr> y"
    then obtain p where p: "p \<in> set ports" "y = ?b (?m p)" by (auto simp: set)
    with match have "map_port_name p = map_port_name port"
      using map_port_name_nonempty by (simp add: status_port_matches_def name)
    with dist p(1) port have "p = port" by (simp add: distinct_map inj_on_def)
    with p(2) show "y = ?b (?m port)" by simp
  qed
  then show ?thesis using name(3) by blast
qed

lemma load_reported_port:
  assumes dist: "distinct (map map_port_name ports)" and port: "port \<in> set ports"
    and inv: "pa_inv pa" and alloc: "snd (Lookup pa ek (EnvoyListenerKey (sp_NodePort port) (sp_Protocol port)))"
    and int: "\<And>n. intValue (IntPort n) = n"
  shows "\<exists>p. table_lookup (portLookup pa) ek (EnvoyListenerKey (sp_NodePort port) (sp_Protocol port)) = Some p \<and>
    load_lb_port intValue ek (buildServicePortStatus (sort_key sp_Name (map (mapped_port existing (Lookup pa) ek) ports)) eps)
      \<lparr> ep_Name = map_port_name port, ep_Port = sp_NodePort port, ep_Protocol = sp_Protocol port \<rparr> =
    table_set ek (EnvoyListenerKey (sp_NodePort port) (sp_Protocol port)) p"
proof -
  let ?k = "EnvoyListenerKey (sp_NodePort port) (sp_Protocol port)"
  obtain p where p: "Lookup pa ek ?k = (p, True)" using alloc by (metis prod.collapse)
  then have "table_lookup (portLookup pa) ek ?k = Some p" by (simp add: Lookup_table split: option.splits)
  moreover have "sp_TargetPort (mapped_port existing (Lookup pa) ek port) = IntPort p"
    using p pa.lookup_to_int32 [OF inv p] by (simp add: mapped_port_def Let_def)
  ultimately show ?thesis
    using reported_port [OF dist port, of existing "Lookup pa" ek eps] int
    by (intro exI [of _ p]) (auto simp: load_lb_port_def Let_def)
qed

lemma load_reported_lb:
  assumes rep: "lb_reported pa lb" and inv: "pa_inv pa" and alloc: "all_allocated pa (lb_requests lb)"
    and int: "\<And>n. intValue (IntPort n) = n"
  shows "agrees pa t \<Longrightarrow> agrees pa (load_lb intValue lb t)"
    and "(ek, keys) \<in> set (lb_requests lb) \<Longrightarrow> k \<in> set keys \<Longrightarrow> enters (load_lb intValue lb) ek k"
proof -
  from rep obtain svc addrs useRef cluster existing ports st where
    dist: "distinct (map map_port_name (ss_Ports (svc_Spec svc)))" and
    lb: "lb = (snd (MapLoadBalancer svc addrs useRef cluster))\<lparr> lb_Status := st \<rparr>" and
    ports: "CreateServicePorts lb existing (Lookup pa) = Some ports" and
    st: "lst_ServicePorts st = buildServicePortStatus ports (le_Ports (hd (ls_Endpoints (lb_Spec lb))))"
    unfolding lb_reported_def by blast
  let ?ps = "ss_Ports (svc_Spec svc)" let ?ek = "EnvoyEndpointKey cluster (om_UID (svc_Meta svc)) 0"
  let ?ep = "\<lambda>port. \<lparr> ep_Name = map_port_name port, ep_Port = sp_NodePort port, ep_Protocol = sp_Protocol port \<rparr>"
  let ?k = "\<lambda>port. EnvoyListenerKey (sp_NodePort port) (sp_Protocol port)"
  let ?eps = "le_Ports (hd (ls_Endpoints (lb_Spec lb)))"
  let ?sps = "buildServicePortStatus (sort_key sp_Name (map (mapped_port existing (Lookup pa) ?ek) ?ps)) ?eps"
  have sps: "lst_ServicePorts (lb_Status lb) = ?sps"
    using ports st unfolding lb CreateServicePorts_status CreateServicePorts_mapped [OF dist] by simp
  have load: "load_lb intValue lb t' = fold (load_lb_port intValue ?ek ?sps) (map ?ep ?ps) (table_touch ?ek t')" for t'
    unfolding load_lb_def load_lb_endpoint_def sps by (simp add: lb MapLoadBalancer_def Let_def)
  have reqs: "lb_requests lb = [(?ek, map ?k ?ps)]"
    by (simp add: lb_requests_def lb MapLoadBalancer_def Let_def)
  have one: "\<exists>p. table_lookup (portLookup pa) ?ek (?k port) = Some p \<and>
      load_lb_port intValue ?ek ?sps (?ep port) = table_set ?ek (?k port) p" if "port \<in> set ?ps" for port
    using alloc that by (intro load_reported_port [OF dist that inv _ int]) (simp add: reqs all_allocated_def)
  show "agrees pa (load_lb intValue lb t)" if "agrees pa t"
    unfolding load
  proof (rule agrees_fold)
    show "agrees pa (load_lb_port intValue ?ek ?sps q t')" if q: "q \<in> set (map ?ep ?ps)" and t': "agrees pa t'" for q t'
    proof -
      from q obtain port where port: "port \<in> set ?ps" "q = ?ep port" by auto
      from one [OF port(1)] t' show ?thesis unfolding port(2) by (auto intro: agrees_set)
    qed
  qed (simp add: that)
  show "enters (load_lb intValue lb) ek k" if "(ek, keys) \<in> set (lb_requests lb)" and "k \<in> set keys"
  proof -
    from that obtain port where port: "port \<in> set ?ps" "ek = ?ek" "k = ?k port" by (auto simp: reqs)
    have "enters (fold (load_lb_port intValue ?ek ?sps) (map ?ep ?ps)) ek k"
    proof (rule enters_fold)
      show "?ep port \<in> set (map ?ep ?ps)" using port(1) by simp
      show "enters (load_lb_port intValue ?ek ?sps (?ep port)) ek k"
        using one [OF port(1)] by (auto simp: enters_def table_lookup_set port)
      show "grows (load_lb_port intValue ?ek ?sps y)" if "y \<in> set (map ?ep ?ps)" for y
        using that one grows_set by force
    qed
    then show ?thesis unfolding enters_def load by blast
  qed
qed

section \<open>A pass against a well-behaved cluster\<close>

text \<open>What a pass relies on: LoadBalancers and Services are stored objects, a status write replaces the status of
  the stored object, and writing one kind leaves the other kinds alone.\<close>

definition with_status_of :: "managed_lb \<Rightarrow> managed_lb \<Rightarrow> managed_lb" where
  "with_status_of m stored = (set_status (\<lambda>_. lb_Status (ml_LB m)) stored)\<lparr> ml_Ingress := ml_Ingress m \<rparr>"

definition managed_key :: "managed_lb \<Rightarrow> nsname" where
  "managed_key m = lb_key (ml_LB m)"

definition lb_gone :: "managed_lb \<Rightarrow> bool" where
  "lb_gone m \<longleftrightarrow> ml_Deleting m \<and> ml_Finalizers m = []"

definition lb_held :: "managed_lb \<Rightarrow> managed_lb option" where
  "lb_held m = (if ml_Finalizers m = [] then None else Some (m\<lparr> ml_Deleting := True \<rparr>))"

locale lb_cluster =
  lbs: finalized_store "la_LBs api" managed_key lb_gone lb_held + svcs: object_store "la_Services api" service_key
  for api :: "'s lb_api" +
  assumes status_get: "la_updateStatus api m s = (s', None) \<Longrightarrow>
      c_get (la_LBs api) k s' = (if k = managed_key m then
        (case c_get (la_LBs api) k s of Found stored \<Rightarrow> Found (with_status_of m stored) | r \<Rightarrow> r) else c_get (la_LBs api) k s)"
    and lb_frame: "c_update (la_LBs api) m s = (s', r) \<Longrightarrow> c_get (la_Services api) k s' = c_get (la_Services api) k s"
    and status_frame: "la_updateStatus api m s = (s', r) \<Longrightarrow> c_get (la_Services api) k s' = c_get (la_Services api) k s"
    and svc_create_frame: "c_create (la_Services api) x s = (s', r) \<Longrightarrow> c_get (la_LBs api) k s' = c_get (la_LBs api) k s"
    and svc_update_frame: "c_update (la_Services api) x s = (s', r) \<Longrightarrow> c_get (la_LBs api) k s' = c_get (la_LBs api) k s"
    and ing_frame: "c_create (la_Ingresses api) y s = (s', r) \<or> c_update (la_Ingresses api) y s = (s', r) \<Longrightarrow>
      c_get (la_LBs api) k s' = c_get (la_LBs api) k s \<and> c_get (la_Services api) k s' = c_get (la_Services api) k s"
    and route_frame: "c_create (la_HTTPRoutes api) z s = (s', r) \<or> c_update (la_HTTPRoutes api) z s = (s', r) \<Longrightarrow>
      c_get (la_LBs api) k s' = c_get (la_LBs api) k s \<and> c_get (la_Services api) k s' = c_get (la_Services api) k s"
begin

lemma reconcileService_done:
  assumes run: "reconcileService api lb svcName appName namespace pa className annotations s = (Done (), s')"
  shows "\<exists>existing ports svc. CreateServicePorts lb existing (Lookup pa) = Some ports \<and>
    c_get (la_Services api) (namespace, svcName) s' = Found svc \<and> ss_Ports (svc_Spec svc) = ports"
proof -
  let ?d = "desired_service lb svcName appName namespace className annotations"
  have key: "service_key (service_with_ports ?d ports ann) = (namespace, svcName)" for ports ann
    by (simp add: service_key_def service_with_ports_def desired_service_def Let_def)
  have sp: "ss_Ports (svc_Spec (service_with_ports ?d ports ann)) = ports" for ports ann
    by (simp add: service_with_ports_def)
  show ?thesis
  proof (cases "c_get (la_Services api) (namespace, svcName) s")
    case NotFound
    then obtain ports where ports: "CreateServicePorts lb [] (Lookup pa) = Some ports"
        "c_create (la_Services api) (service_with_ports ?d ports []) s = (s', None)"
      using run by (auto simp: reconcileService_def Let_def split: option.splits prod.splits)
    from svcs.create_get [OF ports(2)] have
      "c_get (la_Services api) (namespace, svcName) s' = Found (service_with_ports ?d ports [])" by (simp add: key)
    then show ?thesis using ports(1) sp by blast
  next
    case (Found existing)
    have k: "service_key existing = (namespace, svcName)" by (rule svcs.get_key [OF Found])
    from run Found obtain ports where ports: "CreateServicePorts lb (ss_Ports (svc_Spec existing)) (Lookup pa) = Some ports"
      by (auto simp: reconcileService_def Let_def split: option.splits)
    let ?svc = "service_with_ports ?d ports (annots (svc_Meta existing))"
    show ?thesis
    proof (cases "service_outdated (la_deepEqual api) existing ?svc")
      case True
      then have "c_update (la_Services api) (overwrite_service existing ?svc) s = (s', None)"
        using run Found ports by (auto simp: reconcileService_def Let_def split: option.splits prod.splits)
      from svcs.update_get [OF this] have
        "c_get (la_Services api) (namespace, svcName) s' = Found (overwrite_service existing ?svc)"
        using k by (simp add: service_key_def overwrite_service_def)
      moreover have "ss_Ports (svc_Spec (overwrite_service existing ?svc)) = ports" by (simp add: overwrite_service_def sp)
      ultimately show ?thesis using ports by blast
    next
      case False
      then have "s' = s" using run Found ports by (simp add: reconcileService_def Let_def)
      moreover have "ss_Ports (svc_Spec existing) = ports" using False by (simp add: service_outdated_def sp)
      ultimately show ?thesis using Found ports by blast
    qed
  next
    case GetError
    then show ?thesis using run by (simp add: reconcileService_def Let_def)
  qed
qed

lemma reconcileService_frame:
  assumes run: "reconcileService api lb svcName appName namespace pa className annotations s = (r, s')"
  shows "c_get (la_LBs api) k s' = c_get (la_LBs api) k s"
  using run unfolding reconcileService_def Let_def
  by (auto split: get_result.splits option.splits prod.splits if_splits dest: svc_create_frame svc_update_frame)

lemma merge_and_write_frame:
  assumes "merge_and_write c deepEqual kind key obj annotations_of same overwrite s = (r, s')"
    and "\<And>x s s' r. c_create c x s = (s', r) \<Longrightarrow> view s' = view s"
    and "\<And>x s s' r. c_update c x s = (s', r) \<Longrightarrow> view s' = view s"
  shows "view s' = view s"
  using assms(1) unfolding merge_and_write_def Let_def
  by (auto split: get_result.splits option.splits prod.splits if_splits dest: assms(2,3))

lemma hostname_ingress_frame:
  assumes "CreateIngressForHostname api lb svcName hostname tenant config annotations s = (r, s')"
  shows "c_get (la_LBs api) k s' = c_get (la_LBs api) k s \<and> c_get (la_Services api) k s' = c_get (la_Services api) k s"
proof -
  let ?v = "\<lambda>s. (c_get (la_LBs api) k s, c_get (la_Services api) k s)"
  have f: "c_create (la_Ingresses api) y s = (s', q) \<Longrightarrow> ?v s' = ?v s"
      "c_update (la_Ingresses api) y s = (s', q) \<Longrightarrow> ?v s' = ?v s" for y s s' q
    using ing_frame by (metis prod.inject)+
  have "?v s' = ?v s"
    using assms by (auto simp: CreateIngressForHostname_def Let_def split: list.splits prod.splits option.splits
        dest!: merge_and_write_frame [where view = ?v, OF _ f])
  then show ?thesis by simp
qed

lemma hostname_route_frame:
  assumes "CreateHTTPRouteForHostname api lb svcName hostname tenant config annotations s = (r, s')"
  shows "c_get (la_LBs api) k s' = c_get (la_LBs api) k s \<and> c_get (la_Services api) k s' = c_get (la_Services api) k s"
proof -
  let ?v = "\<lambda>s. (c_get (la_LBs api) k s, c_get (la_Services api) k s)"
  have f: "c_create (la_HTTPRoutes api) y s = (s', q) \<Longrightarrow> ?v s' = ?v s"
      "c_update (la_HTTPRoutes api) y s = (s', q) \<Longrightarrow> ?v s' = ?v s" for y s s' q
    using route_frame by (metis prod.inject)+
  have "?v s' = ?v s"
    using assms by (auto simp: CreateHTTPRouteForHostname_def Let_def split: list.splits prod.splits option.splits
        dest!: merge_and_write_frame [where view = ?v, OF _ f])
  then show ?thesis by simp
qed

text \<open>The object in memory stays the stored one, with the same spec.\<close>

definition in_sync :: "managed_lb \<Rightarrow> managed_lb \<Rightarrow> 's \<Rightarrow> bool" where
  "in_sync m0 m s \<longleftrightarrow> c_get (la_LBs api) (managed_key m0) s = Found m \<and> managed_key m = managed_key m0 \<and>
     lb_Spec (ml_LB m) = lb_Spec (ml_LB m0) \<and> lb_Meta (ml_LB m) = lb_Meta (ml_LB m0) \<and> ml_Deleting m = ml_Deleting m0"

lemma pick_hostname_sync:
  assumes "pick_hostname api m tenant config random now s = (Inr (hostname, m'), s')" and "in_sync m0 m s"
  shows "in_sync m0 m' s' \<and> (\<forall>k. c_get (la_Services api) k s' = c_get (la_Services api) k s)"
proof (cases "m' = m \<and> s' = s")
  case False
  let ?m' = "set_status (\<lambda>st. st\<lparr> lst_Hostname := Some \<lparr> hs_Hostname = hostname, hs_TLSEnabled = False,
      hs_DNSRecordCreated = False \<rparr> \<rparr>) m"
  have up: "la_updateStatus api ?m' s = (s', None)" "m' = ?m'"
    using assms(1) False by (auto simp: pick_hostname_def Let_def split: if_splits prod.splits option.splits)
  have key: "managed_key ?m' = managed_key m" by (simp add: managed_key_def set_status_def lb_key_def)
  have "with_status_of ?m' m = ?m'" by (simp add: with_status_of_def set_status_def)
  with assms(2) have "c_get (la_LBs api) (managed_key m0) s' = Found ?m'"
    unfolding status_get [OF up(1)] by (simp add: in_sync_def key)
  then show ?thesis using assms(2) key status_frame [OF up(1)] unfolding up(2)
    by (simp add: in_sync_def set_status_def)
qed (use assms in simp)

lemma update_sync:
  assumes "c_update (la_LBs api) m' s = (s', None)" and "in_sync m0 m s" and "ml_LB m' = ml_LB m" and "ml_Deleting m' = ml_Deleting m" and "\<not> lb_gone m'"
  shows "in_sync m0 m' s' \<and> (\<forall>k. c_get (la_Services api) k s' = c_get (la_Services api) k s)"
  using lbs.update_get [OF assms(1)] assms(2-5) lb_frame [OF assms(1)] by (simp add: in_sync_def managed_key_def)

lemma configureHostname_sync:
  assumes run: "configureHostname api m svcName tenant config annotations random now s = (Done (hostname, m'), s')"
    and sync: "in_sync m0 m s"
  shows "in_sync m0 m' s' \<and> (\<forall>k. c_get (la_Services api) k s' = c_get (la_Services api) k s)"
proof -
  obtain h m1 s1 where pick: "pick_hostname api m tenant config random now s = (Inr (h, m1), s1)"
    using run by (auto simp: configureHostname_def split: prod.splits sum.splits)
  note one = pick_hostname_sync [OF pick sync]
  show ?thesis
  proof (cases "h = []")
    case True
    then show ?thesis using run pick one by (simp add: configureHostname_def)
  next
    case False
    let ?m2 = "add_finalizer hostnameCleanupFinalizer m1"
    obtain s2 where two: "(if hostnameCleanupFinalizer \<in> set (ml_Finalizers m1) then (s1, None)
        else c_update (la_LBs api) ?m2 s1) = (s2, None)" and m': "m' = ?m2"
      and three: "CreateIngressForHostname api (ml_LB ?m2) svcName h tenant config annotations s2 = (Done (), s') \<or>
        CreateHTTPRouteForHostname api (ml_LB ?m2) svcName h tenant config annotations s2 = (Done (), s')"
      using run pick False
      by (auto simp: configureHostname_def Let_def split: prod.splits option.splits outcome.splits if_splits)
    have "in_sync m0 ?m2 s2 \<and> (\<forall>k. c_get (la_Services api) k s2 = c_get (la_Services api) k s1)"
    proof (cases "hostnameCleanupFinalizer \<in> set (ml_Finalizers m1)")
      case True
      then show ?thesis using two one by (simp add: add_finalizer_def)
    next
      case False
      then have "c_update (la_LBs api) ?m2 s1 = (s2, None)" using two by simp
      moreover have "ml_LB ?m2 = ml_LB m1" and "ml_Deleting ?m2 = ml_Deleting m1" and "\<not> lb_gone ?m2" using False by (simp_all add: add_finalizer_def lb_gone_def)
      ultimately show ?thesis using update_sync one by blast
    qed
    moreover have "c_get (la_LBs api) k s' = c_get (la_LBs api) k s2 \<and> c_get (la_Services api) k s' = c_get (la_Services api) k s2" for k
      using three hostname_ingress_frame hostname_route_frame by blast
    ultimately show ?thesis using one unfolding m' in_sync_def by simp
  qed
qed

lemma updateLoadBalancerStatus_sync:
  assumes run: "updateLoadBalancerStatus api m svc hostname s = (None, s')" and sync: "in_sync m0 m s"
    and ends: "ls_Endpoints (lb_Spec (ml_LB m)) = e # es"
  shows "(\<exists>m'. in_sync m0 m' s' \<and> lst_ServicePorts (lb_Status (ml_LB m')) =
      buildServicePortStatus (ss_Ports (svc_Spec svc)) (le_Ports e)) \<and>
    (\<forall>k. c_get (la_Services api) k s' = c_get (la_Services api) k s)"
proof -
  let ?ports = "buildServicePortStatus (ss_Ports (svc_Spec svc)) (le_Ports e)"
  let ?st = "\<lparr> lst_ServicePorts = ?ports, lst_Hostname = hostname_status_of api (ml_LB m) hostname s \<rparr>"
  let ?m' = "(set_status (\<lambda>_. ?st) m)\<lparr> ml_Ingress := es_Ingress svc \<rparr>"
  have stored: "c_get (la_LBs api) (lb_key (ml_LB m)) s = Found m" using sync by (auto simp: in_sync_def managed_key_def)
  consider "s' = s" "lst_ServicePorts (lb_Status (ml_LB m)) = ?ports" | "s' = s" "?m' = m" | "la_updateStatus api ?m' s = (s', None)"
    using run stored by (auto simp: updateLoadBalancerStatus_def ends Let_def split: if_splits prod.splits)
  then show ?thesis
  proof cases
    case 1
    then show ?thesis using sync by blast
  next
    case 2
    have "lst_ServicePorts (lb_Status (ml_LB ?m')) = ?ports" by (simp add: set_status_def)
    with 2 sync show ?thesis by (metis (no_types, lifting))
  next
    case 3
    have key: "managed_key ?m' = managed_key m" by (simp add: managed_key_def set_status_def lb_key_def)
    have "with_status_of ?m' m = ?m'" by (simp add: with_status_of_def set_status_def)
    then have "in_sync m0 ?m' s'"
      using sync key unfolding in_sync_def status_get [OF 3] by (simp add: set_status_def)
    then show ?thesis using status_frame [OF 3] by (intro conjI exI [of _ ?m']) (simp_all add: set_status_def)
  qed
qed

lemma lb_expose_reports:
  assumes run: "lb_expose api m namespace tenant config random now pa s = (Done (), s')" and sync: "in_sync m m s"
    and ends: "ls_Endpoints (lb_Spec (ml_LB m)) = e # es"
  shows "\<exists>existing ports svc m'. CreateServicePorts (ml_LB m) existing (Lookup pa) = Some ports \<and>
    c_get (la_Services api) (namespace, envoyResourceName (om_Name (lb_Meta (ml_LB m)))) s' = Found svc \<and>
    ss_Ports (svc_Spec svc) = ports \<and> in_sync m m' s' \<and>
    lst_ServicePorts (lb_Status (ml_LB m')) = buildServicePortStatus ports (le_Ports e)"
proof -
  let ?n = "envoyResourceName (om_Name (lb_Meta (ml_LB m)))"
  let ?lbclass = "case ts_LoadBalancerClass tenant of Some c \<Rightarrow> Some c | None \<Rightarrow> cs_LoadBalancerClass config"
  obtain s1 where s1: "reconcileService api (ml_LB m) ?n namespace namespace pa ?lbclass (GetAnnotations tenant config) s = (Done (), s1)"
    using run by (auto simp: lb_expose_def Let_def split: prod.splits outcome.splits)
  from reconcileService_done [OF s1] obtain existing ports svc where
    svc: "CreateServicePorts (ml_LB m) existing (Lookup pa) = Some ports"
      "c_get (la_Services api) (namespace, ?n) s1 = Found svc" "ss_Ports (svc_Spec svc) = ports" by blast
  have sync1: "in_sync m m s1" using sync reconcileService_frame [OF s1] by (simp add: in_sync_def)
  obtain hostname m2 s2 where
    s2: "(hostname, m2, s2) = ([], m, s1) \<or>
      configureHostname api m ?n tenant config (GetAnnotations tenant config) random now s1 = (Done (hostname, m2), s2)"
    and s3: "updateLoadBalancerStatus api m2 svc hostname s2 = (None, s')"
    using run s1 svc(2) by (auto simp: lb_expose_def Let_def split: prod.splits outcome.splits option.splits if_splits)
  have sync2: "in_sync m m2 s2 \<and> (\<forall>k. c_get (la_Services api) k s2 = c_get (la_Services api) k s1)"
    using s2 sync1 configureHostname_sync by blast
  then have "ls_Endpoints (lb_Spec (ml_LB m2)) = e # es" using ends by (simp add: in_sync_def)
  from updateLoadBalancerStatus_sync [OF s3 conjunct1 [OF sync2] this] sync2 svc
  show ?thesis by (metis (no_types, lifting))
qed

end

section \<open>An in-memory cluster\<close>

record lb_world =
  w_LBs :: "(nsname, managed_lb) gomap"
  w_Services :: "(nsname, exposed_service) gomap"
  w_Ingresses :: "(nsname, ingress) gomap"
  w_HTTPRoutes :: "(nsname, hostname_route) gomap"

definition ingress_key :: "ingress \<Rightarrow> nsname" where
  "ingress_key i = (om_Namespace (ing_Meta i), om_Name (ing_Meta i))"

definition hostname_route_key :: "hostname_route \<Rightarrow> nsname" where
  "hostname_route_key r = (om_Namespace (hro_Meta r), om_Name (hro_Meta r))"

definition mem_lb_api :: "tenant_spec \<Rightarrow> config_spec \<Rightarrow> 'b lb_world_scheme lb_api" where
  "mem_lb_api tenant config =
     (let lbs = part_crud w_LBs (\<lambda>p. w_LBs_update (\<lambda>_. p)) (mem_finalized managed_key lb_gone lb_held)
      in \<lparr> ta_getTenant = (\<lambda>_ _. Found tenant), ta_getConfig = (\<lambda>_ _. Found config), la_LBs = lbs,
           la_updateStatus = (\<lambda>m s. case c_get lbs (managed_key m) s of
              Found stored \<Rightarrow> c_create lbs (with_status_of m stored) s | _ \<Rightarrow> (s, Some ''not found'')),
           la_listLBs = (\<lambda>ns s. Inr (filter (\<lambda>m. fst (managed_key m) = ns) (map snd (w_LBs s)))),
           la_listAllLBs = (\<lambda>s. Inr (map snd (w_LBs s))),
           la_Services = part_crud w_Services (\<lambda>p. w_Services_update (\<lambda>_. p)) (mem_crud service_key),
           la_Ingresses = part_crud w_Ingresses (\<lambda>p. w_Ingresses_update (\<lambda>_. p)) (mem_crud ingress_key),
           la_HTTPRoutes = part_crud w_HTTPRoutes (\<lambda>p. w_HTTPRoutes_update (\<lambda>_. p)) (mem_crud hostname_route_key),
           la_resolves = (\<lambda>_ _. True), la_tlsWorks = (\<lambda>_ _. True), la_deepEqual = gomap_eq \<rparr>)"

interpretation mem_lb: lb_cluster "mem_lb_api tenant config"
proof -
  have lbs: "finalized_store (la_LBs (mem_lb_api tenant config)) managed_key lb_gone lb_held"
    and svcs: "object_store (la_Services (mem_lb_api tenant config)) service_key"
    by (simp_all add: mem_lb_api_def Let_def part_store part_finalized mem.object_store_axioms mem_fin.finalized_store_axioms)
  have key: "managed_key (with_status_of m x) = managed_key x" for m x
    by (simp add: managed_key_def with_status_of_def set_status_def lb_key_def)
  show "lb_cluster (mem_lb_api tenant config)"
    unfolding lb_cluster_def
  proof (intro conjI lbs svcs, unfold_locales)
    fix m s s' k
    assume up: "la_updateStatus (mem_lb_api tenant config) m s = (s', None)"
    let ?c = "la_LBs (mem_lb_api tenant config)"
    from up obtain x where x: "c_get ?c (managed_key m) s = Found x" "c_create ?c (with_status_of m x) s = (s', None)"
      by (auto simp: mem_lb_api_def Let_def split: get_result.splits)
    have "managed_key x = managed_key m" by (rule finalized_store.get_key [OF lbs x(1)])
    then show "c_get ?c k s' = (if k = managed_key m then (case c_get ?c k s of Found stored \<Rightarrow> Found (with_status_of m stored) | r \<Rightarrow> r)
        else c_get ?c k s)"
      using finalized_store.create_get [OF lbs x(2), of k] x(1) by (simp add: key)
  qed (auto simp: mem_lb_api_def Let_def part_crud_def split: prod.splits get_result.splits)
qed

section \<open>Properties\<close>

lemma lb_Reconcile_reports:
  assumes cluster: "lb_cluster api" and get: "c_get (la_LBs api) req s = Found m" and live: "\<not> ml_Deleting m"
    and ends: "ls_Endpoints (lb_Spec (ml_LB m)) = e # es"
    and tc: "GetTenantAndConfig api configNamespace (RemoveTenantPrefix (om_Namespace (lb_Meta (ml_LB m)))) s = Inr (tenant, config)"
    and on: "lb_shouldReconcile tenant config = (True, False)"
    and all: "la_listLBs api (fst req) s = Inr lbs"
    and run: "lb_Reconcile api configNamespace req random now rs (pa, s) = Some (Done (), pa', s')"
  shows "(\<exists>rs'. AllocatePortsForLoadBalancers (map ml_LB lbs) pa rs = Some (pa', rs')) \<and>
    (\<exists>existing ports svc m'. CreateServicePorts (ml_LB m) existing (Lookup pa') = Some ports \<and>
      c_get (la_Services api) (fst req, envoyResourceName (snd req)) s' = Found svc \<and> ss_Ports (svc_Spec svc) = ports \<and>
      c_get (la_LBs api) req s' = Found m' \<and> lb_Spec (ml_LB m') = lb_Spec (ml_LB m) \<and> lb_Meta (ml_LB m') = lb_Meta (ml_LB m) \<and>
      \<not> ml_Deleting m' \<and> lst_ServicePorts (lb_Status (ml_LB m')) = buildServicePortStatus ports (le_Ports e))"
proof -
  note lb_cluster.axioms [OF cluster]
  then have store: "finalized_store (la_LBs api) managed_key lb_gone lb_held" by blast
  have key: "managed_key m = req" by (rule finalized_store.get_key [OF store get])
  let ?m1 = "if CleanupFinalizer \<in> set (ml_Finalizers m) then m
      else remove_finalizer envoyProxyCleanupFinalizer (add_finalizer CleanupFinalizer m)"
  have same: "ml_LB ?m1 = ml_LB m" and alive: "\<not> ml_Deleting ?m1" using live by (simp_all add: remove_finalizer_def add_finalizer_def)
  obtain s1 rs' where
    s1: "(if CleanupFinalizer \<in> set (ml_Finalizers m) then (s, None) else c_update (la_LBs api) ?m1 s) = (s1, None)"
    and alloc: "AllocatePortsForLoadBalancers (map ml_LB lbs) pa rs = Some (pa', rs')"
    and expose: "lb_expose api ?m1 (fst req) tenant config random now pa' s1 = (Done (), s')"
    using run live ends by (auto simp: lb_Reconcile_def Let_def get tc on all split: prod.splits option.splits if_splits)
  have "c_get (la_LBs api) (managed_key m) s1 = Found ?m1"
  proof (cases "CleanupFinalizer \<in> set (ml_Finalizers m)")
    case False
    then have "c_update (la_LBs api) ?m1 s = (s1, None)" using s1 by simp
    from finalized_store.update_get [OF store this] show ?thesis using same live by (simp add: managed_key_def lb_gone_def remove_finalizer_def add_finalizer_def)
  qed (use s1 get key in simp)
  then have sync: "lb_cluster.in_sync api ?m1 ?m1 s1"
    using same by (simp add: lb_cluster.in_sync_def [OF cluster] managed_key_def)
  have ends': "ls_Endpoints (lb_Spec (ml_LB ?m1)) = e # es" using ends same by simp
  have name: "om_Name (lb_Meta (ml_LB m)) = snd req" "managed_key ?m1 = req"
    using key same by (auto simp: managed_key_def lb_key_def)
  from lb_cluster.lb_expose_reports [OF cluster expose sync ends'] alloc alive show ?thesis
    unfolding same lb_cluster.in_sync_def [OF cluster] name by blast
qed

lemma allocated_after:
  assumes "pa_inv pa" and "distinct (map (\<lambda>lb. om_Namespace (lb_Meta lb) @ ''-'' @ om_Name (lb_Meta lb)) lbs)"
    and run: "AllocatePortsForLoadBalancers lbs pa rs = Some (pa', rs')" and "lb \<in> set lbs"
  shows "pa_inv pa' \<and> all_allocated pa' (lb_requests lb)"
proof -
  let ?reqs = "concat (map lb_requests lbs)"
  have run': "allocate_requests AllocatePorts ?reqs pa rs = Some (pa', rs')"
    using run by (simp add: AllocatePortsForLoadBalancers_def)
  have "snd (Lookup pa' ek k)" if "(ek, keys) \<in> set (lb_requests lb)" "k \<in> set keys" for ek keys k
  proof -
    have mem: "(ek, keys) \<in> set ?reqs" using that(1) assms(4) by auto
    show ?thesis using pm.requests_lookup(1) [OF assms(1) run' distinct_lb_requests [OF assms(2)] mem] that(2) by simp
  qed
  then show ?thesis using pm.requests_invar [OF assms(1) run'] by (auto simp: all_allocated_def)
qed

text \<open>C6. A pass over an enabled load balancer that returns without an error leaves the cluster and the allocator in
  step: every endpoint port of the load balancer has a listener port, the exposing Service has the ports that
  \<^verbatim>\<open>CreateServicePorts\<close> derives from that table, and the stored status reports exactly the ports of that Service,
  each with the endpoint port of its name and protocol.\<close>

theorem Reconcile_reports_ports:
  assumes cluster: "lb_cluster api" and get: "c_get (la_LBs api) req s = Found m" and live: "\<not> ml_Deleting m"
    and ends: "ls_Endpoints (lb_Spec (ml_LB m)) = e # es"
    and tc: "GetTenantAndConfig api configNamespace (RemoveTenantPrefix (om_Namespace (lb_Meta (ml_LB m)))) s = Inr (tenant, config)"
    and on: "lb_shouldReconcile tenant config = (True, False)"
    and all: "la_listLBs api (fst req) s = Inr lbs" "m \<in> set lbs"
    and names: "distinct (map (\<lambda>m. om_Namespace (lb_Meta (ml_LB m)) @ ''-'' @ om_Name (lb_Meta (ml_LB m))) lbs)"
    and inv: "pa_inv pa"
    and run: "lb_Reconcile api configNamespace req random now rs (pa, s) = Some (Done (), pa', s')"
  shows "pa_inv pa' \<and> all_allocated pa' (lb_requests (ml_LB m)) \<and>
    (\<exists>existing ports svc m'. CreateServicePorts (ml_LB m) existing (Lookup pa') = Some ports \<and>
      c_get (la_Services api) (fst req, envoyResourceName (snd req)) s' = Found svc \<and> ss_Ports (svc_Spec svc) = ports \<and>
      c_get (la_LBs api) req s' = Found m' \<and> lb_Spec (ml_LB m') = lb_Spec (ml_LB m) \<and>
      lst_ServicePorts (lb_Status (ml_LB m')) = buildServicePortStatus ports (le_Ports e))"
proof -
  note rep = lb_Reconcile_reports [OF cluster get live ends tc on all(1) run]
  from rep obtain rs' where alloc: "AllocatePortsForLoadBalancers (map ml_LB lbs) pa rs = Some (pa', rs')" by blast
  have "distinct (map (\<lambda>lb. om_Namespace (lb_Meta lb) @ ''-'' @ om_Name (lb_Meta lb)) (map ml_LB lbs))"
    using names by (simp add: comp_def)
  from allocated_after [OF inv this alloc, of "ml_LB m"] all(2) rep show ?thesis by auto
qed

definition sample_user_svc :: service where
  "sample_user_svc = sample_svc\<lparr> svc_Spec := (svc_Spec sample_svc)\<lparr> ss_Ports := [\<lparr> sp_Name = ''h'', sp_Protocol = ''TCP'', sp_Port = 8,
     sp_TargetPort = IntPort 8, sp_NodePort = 30 \<rparr>] \<rparr> \<rparr>"

definition sample_managed :: managed_lb where
  "sample_managed = \<lparr> ml_LB = snd (MapLoadBalancer sample_user_svc [\<lparr> ea_IP = ''10.0.0.1'', ea_Hostname = [] \<rparr>] False ''tenant-a''),
     ml_Finalizers = [], ml_Deleting = False, ml_Ingress = [] \<rparr>"

definition sample_world :: lb_world where
  "sample_world = \<lparr> w_LBs = [((''tenant-a'', ''u1''), sample_managed)], w_Services = [], w_Ingresses = [], w_HTTPRoutes = [] \<rparr>"

definition sample_tenant :: tenant_spec where
  "sample_tenant = \<lparr> ts_Annotations = cs_Annotations DefaultConfig, ts_LoadBalancerDisable = False, ts_IngressDisable = False,
     ts_GatewayAPIDisable = False, ts_LoadBalancerClass = None, ts_IngressClass = None, ts_GatewayClass = None,
     ts_DefaultGateway = None, ts_DNS = \<lparr> dns_WildcardDomain = None, dns_AllowExplicitHostnames = None,
       dns_UseDNSAnnotations = None, dns_UseCertificateAnnotations = None \<rparr>, ts_DefaultClusterIssuer = None, ts_EnvoyProxy = None \<rparr>"

definition sample_pa2 :: port_allocator where
  "sample_pa2 = \<lparr> portLookup = [(''tenant-a-u1-ep-0'', [(''30-TCP'', 10005)])], portLookupReverse = [(10005, True)] \<rparr>"

definition sample_exposed :: "unit outcome \<times> lb_world" where
  "sample_exposed = lb_expose (mem_lb_api sample_tenant DefaultConfig) (add_finalizer CleanupFinalizer sample_managed) ''tenant-a''
     sample_tenant DefaultConfig None 0 sample_pa2
     (sample_world\<lparr> w_LBs := [((''tenant-a'', ''u1''), add_finalizer CleanupFinalizer sample_managed)] \<rparr>)"

lemma sample_requests: "lb_requests (ml_LB sample_managed) = [(''tenant-a-u1-ep-0'', [''30-TCP''])]"
  by code_simp

lemma sample_alloc: "AllocatePortsForLoadBalancers [ml_LB sample_managed] NewPortAllocator [5] = Some (sample_pa2, [])"
  by (simp add: AllocatePortsForLoadBalancers_def sample_requests AllocatePorts_def NewPortAllocator_def table_touch_def table_at_def
      Let_def recomputeAvailablePorts_def table_ports_def sample_pa2_def startPort_def endPort_def)

lemma sample_exposed_done: "fst sample_exposed = Done ()"
  by code_simp

lemma sample_pass_done:
  "lb_Reconcile (mem_lb_api sample_tenant DefaultConfig) ''kubelb'' (''tenant-a'', ''u1'') None 0 [5] (NewPortAllocator, sample_world) =
     Some (Done (), sample_pa2, snd sample_exposed)"
proof -
  let ?api = "mem_lb_api sample_tenant DefaultConfig" let ?req = "(''tenant-a'', ''u1'')"
  have "c_get (la_LBs ?api) ?req sample_world = Found sample_managed"
    and "GetTenantAndConfig ?api ''kubelb'' (RemoveTenantPrefix (om_Namespace (lb_Meta (ml_LB sample_managed)))) sample_world =
      Inr (sample_tenant, DefaultConfig)"
    and "lb_shouldReconcile sample_tenant DefaultConfig = (True, False)"
    and "la_listLBs ?api ''tenant-a'' sample_world = Inr [sample_managed]"
    and "c_update (la_LBs ?api) (remove_finalizer envoyProxyCleanupFinalizer (add_finalizer CleanupFinalizer sample_managed)) sample_world =
      (sample_world\<lparr> w_LBs := [(?req, add_finalizer CleanupFinalizer sample_managed)] \<rparr>, None)"
    and "remove_finalizer envoyProxyCleanupFinalizer (add_finalizer CleanupFinalizer sample_managed) = add_finalizer CleanupFinalizer sample_managed"
    and "\<not> ml_Deleting sample_managed" and "CleanupFinalizer \<notin> set (ml_Finalizers sample_managed)"
    and "ls_Endpoints (lb_Spec (ml_LB sample_managed)) \<noteq> []"
    by code_simp+
  then show ?thesis
    using sample_exposed_done
    by (cases sample_exposed) (simp add: lb_Reconcile_def Let_def sample_alloc sample_exposed_def)
qed

theorem Reconcile_reports_ports_witness:
  "\<exists>m'. c_get (la_LBs (mem_lb_api sample_tenant DefaultConfig)) (''tenant-a'', ''u1'') (snd sample_exposed) = Found m' \<and>
     map sp_TargetPort (lst_ServicePorts (lb_Status (ml_LB m'))) = [IntPort 10005] \<and>
     map lsp_UpstreamTargetPort (lst_ServicePorts (lb_Status (ml_LB m'))) = [30]"
proof -
  let ?api = "mem_lb_api sample_tenant DefaultConfig" let ?req = "(''tenant-a'', ''u1'')"
  let ?e = "hd (ls_Endpoints (lb_Spec (ml_LB sample_managed)))"
  have get: "c_get (la_LBs ?api) ?req sample_world = Found sample_managed"
    and tc: "GetTenantAndConfig ?api ''kubelb'' (RemoveTenantPrefix (om_Namespace (lb_Meta (ml_LB sample_managed)))) sample_world =
      Inr (sample_tenant, DefaultConfig)"
    and on: "lb_shouldReconcile sample_tenant DefaultConfig = (True, False)"
    and all: "la_listLBs ?api (fst ?req) sample_world = Inr [sample_managed]"
    and live: "\<not> ml_Deleting sample_managed"
    and ends: "ls_Endpoints (lb_Spec (ml_LB sample_managed)) = [?e]"
    and eps: "le_Ports ?e = [\<lparr> ep_Name = ''h'', ep_Port = 30, ep_Protocol = ''TCP'' \<rparr>]"
    and ports: "ss_Ports (svc_Spec sample_user_svc) = [\<lparr> sp_Name = ''h'', sp_Protocol = ''TCP'', sp_Port = 8, sp_TargetPort = IntPort 8, sp_NodePort = 30 \<rparr>]"
    and name: "map_port_name \<lparr> sp_Name = ''h'', sp_Protocol = ''TCP'', sp_Port = 8, sp_TargetPort = IntPort 8, sp_NodePort = 30 \<rparr> = ''h''"
    and look: "Lookup sample_pa2 (EnvoyEndpointKey ''tenant-a'' ''u1'' 0) (EnvoyListenerKey 30 ''TCP'') = (10005, True)"
    and uid: "om_UID (svc_Meta sample_user_svc) = ''u1''"
    by code_simp+
  from Reconcile_reports_ports [OF mem_lb.lb_cluster_axioms get live ends tc on all _ _ NewPortAllocator_inv sample_pass_done]
  obtain existing sps m' where m': "CreateServicePorts (ml_LB sample_managed) existing (Lookup sample_pa2) = Some sps"
      "c_get (la_LBs ?api) ?req (snd sample_exposed) = Found m'"
      "lst_ServicePorts (lb_Status (ml_LB m')) = buildServicePortStatus sps (le_Ports ?e)" by auto
  have "CreateServicePorts (ml_LB sample_managed) existing (Lookup sample_pa2) =
      Some (sort_key sp_Name (map (mapped_port existing (Lookup sample_pa2) (EnvoyEndpointKey ''tenant-a'' ''u1'' 0))
        (ss_Ports (svc_Spec sample_user_svc))))"
    unfolding sample_managed_def uid [symmetric] managed_lb.simps by (rule CreateServicePorts_mapped) (simp add: ports)
  with m' show ?thesis
    by (auto simp: buildServicePortStatus_def eps ports look mapped_port_def Let_def upstream_port_def name
        service_port.defs lb_service_port.defs to_int32_def)
qed

end
