(* ===== verification/L7_Resources.thy ===== *)
theory L7_Resources
  imports LB_Controller
begin

text \<open>
  The layer-7 resources: Services of routes (\<^verbatim>\<open>internal/resources/service\<close>), Ingress objects
  (\<^verbatim>\<open>internal/resources/ingress\<close>), Gateway API objects (\<^verbatim>\<open>internal/resources/gatewayapi\<close>), the embedding of an
  object in a Route (\<^verbatim>\<open>internal/resources/route\<close>, \<^verbatim>\<open>internal/resources/unstructured\<close>) and the copied secrets
  (\<^verbatim>\<open>internal/util/kubernetes/secret.go\<close>).

  HTTPRoute and GRPCRoute have the same shape for this code, which treats matches and the filters that do not
  mirror as opaque. A nil dereference is \<^const>\<open>None\<close>, or the outcome \<^const>\<open>Panic\<close>. The object that the API
  server answers a write with is the object that was sent.
\<close>

section \<open>Objects\<close>

record object_ref =
  orf_Kind :: "string option"
  orf_Namespace :: "string option"
  orf_Name :: string
  orf_Port :: "int option"

datatype route_filter = MirrorFilter object_ref | OtherFilter string

record l7_backend =
  lbk_Ref :: object_ref
  lbk_Filters :: "route_filter list"

record l7_rule =
  lr_Matches :: "string list"
  lr_Filters :: "route_filter list"
  lr_BackendRefs :: "l7_backend list"

record l7_route =
  lro_Meta :: object_meta
  lro_ParentRefs :: "parent_ref list"
  lro_Hostnames :: "string list"
  lro_Rules :: "l7_rule list"

record certificate_ref =
  ce_Name :: string
  ce_Namespace :: "string option"

record gateway_listener =
  gl_Name :: string
  gl_CertificateRefs :: "certificate_ref list option"

record tenant_gateway =
  tg_Meta :: object_meta
  tg_ClassName :: string
  tg_Listeners :: "gateway_listener list"

datatype l7_object =
  IngressObj ingress | GatewayObj tenant_gateway | HTTPRouteObj l7_route | GRPCRouteObj l7_route | ServiceObj service

record 's l7_api = "'s tenant_api" +
  l7_Services :: "('s, service) crud"
  l7_Ingresses :: "('s, ingress) crud"
  l7_Gateways :: "('s, tenant_gateway) crud"
  l7_HTTPRoutes :: "('s, l7_route) crud"
  l7_GRPCRoutes :: "('s, l7_route) crud"
  l7_listGateways :: "string \<Rightarrow> 's \<Rightarrow> string + tenant_gateway list"
  l7_listSecrets :: "string \<Rightarrow> string \<Rightarrow> string \<Rightarrow> 's \<Rightarrow> string + string list"
  l7_deepEqual :: "strmap \<Rightarrow> strmap \<Rightarrow> bool"

definition ServiceKind :: string where "ServiceKind = ''Service''"

section \<open>Services (service.go)\<close>

definition svc_key :: "service \<Rightarrow> nsname" where
  "svc_key svc = (om_Namespace (svc_Meta svc), om_Name (svc_Meta svc))"

definition same_service :: "(strmap \<Rightarrow> strmap \<Rightarrow> bool) \<Rightarrow> service \<Rightarrow> service \<Rightarrow> bool" where
  "same_service deepEqual existing obj \<longleftrightarrow>
     (svc_Spec existing)\<lparr> ss_Selector := [] \<rparr> = (svc_Spec obj)\<lparr> ss_Selector := [] \<rparr> \<and>
     deepEqual (ss_Selector (svc_Spec existing)) (ss_Selector (svc_Spec obj)) \<and>
     deepEqual (om_Labels (svc_Meta existing)) (om_Labels (svc_Meta obj)) \<and>
     deepEqual (annots (svc_Meta existing)) (annots (svc_Meta obj))"

definition keep_cluster_ip :: "service \<Rightarrow> service \<Rightarrow> service" where
  "keep_cluster_ip existing obj =
     (if ss_ClusterIP (svc_Spec obj) = [] \<and> ss_ClusterIP (svc_Spec existing) \<noteq> []
      then obj\<lparr> svc_Spec := (svc_Spec obj)\<lparr> ss_ClusterIP := ss_ClusterIP (svc_Spec existing),
                                           ss_ClusterIPs := ss_ClusterIPs (svc_Spec existing) \<rparr> \<rparr>
      else obj)"

text \<open>The result holds the object as the call leaves it, for the caller reads it again.\<close>

definition CreateOrUpdateService ::
  "('s, 'b) l7_api_scheme \<Rightarrow> service \<Rightarrow> 's \<Rightarrow> service \<times> string option \<times> 's" where
  "CreateOrUpdateService api obj s =
     (case c_get (l7_Services api) (svc_key obj) s of
        GetError e \<Rightarrow> (obj, Some (''failed to get Service: '' @ e), s)
      | NotFound \<Rightarrow>
          (case c_create (l7_Services api) obj s of
             (s', None) \<Rightarrow> (obj, None, s')
           | (s', Some e) \<Rightarrow> (obj, Some (''failed to create Service: '' @ e), s'))
      | Found existing \<Rightarrow>
          (let obj1 = keep_cluster_ip existing obj
           in if same_service (l7_deepEqual api) existing obj1 then (obj1, None, s)
              else
                (let obj2 = obj1\<lparr> svc_Meta := (svc_Meta obj1)\<lparr> om_UID := om_UID (svc_Meta existing) \<rparr> \<rparr>
                 in case c_update (l7_Services api) obj2 s of
                      (s', None) \<Rightarrow> (obj2, None, s')
                    | (s', Some e) \<Rightarrow> (obj2, Some (''failed to update Service: '' @ e), s'))))"

text \<open>The first loop of \<^verbatim>\<open>NormalizeAndReplicateServices\<close> separates the Services that are used as they are from
  the ClusterIP Services, which get a NodePort copy.\<close>

definition nodeport_copy :: "service \<Rightarrow> service" where
  "nodeport_copy svc =
     (let c = cleanseService svc True False; m = svc_Meta c
      in c\<lparr> svc_Spec := (svc_Spec c)\<lparr> ss_Type := ''NodePort'' \<rparr>,
            svc_Meta := m\<lparr> om_Name := NodePortServiceName (om_Name m),
              om_Labels := gomap_put LabelManagedBy LabelControllerName
                (gomap_put LabelOriginName (om_Name m) (gomap_put LabelOriginNamespace (om_Namespace m) (om_Labels m))) \<rparr> \<rparr>)"

fun collect_services ::
  "('s, service) crud \<Rightarrow> nsname list \<Rightarrow> 's \<Rightarrow> string + service list \<times> service list" where
  "collect_services c [] s = Inr ([], [])"
| "collect_services c (ref # refs) s =
     (case c_get c ref s of
        GetError e \<Rightarrow> Inl (''failed to get service '' @ fst ref @ ''/'' @ snd ref @ '': '' @ e)
      | NotFound \<Rightarrow> collect_services c refs s
      | Found svc \<Rightarrow>
          (case collect_services c refs s of
             Inl e \<Rightarrow> Inl e
           | Inr (ready, copies) \<Rightarrow>
               if ss_Type (svc_Spec svc) \<noteq> ''ClusterIP'' then Inr (cleanseService svc False True # ready, copies)
               else Inr (ready, nodeport_copy svc # copies)))"

fun replicate_services :: "('s, 'b) l7_api_scheme \<Rightarrow> service list \<Rightarrow> 's \<Rightarrow> string option \<times> 's" where
  "replicate_services api [] s = (None, s)"
| "replicate_services api (svc # svcs) s =
     (case CreateOrUpdateService api svc s of
        (_, Some e, s') \<Rightarrow> (Some (''failed to create or update Service: '' @ e), s')
      | (_, None, s') \<Rightarrow> replicate_services api svcs s')"

fun fetch_copies :: "('s, service) crud \<Rightarrow> service list \<Rightarrow> 's \<Rightarrow> string + service list" where
  "fetch_copies c [] s = Inr []"
| "fetch_copies c (svc # svcs) s =
     (case c_get c (svc_key svc) s of
        GetError e \<Rightarrow> Inl (''failed to get service '' @ om_Namespace (svc_Meta svc) @ ''/'' @ om_Name (svc_Meta svc) @ '': '' @ e)
      | NotFound \<Rightarrow> fetch_copies c svcs s
      | Found x \<Rightarrow> (case fetch_copies c svcs s of Inl e \<Rightarrow> Inl e | Inr xs \<Rightarrow> Inr (cleanseService x False True # xs)))"

definition NormalizeAndReplicateServices ::
  "('s, 'b) l7_api_scheme \<Rightarrow> nsname list \<Rightarrow> 's \<Rightarrow> (string + service list) \<times> 's" where
  "NormalizeAndReplicateServices api references s =
     (case collect_services (l7_Services api) references s of
        Inl e \<Rightarrow> (Inl e, s)
      | Inr (ready, copies) \<Rightarrow>
          (case replicate_services api copies s of
             (Some e, s') \<Rightarrow> (Inl e, s')
           | (None, s') \<Rightarrow>
               (case fetch_copies (l7_Services api) copies s' of
                  Inl e \<Rightarrow> (Inl e, s')
                | Inr xs \<Rightarrow> (Inr (ready @ xs), s'))))"

section \<open>Secrets (secret.go)\<close>

definition GetSecretNameIfExists :: "('s, 'b) l7_api_scheme \<Rightarrow> string \<Rightarrow> string \<Rightarrow> string \<Rightarrow> 's \<Rightarrow> string" where
  "GetSecretNameIfExists api name namespace tenantNs s =
     (case l7_listSecrets api tenantNs name namespace s of
        Inl e \<Rightarrow> [] | Inr [] \<Rightarrow> [] | Inr (secret # _) \<Rightarrow> secret)"

definition local_secret :: "('s, 'b) l7_api_scheme \<Rightarrow> string \<Rightarrow> string \<Rightarrow> 's \<Rightarrow> string \<Rightarrow> string" where
  "local_secret api originNs tenantNs s name =
     (let secretName = GetSecretNameIfExists api name originNs tenantNs s in if secretName \<noteq> [] then secretName else name)"

section \<open>Ingress (ingress.go)\<close>

text \<open>The loop over the referenced Services goes on after a match, with the rewritten name.\<close>

definition retarget_name :: "string \<Rightarrow> object_meta list \<Rightarrow> string \<Rightarrow> string" where
  "retarget_name routeName refs name =
     fold (\<lambda>svc n. if n = om_Name svc then GenerateRouteServiceName routeName (om_Name svc) (om_Namespace svc) else n) refs name"

definition retarget_service :: "string \<Rightarrow> object_meta list \<Rightarrow> service_backend \<Rightarrow> service_backend" where
  "retarget_service routeName refs b = b\<lparr> sbk_Name := retarget_name routeName refs (sbk_Name b) \<rparr>"

definition retarget_path :: "string \<Rightarrow> object_meta list \<Rightarrow> ingress_path \<Rightarrow> ingress_path option" where
  "retarget_path routeName refs p =
     (case ib_Service (ip_Backend p) of
        None \<Rightarrow> if refs = [] then Some p else None
      | Some b \<Rightarrow> Some (p\<lparr> ip_Backend := (ip_Backend p)\<lparr> ib_Service := Some (retarget_service routeName refs b) \<rparr> \<rparr>))"

definition retarget_rule :: "string \<Rightarrow> object_meta list \<Rightarrow> ingress_rule \<Rightarrow> ingress_rule option" where
  "retarget_rule routeName refs r =
     (case ir_HTTP r of
        None \<Rightarrow> None
      | Some paths \<Rightarrow> map_option (\<lambda>ps. r\<lparr> ir_HTTP := Some ps \<rparr>) (all_some (map (retarget_path routeName refs) paths)))"

definition retarget_default :: "string \<Rightarrow> object_meta list \<Rightarrow> ingress_backend \<Rightarrow> ingress_backend" where
  "retarget_default routeName refs b = b\<lparr> ib_Service := map_option (retarget_service routeName refs) (ib_Service b) \<rparr>"

definition class_of :: "string option \<Rightarrow> string option \<Rightarrow> string option \<Rightarrow> string option" where
  "class_of tenantClass configClass current =
     (case tenantClass of Some c \<Rightarrow> Some c | None \<Rightarrow> (case configClass of Some c \<Rightarrow> Some c | None \<Rightarrow> current))"

definition prepare_ingress ::
  "('s, 'b) l7_api_scheme \<Rightarrow> ingress \<Rightarrow> object_meta list \<Rightarrow> string \<Rightarrow> string \<Rightarrow> config_spec \<Rightarrow> tenant_spec \<Rightarrow>
   annotation_settings \<Rightarrow> 's \<Rightarrow> ingress option" where
  "prepare_ingress api obj refs namespace routeName config tenant annotations s =
     (case all_some (map (retarget_rule routeName refs) (ing_Rules obj)) of
        None \<Rightarrow> None
      | Some rules \<Rightarrow>
          (let m = ing_Meta obj
           in Some \<lparr> ing_Meta = \<lparr> om_Name = GenerateName (om_Name m) (om_Namespace m), om_Namespace = namespace, om_UID = [],
                om_Labels = AddKubeLBLabels (om_Labels m) (om_Name m) (om_Namespace m) [],
                om_Annotations = Some (PropagateAnnotations (annots m) annotations AnnotatedResourceIngress) \<rparr>,
              ing_ClassName = class_of (ts_IngressClass tenant) (cs_IngressClass config) (ing_ClassName obj),
              ing_DefaultBackend = map_option (retarget_default routeName refs) (ing_DefaultBackend obj),
              ing_Rules = rules,
              ing_TLS = map (\<lambda>t. t\<lparr> it_SecretName := local_secret api (om_Namespace m) namespace s (it_SecretName t) \<rparr>) (ing_TLS obj) \<rparr>))"

definition updated_meta :: "object_meta \<Rightarrow> object_meta \<Rightarrow> strmap option \<Rightarrow> object_meta" where
  "updated_meta existing m ann = m\<lparr> om_UID := om_UID existing, om_Annotations := ann \<rparr>"

text \<open>The applied object is part of the result: the caller records it in the status of the Route.\<close>

definition CreateOrUpdateIngress ::
  "('s, 'b) l7_api_scheme \<Rightarrow> ingress \<Rightarrow> object_meta list \<Rightarrow> string \<Rightarrow> string \<Rightarrow> config_spec \<Rightarrow> tenant_spec \<Rightarrow>
   annotation_settings \<Rightarrow> 's \<Rightarrow> ingress outcome \<times> 's" where
  "CreateOrUpdateIngress api obj refs namespace routeName config tenant annotations s =
     (case prepare_ingress api obj refs namespace routeName config tenant annotations s of
        None \<Rightarrow> (Panic, s)
      | Some ing \<Rightarrow>
          (case merge_and_write (l7_Ingresses api) (l7_deepEqual api) ''Ingress'' (ingress_key ing) ing
                  (\<lambda>i. om_Annotations (ing_Meta i))
                  (\<lambda>a b. a\<lparr> ing_Meta := ing_Meta b \<rparr> = b \<and> l7_deepEqual api (om_Labels (ing_Meta a)) (om_Labels (ing_Meta b)))
                  (\<lambda>existing ann. ing\<lparr> ing_Meta := updated_meta (ing_Meta existing) (ing_Meta ing) ann \<rparr>) s of
             (None, s') \<Rightarrow> (Done ing, s')
           | (Some e, s') \<Rightarrow> (Failed e, s')))"

definition dedup_refs :: "nsname list \<Rightarrow> nsname list" where
  "dedup_refs refs = rev (remdups (rev refs))"

definition rule_services :: "string \<Rightarrow> ingress_rule \<Rightarrow> nsname list option" where
  "rule_services namespace r =
     (case ir_HTTP r of
        None \<Rightarrow> None
      | Some paths \<Rightarrow> all_some (map (\<lambda>p. map_option (\<lambda>b. (namespace, sbk_Name b)) (ib_Service (ip_Backend p))) paths))"

text \<open>\<^verbatim>\<open>GetServicesFromIngress\<close>; \<^const>\<open>None\<close>: a rule without HTTP paths, or a path with a resource backend, is a
  nil dereference.\<close>

definition GetServicesFromIngress :: "ingress \<Rightarrow> nsname list option" where
  "GetServicesFromIngress ing =
     (let ns = om_Namespace (ing_Meta ing);
          default = (case ing_DefaultBackend ing of
            None \<Rightarrow> [] | Some b \<Rightarrow> (case ib_Service b of None \<Rightarrow> [] | Some x \<Rightarrow> [(ns, sbk_Name x)]))
      in map_option (\<lambda>refs. dedup_refs (concat refs @ default)) (all_some (map (rule_services ns) (ing_Rules ing))))"

section \<open>Routes of the Gateway API (gatewayapi.go, httproute.go, grpcroute.go)\<close>

definition NormalizeParentRefs :: "parent_ref list \<Rightarrow> parent_ref list" where
  "NormalizeParentRefs parentRefs = map (\<lambda>p. p\<lparr> pr_Namespace := None \<rparr>) parentRefs"

definition ref_matches :: "object_ref \<Rightarrow> object_meta \<Rightarrow> bool" where
  "ref_matches ref svc \<longleftrightarrow> orf_Name ref = om_Name svc \<and>
     (case orf_Namespace ref of None \<Rightarrow> True | Some ns \<Rightarrow> ns = om_Namespace svc)"

definition RetargetBackendRefToGeneratedService :: "object_meta list \<Rightarrow> string \<Rightarrow> object_ref \<Rightarrow> object_ref" where
  "RetargetBackendRefToGeneratedService refs routeName ref =
     (case find (ref_matches ref) refs of
        None \<Rightarrow> ref
      | Some svc \<Rightarrow> ref\<lparr> orf_Name := GenerateRouteServiceName routeName (om_Name svc) (om_Namespace svc), orf_Namespace := None \<rparr>)"

definition is_service_ref :: "object_ref \<Rightarrow> bool" where
  "is_service_ref ref \<longleftrightarrow> (case orf_Kind ref of None \<Rightarrow> True | Some k \<Rightarrow> k = ServiceKind)"

definition retarget_ref :: "object_meta list \<Rightarrow> string \<Rightarrow> object_ref \<Rightarrow> object_ref" where
  "retarget_ref refs routeName ref =
     (if is_service_ref ref then RetargetBackendRefToGeneratedService refs routeName ref else ref)"

definition retarget_filter :: "object_meta list \<Rightarrow> string \<Rightarrow> route_filter \<Rightarrow> route_filter" where
  "retarget_filter refs routeName f =
     (case f of MirrorFilter ref \<Rightarrow> MirrorFilter (retarget_ref refs routeName ref) | OtherFilter x \<Rightarrow> OtherFilter x)"

definition retarget_backend :: "object_meta list \<Rightarrow> string \<Rightarrow> l7_backend \<Rightarrow> l7_backend" where
  "retarget_backend refs routeName b =
     b\<lparr> lbk_Ref := retarget_ref refs routeName (lbk_Ref b), lbk_Filters := map (retarget_filter refs routeName) (lbk_Filters b) \<rparr>"

definition retarget_l7_rule :: "object_meta list \<Rightarrow> string \<Rightarrow> l7_rule \<Rightarrow> l7_rule" where
  "retarget_l7_rule refs routeName r =
     r\<lparr> lr_Filters := map (retarget_filter refs routeName) (lr_Filters r),
        lr_BackendRefs := map (retarget_backend refs routeName) (lr_BackendRefs r) \<rparr>"

definition prepare_route ::
  "string \<Rightarrow> l7_route \<Rightarrow> object_meta list \<Rightarrow> string \<Rightarrow> string \<Rightarrow> annotation_settings \<Rightarrow> l7_route" where
  "prepare_route annotatedResource obj refs namespace routeName annotations =
     (let m = lro_Meta obj
      in obj\<lparr> lro_Rules := map (retarget_l7_rule refs routeName) (lro_Rules obj),
              lro_ParentRefs := NormalizeParentRefs (lro_ParentRefs obj),
              lro_Meta := \<lparr> om_Name = GenerateName (om_Name m) (om_Namespace m), om_Namespace = namespace, om_UID = [],
                om_Labels = AddKubeLBLabels (om_Labels m) (om_Name m) (om_Namespace m) [],
                om_Annotations = Some (PropagateAnnotations (annots m) annotations annotatedResource) \<rparr> \<rparr>)"

definition l7_key :: "l7_route \<Rightarrow> nsname" where
  "l7_key r = (om_Namespace (lro_Meta r), om_Name (lro_Meta r))"

definition write_l7_route ::
  "('s, l7_route) crud \<Rightarrow> (strmap \<Rightarrow> strmap \<Rightarrow> bool) \<Rightarrow> string \<Rightarrow> l7_route \<Rightarrow> 's \<Rightarrow> l7_route outcome \<times> 's" where
  "write_l7_route c deepEqual kind route s =
     (case merge_and_write c deepEqual kind (l7_key route) route (\<lambda>r. om_Annotations (lro_Meta r))
             (\<lambda>a b. a\<lparr> lro_Meta := lro_Meta b \<rparr> = b \<and> deepEqual (om_Labels (lro_Meta a)) (om_Labels (lro_Meta b)))
             (\<lambda>existing ann. route\<lparr> lro_Meta := updated_meta (lro_Meta existing) (lro_Meta route) ann \<rparr>) s of
        (None, s') \<Rightarrow> (Done route, s')
      | (Some e, s') \<Rightarrow> (Failed e, s'))"

definition CreateOrUpdateHTTPRoute ::
  "('s, 'b) l7_api_scheme \<Rightarrow> l7_route \<Rightarrow> object_meta list \<Rightarrow> string \<Rightarrow> string \<Rightarrow> annotation_settings \<Rightarrow> 's \<Rightarrow> l7_route outcome \<times> 's" where
  "CreateOrUpdateHTTPRoute api obj refs namespace routeName annotations s =
     write_l7_route (l7_HTTPRoutes api) (l7_deepEqual api) ''HTTPRoute''
       (prepare_route AnnotatedResourceHTTPRoute obj refs namespace routeName annotations) s"

definition CreateOrUpdateGRPCRoute ::
  "('s, 'b) l7_api_scheme \<Rightarrow> l7_route \<Rightarrow> object_meta list \<Rightarrow> string \<Rightarrow> string \<Rightarrow> annotation_settings \<Rightarrow> 's \<Rightarrow> l7_route outcome \<times> 's" where
  "CreateOrUpdateGRPCRoute api obj refs namespace routeName annotations s =
     write_l7_route (l7_GRPCRoutes api) (l7_deepEqual api) ''GRPCRoute''
       (prepare_route AnnotatedResourceGRPCRoute obj refs namespace routeName annotations) s"

definition ref_service :: "string \<Rightarrow> object_ref \<Rightarrow> nsname list" where
  "ref_service routeNs ref =
     (if is_service_ref ref then [(case orf_Namespace ref of Some ns \<Rightarrow> ns | None \<Rightarrow> routeNs, orf_Name ref)] else [])"

definition filter_services :: "string \<Rightarrow> route_filter \<Rightarrow> nsname list" where
  "filter_services routeNs f = (case f of MirrorFilter ref \<Rightarrow> ref_service routeNs ref | OtherFilter _ \<Rightarrow> [])"

definition l7_rule_services :: "string \<Rightarrow> l7_rule \<Rightarrow> nsname list" where
  "l7_rule_services routeNs r =
     concat (map (filter_services routeNs) (lr_Filters r)) @
     concat (map (\<lambda>b. ref_service routeNs (lbk_Ref b) @ concat (map (filter_services routeNs) (lbk_Filters b))) (lr_BackendRefs r))"

definition GetServicesFromHTTPRoute :: "l7_route \<Rightarrow> nsname list" where
  "GetServicesFromHTTPRoute r = dedup_refs (concat (map (l7_rule_services (om_Namespace (lro_Meta r))) (lro_Rules r)))"

definition GetServicesFromGRPCRoute :: "l7_route \<Rightarrow> nsname list" where
  "GetServicesFromGRPCRoute r = dedup_refs (concat (map (l7_rule_services (om_Namespace (lro_Meta r))) (lro_Rules r)))"

section \<open>Gateways (gateway.go, helper.go)\<close>

definition MaxGatewaysPerTenant :: nat where "MaxGatewaysPerTenant = 1"
definition ParentGatewayName :: string where "ParentGatewayName = ''kubelb''"
definition GatewayClassName :: string where "GatewayClassName = ''kubelb''"

definition ShouldReconcileGatewayByName :: "tenant_gateway \<Rightarrow> bool" where
  "ShouldReconcileGatewayByName g \<longleftrightarrow> om_Name (tg_Meta g) = ParentGatewayName"

definition ShouldReconcileResource :: "l7_object \<Rightarrow> bool \<Rightarrow> bool" where
  "ShouldReconcileResource obj useGatewayClass =
     (let attached = (\<lambda>r. case lro_ParentRefs r of [p] \<Rightarrow> pr_Name p = ParentGatewayName | _ \<Rightarrow> False)
      in case obj of
           GatewayObj g \<Rightarrow>
             (if om_Name (tg_Meta g) \<noteq> ParentGatewayName then False
              else \<not> (useGatewayClass \<and> tg_ClassName g \<noteq> GatewayClassName))
         | HTTPRouteObj r \<Rightarrow> attached r
         | GRPCRouteObj r \<Rightarrow> attached r
         | _ \<Rightarrow> False)"

definition gateway_key :: "tenant_gateway \<Rightarrow> nsname" where
  "gateway_key g = (om_Namespace (tg_Meta g), om_Name (tg_Meta g))"

text \<open>The check of the name's owner: the first Gateway of that name decides.\<close>

definition claim_error :: "object_meta \<Rightarrow> tenant_gateway list \<Rightarrow> string option" where
  "claim_error m gateways =
     (case find (\<lambda>g. om_Name (tg_Meta g) = om_Name m) gateways of
        None \<Rightarrow>
          if MaxGatewaysPerTenant \<le> length gateways
          then Some (''maximum of '' @ nat_str MaxGatewaysPerTenant @ '' Gateway object(s) per tenant is supported'') else None
      | Some g \<Rightarrow>
          (case (map_of (om_Labels (tg_Meta g)) LabelOriginName, map_of (om_Labels (tg_Meta g)) LabelOriginNamespace) of
             (Some originName, Some originNamespace) \<Rightarrow>
               if originName \<noteq> om_Name m \<or> originNamespace \<noteq> om_Namespace m
               then Some (''gateway name '' @ [CHR 0x22] @ om_Name m @ [CHR 0x22] @ '' is already claimed by '' @ originNamespace @ ''/'' @ originName @
                 '' in the tenant cluster; a Gateway name can only be owned by one source object per tenant'') else None
           | _ \<Rightarrow> None))"

definition prepare_gateway ::
  "('s, 'b) l7_api_scheme \<Rightarrow> tenant_gateway \<Rightarrow> string \<Rightarrow> config_spec \<Rightarrow> tenant_spec \<Rightarrow> annotation_settings \<Rightarrow> 's \<Rightarrow> tenant_gateway" where
  "prepare_gateway api obj namespace config tenant annotations s =
     (let m = tg_Meta obj;
          cert = (\<lambda>r. \<lparr> ce_Name = local_secret api (om_Namespace m) namespace s (ce_Name r), ce_Namespace = None \<rparr>)
      in \<lparr> tg_Meta = \<lparr> om_Name = om_Name m, om_Namespace = namespace, om_UID = [],
             om_Labels = AddKubeLBLabels (om_Labels m) (om_Name m) (om_Namespace m) [],
             om_Annotations = Some (PropagateAnnotations (annots m) annotations AnnotatedResourceGateway) \<rparr>,
           tg_ClassName = (case class_of (ts_GatewayClass tenant) (cs_GatewayClass config) None of
                             Some c \<Rightarrow> c | None \<Rightarrow> tg_ClassName obj),
           tg_Listeners = map (\<lambda>l. l\<lparr> gl_CertificateRefs := map_option (map cert) (gl_CertificateRefs l) \<rparr>) (tg_Listeners obj) \<rparr>)"

definition CreateOrUpdateGateway ::
  "('s, 'b) l7_api_scheme \<Rightarrow> tenant_gateway \<Rightarrow> string \<Rightarrow> config_spec \<Rightarrow> tenant_spec \<Rightarrow> annotation_settings \<Rightarrow> 's \<Rightarrow>
   tenant_gateway outcome \<times> 's" where
  "CreateOrUpdateGateway api obj namespace config tenant annotations s =
     (case l7_listGateways api namespace s of
        Inl e \<Rightarrow> (Failed (''failed to list Gateways: '' @ e), s)
      | Inr gateways \<Rightarrow>
          (case claim_error (tg_Meta obj) gateways of
             Some e \<Rightarrow> (Failed e, s)
           | None \<Rightarrow>
               (let g = prepare_gateway api obj namespace config tenant annotations s
                in case merge_and_write (l7_Gateways api) (l7_deepEqual api) ''Gateway'' (gateway_key g) g
                          (\<lambda>x. om_Annotations (tg_Meta x))
                          (\<lambda>a b. a\<lparr> tg_Meta := tg_Meta b \<rparr> = b \<and> l7_deepEqual api (om_Labels (tg_Meta a)) (om_Labels (tg_Meta b)))
                          (\<lambda>existing ann. g\<lparr> tg_Meta := updated_meta (tg_Meta existing) (tg_Meta g) ann \<rparr>) s of
                     (None, s') \<Rightarrow> (Done g, s')
                   | (Some e, s') \<Rightarrow> (Failed e, s'))))"

section \<open>Embedding objects in Routes (unstructured.go, route.go)\<close>

definition NormalizeUnstructured :: "unstructured \<Rightarrow> unstructured" where
  "NormalizeUnstructured obj =
     \<lparr> us_APIVersion = us_APIVersion obj, us_Kind = us_Kind obj, us_Name = us_Name obj, us_Namespace = us_Namespace obj,
       us_UID = us_UID obj, us_Labels = us_Labels obj,
       us_Annotations = gomap_del LastAppliedConfigAnnotation (us_Annotations obj),
       us_OwnerReferences = [], us_Spec = us_Spec obj, us_Status = [] \<rparr>"

text \<open>The generic converter of the API machinery is an argument, one function per kind.\<close>

record converters =
  cv_Ingress :: "unstructured \<Rightarrow> string + ingress"
  cv_Service :: "unstructured \<Rightarrow> string + service"
  cv_Gateway :: "unstructured \<Rightarrow> string + tenant_gateway"
  cv_HTTPRoute :: "unstructured \<Rightarrow> string + l7_route"
  cv_GRPCRoute :: "unstructured \<Rightarrow> string + l7_route"

definition ConvertUnstructuredToObject :: "converters \<Rightarrow> unstructured \<Rightarrow> string + l7_object" where
  "ConvertUnstructuredToObject cv u =
     (let gvk = (us_APIVersion u, us_Kind u); gw = ''gateway.networking.k8s.io/v1''
      in if gvk = (''networking.k8s.io/v1'', ''Ingress'') then
           (case cv_Ingress cv u of Inl e \<Rightarrow> Inl (''failed to convert unstructured to resource: '' @ e) | Inr x \<Rightarrow> Inr (IngressObj x))
         else if gvk = (''v1'', ''Service'') then
           (case cv_Service cv u of Inl e \<Rightarrow> Inl (''failed to convert unstructured to resource: '' @ e) | Inr x \<Rightarrow> Inr (ServiceObj x))
         else if gvk = (gw, ''Gateway'') then
           (case cv_Gateway cv u of Inl e \<Rightarrow> Inl (''failed to convert unstructured to resource: '' @ e) | Inr x \<Rightarrow> Inr (GatewayObj x))
         else if gvk = (gw, ''HTTPRoute'') then
           (case cv_HTTPRoute cv u of Inl e \<Rightarrow> Inl (''failed to convert unstructured to resource: '' @ e) | Inr x \<Rightarrow> Inr (HTTPRouteObj x))
         else if gvk = (gw, ''GRPCRoute'') then
           (case cv_GRPCRoute cv u of Inl e \<Rightarrow> Inl (''failed to convert unstructured to resource: '' @ e) | Inr x \<Rightarrow> Inr (GRPCRouteObj x))
         else Inl (''unsupported type: '' @ us_APIVersion u @ '', Kind='' @ us_Kind u))"

definition route_object_meta :: "string \<Rightarrow> unstructured \<Rightarrow> string \<Rightarrow> object_meta" where
  "route_object_meta groupKind resource namespace =
     \<lparr> om_Name = us_UID resource, om_Namespace = namespace, om_UID = [],
       om_Labels = [(LabelOriginNamespace, us_Namespace resource), (LabelOriginName, us_Name resource),
                    (LabelOriginResourceKind, groupKind), (LabelManagedBy, LabelControllerName)],
       om_Annotations = None \<rparr>"

definition empty_status :: route_status where
  "empty_status = \<lparr> rt_Services = None, rt_Route = \<lparr> rst_APIVersion = [], rst_Kind = [], rst_Name = [], rst_Namespace = [],
     rst_GeneratedName = [], rst_Status = [], rst_Conditions = [] \<rparr> \<rparr>"

text \<open>\<open>groupKind\<close> is the text \<^verbatim>\<open>Kind.group\<close> of the embedded object.\<close>

definition GenerateRoute :: "(unstructured \<Rightarrow> string) \<Rightarrow> unstructured \<Rightarrow> service list \<Rightarrow> string \<Rightarrow> route" where
  "GenerateRoute groupKind resource services namespace =
     \<lparr> r_Meta = route_object_meta (groupKind resource) resource namespace,
       r_Spec = \<lparr> rs_Endpoints = [\<lparr> le_Name = ''default'', le_Addresses = [],
                    le_AddressesReference = Some \<lparr> ref_Name = DefaultAddressName, ref_Namespace = [] \<rparr>, le_Ports = [] \<rparr>],
                  rs_Kubernetes = Some \<lparr> ks_Route = resource, ks_Services = services \<rparr> \<rparr>,
       r_Status = empty_status \<rparr>"

definition route_obj_key :: "route \<Rightarrow> nsname" where
  "route_obj_key r = (om_Namespace (r_Meta r), om_Name (r_Meta r))"

definition route_differs :: "route \<Rightarrow> route \<Rightarrow> bool" where
  "route_differs existing r \<longleftrightarrow>
     r_Spec existing \<noteq> r_Spec r \<or> \<not> gomap_eq (om_Labels (r_Meta existing)) (om_Labels (r_Meta r)) \<or>
     om_Annotations (r_Meta existing) \<noteq> om_Annotations (r_Meta r)"

definition update_route :: "('s, route) crud \<Rightarrow> route \<Rightarrow> route \<Rightarrow> 's \<Rightarrow> string option \<times> 's" where
  "update_route c existing r s =
     (if \<not> route_differs existing r then (None, s)
      else
        (case c_get c (route_obj_key r) s of
           NotFound \<Rightarrow> (Some ''failed to update Route: not found'', s)
         | GetError e \<Rightarrow> (Some (''failed to update Route: '' @ e), s)
         | Found current \<Rightarrow>
             (case c_update c (current\<lparr> r_Spec := r_Spec r,
                  r_Meta := (r_Meta current)\<lparr> om_Labels := om_Labels (r_Meta r), om_Annotations := om_Annotations (r_Meta r) \<rparr> \<rparr>) s of
                (s', None) \<Rightarrow> (None, s')
              | (s', Some e) \<Rightarrow> (Some (''failed to update Route: '' @ e), s'))))"

text \<open>\<open>alreadyExists\<close> is \<^verbatim>\<open>errors.IsAlreadyExists\<close>: another writer may create the Route between the read and the
  create.\<close>

definition CreateUpdateRoute :: "(string \<Rightarrow> bool) \<Rightarrow> ('s, route) crud \<Rightarrow> route \<Rightarrow> 's \<Rightarrow> string option \<times> 's" where
  "CreateUpdateRoute alreadyExists c r s =
     (case c_get c (route_obj_key r) s of
        GetError e \<Rightarrow> (Some (''failed to get Route from LB cluster: '' @ e), s)
      | Found existing \<Rightarrow> update_route c existing r s
      | NotFound \<Rightarrow>
          (case c_create c r s of
             (s', None) \<Rightarrow> (None, s')
           | (s', Some e) \<Rightarrow>
               (if alreadyExists e then
                  (case c_get c (route_obj_key r) s' of
                     NotFound \<Rightarrow> (Some ''failed to get Route after conflict: not found'', s')
                   | GetError e' \<Rightarrow> (Some (''failed to get Route after conflict: '' @ e'), s')
                   | Found existing \<Rightarrow> update_route c existing r s')
                else (Some (''failed to create Route: '' @ e), s'))))"

definition CreateRouteForResource ::
  "(string \<Rightarrow> bool) \<Rightarrow> (unstructured \<Rightarrow> string) \<Rightarrow> ('s, route) crud \<Rightarrow> unstructured \<Rightarrow> service list \<Rightarrow> string \<Rightarrow> 's \<Rightarrow> string option \<times> 's" where
  "CreateRouteForResource alreadyExists groupKind c resource services namespace s =
     CreateUpdateRoute alreadyExists c (GenerateRoute groupKind resource services namespace) s"

section \<open>Facts\<close>

lemma set_dedup_refs [simp]: "set (dedup_refs refs) = set refs"
  by (simp add: dedup_refs_def)

lemma distinct_dedup_refs [simp]: "distinct (dedup_refs refs)"
  by (simp add: dedup_refs_def)

text \<open>The Services of a route and the names its backends are rewritten to.\<close>

definition service_ref_meta :: "service \<Rightarrow> object_meta" where
  "service_ref_meta svc = \<lparr> om_Name = GetServiceName svc, om_Namespace = om_Namespace (svc_Meta svc),
     om_UID = om_UID (svc_Meta svc), om_Labels = [], om_Annotations = None \<rparr>"

lemma generated_service_name:
  "om_Name (svc_Meta (GenerateServiceForLBCluster svc appName namespace routeName lookup annotations)) =
     GenerateRouteServiceName routeName (om_Name (service_ref_meta svc)) (om_Namespace (service_ref_meta svc))"
  by (simp add: GenerateServiceForLBCluster_def service_ref_meta_def Let_def)

definition mirror_refs :: "route_filter list \<Rightarrow> object_ref list" where
  "mirror_refs fs = concat (map (\<lambda>f. case f of MirrorFilter ref \<Rightarrow> [ref] | OtherFilter _ \<Rightarrow> []) fs)"

definition backend_refs_of :: "l7_backend \<Rightarrow> object_ref list" where
  "backend_refs_of b = lbk_Ref b # mirror_refs (lbk_Filters b)"

definition rule_refs :: "l7_rule \<Rightarrow> object_ref list" where
  "rule_refs r = mirror_refs (lr_Filters r) @ concat (map backend_refs_of (lr_BackendRefs r))"

definition service_refs :: "l7_route \<Rightarrow> object_ref list" where
  "service_refs r = filter is_service_ref (concat (map rule_refs (lro_Rules r)))"

lemma mirror_refs_retarget:
  "mirror_refs (map (retarget_filter refs routeName) fs) = map (retarget_ref refs routeName) (mirror_refs fs)"
  unfolding mirror_refs_def by (induction fs) (auto simp: retarget_filter_def split: route_filter.splits)

lemma rule_refs_retarget: "rule_refs (retarget_l7_rule refs routeName r) = map (retarget_ref refs routeName) (rule_refs r)"
proof -
  have "backend_refs_of (retarget_backend refs routeName b) = map (retarget_ref refs routeName) (backend_refs_of b)" for b
    by (simp add: backend_refs_of_def retarget_backend_def mirror_refs_retarget)
  then show ?thesis by (simp add: rule_refs_def retarget_l7_rule_def mirror_refs_retarget map_concat comp_def)
qed

lemma is_service_retarget [simp]: "is_service_ref (retarget_ref refs routeName ref) = is_service_ref ref"
  by (simp add: retarget_ref_def RetargetBackendRefToGeneratedService_def is_service_ref_def split: option.split)

lemma service_refs_prepare:
  "service_refs (prepare_route kind obj refs namespace routeName annotations) = map (retarget_ref refs routeName) (service_refs obj)"
proof -
  have "filter is_service_ref (concat (map rule_refs (map (retarget_l7_rule refs routeName) rs))) =
      map (retarget_ref refs routeName) (filter is_service_ref (concat (map rule_refs rs)))" for rs
    by (induction rs) (simp_all add: rule_refs_retarget filter_map comp_def)
  then show ?thesis by (simp add: service_refs_def prepare_route_def Let_def)
qed

lemma filter_services_refs: "concat (map (filter_services ns) fs) = concat (map (ref_service ns) (mirror_refs fs))"
  unfolding mirror_refs_def by (induction fs) (auto simp: filter_services_def split: route_filter.splits)

lemma rule_services_refs: "l7_rule_services ns r = concat (map (ref_service ns) (rule_refs r))"
proof -
  have "concat (map (\<lambda>b. ref_service ns (lbk_Ref b) @ concat (map (filter_services ns) (lbk_Filters b))) bs) =
    concat (map (ref_service ns) (concat (map backend_refs_of bs)))" for bs
    by (induction bs) (simp_all add: filter_services_refs backend_refs_of_def)
  then show ?thesis by (simp add: l7_rule_services_def rule_refs_def filter_services_refs)
qed

definition target_of :: "string \<Rightarrow> object_ref \<Rightarrow> nsname" where
  "target_of ns ref = (case orf_Namespace ref of Some n \<Rightarrow> n | None \<Rightarrow> ns, orf_Name ref)"

lemma set_GetServicesFromHTTPRoute:
  "set (GetServicesFromHTTPRoute r) = target_of (om_Namespace (lro_Meta r)) ` set (service_refs r)"
  by (auto simp: GetServicesFromHTTPRoute_def rule_services_refs service_refs_def ref_service_def target_of_def split: if_splits)

lemma retarget_own_service:
  assumes "is_service_ref ref" and "svc \<in> set services" and "target_of ns ref = (om_Namespace (svc_Meta svc), GetServiceName svc)"
    and "distinct (map GetServiceName services)"
  shows "retarget_ref (map service_ref_meta services) routeName ref =
    ref\<lparr> orf_Name := GenerateRouteServiceName routeName (GetServiceName svc) (om_Namespace (svc_Meta svc)), orf_Namespace := None \<rparr>"
proof -
  have name: "orf_Name ref = GetServiceName svc" using assms(3) by (simp add: target_of_def)
  have "find (ref_matches ref) (map service_ref_meta services) = Some (service_ref_meta svc)"
  proof (rule find_unique)
    show "service_ref_meta svc \<in> set (map service_ref_meta services)" using assms(2) by simp
    show "ref_matches ref (service_ref_meta svc)"
      using assms(3) by (auto simp: ref_matches_def service_ref_meta_def target_of_def split: option.splits)
    fix y assume "y \<in> set (map service_ref_meta services)" and match: "ref_matches ref y"
    then obtain x where x: "x \<in> set services" "y = service_ref_meta x" by auto
    with match name have "GetServiceName x = GetServiceName svc" by (simp add: ref_matches_def service_ref_meta_def)
    with assms(2,4) x show "y = service_ref_meta svc" by (auto simp: distinct_map dest: inj_onD)
  qed
  with assms(1) show ?thesis
    by (simp add: retarget_ref_def RetargetBackendRefToGeneratedService_def service_ref_meta_def)
qed

section \<open>Properties\<close>


definition sample_ref :: "string option \<Rightarrow> object_ref" where
  "sample_ref ns = \<lparr> orf_Kind = None, orf_Namespace = ns, orf_Name = ''web'', orf_Port = Some 80 \<rparr>"

definition sample_l7_route :: l7_route where
  "sample_l7_route = \<lparr> lro_Meta = \<lparr> om_Name = ''r'', om_Namespace = ''prod'', om_UID = ''u'', om_Labels = [], om_Annotations = None \<rparr>,
     lro_ParentRefs = [], lro_Hostnames = [],
     lro_Rules = [\<lparr> lr_Matches = [], lr_Filters = [], lr_BackendRefs = [\<lparr> lbk_Ref = sample_ref None, lbk_Filters = [] \<rparr>] \<rparr>] \<rparr>"

definition sample_l7_api :: "((nsname, l7_route) gomap) l7_api" where
  "sample_l7_api = \<lparr> ta_getTenant = \<lambda>_ _. NotFound, ta_getConfig = \<lambda>_ _. NotFound, l7_Services = absent_crud, l7_Ingresses = absent_crud,
     l7_Gateways = absent_crud, l7_HTTPRoutes = mem_crud l7_key, l7_GRPCRoutes = absent_crud, l7_listGateways = \<lambda>_ _. Inr [],
     l7_listSecrets = \<lambda>_ _ _ _. Inr [], l7_deepEqual = gomap_eq \<rparr>"


text \<open>A reference without a namespace is not resolved in the namespace of its route: when a Service of the same name
  in another namespace comes first in the list of Services, \<^verbatim>\<open>RetargetBackendRefToGeneratedService\<close> rewrites the
  reference to the Service generated for that other namespace, although \<^verbatim>\<open>GetServicesFromHTTPRoute\<close> collected it for
  the route's own namespace.\<close>

theorem retarget_ignores_route_namespace:
  assumes "orf_Namespace ref = None" and "is_service_ref ref" and "orf_Name ref = GetServiceName other"
    and "om_Namespace (svc_Meta other) \<noteq> routeNs"
  shows "retarget_ref (map service_ref_meta (other # services)) routeName ref =
      ref\<lparr> orf_Name := GenerateRouteServiceName routeName (GetServiceName other) (om_Namespace (svc_Meta other)) \<rparr> \<and>
    ref_service routeNs ref = [(routeNs, GetServiceName other)]"
  using assms by (simp add: retarget_ref_def RetargetBackendRefToGeneratedService_def ref_matches_def service_ref_meta_def ref_service_def)

theorem retarget_ignores_route_namespace_witness:
  "let own = sample_svc; other = sample_svc\<lparr> svc_Meta := (svc_Meta sample_svc)\<lparr> om_Namespace := ''dev'' \<rparr> \<rparr>
   in orf_Name (retarget_ref (map service_ref_meta [other, own]) ''r'' (sample_ref None)) = ''dev-r-web'' \<and>
      ref_service ''prod'' (sample_ref None) = [(''prod'', ''web'')]"
proof -
  let ?other = "sample_svc\<lparr> svc_Meta := (svc_Meta sample_svc)\<lparr> om_Namespace := ''dev'' \<rparr> \<rparr>"
  have name: "GetServiceName ?other = ''web''" by (simp add: GetServiceName_def sample_svc_def)
  have gen: "GenerateRouteServiceName ''r'' ''web'' ''dev'' = ''dev-r-web''" by code_simp
  have ns: "om_Namespace (svc_Meta ?other) = ''dev''" by simp
  have h: "orf_Namespace (sample_ref None) = None" "is_service_ref (sample_ref None)"
      "orf_Name (sample_ref None) = GetServiceName ?other" "om_Namespace (svc_Meta ?other) \<noteq> ''prod''"
    unfolding name ns by (simp_all add: sample_ref_def is_service_ref_def)
  from retarget_ignores_route_namespace [OF h, of "[sample_svc]" "''r''", unfolded name ns gen]
  show ?thesis unfolding Let_def by simp
qed

end
