(* ===== verification/Route_Controller.thy ===== *)
theory Route_Controller
  imports L7_Resources
begin

text \<open>
  The controller of Route objects in the management cluster (\<^verbatim>\<open>internal/controllers/kubelb/route_controller.go\<close>):
  the Services of a Route with their listener ports, the generated Ingress, Gateway, HTTPRoute or GRPCRoute, the status
  of the Route and the teardown.

  The state is the pair of the port allocator and the cluster. The JSON text of a status, the group and kind of a typed
  object and \<^verbatim>\<open>meta.SetStatusCondition\<close> are arguments. Events, metrics, log lines and owner references are left out.
\<close>

section \<open>State\<close>

record managed_route =
  mr_Route :: route
  mr_Finalizers :: "string list"
  mr_Deleting :: bool

datatype generated_delete = GenDeleted | GenNotFound | GenNoMatch | GenError string

record 's route_api = "'s l7_api" +
  ra_Routes :: "('s, managed_route) crud"
  ra_updateStatus :: "managed_route \<Rightarrow> 's \<Rightarrow> 's \<times> string option"
  ra_listRoutes :: "string \<Rightarrow> 's \<Rightarrow> string + managed_route list"
  ra_listAllRoutes :: "'s \<Rightarrow> string + managed_route list"
  ra_deleteGenerated :: "string \<times> string \<Rightarrow> nsname \<Rightarrow> 's \<Rightarrow> 's \<times> generated_delete"
  ra_convert :: converters
  ra_typeMeta :: "l7_object \<Rightarrow> string \<times> string"
  ra_serviceStatus :: "service \<Rightarrow> string option"
  ra_resourceStatus :: "l7_object \<Rightarrow> string option"
  ra_setCondition :: "condition \<Rightarrow> condition list \<Rightarrow> condition list"

record route_reconciler =
  rr_Namespace :: string
  rr_DisableGatewayAPI :: bool

definition conditionMessageSuccess :: string where "conditionMessageSuccess = ''Success''"
definition conditionReasonSuccessful :: string where "conditionReasonSuccessful = ''InstallationSuccessful''"
definition conditionReasonFailed :: string where "conditionReasonFailed = ''InstallationFailed''"
definition ConditionResourceAppliedSuccessfully :: string where
  "ConditionResourceAppliedSuccessfully = ''ResourceAppliedSuccessfully''"
definition DefaultRouteStatus :: string where "DefaultRouteStatus = ''{}''"

definition managed_route_key :: "managed_route \<Rightarrow> nsname" where
  "managed_route_key m = route_obj_key (mr_Route m)"

definition route_gone :: "managed_route \<Rightarrow> bool" where
  "route_gone m \<longleftrightarrow> mr_Deleting m \<and> mr_Finalizers m = []"

definition route_held :: "managed_route \<Rightarrow> managed_route option" where
  "route_held m = (if mr_Finalizers m = [] then None else Some (m\<lparr> mr_Deleting := True \<rparr>))"

definition set_route_status :: "route_status \<Rightarrow> managed_route \<Rightarrow> managed_route" where
  "set_route_status st m = m\<lparr> mr_Route := (mr_Route m)\<lparr> r_Status := st \<rparr> \<rparr>"

section \<open>Route type and gates\<close>

definition getRouteType :: "route \<Rightarrow> string" where
  "getRouteType r =
     (case rs_Kubernetes (r_Spec r) of
        None \<Rightarrow> ''ingress''
      | Some src \<Rightarrow>
          (let kind = us_Kind (ks_Route src)
           in if kind = ''Gateway'' then ''gateway'' else if kind = ''HTTPRoute'' then ''httproute''
              else if kind = ''GRPCRoute'' then ''grpcroute'' else ''ingress''))"

definition isGatewayAPIDisabled :: "bool \<Rightarrow> config_spec \<Rightarrow> tenant_spec \<Rightarrow> bool" where
  "isGatewayAPIDisabled disableGatewayAPI config tenant =
     (if disableGatewayAPI then True else if cs_GatewayAPIDisable config then True
      else if ts_GatewayAPIDisable tenant then True else False)"

definition route_shouldReconcile ::
  "converters \<Rightarrow> bool \<Rightarrow> route \<Rightarrow> tenant_spec \<Rightarrow> config_spec \<Rightarrow> string + bool \<times> bool" where
  "route_shouldReconcile cv disableGatewayAPI r tenant config =
     (case rs_Kubernetes (r_Spec r) of
        None \<Rightarrow> Inr (False, False)
      | Some src \<Rightarrow>
          (case ConvertUnstructuredToObject cv (ks_Route src) of
             Inl e \<Rightarrow> Inl (''failed to convert route to object: '' @ e)
           | Inr obj \<Rightarrow>
               (let off = isGatewayAPIDisabled disableGatewayAPI config tenant
                in case obj of
                     IngressObj _ \<Rightarrow>
                       if cs_IngressDisable config then Inr (False, True)
                       else if ts_IngressDisable tenant then Inr (False, True) else Inr (True, False)
                   | GatewayObj g \<Rightarrow>
                       if off then Inr (False, True)
                       else if \<not> ShouldReconcileGatewayByName g then Inr (False, False) else Inr (True, False)
                   | GRPCRouteObj _ \<Rightarrow> if off then Inr (False, True) else Inr (True, False)
                   | HTTPRouteObj _ \<Rightarrow> if off then Inr (False, True) else Inr (True, False)
                   | ServiceObj _ \<Rightarrow> Inr (False, False))))"

section \<open>Status\<close>

definition setCondition :: "(condition \<Rightarrow> condition list \<Rightarrow> condition list) \<Rightarrow> condition list \<Rightarrow> string option \<Rightarrow> condition list" where
  "setCondition setStatusCondition conditions err =
     setStatusCondition
       (case err of
          None \<Rightarrow> \<lparr> cnd_Type = ConditionResourceAppliedSuccessfully, cnd_Status = ''True'', cnd_Reason = conditionReasonSuccessful,
                    cnd_Message = conditionMessageSuccess \<rparr>
        | Some e \<Rightarrow> \<lparr> cnd_Type = ConditionResourceAppliedSuccessfully, cnd_Status = ''False'', cnd_Reason = conditionReasonFailed,
                      cnd_Message = e \<rparr>) conditions"

definition updateServiceStatus :: "('s, 'b) route_api_scheme \<Rightarrow> route_status \<Rightarrow> service \<Rightarrow> string option \<Rightarrow> route_status" where
  "updateServiceStatus api st svc err =
     (let originalName = GetServiceName svc; originalNamespace = GetServiceNamespace svc;
          key = RouteServiceMapKey originalNamespace originalName;
          services = (case rt_Services st of None \<Rightarrow> [] | Some m \<Rightarrow> m);
          conditions = (case map_of services key of None \<Rightarrow> [] | Some existing \<Rightarrow> rst_Conditions existing);
          status = \<lparr> rst_APIVersion = [], rst_Kind = [], rst_Name = originalName, rst_Namespace = originalNamespace,
                     rst_GeneratedName = om_Name (svc_Meta svc),
                     rst_Status = (case ra_serviceStatus api svc of Some raw \<Rightarrow> raw | None \<Rightarrow> DefaultRouteStatus),
                     rst_Conditions = setCondition (ra_setCondition api) conditions err,
                     rss_Ports = ss_Ports (svc_Spec svc) \<rparr>
      in st\<lparr> rt_Services := Some (gomap_put key status services) \<rparr>)"

definition l7_meta :: "l7_object \<Rightarrow> object_meta" where
  "l7_meta obj = (case obj of IngressObj i \<Rightarrow> ing_Meta i | GatewayObj g \<Rightarrow> tg_Meta g | HTTPRouteObj r \<Rightarrow> lro_Meta r
     | GRPCRouteObj r \<Rightarrow> lro_Meta r | ServiceObj v \<Rightarrow> svc_Meta v)"

definition getResourceStatus :: "('s, 'b) route_api_scheme \<Rightarrow> l7_object \<Rightarrow> string" where
  "getResourceStatus api obj = (case ra_resourceStatus api obj of Some raw \<Rightarrow> raw | None \<Rightarrow> DefaultRouteStatus)"

definition updateResourceStatus :: "('s, 'b) route_api_scheme \<Rightarrow> route_status \<Rightarrow> l7_object \<Rightarrow> string option \<Rightarrow> route_status" where
  "updateResourceStatus api st obj err =
     (case obj of
        ServiceObj _ \<Rightarrow> st
      | _ \<Rightarrow> st\<lparr> rt_Route := \<lparr> rst_APIVersion = fst (ra_typeMeta api obj), rst_Kind = snd (ra_typeMeta api obj),
                 rst_Name = GetName (l7_meta obj), rst_Namespace = GetNamespace (l7_meta obj),
                 rst_GeneratedName = om_Name (l7_meta obj), rst_Status = getResourceStatus api obj,
                 rst_Conditions = setCondition (ra_setCondition api) (rst_Conditions (rt_Route st)) err \<rparr> \<rparr>)"

text \<open>\<^verbatim>\<open>UpdateRouteStatus\<close> reads the Route again; the object in memory becomes what was read, with the new status.\<close>

definition same_status :: "route_status \<Rightarrow> route_status \<Rightarrow> bool" where
  "same_status a b \<longleftrightarrow> rt_Route a = rt_Route b \<and>
     (case (rt_Services a, rt_Services b) of (None, None) \<Rightarrow> True | (Some x, Some y) \<Rightarrow> gomap_eq x y | _ \<Rightarrow> False)"

definition UpdateRouteStatus ::
  "('s, 'b) route_api_scheme \<Rightarrow> managed_route \<Rightarrow> route_status \<Rightarrow> 's \<Rightarrow> string option \<times> managed_route \<times> 's" where
  "UpdateRouteStatus api m st s =
     (case c_get (ra_Routes api) (managed_route_key m) s of
        NotFound \<Rightarrow> (Some ''not found'', m, s)
      | GetError e \<Rightarrow> (Some e, m, s)
      | Found current \<Rightarrow>
          (let current' = set_route_status st current
           in if same_status (r_Status (mr_Route current)) st then (None, current', s)
              else (case ra_updateStatus api current' s of (s', err) \<Rightarrow> (err, current', s'))))"

section \<open>Services of a Route\<close>

definition desired_keys :: "kubernetes_source \<Rightarrow> string list" where
  "desired_keys src = map (\<lambda>svc. RouteServiceMapKey (om_Namespace (svc_Meta svc)) (GetServiceName svc)) (ks_Services src)"

text \<open>The loop of \<^verbatim>\<open>cleanupOrphanedServices\<close> over the entries of the status. The endpoint key is built with the
  generated name of the Service.\<close>

fun cleanup_orphans ::
  "('s, service) crud \<Rightarrow> string list \<Rightarrow> string \<Rightarrow> string \<Rightarrow> (string \<times> route_service_status) list \<Rightarrow>
   (string, route_service_status) gomap \<times> port_allocator \<times> 's \<Rightarrow> string option \<times> (string, route_service_status) gomap \<times> port_allocator \<times> 's" where
  "cleanup_orphans c desired namespace routeName [] st = (None, st)"
| "cleanup_orphans c desired namespace routeName ((key, value) # entries) st =
     (if key \<in> set desired then cleanup_orphans c desired namespace routeName entries st
      else
        (case st of (services, pa, s) \<Rightarrow>
           (case c_delete c (namespace, rst_GeneratedName value) s of
              (s', DeleteError e) \<Rightarrow> (Some (''failed to delete orphaned service: '' @ e), services, pa, s')
            | (s', _) \<Rightarrow>
                cleanup_orphans c desired namespace routeName entries
                  (gomap_del key services,
                   DeallocateEndpoints [EnvoyEndpointRouteKey namespace (rst_Namespace value) (rst_GeneratedName value) routeName] pa, s'))))"

definition cleanupOrphanedServices ::
  "('s, 'b) route_api_scheme \<Rightarrow> managed_route \<Rightarrow> kubernetes_source \<Rightarrow> port_allocator \<Rightarrow> 's \<Rightarrow>
   string option \<times> managed_route \<times> port_allocator \<times> 's" where
  "cleanupOrphanedServices api m src pa s =
     (let r = mr_Route m
      in case rt_Services (r_Status r) of
           None \<Rightarrow> (None, m, pa, s)
         | Some services \<Rightarrow>
             (case cleanup_orphans (l7_Services api) (desired_keys src) (om_Namespace (r_Meta r)) (originalRouteName r src) services (services, pa, s) of
                (err, services', pa', s') \<Rightarrow>
                  (err, set_route_status ((r_Status r)\<lparr> rt_Services := Some services' \<rparr>) m, pa', s')))"

definition delete_renamed ::
  "('s, service) crud \<Rightarrow> string \<Rightarrow> string \<Rightarrow> (string, route_service_status) gomap \<Rightarrow> service \<Rightarrow> 's \<Rightarrow> 's" where
  "delete_renamed c namespace routeName services svc s =
     (case map_of services (RouteServiceMapKey (om_Namespace (svc_Meta svc)) (GetServiceName svc)) of
        None \<Rightarrow> s
      | Some st \<Rightarrow>
          if rst_GeneratedName st \<noteq> GenerateRouteServiceName routeName (GetServiceName svc) (om_Namespace (svc_Meta svc))
          then fst (c_delete c (namespace, rst_GeneratedName st) s) else s)"

definition cleanupRenamedServices ::
  "('s, 'b) route_api_scheme \<Rightarrow> route \<Rightarrow> string \<Rightarrow> 's \<Rightarrow> 's" where
  "cleanupRenamedServices api r routeName s =
     (case (rt_Services (r_Status r), rs_Kubernetes (r_Spec r)) of
        (Some services, Some src) \<Rightarrow>
          fold (delete_renamed (l7_Services api) (om_Namespace (r_Meta r)) routeName services) (ks_Services src) s
      | _ \<Rightarrow> s)"

fun apply_services ::
  "('s, 'b) route_api_scheme \<Rightarrow> service list \<Rightarrow> route_status \<Rightarrow> 's \<Rightarrow> string list \<times> route_status \<times> 's" where
  "apply_services api [] st s = ([], st, s)"
| "apply_services api (svc # svcs) st s =
     (case CreateOrUpdateService api svc s of (svc', err, s') \<Rightarrow>
        (case apply_services api svcs (updateServiceStatus api st svc' err) s' of (errs, st', s'') \<Rightarrow>
           ((case err of None \<Rightarrow> errs | Some e \<Rightarrow> (''failed to create or update Service: '' @ e) # errs), st', s'')))"

definition join_errors :: "string list \<Rightarrow> string" where
  "join_errors errs = concat (case errs of [] \<Rightarrow> [] | e # es \<Rightarrow> e # map (\<lambda>x. CHR 0x0A # x) es)"

definition generated_services :: "port_allocator \<Rightarrow> route \<Rightarrow> kubernetes_source \<Rightarrow> annotation_settings \<Rightarrow> service list" where
  "generated_services pa r src annotations =
     (let ns = om_Namespace (r_Meta r)
      in map (\<lambda>svc. GenerateServiceForLBCluster svc ns ns (originalRouteName r src) (Lookup pa) annotations) (ks_Services src))"

text \<open>\<^verbatim>\<open>manageServices\<close>; \<^const>\<open>None\<close>: the allocation of ports does not return.\<close>

definition manageServices ::
  "('s, 'b) route_api_scheme \<Rightarrow> managed_route \<Rightarrow> annotation_settings \<Rightarrow> draws \<Rightarrow> port_allocator \<Rightarrow> 's \<Rightarrow>
   (string option \<times> managed_route \<times> port_allocator \<times> 's) option" where
  "manageServices api m annotations rs pa s =
     (case rs_Kubernetes (r_Spec (mr_Route m)) of
        None \<Rightarrow> Some (None, m, pa, s)
      | Some src \<Rightarrow>
          (case cleanupOrphanedServices api m src pa s of
             (Some e, m1, pa1, s1) \<Rightarrow> Some (Some (''failed to cleanup orphaned services: '' @ e), m1, pa1, s1)
           | (None, m1, pa1, s1) \<Rightarrow>
               (case AllocatePortsForRoutes [mr_Route m1] pa1 rs of
                  None \<Rightarrow> None
                | Some (pa2, _) \<Rightarrow>
                    (case apply_services api (generated_services pa2 (mr_Route m1) src annotations) (r_Status (mr_Route m1)) s1 of
                       (errs, st, s2) \<Rightarrow>
                         (let s3 = cleanupRenamedServices api (mr_Route m1) (originalRouteName (mr_Route m1) src) s2
                          in case UpdateRouteStatus api m1 st s3 of
                               (Some e, m2, s4) \<Rightarrow> Some (Some e, m2, pa2, s4)
                             | (None, m2, s4) \<Rightarrow>
                                 Some (if errs \<noteq> [] then Some (join_errors errs) else None, m2, pa2, s4))))))"

section \<open>The generated route object\<close>

definition recordAppliedResource ::
  "('s, 'b) route_api_scheme \<Rightarrow> string \<Rightarrow> ('o \<Rightarrow> l7_object) \<Rightarrow> ('s, 'o) crud \<Rightarrow> nsname \<Rightarrow> route_status \<Rightarrow> 'o \<Rightarrow> 's \<Rightarrow> string + route_status" where
  "recordAppliedResource api typeName con c key st desired s =
     (case c_get c key s of
        GetError e \<Rightarrow> Inl (''failed to get '' @ typeName @ '': '' @ e)
      | NotFound \<Rightarrow> Inr (updateResourceStatus api st (con desired) None)
      | Found live \<Rightarrow> Inr (updateResourceStatus api st (con live) None))"

text \<open>What applying the object gave: the status to record with the error of the apply, an error of the record itself,
  or a panic.\<close>

datatype applied = Applied route_status "string option" | RecordFailed string | ApplyPanic

definition after_apply ::
  "('s, 'b) route_api_scheme \<Rightarrow> string \<Rightarrow> ('o \<Rightarrow> l7_object) \<Rightarrow> ('s, 'o) crud \<Rightarrow> ('o \<Rightarrow> nsname) \<Rightarrow> route_status \<Rightarrow> l7_object \<Rightarrow>
   'o outcome \<times> 's \<Rightarrow> applied \<times> 's" where
  "after_apply api typeName con c key st obj out =
     (case out of
        (Panic, s) \<Rightarrow> (ApplyPanic, s)
      | (Failed e, s) \<Rightarrow>
          (let err = ''failed to create or update '' @ snd (ra_typeMeta api obj) @ '': '' @ e
           in (Applied (updateResourceStatus api st obj (Some err)) (Some err), s))
      | (Done x, s) \<Rightarrow>
          (case recordAppliedResource api typeName con c (key x) st x s of
             Inl e \<Rightarrow> (RecordFailed e, s) | Inr st' \<Rightarrow> (Applied st' None, s)))"

definition apply_resource ::
  "('s, 'b) route_api_scheme \<Rightarrow> l7_object \<Rightarrow> object_meta list \<Rightarrow> string \<Rightarrow> string \<Rightarrow> config_spec \<Rightarrow> tenant_spec \<Rightarrow>
   annotation_settings \<Rightarrow> route_status \<Rightarrow> 's \<Rightarrow> applied \<times> 's" where
  "apply_resource api obj refs namespace routeName config tenant annotations st s =
     (case obj of
        IngressObj i \<Rightarrow> after_apply api ''*v1.Ingress'' IngressObj (l7_Ingresses api) ingress_key st obj
          (CreateOrUpdateIngress api i refs namespace routeName config tenant annotations s)
      | GatewayObj g \<Rightarrow> after_apply api ''*v1.Gateway'' GatewayObj (l7_Gateways api) gateway_key st obj
          (CreateOrUpdateGateway api g namespace config tenant annotations s)
      | HTTPRouteObj r \<Rightarrow> after_apply api ''*v1.HTTPRoute'' HTTPRouteObj (l7_HTTPRoutes api) l7_key st obj
          (CreateOrUpdateHTTPRoute api r refs namespace routeName annotations s)
      | GRPCRouteObj r \<Rightarrow> after_apply api ''*v1.GRPCRoute'' GRPCRouteObj (l7_GRPCRoutes api) l7_key st obj
          (CreateOrUpdateGRPCRoute api r refs namespace routeName annotations s)
      | ServiceObj _ \<Rightarrow> (Applied st None, s))"

definition manageRoutes ::
  "('s, 'b) route_api_scheme \<Rightarrow> managed_route \<Rightarrow> config_spec \<Rightarrow> tenant_spec \<Rightarrow> annotation_settings \<Rightarrow> 's \<Rightarrow> unit outcome \<times> 's" where
  "manageRoutes api m config tenant annotations s =
     (let r = mr_Route m
      in case rs_Kubernetes (r_Spec r) of
           None \<Rightarrow> (Done (), s)
         | Some src \<Rightarrow>
             (case ConvertUnstructuredToObject (ra_convert api) (ks_Route src) of
                Inl e \<Rightarrow> (Failed (''failed to convert route to object: '' @ e), s)
              | Inr obj \<Rightarrow>
                  (case apply_resource api obj (map service_ref_meta (ks_Services src)) (om_Namespace (r_Meta r)) (originalRouteName r src)
                          config tenant annotations (r_Status r) s of
                     (ApplyPanic, s1) \<Rightarrow> (Panic, s1)
                   | (RecordFailed e, s1) \<Rightarrow> (Failed e, s1)
                   | (Applied st err, s1) \<Rightarrow>
                       (case UpdateRouteStatus api m st s1 of
                          (Some e, _, s2) \<Rightarrow> (Failed e, s2)
                        | (None, _, s2) \<Rightarrow> (case err of None \<Rightarrow> (Done (), s2) | Some e \<Rightarrow> (Failed e, s2))))))"

section \<open>Teardown\<close>

definition deleteGeneratedRoute :: "('s, 'b) route_api_scheme \<Rightarrow> route \<Rightarrow> 's \<Rightarrow> string option \<times> 's" where
  "deleteGeneratedRoute api r s =
     (let generatedName = rst_GeneratedName (rt_Route (r_Status r))
      in case rs_Kubernetes (r_Spec r) of
           None \<Rightarrow> (None, s)
         | Some src \<Rightarrow>
             (let gvk = (us_APIVersion (ks_Route src), us_Kind (ks_Route src))
              in if generatedName = [] \<or> gvk = ([], []) then (None, s)
                 else (case ra_deleteGenerated api gvk (om_Namespace (r_Meta r), generatedName) s of
                         (s', GenError e) \<Rightarrow> (Some (''failed to delete generated '' @ snd gvk @ '': '' @ e), s')
                       | (s', _) \<Rightarrow> (None, s'))))"

fun delete_services :: "('s, service) crud \<Rightarrow> string \<Rightarrow> (string \<times> route_service_status) list \<Rightarrow> 's \<Rightarrow> string option \<times> 's" where
  "delete_services c namespace [] s = (None, s)"
| "delete_services c namespace ((key, value) # entries) s =
     (case c_delete c (namespace, rst_GeneratedName value) s of
        (s', DeleteError e) \<Rightarrow> (Some (''failed to delete service: '' @ e), s')
      | (s', _) \<Rightarrow> delete_services c namespace entries s')"

definition resetGeneratedResourcesStatus ::
  "('s, 'b) route_api_scheme \<Rightarrow> managed_route \<Rightarrow> 's \<Rightarrow> string option \<times> managed_route \<times> 's" where
  "resetGeneratedResourcesStatus api m s =
     (let st = r_Status (mr_Route m);
          st' = st\<lparr> rt_Services := None, rt_Route := \<lparr> rst_APIVersion = [], rst_Kind = [], rst_Name = [], rst_Namespace = [],
                     rst_GeneratedName = [], rst_Status = [], rst_Conditions = rst_Conditions (rt_Route st) \<rparr> \<rparr>
      in case UpdateRouteStatus api m st' s of
           (Some e, m', s') \<Rightarrow> (Some (''failed to reset route status: '' @ e), m', s')
         | (None, m', s') \<Rightarrow> (None, m', s'))"

definition drop_finalizer :: "managed_route \<Rightarrow> managed_route" where
  "drop_finalizer m = m\<lparr> mr_Finalizers := filter (\<lambda>f. f \<noteq> CleanupFinalizer) (mr_Finalizers m) \<rparr>"

definition route_cleanup ::
  "('s, 'b) route_api_scheme \<Rightarrow> managed_route \<Rightarrow> bool \<Rightarrow> port_allocator \<Rightarrow> 's \<Rightarrow> unit outcome \<times> port_allocator \<times> 's" where
  "route_cleanup api m resetStatus pa s =
     (let r = mr_Route m
      in case deleteGeneratedRoute api r s of
           (Some e, s1) \<Rightarrow> (Failed e, pa, s1)
         | (None, s1) \<Rightarrow>
             (case delete_services (l7_Services api) (om_Namespace (r_Meta r))
                     (case rt_Services (r_Status r) of None \<Rightarrow> [] | Some services \<Rightarrow> services) s1 of
                (Some e, s2) \<Rightarrow> (Failed e, pa, s2)
              | (None, s2) \<Rightarrow>
                  (let pa' = DeallocatePortsForRoute r pa
                   in case (if resetStatus then resetGeneratedResourcesStatus api m s2 else (None, m, s2)) of
                        (Some e, _, s3) \<Rightarrow> (Failed e, pa', s3)
                      | (None, m', s3) \<Rightarrow>
                          (case c_update (ra_Routes api) (drop_finalizer m') s3 of
                             (s4, None) \<Rightarrow> (Done (), pa', s4)
                           | (s4, Some e) \<Rightarrow> (Failed (''failed to remove finalizer: '' @ e), pa', s4)))))"

section \<open>Reconciliation\<close>

definition route_reconcile ::
  "('s, 'b) route_api_scheme \<Rightarrow> managed_route \<Rightarrow> config_spec \<Rightarrow> tenant_spec \<Rightarrow> draws \<Rightarrow> port_allocator \<Rightarrow> 's \<Rightarrow>
   (unit outcome \<times> port_allocator \<times> 's) option" where
  "route_reconcile api m config tenant rs pa s =
     (let annotations = GetAnnotations tenant config
      in case manageServices api m annotations rs pa s of
           None \<Rightarrow> None
         | Some (Some e, _, pa', s') \<Rightarrow> Some (Failed (''failed to create or update services: '' @ e), pa', s')
         | Some (None, m', pa', s') \<Rightarrow>
             (case manageRoutes api m' config tenant annotations s' of
                (Done _, s'') \<Rightarrow> Some (Done (), pa', s'')
              | (Failed e, s'') \<Rightarrow> Some (Failed (''failed to create or update route: '' @ e), pa', s'')
              | (Panic, s'') \<Rightarrow> Some (Panic, pa', s'')))"

definition route_Reconcile ::
  "('s, 'b) route_api_scheme \<Rightarrow> route_reconciler \<Rightarrow> nsname \<Rightarrow> draws \<Rightarrow> port_allocator \<times> 's \<Rightarrow>
   (unit outcome \<times> port_allocator \<times> 's) option" where
  "route_Reconcile api rr req rs st =
     (case st of (pa, s) \<Rightarrow>
      case c_get (ra_Routes api) req s of
        NotFound \<Rightarrow> Some (Done (), pa, s)
      | GetError e \<Rightarrow> Some (Failed e, pa, s)
      | Found m \<Rightarrow>
          (case GetTenantAndConfig api (rr_Namespace rr) (RemoveTenantPrefix (om_Namespace (r_Meta (mr_Route m)))) s of
             Inl e \<Rightarrow> Some (Failed e, pa, s)
           | Inr (tenant, config) \<Rightarrow>
               (let held = CleanupFinalizer \<in> set (mr_Finalizers m)
                in if mr_Deleting m then
                     (if held then Some (route_cleanup api m False pa s) else Some (Done (), pa, s))
                   else
                     (case route_shouldReconcile (ra_convert api) (rr_DisableGatewayAPI rr) (mr_Route m) tenant config of
                        Inl e \<Rightarrow> Some (Failed e, pa, s)
                      | Inr (should, disabled) \<Rightarrow>
                          if held \<and> disabled then Some (route_cleanup api m True pa s)
                          else if \<not> should then Some (Done (), pa, s)
                          else
                            (let m1 = (if held then m else m\<lparr> mr_Finalizers := mr_Finalizers m @ [CleanupFinalizer] \<rparr>);
                                 (s1, err) = (if held then (s, None) else c_update (ra_Routes api) m1 s)
                             in case err of
                                  Some e \<Rightarrow> Some (Failed (''failed to add finalizer: '' @ e), pa, s1)
                                | None \<Rightarrow> route_reconcile api m1 config tenant rs pa s1)))))"

definition enqueueRoutesForConfig :: "('s, 'b) route_api_scheme \<Rightarrow> 's \<Rightarrow> nsname list" where
  "enqueueRoutesForConfig api s =
     (case ra_listAllRoutes api s of Inl e \<Rightarrow> [] | Inr ms \<Rightarrow> map managed_route_key ms)"

definition enqueueRoutesForTenant :: "('s, 'b) route_api_scheme \<Rightarrow> string \<Rightarrow> 's \<Rightarrow> nsname list" where
  "enqueueRoutesForTenant api tenantName s =
     (case ra_listRoutes api (tenantNamespace tenantName) s of Inl e \<Rightarrow> [] | Inr ms \<Rightarrow> map managed_route_key ms)"

section \<open>What the status of a Route reports\<close>

definition status_at :: "route_status \<Rightarrow> string \<Rightarrow> route_service_status option" where
  "status_at st k = (case rt_Services st of None \<Rightarrow> None | Some m \<Rightarrow> map_of m k)"

definition route_reported :: "port_allocator \<Rightarrow> route \<Rightarrow> bool" where
  "route_reported pa r \<longleftrightarrow>
     (\<forall>src. rs_Kubernetes (r_Spec r) = Some src \<longrightarrow>
        (\<exists>annotations. \<forall>svc \<in> set (ks_Services src). \<exists>st.
           status_at (r_Status r) (RouteServiceMapKey (om_Namespace (svc_Meta svc)) (GetServiceName svc)) = Some st \<and>
           rss_Ports st = ss_Ports (svc_Spec (GenerateServiceForLBCluster svc (om_Namespace (r_Meta r)) (om_Namespace (r_Meta r))
             (originalRouteName r src) (Lookup pa) annotations))))"

lemma GetServiceName_GetName: "GetServiceName svc = GetName (svc_Meta svc)"
  by (simp add: GetServiceName_def GetName_def)

lemma generated_ports:
  "ss_Ports (svc_Spec (GenerateServiceForLBCluster svc appName (om_Namespace (r_Meta r)) (originalRouteName r src) lookup annotations)) =
     map (lb_cluster_port (route_endpoint_key r src svc) lookup) (ss_Ports (svc_Spec svc))"
  by (simp add: GenerateServiceForLBCluster_def route_endpoint_key_def Let_def)

lemma grows_load_route: "grows (load_route intValue r)"
proof -
  have "grows (load_route_service intValue r src svc)" for src svc
  proof -
    have set: "grows (fold (\<lambda>port. table_set ek (K port) (V port)) ports)" for ek K V and ports :: "service_port list"
      by (intro grows_fold grows_set)
    have "table_lookup (load_route_service intValue r src svc t) ek k \<noteq> None" if "table_lookup t ek k \<noteq> None" for t ek k
      using that set unfolding load_route_service_def Let_def grows_def by (auto split: option.split)
    then show ?thesis by (simp add: grows_def)
  qed
  then have "grows (fold (load_route_service intValue r src) svcs)" for src svcs by (intro grows_fold)
  then show ?thesis unfolding load_route_def grows_def by (auto split: option.split)
qed

lemma load_reported_route:
  assumes rep: "route_reported pa r" and inv: "pa_inv pa" and alloc: "all_allocated pa (route_requests r)"
    and int: "\<And>n. intValue (IntPort n) = n"
  shows "agrees pa t \<Longrightarrow> agrees pa (load_route intValue r t)"
    and "(ek, keys) \<in> set (route_requests r) \<Longrightarrow> k \<in> set keys \<Longrightarrow> enters (load_route intValue r) ek k"
proof -
  have main: "(agrees pa t \<longrightarrow> agrees pa (load_route intValue r t)) \<and>
      ((ek, keys) \<in> set (route_requests r) \<longrightarrow> k \<in> set keys \<longrightarrow> enters (load_route intValue r) ek k)"
  proof (cases "rs_Kubernetes (r_Spec r)")
    case None
    then show ?thesis by (simp add: load_route_def route_requests_def)
  next
    case (Some src)
    let ?K = "\<lambda>p. EnvoyListenerKey (sp_Port p) (sp_Protocol p)"
    from rep Some have
      st: "\<forall>svc \<in> set (ks_Services src). \<exists>st.
        status_at (r_Status r) (RouteServiceMapKey (om_Namespace (svc_Meta svc)) (GetName (svc_Meta svc))) = Some st \<and>
        rss_Ports st = map (lb_cluster_port (route_endpoint_key r src svc) (Lookup pa)) (ss_Ports (svc_Spec svc))"
      unfolding route_reported_def generated_ports GetServiceName_GetName by blast
    have port: "\<exists>p. table_lookup (portLookup pa) (route_endpoint_key r src svc) (?K q) = Some p \<and>
        intValue (sp_TargetPort (lb_cluster_port (route_endpoint_key r src svc) (Lookup pa) q)) = p"
      if "svc \<in> set (ks_Services src)" and "q \<in> set (ss_Ports (svc_Spec svc))" for svc q
    proof -
      have "snd (Lookup pa (route_endpoint_key r src svc) (?K q))"
        using alloc that by (auto simp: all_allocated_def route_requests_def Some)
      then obtain p where p: "Lookup pa (route_endpoint_key r src svc) (?K q) = (p, True)" by (metis prod.collapse)
      then show ?thesis using pa.lookup_to_int32 [OF inv p] int
        by (auto simp: lb_cluster_port_def Lookup_table Let_def split: option.splits)
    qed
    have load: "load_route_service intValue r src svc t' =
        fold (\<lambda>q. table_set (route_endpoint_key r src svc) (?K q)
            (intValue (sp_TargetPort (lb_cluster_port (route_endpoint_key r src svc) (Lookup pa) q)))) (ss_Ports (svc_Spec svc))
          (table_touch (route_endpoint_key r src svc) t')" if "svc \<in> set (ks_Services src)" for svc t'
      using bspec [OF st that]
      by (auto simp: load_route_service_def Let_def status_at_def fold_map comp_def lb_cluster_port_def split: option.splits)
    have "agrees pa (load_route_service intValue r src svc t')" if "svc \<in> set (ks_Services src)" "agrees pa t'" for svc t'
      unfolding load [OF that(1)]
      by (rule agrees_fold) (use port [OF that(1)] that(2) in \<open>auto intro!: agrees_set\<close>)
    then have one: "agrees pa t \<longrightarrow> agrees pa (load_route intValue r t)"
      unfolding load_route_def Some option.case by (intro impI agrees_fold)
    have "enters (load_route_service intValue r src svc) (route_endpoint_key r src svc) (?K q)"
      if svc: "svc \<in> set (ks_Services src)" and q: "q \<in> set (ss_Ports (svc_Spec svc))" for svc q
    proof -
      let ?f = "\<lambda>q. table_set (route_endpoint_key r src svc) (?K q)
          (intValue (sp_TargetPort (lb_cluster_port (route_endpoint_key r src svc) (Lookup pa) q)))"
      have "enters (fold ?f (ss_Ports (svc_Spec svc))) (route_endpoint_key r src svc) (?K q)"
        by (rule enters_fold [OF q]) (simp_all add: enters_def table_lookup_set grows_set)
      then show ?thesis unfolding enters_def load [OF svc] by blast
    qed
    moreover have "grows (load_route_service intValue r src y)" if "y \<in> set (ks_Services src)" for y
      unfolding load [OF that] by (intro grows_touch grows_fold grows_set)
    ultimately have "(ek, keys) \<in> set (route_requests r) \<longrightarrow> k \<in> set keys \<longrightarrow> enters (load_route intValue r) ek k"
      unfolding load_route_def Some option.case route_requests_def by (auto intro!: enters_fold)
    with one show ?thesis by blast
  qed
  then show "agrees pa t \<Longrightarrow> agrees pa (load_route intValue r t)"
    and "(ek, keys) \<in> set (route_requests r) \<Longrightarrow> k \<in> set keys \<Longrightarrow> enters (load_route intValue r) ek k" by blast+
qed

lemma load_table_reported:
  assumes inv: "pa_inv pa" and int: "\<And>n. intValue (IntPort n) = n"
    and lbs: "\<And>lb. lb \<in> set lbs \<Longrightarrow> lb_reported pa lb \<and> all_allocated pa (lb_requests lb)"
    and routes: "\<And>r. r \<in> set routes \<Longrightarrow> route_reported pa r \<and> all_allocated pa (route_requests r)"
  shows "agrees pa (load_table intValue lbs routes)"
    and "(ek, keys) \<in> set (concat (map lb_requests lbs) @ concat (map route_requests routes)) \<Longrightarrow> k \<in> set keys \<Longrightarrow>
      table_lookup (load_table intValue lbs routes) ek k \<noteq> None"
proof -
  note lb = load_reported_lb [OF conjunct1 [OF lbs] inv conjunct2 [OF lbs] int]
  note route = load_reported_route [OF conjunct1 [OF routes] inv conjunct2 [OF routes] int]
  have lb1: "lb \<in> set lbs \<Longrightarrow> agrees pa t \<Longrightarrow> agrees pa (load_lb intValue lb t)" for lb t using lb(1) by blast
  have route1: "r \<in> set routes \<Longrightarrow> agrees pa t \<Longrightarrow> agrees pa (load_route intValue r t)" for r t using route(1) by blast
  have "agrees pa []" by (simp add: agrees_def table_lookup_def)
  then have "agrees pa (fold (load_lb intValue) lbs [])" by (rule agrees_fold [rotated]) (rule lb1)
  then show "agrees pa (load_table intValue lbs routes)" unfolding load_table_def by (rule agrees_fold [rotated]) (rule route1)
  assume mem: "(ek, keys) \<in> set (concat (map lb_requests lbs) @ concat (map route_requests routes))" and k: "k \<in> set keys"
  show "table_lookup (load_table intValue lbs routes) ek k \<noteq> None"
  proof (cases "\<exists>r \<in> set routes. (ek, keys) \<in> set (route_requests r)")
    case True
    then obtain r where r: "r \<in> set routes" "(ek, keys) \<in> set (route_requests r)" by blast
    have "enters (fold (load_route intValue) routes) ek k"
      by (rule enters_fold [where f = "load_route intValue", OF r(1) route(2) [OF r(1) r(1) r(2) k]]) (rule grows_load_route)
    then show ?thesis by (simp add: load_table_def enters_def)
  next
    case False
    with mem obtain l where l: "l \<in> set lbs" "(ek, keys) \<in> set (lb_requests l)" by auto
    have "enters (fold (load_lb intValue) lbs) ek k"
      by (rule enters_fold [where f = "load_lb intValue", OF l(1) lb(2) [OF l(1) l(1) l(2) k]]) (rule grows_load_lb)
    moreover have "grows (fold (load_route intValue) routes)" by (rule grows_fold) (rule grows_load_route)
    ultimately show ?thesis by (simp add: load_table_def enters_def grows_def)
  qed
qed

section \<open>A pass against a well-behaved cluster\<close>

text \<open>Routes and Services are stored objects, a status write replaces the status of the stored Route, and writing one
  kind leaves the other alone.\<close>

definition with_route_status_of :: "managed_route \<Rightarrow> managed_route \<Rightarrow> managed_route" where
  "with_route_status_of m stored = set_route_status (r_Status (mr_Route m)) stored"

locale route_cluster =
  routes: finalized_store "ra_Routes api" managed_route_key route_gone route_held + svcs: object_store "l7_Services api" svc_key
  for api :: "('s, 'b) route_api_scheme" +
  assumes status_get: "ra_updateStatus api m s = (s', None) \<Longrightarrow>
      c_get (ra_Routes api) k s' = (if k = managed_route_key m then
        (case c_get (ra_Routes api) k s of Found stored \<Rightarrow> Found (with_route_status_of m stored) | r \<Rightarrow> r) else c_get (ra_Routes api) k s)"
    and svc_create_frame: "c_create (l7_Services api) x s = (s', r) \<Longrightarrow> c_get (ra_Routes api) k s' = c_get (ra_Routes api) k s"
    and svc_update_frame: "c_update (l7_Services api) x s = (s', r) \<Longrightarrow> c_get (ra_Routes api) k s' = c_get (ra_Routes api) k s"
    and svc_delete_frame: "c_delete (l7_Services api) n s = (s', d) \<Longrightarrow> c_get (ra_Routes api) k s' = c_get (ra_Routes api) k s"
    and route_frame: "c_update (ra_Routes api) m s = (s', r) \<Longrightarrow> c_get (l7_Services api) k s' = c_get (l7_Services api) k s"
    and status_frame: "ra_updateStatus api m s = (s', r) \<Longrightarrow> c_get (l7_Services api) k s' = c_get (l7_Services api) k s"
begin

lemma CreateOrUpdateService_frame:
  "CreateOrUpdateService api obj s = (svc, r, s') \<Longrightarrow> c_get (ra_Routes api) k s' = c_get (ra_Routes api) k s"
  unfolding CreateOrUpdateService_def Let_def
  by (auto split: get_result.splits option.splits prod.splits if_splits dest: svc_create_frame svc_update_frame)

lemma apply_services_frame:
  "apply_services api svcs st s = (errs, st', s') \<Longrightarrow> c_get (ra_Routes api) k s' = c_get (ra_Routes api) k s"
proof (induction svcs arbitrary: st s errs st' s')
  case (Cons svc svcs)
  obtain svc1 r s1 where one: "CreateOrUpdateService api svc s = (svc1, r, s1)" by (metis prod_cases3)
  obtain e2 st2 s2 where two: "apply_services api svcs (updateServiceStatus api st svc1 r) s1 = (e2, st2, s2)" by (metis prod_cases3)
  have "s' = s2" using Cons.prems one two by (auto split: option.splits)
  then show ?case using CreateOrUpdateService_frame [OF one] Cons.IH [OF two] by simp
qed simp

lemma cleanup_orphans_frame:
  "cleanup_orphans (l7_Services api) desired namespace routeName entries (services, pa, s) = (r, services', pa', s') \<Longrightarrow>
     c_get (ra_Routes api) k s' = c_get (ra_Routes api) k s"
proof (induction entries arbitrary: services pa s)
  case (Cons e entries)
  obtain key v where e: "e = (key, v)" by fastforce
  obtain s1 d where del: "c_delete (l7_Services api) (namespace, rst_GeneratedName v) s = (s1, d)" by fastforce
  note frame = svc_delete_frame [OF del]
  consider "key \<in> set desired" | x where "key \<notin> set desired" "d = DeleteError x" | "key \<notin> set desired" "\<forall>x. d \<noteq> DeleteError x" by blast
  then show ?case
  proof cases
    case 1
    then show ?thesis using Cons.prems unfolding e by (intro Cons.IH) simp
  next
    case 2
    then have "s' = s1" using Cons.prems unfolding e by (simp add: del)
    then show ?thesis by (simp add: frame)
  next
    case 3
    then have "cleanup_orphans (l7_Services api) desired namespace routeName entries (gomap_del key services,
        DeallocateEndpoints [EnvoyEndpointRouteKey namespace (rst_Namespace v) (rst_GeneratedName v) routeName] pa, s1) =
        (r, services', pa', s')"
      using Cons.prems unfolding e by (cases d) (simp_all add: del)
    from Cons.IH [OF this] show ?thesis by (simp add: frame)
  qed
qed simp

lemma cleanupRenamedServices_frame:
  "c_get (ra_Routes api) k (cleanupRenamedServices api r routeName s) = c_get (ra_Routes api) k s"
proof -
  have one: "c_get (ra_Routes api) k (delete_renamed (l7_Services api) ns rn services svc s) = c_get (ra_Routes api) k s" for ns rn services svc s
    using svc_delete_frame [OF prod.collapse [symmetric]] by (simp add: delete_renamed_def split: option.split)
  have "c_get (ra_Routes api) k (fold (delete_renamed (l7_Services api) ns rn services) svcs s) = c_get (ra_Routes api) k s" for ns rn services svcs
    by (induction svcs arbitrary: s) (simp_all add: one)
  then show ?thesis by (simp add: cleanupRenamedServices_def split: option.split)
qed

lemma UpdateRouteStatus_stores:
  assumes "UpdateRouteStatus api m st s = (None, m', s')"
  shows "\<exists>stored. c_get (ra_Routes api) (managed_route_key m) s = Found stored \<and>
    (\<exists>x. c_get (ra_Routes api) (managed_route_key m) s' = Found x \<and> same_status (r_Status (mr_Route x)) st \<and>
      r_Spec (mr_Route x) = r_Spec (mr_Route stored) \<and> r_Meta (mr_Route x) = r_Meta (mr_Route stored))"
proof (cases "c_get (ra_Routes api) (managed_route_key m) s")
  case (Found stored)
  have key: "managed_route_key stored = managed_route_key m" by (rule routes.get_key [OF Found])
  let ?new = "set_route_status st stored"
  have nk: "managed_route_key ?new = managed_route_key m"
    using key by (simp add: managed_route_key_def set_route_status_def route_obj_key_def)
  have "same_status st st" by (simp add: same_status_def gomap_eq_iff split: option.split)
  show ?thesis
  proof (cases "same_status (r_Status (mr_Route stored)) st")
    case True
    then have "s' = s" using assms Found by (simp add: UpdateRouteStatus_def Let_def)
    then show ?thesis using Found True by auto
  next
    case False
    then have up: "ra_updateStatus api ?new s = (s', None)"
      using assms Found by (auto simp: UpdateRouteStatus_def Let_def split: prod.splits)
    have "with_route_status_of ?new stored = ?new" by (simp add: with_route_status_of_def set_route_status_def)
    then have "c_get (ra_Routes api) (managed_route_key m) s' = Found ?new"
      unfolding status_get [OF up] by (simp add: nk Found)
    then show ?thesis using Found \<open>same_status st st\<close> by (auto simp: set_route_status_def)
  qed
qed (use assms in \<open>simp_all add: UpdateRouteStatus_def\<close>)

end

definition service_map_key :: "service \<Rightarrow> string" where
  "service_map_key svc = RouteServiceMapKey (GetServiceNamespace svc) (GetServiceName svc)"

lemma CreateOrUpdateService_same:
  "CreateOrUpdateService api svc s = (svc', r, s') \<Longrightarrow>
     service_map_key svc' = service_map_key svc \<and> ss_Ports (svc_Spec svc') = ss_Ports (svc_Spec svc)"
  unfolding CreateOrUpdateService_def Let_def keep_cluster_ip_def
  by (auto simp: service_map_key_def GetServiceName_def GetServiceNamespace_def split: get_result.splits prod.splits option.splits if_splits)

lemma updateServiceStatus_at:
  "status_at (updateServiceStatus api st svc err) k =
     (if k = service_map_key svc then status_at (updateServiceStatus api st svc err) k else status_at st k)"
  by (auto simp: status_at_def updateServiceStatus_def service_map_key_def Let_def map_of_put split: option.split)

lemma updateServiceStatus_own:
  "\<exists>x. status_at (updateServiceStatus api st svc err) (service_map_key svc) = Some x \<and> rss_Ports x = ss_Ports (svc_Spec svc)"
  by (simp add: status_at_def updateServiceStatus_def service_map_key_def Let_def map_of_put)

lemma apply_services_reports:
  assumes "apply_services api svcs st s = (errs, st', s')" and "distinct (map service_map_key svcs)"
  shows "(k \<notin> service_map_key ` set svcs \<longrightarrow> status_at st' k = status_at st k) \<and>
    (\<forall>svc \<in> set svcs. \<exists>x. status_at st' (service_map_key svc) = Some x \<and> rss_Ports x = ss_Ports (svc_Spec svc))"
  using assms
proof (induction svcs arbitrary: st s errs k)
  case (Cons svc svcs)
  obtain svc1 r s1 where one: "CreateOrUpdateService api svc s = (svc1, r, s1)" by (metis prod_cases3)
  let ?st1 = "updateServiceStatus api st svc1 r"
  have rest: "apply_services api svcs ?st1 s1 = (fst (apply_services api svcs ?st1 s1), st', s')"
    using Cons.prems(1) by (auto simp: one split: prod.splits option.splits)
  have d: "distinct (map service_map_key svcs)" and new: "service_map_key svc \<notin> service_map_key ` set svcs" using Cons.prems(2) by auto
  note ih = Cons.IH [OF rest d]
  have same: "service_map_key svc1 = service_map_key svc" "ss_Ports (svc_Spec svc1) = ss_Ports (svc_Spec svc)"
    using CreateOrUpdateService_same [OF one] by auto
  have "\<exists>x. status_at ?st1 (service_map_key svc) = Some x \<and> rss_Ports x = ss_Ports (svc_Spec svc)"
    using updateServiceStatus_own [of api st svc1 r] unfolding same .
  moreover have "status_at st' (service_map_key svc) = status_at ?st1 (service_map_key svc)" using ih new by blast
  ultimately have own: "\<exists>x. status_at st' (service_map_key svc) = Some x \<and> rss_Ports x = ss_Ports (svc_Spec svc)" by simp
  have "status_at st' k = status_at st k" if "k \<notin> service_map_key ` set (svc # svcs)"
    using that ih updateServiceStatus_at [of api st svc1 r k] by (simp add: same)
  with own ih show ?case by auto
qed simp

lemma cleanupOrphanedServices_same:
  "cleanupOrphanedServices api m src pa s = (r, m', pa', s') \<Longrightarrow>
     r_Spec (mr_Route m') = r_Spec (mr_Route m) \<and> r_Meta (mr_Route m') = r_Meta (mr_Route m)"
  by (auto simp: cleanupOrphanedServices_def Let_def set_route_status_def split: option.splits prod.splits)

lemma same_status_at: "same_status a b \<Longrightarrow> status_at a k = status_at b k"
  by (auto simp: same_status_def status_at_def gomap_eq_iff split: option.splits)

lemma generated_service_key: "service_map_key (GenerateServiceForLBCluster svc appName ns rn lookup annotations) = service_map_key svc"
  by (simp add: service_map_key_def GenerateServiceForLBCluster_def Let_def GetServiceName_def GetServiceNamespace_def map_of_put
      LabelOriginName_def LabelOriginNamespace_def)

definition normalized_source :: "route \<Rightarrow> bool" where
  "normalized_source r \<longleftrightarrow> (\<forall>src. rs_Kubernetes (r_Spec r) = Some src \<longrightarrow>
     distinct (map service_map_key (ks_Services src)) \<and>
     (\<forall>svc \<in> set (ks_Services src). GetServiceNamespace svc = om_Namespace (svc_Meta svc)))"

lemma cleanup_orphans_inv:
  "pa_inv pa \<Longrightarrow> cleanup_orphans c desired namespace routeName entries (services, pa, s) = (r, services', pa', s') \<Longrightarrow> pa_inv pa'"
proof (induction entries arbitrary: services pa s)
  case (Cons e entries)
  obtain key v where e: "e = (key, v)" by fastforce
  obtain s1 d where del: "c_delete c (namespace, rst_GeneratedName v) s = (s1, d)" by fastforce
  let ?pa = "DeallocateEndpoints [EnvoyEndpointRouteKey namespace (rst_Namespace v) (rst_GeneratedName v) routeName] pa"
  have "pa_inv ?pa" using Cons.prems(1) by (rule pm.release_invar)
  then show ?case using Cons.prems Cons.IH unfolding e
    by (cases d; cases "key \<in> set desired") (auto simp: del)
qed simp

lemma route_requests_same:
  "r_Spec a = r_Spec b \<Longrightarrow> r_Meta a = r_Meta b \<Longrightarrow> route_requests a = route_requests b \<and>
     originalRouteName a src = originalRouteName b src"
proof -
  assume "r_Spec a = r_Spec b" and "r_Meta a = r_Meta b"
  moreover from this have "originalRouteName a src = originalRouteName b src" for src by (simp add: originalRouteName_def)
  ultimately show ?thesis by (simp add: route_requests_def route_endpoint_key_def split: option.split)
qed

context route_cluster
begin

lemma manageServices_reports:
  assumes run: "manageServices api m annotations rs pa s = Some (None, m', pa', s')"
    and src: "rs_Kubernetes (r_Spec (mr_Route m)) = Some src" and stored: "c_get (ra_Routes api) (managed_route_key m) s = Found m"
    and norm: "normalized_source (mr_Route m)" and keys: "distinct (map fst (route_requests (mr_Route m)))" and inv: "pa_inv pa"
  shows "pa_inv pa' \<and> all_allocated pa' (route_requests (mr_Route m)) \<and>
    (\<exists>x. c_get (ra_Routes api) (managed_route_key m) s' = Found x \<and> r_Spec (mr_Route x) = r_Spec (mr_Route m) \<and>
      r_Meta (mr_Route x) = r_Meta (mr_Route m) \<and> route_reported pa' (mr_Route x))"
proof -
  obtain m1 pa1 s1 where orphans: "cleanupOrphanedServices api m src pa s = (None, m1, pa1, s1)"
    using run src by (auto simp: manageServices_def split: prod.splits option.splits)
  note same = cleanupOrphanedServices_same [OF orphans]
  note reqs = route_requests_same [OF conjunct1 [OF same] conjunct2 [OF same]]
  obtain rs' where alloc: "AllocatePortsForRoutes [mr_Route m1] pa1 rs = Some (pa', rs')"
    using run src orphans by (auto simp: manageServices_def Let_def split: prod.splits option.splits)
  let ?svcs = "generated_services pa' (mr_Route m1) src annotations"
  obtain st s2 where applied: "apply_services api ?svcs (r_Status (mr_Route m1)) s1 = ([], st, s2)"
    and up: "UpdateRouteStatus api m1 st (cleanupRenamedServices api (mr_Route m1) (originalRouteName (mr_Route m1) src) s2) = (None, m', s')"
    using run src orphans alloc by (auto simp: manageServices_def Let_def split: prod.splits option.splits if_splits)
  have inv1: "pa_inv pa1"
    using orphans inv by (auto simp: cleanupOrphanedServices_def Let_def split: option.splits prod.splits dest: cleanup_orphans_inv)
  have alloc': "allocate_requests AllocatePorts (route_requests (mr_Route m)) pa1 rs = Some (pa', rs')"
    using alloc reqs by (simp add: AllocatePortsForRoutes_def)
  have all: "all_allocated pa' (route_requests (mr_Route m))"
    using pm.requests_lookup(1) [OF inv1 alloc' keys] by (auto simp: all_allocated_def)
  have key: "managed_route_key m1 = managed_route_key m" using same by (simp add: managed_route_key_def route_obj_key_def)
  have frame1: "c_get (ra_Routes api) k s1 = c_get (ra_Routes api) k s" for k
    using orphans by (auto simp: cleanupOrphanedServices_def Let_def split: option.splits prod.splits dest: cleanup_orphans_frame)
  from UpdateRouteStatus_stores [OF up] stored obtain x where
    x: "c_get (ra_Routes api) (managed_route_key m) s' = Found x" "same_status (r_Status (mr_Route x)) st"
      "r_Spec (mr_Route x) = r_Spec (mr_Route m)" "r_Meta (mr_Route x) = r_Meta (mr_Route m)"
    unfolding key cleanupRenamedServices_frame apply_services_frame [OF applied] frame1 by auto
  have norm': "distinct (map service_map_key (ks_Services src))"
      "\<forall>svc \<in> set (ks_Services src). GetServiceNamespace svc = om_Namespace (svc_Meta svc)"
    using norm src by (auto simp: normalized_source_def)
  have "map service_map_key ?svcs = map service_map_key (ks_Services src)"
    by (simp add: generated_services_def Let_def generated_service_key comp_def)
  with norm'(1) have "distinct (map service_map_key ?svcs)" by simp
  note rep = apply_services_reports [OF applied this]
  have "\<exists>y. status_at (r_Status (mr_Route x)) (RouteServiceMapKey (om_Namespace (svc_Meta svc)) (GetServiceName svc)) = Some y \<and>
      rss_Ports y = ss_Ports (svc_Spec (GenerateServiceForLBCluster svc (om_Namespace (r_Meta (mr_Route x))) (om_Namespace (r_Meta (mr_Route x)))
        (originalRouteName (mr_Route x) src) (Lookup pa') annotations))" if "svc \<in> set (ks_Services src)" for svc
  proof -
    let ?g = "GenerateServiceForLBCluster svc (om_Namespace (r_Meta (mr_Route x))) (om_Namespace (r_Meta (mr_Route x)))
        (originalRouteName (mr_Route x) src) (Lookup pa') annotations"
    have "originalRouteName (mr_Route x) src = originalRouteName (mr_Route m1) src"
      using x(3,4) same by (simp add: originalRouteName_def)
    then have "?g \<in> set ?svcs" using that x(4) same by (auto simp: generated_services_def Let_def)
    moreover have "service_map_key ?g = RouteServiceMapKey (om_Namespace (svc_Meta svc)) (GetServiceName svc)"
      using norm'(2) that by (simp add: generated_service_key) (simp add: service_map_key_def)
    ultimately show ?thesis using rep same_status_at [OF x(2)] by metis
  qed
  then have "route_reported pa' (mr_Route x)" unfolding route_reported_def x(3) src by auto
  then show ?thesis using x pm.requests_invar [OF inv1 alloc'] all by blast
qed

end

section \<open>Teardown against a well-behaved cluster\<close>

context route_cluster
begin

lemma delete_services_gone:
  "delete_services (l7_Services api) namespace entries s = (None, s') \<Longrightarrow>
     (c_get (l7_Services api) k s' = NotFound \<or> c_get (l7_Services api) k s' = c_get (l7_Services api) k s) \<and>
     (\<forall>(key, v) \<in> set entries. c_get (l7_Services api) (namespace, rst_GeneratedName v) s' = NotFound)"
proof (induction entries arbitrary: s k)
  case (Cons e entries)
  obtain key v where e: "e = (key, v)" by fastforce
  obtain s1 d where del: "c_delete (l7_Services api) (namespace, rst_GeneratedName v) s = (s1, d)" by fastforce
  have ok: "d = Deleted \<or> d = AlreadyGone" and rest: "delete_services (l7_Services api) namespace entries s1 = (None, s')"
    using Cons.prems unfolding e by (cases d; simp add: del)+
  have one: "c_get (l7_Services api) k s1 = (if k = (namespace, rst_GeneratedName v) then NotFound else c_get (l7_Services api) k s)" for k
    by (rule svcs.delete_get [OF del ok])
  have a: "c_get (l7_Services api) k s' = NotFound \<or> c_get (l7_Services api) k s' = c_get (l7_Services api) k s" for k
    using Cons.IH [OF rest, of k] one [of k] by (cases "k = (namespace, rst_GeneratedName v)") simp_all
  have b: "c_get (l7_Services api) (namespace, rst_GeneratedName v) s' = NotFound"
    using Cons.IH [OF rest, of "(namespace, rst_GeneratedName v)"] one [of "(namespace, rst_GeneratedName v)"] by simp
  show ?case using a b Cons.IH [OF rest] unfolding e by simp
qed simp

lemma UpdateRouteStatus_frame:
  "UpdateRouteStatus api m st s = (r, m', s') \<Longrightarrow> c_get (l7_Services api) k s' = c_get (l7_Services api) k s"
  unfolding UpdateRouteStatus_def Let_def by (auto split: get_result.splits prod.splits if_splits dest: status_frame)

lemma UpdateRouteStatus_memory:
  "UpdateRouteStatus api m st s = (None, m', s') \<Longrightarrow> r_Status (mr_Route m') = st \<and> managed_route_key m' = managed_route_key m"
  unfolding UpdateRouteStatus_def Let_def
  by (auto simp: set_route_status_def managed_route_key_def route_obj_key_def split: get_result.splits prod.splits if_splits
      dest!: routes.get_key)

lemma route_cleanup_done:
  assumes run: "route_cleanup api m resetStatus pa s = (Done (), pa', s')"
  shows "pa' = DeallocatePortsForRoute (mr_Route m) pa \<and>
    (\<forall>services. rt_Services (r_Status (mr_Route m)) = Some services \<longrightarrow>
      (\<forall>(key, v) \<in> set services. c_get (l7_Services api) (om_Namespace (r_Meta (mr_Route m)), rst_GeneratedName v) s' = NotFound)) \<and>
    (case c_get (ra_Routes api) (managed_route_key m) s' of
       Found x \<Rightarrow> CleanupFinalizer \<notin> set (mr_Finalizers x) \<and>
         (resetStatus \<longrightarrow> rt_Services (r_Status (mr_Route x)) = None \<and> rst_GeneratedName (rt_Route (r_Status (mr_Route x))) = [])
     | NotFound \<Rightarrow> True | GetError _ \<Rightarrow> False)"
proof -
  let ?ns = "om_Namespace (r_Meta (mr_Route m))"
  let ?entries = "case rt_Services (r_Status (mr_Route m)) of None \<Rightarrow> [] | Some services \<Rightarrow> services"
  obtain s1 s2 m' s3 where
    del: "delete_services (l7_Services api) ?ns ?entries s1 = (None, s2)"
    and reset: "(if resetStatus then resetGeneratedResourcesStatus api m s2 else (None, m, s2)) = (None, m', s3)"
    and up: "c_update (ra_Routes api) (drop_finalizer m') s3 = (s', None)" and pa': "pa' = DeallocatePortsForRoute (mr_Route m) pa"
    using run by (auto simp: route_cleanup_def Let_def split: prod.splits option.splits)
  have mem: "managed_route_key m' = managed_route_key m \<and>
      (resetStatus \<longrightarrow> rt_Services (r_Status (mr_Route m')) = None \<and> rst_GeneratedName (rt_Route (r_Status (mr_Route m'))) = [])"
    using reset UpdateRouteStatus_memory
    by (cases resetStatus) (auto simp: resetGeneratedResourcesStatus_def Let_def split: prod.splits option.splits dest!: UpdateRouteStatus_memory)
  have frame: "c_get (l7_Services api) k s' = c_get (l7_Services api) k s2" for k
    using reset route_frame [OF up] UpdateRouteStatus_frame
    by (cases resetStatus) (auto simp: resetGeneratedResourcesStatus_def Let_def split: prod.splits option.splits dest!: UpdateRouteStatus_frame)
  have "c_get (ra_Routes api) (managed_route_key m) s' =
      (if route_gone (drop_finalizer m') then NotFound else Found (drop_finalizer m'))"
    using routes.update_get [OF up] mem by (simp add: drop_finalizer_def managed_route_key_def)
  moreover have "CleanupFinalizer \<notin> set (mr_Finalizers (drop_finalizer m'))" by (simp add: drop_finalizer_def)
  moreover have "\<forall>services. rt_Services (r_Status (mr_Route m)) = Some services \<longrightarrow>
      (\<forall>(key, v) \<in> set services. c_get (l7_Services api) (?ns, rst_GeneratedName v) s' = NotFound)"
    using delete_services_gone [OF del] unfolding frame by auto
  ultimately show ?thesis using pa' mem by (auto simp: drop_finalizer_def)
qed

end

section \<open>An in-memory cluster\<close>

record route_world =
  rw_Routes :: "(nsname, managed_route) gomap"
  rw_Services :: "(nsname, service) gomap"

definition mem_route_api :: "route_world route_api" where
  "mem_route_api =
     (let routes = part_crud rw_Routes (\<lambda>p. rw_Routes_update (\<lambda>_. p)) (mem_finalized managed_route_key route_gone route_held)
      in \<lparr> ta_getTenant = \<lambda>_ _. Found sample_tenant, ta_getConfig = \<lambda>_ _. NotFound,
           l7_Services = part_crud rw_Services (\<lambda>p. rw_Services_update (\<lambda>_. p)) (mem_crud svc_key),
           l7_Ingresses = absent_crud, l7_Gateways = absent_crud, l7_HTTPRoutes = absent_crud, l7_GRPCRoutes = absent_crud,
           l7_listGateways = \<lambda>_ _. Inr [], l7_listSecrets = \<lambda>_ _ _ _. Inr [], l7_deepEqual = gomap_eq,
           ra_Routes = routes,
           ra_updateStatus = (\<lambda>m s. case c_get routes (managed_route_key m) s of
              Found stored \<Rightarrow> c_create routes (with_route_status_of m stored) s | _ \<Rightarrow> (s, Some ''not found'')),
           ra_listRoutes = (\<lambda>ns s. Inr (filter (\<lambda>m. fst (managed_route_key m) = ns) (map snd (rw_Routes s)))),
           ra_listAllRoutes = (\<lambda>s. Inr (map snd (rw_Routes s))),
           ra_deleteGenerated = (\<lambda>_ _ s. (s, GenNotFound)),
           ra_convert = \<lparr> cv_Ingress = \<lambda>_. Inl ''none'', cv_Service = \<lambda>_. Inl ''none'', cv_Gateway = \<lambda>_. Inl ''none'',
             cv_HTTPRoute = \<lambda>_. Inr sample_l7_route, cv_GRPCRoute = \<lambda>_. Inl ''none'' \<rparr>,
           ra_typeMeta = (\<lambda>_. ([], [])), ra_serviceStatus = (\<lambda>_. None), ra_resourceStatus = (\<lambda>_. None),
           ra_setCondition = (\<lambda>c cs. c # filter (\<lambda>x. cnd_Type x \<noteq> cnd_Type c) cs) \<rparr>)"

interpretation mem_route: route_cluster mem_route_api
proof -
  have routes: "finalized_store (ra_Routes mem_route_api) managed_route_key route_gone route_held"
    and svcs: "object_store (l7_Services mem_route_api) svc_key"
    by (simp_all add: mem_route_api_def Let_def part_store part_finalized mem.object_store_axioms mem_fin.finalized_store_axioms)
  have key: "managed_route_key (with_route_status_of m x) = managed_route_key x" for m x
    by (simp add: managed_route_key_def with_route_status_of_def set_route_status_def route_obj_key_def)
  show "route_cluster mem_route_api"
    unfolding route_cluster_def
  proof (intro conjI routes svcs, unfold_locales)
    fix m s s' k
    assume up: "ra_updateStatus mem_route_api m s = (s', None)"
    let ?c = "ra_Routes mem_route_api"
    from up obtain x where x: "c_get ?c (managed_route_key m) s = Found x" "c_create ?c (with_route_status_of m x) s = (s', None)"
      by (auto simp: mem_route_api_def Let_def split: get_result.splits)
    have "managed_route_key x = managed_route_key m" by (rule finalized_store.get_key [OF routes x(1)])
    then show "c_get ?c k s' = (if k = managed_route_key m then (case c_get ?c k s of Found stored \<Rightarrow> Found (with_route_status_of m stored) | r \<Rightarrow> r)
        else c_get ?c k s)"
      using finalized_store.create_get [OF routes x(2), of k] x(1) by (simp add: key)
  qed (auto simp: mem_route_api_def Let_def part_crud_def split: prod.splits get_result.splits)
qed

section \<open>Properties\<close>

text \<open>C4. A restart keeps every listener port: when the statuses of the load balancers and routes report the ports of a
  consistent allocator, as the passes of the two controllers leave them, then \<^verbatim>\<open>LoadState\<close> on a fresh manager gives
  every endpoint port of every load balancer and every Service port of every route the listener port it had before.\<close>

theorem restart_keeps_ports:
  assumes inv: "pa_inv pa" and int: "\<And>n. intValue (IntPort n) = n"
    and lbs: "\<And>lb. lb \<in> set lbs \<Longrightarrow> lb_reported pa lb \<and> all_allocated pa (lb_requests lb)"
    and routes: "\<And>r. r \<in> set routes \<Longrightarrow> route_reported pa r \<and> all_allocated pa (route_requests r)"
    and req: "(ek, keys) \<in> set (concat (map lb_requests lbs) @ concat (map route_requests routes))" and k: "k \<in> set keys"
  shows "Lookup (fst (LoadState intValue (Inr lbs) (Inr routes) NewPortAllocator)) ek k = Lookup pa ek k"
proof (rule Lookup_restored)
  show "unique_ports (portLookup pa)" using inv by (simp add: pa_inv_def)
  show "agrees pa (load_table intValue lbs routes)" by (rule load_table_reported [OF inv int lbs routes])
  show "table_lookup (load_table intValue lbs routes) ek k \<noteq> None"
    by (rule load_table_reported(2) [OF inv int lbs routes req k])
qed

definition sample_reported :: load_balancer where
  "sample_reported = (ml_LB sample_managed)\<lparr> lb_Status := \<lparr> lst_ServicePorts = buildServicePortStatus
     (the (CreateServicePorts (ml_LB sample_managed) [] (Lookup sample_pa2))) (le_Ports (hd (ls_Endpoints (lb_Spec (ml_LB sample_managed))))),
     lst_Hostname = None \<rparr> \<rparr>"

lemma sample_pa2_inv: "pa_inv sample_pa2"
  using allocated_after [OF NewPortAllocator_inv _ sample_alloc] by simp

lemma sample_reported_ok: "lb_reported sample_pa2 sample_reported \<and> all_allocated sample_pa2 (lb_requests sample_reported)"
proof
  let ?svc = sample_user_svc let ?addrs = "[\<lparr> ea_IP = ''10.0.0.1'', ea_Hostname = [] \<rparr>]"
  have dist: "distinct (map map_port_name (ss_Ports (svc_Spec ?svc)))" by (simp add: sample_user_svc_def)
  have lb: "ml_LB sample_managed = snd (MapLoadBalancer ?svc ?addrs False ''tenant-a'')" by (simp add: sample_managed_def)
  have ports: "CreateServicePorts (ml_LB sample_managed) [] (Lookup sample_pa2) =
      Some (the (CreateServicePorts (ml_LB sample_managed) [] (Lookup sample_pa2)))"
    unfolding lb CreateServicePorts_mapped [OF dist] by simp
  show "lb_reported sample_pa2 sample_reported"
    unfolding lb_reported_def
    by (rule exI [of _ ?svc], rule exI [of _ ?addrs], rule exI [of _ False], rule exI [of _ "''tenant-a''"], rule exI [of _ "[]"],
        rule exI [of _ "the (CreateServicePorts (ml_LB sample_managed) [] (Lookup sample_pa2))"],
        rule exI [of _ "lb_Status sample_reported"])
      (use dist ports in \<open>simp add: sample_reported_def CreateServicePorts_status flip: lb\<close>)
  have "lb_requests sample_reported = lb_requests (ml_LB sample_managed)" by (simp add: sample_reported_def lb_requests_def)
  then show "all_allocated sample_pa2 (lb_requests sample_reported)"
    by (simp add: sample_requests all_allocated_def Lookup_def sample_pa2_def)
qed

theorem restart_keeps_ports_witness:
  "Lookup (fst (LoadState (\<lambda>p. case p of IntPort n \<Rightarrow> n | StrPort _ \<Rightarrow> 0) (Inr [sample_reported]) (Inr []) NewPortAllocator))
     ''tenant-a-u1-ep-0'' ''30-TCP'' = (10005, True)"
proof -
  have "lb_requests sample_reported = lb_requests (ml_LB sample_managed)" by (simp add: sample_reported_def lb_requests_def)
  then have mem: "(''tenant-a-u1-ep-0'', [''30-TCP'']) \<in> set (concat (map lb_requests [sample_reported]) @ concat (map route_requests []))"
    by (simp add: sample_requests)
  have "Lookup sample_pa2 ''tenant-a-u1-ep-0'' ''30-TCP'' = (10005, True)" by (simp add: Lookup_def sample_pa2_def)
  with restart_keeps_ports [OF sample_pa2_inv _ _ _ mem, where k = "''30-TCP''" and intValue = "\<lambda>p. case p of IntPort n \<Rightarrow> n | StrPort _ \<Rightarrow> 0"]
    sample_reported_ok show ?thesis by simp
qed

text \<open>C7. When \<^verbatim>\<open>manageServices\<close> returns without an error, every port of every Service of the Route has a listener
  port, and the stored status reports, under the key from which \<^verbatim>\<open>LoadState\<close> reads it, the ports of the generated
  Service with exactly these listener ports as targets; spec and metadata of the Route are unchanged.\<close>

theorem manageServices_reports_ports:
  assumes cluster: "route_cluster api"
    and run: "manageServices api m annotations rs pa s = Some (None, m', pa', s')"
    and src: "rs_Kubernetes (r_Spec (mr_Route m)) = Some src" and stored: "c_get (ra_Routes api) (managed_route_key m) s = Found m"
    and norm: "normalized_source (mr_Route m)" and keys: "distinct (map fst (route_requests (mr_Route m)))" and inv: "pa_inv pa"
  shows "pa_inv pa' \<and> all_allocated pa' (route_requests (mr_Route m)) \<and>
    (\<exists>x. c_get (ra_Routes api) (managed_route_key m) s' = Found x \<and> r_Spec (mr_Route x) = r_Spec (mr_Route m) \<and>
      r_Meta (mr_Route x) = r_Meta (mr_Route m) \<and> route_reported pa' (mr_Route x))"
  by (rule route_cluster.manageServices_reports [OF cluster run src stored norm keys inv])

definition sample_src :: kubernetes_source where
  "sample_src = \<lparr> ks_Route = \<lparr> us_APIVersion = ''gateway.networking.k8s.io/v1'', us_Kind = ''HTTPRoute'',
       us_Name = ''r'', us_Namespace = ''prod'', us_UID = ''u9'', us_Labels = [], us_Annotations = [], us_OwnerReferences = [],
       us_Spec = [], us_Status = [] \<rparr>, ks_Services = [sample_user_svc] \<rparr>"

definition sample_route :: managed_route where
  "sample_route = \<lparr> mr_Route = GenerateRoute (\<lambda>_. ''HTTPRoute'') (ks_Route sample_src) (ks_Services sample_src) ''t'',
     mr_Finalizers = [CleanupFinalizer], mr_Deleting = False \<rparr>"

definition sample_route_world :: route_world where
  "sample_route_world = \<lparr> rw_Routes = [((''t'', ''u9''), sample_route)], rw_Services = [] \<rparr>"

lemma sample_route_src: "rs_Kubernetes (r_Spec (mr_Route sample_route)) = Some sample_src"
  by (simp add: sample_route_def GenerateRoute_def)

definition sample_pa3 :: port_allocator where
  "sample_pa3 = \<lparr> portLookup = [(''tenant-t-route-prod-web-r'', [(''8-TCP'', 10005)])], portLookupReverse = [(10005, True)] \<rparr>"

definition sample_applied :: "string list \<times> route_status \<times> route_world" where
  "sample_applied = apply_services mem_route_api (generated_services sample_pa3 (mr_Route sample_route)
     sample_src (cs_Annotations DefaultConfig)) (r_Status (mr_Route sample_route)) sample_route_world"

definition sample_recorded :: "string option \<times> managed_route \<times> route_world" where
  "sample_recorded = UpdateRouteStatus mem_route_api sample_route (fst (snd sample_applied)) (snd (snd sample_applied))"

lemma sample_route_requests: "route_requests (mr_Route sample_route) = [(''tenant-t-route-prod-web-r'', [''8-TCP''])]"
  by code_simp

lemma sample_route_alloc: "AllocatePortsForRoutes [mr_Route sample_route] NewPortAllocator [5] = Some (sample_pa3, [])"
  by (simp add: AllocatePortsForRoutes_def sample_route_requests AllocatePorts_def NewPortAllocator_def table_touch_def table_at_def
      Let_def recomputeAvailablePorts_def table_ports_def sample_pa3_def startPort_def endPort_def)

lemma sample_manage:
  "manageServices mem_route_api sample_route (cs_Annotations DefaultConfig) [5] NewPortAllocator sample_route_world =
     Some (None, fst (snd sample_recorded), sample_pa3, snd (snd sample_recorded))"
proof -
  have none: "rt_Services (r_Status (mr_Route sample_route)) = None"
    by (simp add: sample_route_def GenerateRoute_def empty_status_def)
  have "fst sample_applied = []" and "fst sample_recorded = None" by code_simp+
  then obtain st s2 m3 s3 where a: "sample_applied = ([], st, s2)" and b: "sample_recorded = (None, m3, s3)"
    by (metis prod.collapse)
  have up: "UpdateRouteStatus mem_route_api sample_route st s2 = (None, m3, s3)" using b by (simp add: sample_recorded_def a)
  show ?thesis
    by (simp add: manageServices_def sample_route_src cleanupOrphanedServices_def Let_def none sample_route_alloc
        cleanupRenamedServices_def up b a [unfolded sample_applied_def])
qed

theorem manageServices_reports_ports_witness:
  "\<exists>x st. c_get (ra_Routes mem_route_api) (''t'', ''u9'') (snd (snd sample_recorded)) = Found x \<and>
     status_at (r_Status (mr_Route x)) ''prod/web'' = Some st \<and> map sp_TargetPort (rss_Ports st) = [IntPort 10005]"
proof -
  note src = sample_route_src
  have svcs: "ks_Services sample_src = [sample_user_svc]" by (simp add: sample_src_def)
  have key: "managed_route_key sample_route = (''t'', ''u9'')"
    and stored: "c_get (ra_Routes mem_route_api) (managed_route_key sample_route) sample_route_world = Found sample_route" by code_simp+
  have norm: "normalized_source (mr_Route sample_route)"
    unfolding normalized_source_def src by (simp add: svcs GetServiceNamespace_def sample_user_svc_def sample_svc_def)
  have keys: "distinct (map fst (route_requests (mr_Route sample_route)))" by (simp add: sample_route_requests)
  have name: "RouteServiceMapKey (om_Namespace (svc_Meta sample_user_svc)) (GetServiceName sample_user_svc) = ''prod/web''" by code_simp
  from manageServices_reports_ports [OF mem_route.route_cluster_axioms sample_manage src stored norm keys NewPortAllocator_inv]
  obtain x where x: "c_get (ra_Routes mem_route_api) (''t'', ''u9'') (snd (snd sample_recorded)) = Found x"
      "r_Spec (mr_Route x) = r_Spec (mr_Route sample_route)" "r_Meta (mr_Route x) = r_Meta (mr_Route sample_route)"
      "route_reported sample_pa3 (mr_Route x)" unfolding key by blast
  have ek: "route_endpoint_key (mr_Route x) sample_src sample_user_svc = ''tenant-t-route-prod-web-r''"
  proof -
    have "route_endpoint_key (mr_Route x) sample_src sample_user_svc = route_endpoint_key (mr_Route sample_route) sample_src sample_user_svc"
      by (simp add: route_endpoint_key_def originalRouteName_def x(3))
    also have "\<dots> = ''tenant-t-route-prod-web-r''" by code_simp
    finally show ?thesis .
  qed
  have kk: "EnvoyListenerKey 8 ''TCP'' = ''8-TCP''" by code_simp
  from x(4) svcs obtain st annotations where st: "status_at (r_Status (mr_Route x)) ''prod/web'' = Some st"
      "rss_Ports st = map (lb_cluster_port ''tenant-t-route-prod-web-r'' (Lookup sample_pa3)) (ss_Ports (svc_Spec sample_user_svc))"
    unfolding route_reported_def x(2) src generated_ports by (auto simp: name ek)
  have ports: "map sp_TargetPort (rss_Ports st) = [IntPort 10005]"
    unfolding st(2) by (simp add: sample_user_svc_def lb_cluster_port_def kk Lookup_def sample_pa3_def to_int32_def)
  show ?thesis by (intro exI conjI, rule x(1), rule st(1), rule ports)
qed




definition sample_shrunk :: managed_route where
  "sample_shrunk = (fst (snd sample_recorded))\<lparr> mr_Route := (mr_Route (fst (snd sample_recorded)))\<lparr> r_Spec :=
     (r_Spec (mr_Route sample_route))\<lparr> rs_Kubernetes := Some (sample_src\<lparr> ks_Services := [] \<rparr>) \<rparr> \<rparr> \<rparr>"


end
