(* ===== verification/Ccm_Service.thy ===== *)
theory Ccm_Service
  imports LB_Controller
begin

text \<open>
  The Service controller of the cloud controller manager (\<^verbatim>\<open>internal/controllers/ccm/service_controller.go\<close>,
  with \<^verbatim>\<open>staleMirrorNames\<close> of \<^verbatim>\<open>shared.go\<close>): a Service of type LoadBalancer in a tenant cluster is
  mirrored as a LoadBalancer object, named after the UID of the Service, in the namespace of the tenant in the
  management cluster; the addresses reported there are written back to the Service.

  One state stands for both clusters. The two API servers are arguments; \<^verbatim>\<open>kerrors.IsAlreadyExists\<close> is a predicate
  on the error. A write that \<^verbatim>\<open>retry.RetryOnConflict\<close> repeats is its last attempt. Metrics and log lines are left
  out, and so is the removal of the last-applied annotation from the copy of the Service in memory, which is not
  written back.
\<close>

section \<open>Objects\<close>

record tenant_service = exposed_service +
  tsv_Finalizers :: "string list"
  tsv_Deleting :: bool

record 's ccm_api =
  cc_Services :: "('s, tenant_service) crud"
  cc_updateStatus :: "tenant_service \<Rightarrow> 's \<Rightarrow> 's \<times> string option"
  cc_LBs :: "('s, managed_lb) crud"
  cc_listLBs :: "string \<Rightarrow> strmap \<Rightarrow> 's \<Rightarrow> string + managed_lb list"
  cc_isAlreadyExists :: "string \<Rightarrow> bool"
  cc_deepEqual :: "strmap \<Rightarrow> strmap \<Rightarrow> bool"

record service_reconciler =
  sr_ClusterName :: string
  sr_CloudController :: bool
  sr_UseLoadbalancerClass :: bool

definition LBFinalizerName :: string where "LBFinalizerName = ''kubelb.k8c.io/lb-finalizer''"
definition LoadBalancerClassName :: string where "LoadBalancerClassName = ''kubelb''"
definition ServiceTypeLoadBalancer :: string where "ServiceTypeLoadBalancer = ''LoadBalancer''"

section \<open>Decisions\<close>

definition svc_shouldReconcile :: "service_reconciler \<Rightarrow> 'b exposed_service_scheme \<Rightarrow> bool" where
  "svc_shouldReconcile r svc =
     (if ss_Type (svc_Spec svc) \<noteq> ServiceTypeLoadBalancer then False
      else if sr_UseLoadbalancerClass r then es_LoadBalancerClass svc = Some LoadBalancerClassName
      else True)"

definition getEndpoints :: "service_reconciler \<Rightarrow> 'b exposed_service_scheme \<Rightarrow> endpoint_address list \<times> bool" where
  "getEndpoints r svc =
     (if ss_Type (svc_Spec svc) = ServiceTypeLoadBalancer \<and> \<not> sr_CloudController r
      then (map (\<lambda>i. if lbi_IP i \<noteq> [] then \<lparr> ea_IP = lbi_IP i, ea_Hostname = [] \<rparr>
                    else \<lparr> ea_IP = [], ea_Hostname = lbi_Hostname i \<rparr>) (es_Ingress svc), False)
      else ([], True))"

definition hasCleanupFinalizer :: "tenant_service \<Rightarrow> bool" where
  "hasCleanupFinalizer svc \<longleftrightarrow>
     CleanupFinalizer \<in> set (tsv_Finalizers svc) \<or> LBFinalizerName \<in> set (tsv_Finalizers svc)"

definition enqueueLoadBalancer :: "service_reconciler \<Rightarrow> load_balancer \<Rightarrow> nsname list" where
  "enqueueLoadBalancer r lb =
     (if om_Namespace (lb_Meta lb) \<noteq> sr_ClusterName r then []
      else if ls_Type (lb_Spec lb) \<noteq> ServiceTypeLoadBalancer then []
      else
        (let originalNamespace = str_at (om_Labels (lb_Meta lb)) LabelOriginNamespace;
             originalName = str_at (om_Labels (lb_Meta lb)) LabelOriginName
         in if originalNamespace = [] then [] else if originalName = [] then []
            else [(originalNamespace, originalName)]))"

section \<open>Finalizers\<close>

definition without_finalizer :: "string \<Rightarrow> tenant_service \<Rightarrow> tenant_service" where
  "without_finalizer f svc = svc\<lparr> tsv_Finalizers := filter (\<lambda>g. g \<noteq> f) (tsv_Finalizers svc) \<rparr>"

text \<open>\<^verbatim>\<open>ensureFinalizer\<close>: the error, the Service in memory and the state. \<^verbatim>\<open>AddFinalizer\<close> reports a change whenever
  the finalizer was missing, which the guard has established, so the request is never put back in the queue here.\<close>

definition ensureFinalizer :: "'s ccm_api \<Rightarrow> tenant_service \<Rightarrow> 's \<Rightarrow> string option \<times> tenant_service \<times> 's" where
  "ensureFinalizer api svc s =
     (if CleanupFinalizer \<in> set (tsv_Finalizers svc) then (None, svc, s)
      else
        (let svc' = without_finalizer LBFinalizerName (svc\<lparr> tsv_Finalizers := tsv_Finalizers svc @ [CleanupFinalizer] \<rparr>)
         in case c_update (cc_Services api) svc' s of
              (s', None) \<Rightarrow> (None, svc', s')
            | (s', Some e) \<Rightarrow> (Some (''failed to add finalizer: '' @ e), svc', s')))"

definition cleanupService :: "'s ccm_api \<Rightarrow> service_reconciler \<Rightarrow> tenant_service \<Rightarrow> 's \<Rightarrow> unit outcome \<times> 's" where
  "cleanupService api r svc s =
     (case c_delete (cc_LBs api) (sr_ClusterName r, om_UID (svc_Meta svc)) s of
        (s1, DeleteError e) \<Rightarrow> (Failed (''deleting LoadBalancer: '' @ e), s1)
      | (s1, _) \<Rightarrow>
          (case c_update (cc_Services api) (without_finalizer CleanupFinalizer (without_finalizer LBFinalizerName svc)) s1 of
             (s2, None) \<Rightarrow> (Done (), s2)
           | (s2, Some e) \<Rightarrow> (Failed (''failed to remove finalizer: '' @ e), s2)))"

section \<open>Orphaned mirrors\<close>

definition staleMirrorNames ::
  "(string \<Rightarrow> strmap \<Rightarrow> 's \<Rightarrow> string + 'o list) \<Rightarrow> ('o \<Rightarrow> string) \<Rightarrow> string \<Rightarrow> string \<Rightarrow> strmap \<Rightarrow> 's \<Rightarrow> string + string list" where
  "staleMirrorNames list_objects name_of tenantNs liveUID selector s =
     (case list_objects tenantNs selector s of
        Inl e \<Rightarrow> Inl (''failed to list mirrors in '' @ tenantNs @ '': '' @ e)
      | Inr items \<Rightarrow> Inr (filter (\<lambda>n. n \<noteq> liveUID) (map name_of items)))"

fun delete_mirrors :: "('s, 'o) crud \<Rightarrow> string \<Rightarrow> string \<Rightarrow> string list \<Rightarrow> 's \<Rightarrow> string option \<times> 's" where
  "delete_mirrors c prefix ns [] s = (None, s)"
| "delete_mirrors c prefix ns (n # names) s =
     (case c_delete c (ns, n) s of
        (s', DeleteError e) \<Rightarrow> (Some (prefix @ e), s')
      | (s', _) \<Rightarrow> delete_mirrors c prefix ns names s')"

definition origin_selector :: "string \<Rightarrow> string \<Rightarrow> strmap" where
  "origin_selector name namespace = [(LabelOriginName, name), (LabelOriginNamespace, namespace)]"

definition reapStaleLoadBalancers ::
  "'s ccm_api \<Rightarrow> service_reconciler \<Rightarrow> string \<Rightarrow> string \<Rightarrow> string \<Rightarrow> 's \<Rightarrow> string option \<times> 's" where
  "reapStaleLoadBalancers api r name namespace liveUID s =
     (case staleMirrorNames (cc_listLBs api) (\<lambda>m. om_Name (lb_Meta (ml_LB m))) (sr_ClusterName r) liveUID
             (origin_selector name namespace) s of
        Inl e \<Rightarrow> (Some e, s)
      | Inr stale \<Rightarrow> delete_mirrors (cc_LBs api) ''deleting orphaned LoadBalancer: '' (sr_ClusterName r) stale s)"

definition handleMissingService ::
  "'s ccm_api \<Rightarrow> service_reconciler \<Rightarrow> nsname \<Rightarrow> string option \<Rightarrow> 's \<Rightarrow> unit outcome \<times> 's" where
  "handleMissingService api r req err s =
     (case err of
        Some e \<Rightarrow> (Failed e, s)
      | None \<Rightarrow>
          (case reapStaleLoadBalancers api r (snd req) (fst req) [] s of
             (Some e, s') \<Rightarrow> (Failed e, s')
           | (None, s') \<Rightarrow> (Done (), s')))"

section \<open>Reconciliation\<close>

text \<open>The desired mirror of a Service.\<close>

definition desired_mirror :: "service_reconciler \<Rightarrow> 'b exposed_service_scheme \<Rightarrow> load_balancer" where
  "desired_mirror r svc =
     (case getEndpoints r svc of (clusterEndpoints, useAddressesReference) \<Rightarrow>
        snd (MapLoadBalancer (service.truncate svc) clusterEndpoints useAddressesReference (sr_ClusterName r)))"

text \<open>The two retried closures of \<^verbatim>\<open>Reconcile\<close>: the status of the Service, and the spec of the mirror.\<close>

definition publish_addresses :: "'s ccm_api \<Rightarrow> tenant_service \<Rightarrow> lb_ingress list \<Rightarrow> 's \<Rightarrow> string option \<times> 's" where
  "publish_addresses api svc ingress s =
     (case c_get (cc_Services api) (service_key svc) s of
        NotFound \<Rightarrow> (Some ''not found'', s)
      | GetError e \<Rightarrow> (Some e, s)
      | Found current \<Rightarrow> (case cc_updateStatus api (current\<lparr> es_Ingress := ingress \<rparr>) s of (s', err) \<Rightarrow> (err, s')))"

definition overwrite_mirror :: "'s ccm_api \<Rightarrow> load_balancer \<Rightarrow> 's \<Rightarrow> string option \<times> 's" where
  "overwrite_mirror api desired s =
     (case c_get (cc_LBs api) (lb_key desired) s of
        NotFound \<Rightarrow> (Some ''not found'', s)
      | GetError e \<Rightarrow> (Some e, s)
      | Found actual \<Rightarrow>
          (case c_update (cc_LBs api)
                  (actual\<lparr> ml_LB := (ml_LB actual)\<lparr> lb_Spec := lb_Spec desired,
                     lb_Meta := (lb_Meta (ml_LB actual))\<lparr> om_Annotations := om_Annotations (lb_Meta desired) \<rparr> \<rparr> \<rparr>) s of
             (s', err) \<Rightarrow> (err, s')))"

definition new_mirror :: "load_balancer \<Rightarrow> managed_lb" where
  "new_mirror lb = \<lparr> ml_LB = lb, ml_Finalizers = [], ml_Deleting = False, ml_Ingress = [] \<rparr>"

text \<open>Creating the mirror: the mirror that somebody else created in the meantime is handed on.\<close>

definition create_mirror :: "'s ccm_api \<Rightarrow> load_balancer \<Rightarrow> 's \<Rightarrow> managed_lb option outcome \<times> 's" where
  "create_mirror api desired s =
     (case c_create (cc_LBs api) (new_mirror desired) s of
        (s', None) \<Rightarrow> (Done None, s')
      | (s', Some e) \<Rightarrow>
          if cc_isAlreadyExists api e then
            (case c_get (cc_LBs api) (lb_key desired) s' of
               Found actual \<Rightarrow> (Done (Some actual), s')
             | NotFound \<Rightarrow> (Failed (''failed to get LoadBalancer after conflict: '' @ ''not found''), s')
             | GetError e' \<Rightarrow> (Failed (''failed to get LoadBalancer after conflict: '' @ e'), s'))
          else (Failed e, s'))"

definition sync_mirror :: "'s ccm_api \<Rightarrow> tenant_service \<Rightarrow> load_balancer \<Rightarrow> managed_lb \<Rightarrow> 's \<Rightarrow> unit outcome \<times> 's" where
  "sync_mirror api svc desired actual s =
     (case (if ss_Type (svc_Spec svc) = ServiceTypeLoadBalancer \<and> ml_Ingress actual \<noteq> es_Ingress svc
            then publish_addresses api svc (ml_Ingress actual) s else (None, s)) of
        (Some e, s1) \<Rightarrow> (Failed (''failed to update status '' @ om_Name (svc_Meta svc) @ '': '' @ e), s1)
      | (None, s1) \<Rightarrow>
          if LoadBalancerIsDesiredState (cc_deepEqual api) (ml_LB actual) desired then (Done (), s1)
          else (case overwrite_mirror api desired s1 of
                  (Some e, s2) \<Rightarrow> (Failed e, s2)
                | (None, s2) \<Rightarrow> (Done (), s2)))"

definition mirror_service :: "'s ccm_api \<Rightarrow> service_reconciler \<Rightarrow> tenant_service \<Rightarrow> 's \<Rightarrow> unit outcome \<times> 's" where
  "mirror_service api r svc s =
     (let desired = desired_mirror r svc
      in case c_get (cc_LBs api) (lb_key desired) s of
           GetError e \<Rightarrow> (Failed e, s)
         | Found actual \<Rightarrow> sync_mirror api svc desired actual s
         | NotFound \<Rightarrow>
             (case create_mirror api desired s of
                (Failed e, s') \<Rightarrow> (Failed e, s')
              | (Panic, s') \<Rightarrow> (Panic, s')
              | (Done None, s') \<Rightarrow> (Done (), s')
              | (Done (Some actual), s') \<Rightarrow> sync_mirror api svc desired actual s'))"

definition svc_Reconcile :: "'s ccm_api \<Rightarrow> service_reconciler \<Rightarrow> nsname \<Rightarrow> 's \<Rightarrow> unit outcome \<times> 's" where
  "svc_Reconcile api r req s =
     (case c_get (cc_Services api) req s of
        NotFound \<Rightarrow> handleMissingService api r req None s
      | GetError e \<Rightarrow> handleMissingService api r req (Some e) s
      | Found svc \<Rightarrow>
          if tsv_Deleting svc then (if hasCleanupFinalizer svc then cleanupService api r svc s else (Done (), s))
          else if \<not> svc_shouldReconcile r svc then (if hasCleanupFinalizer svc then cleanupService api r svc s else (Done (), s))
          else
            (case ensureFinalizer api svc s of
               (Some e, _, s1) \<Rightarrow> (Failed e, s1)
             | (None, svc1, s1) \<Rightarrow>
                 (case reapStaleLoadBalancers api r (om_Name (svc_Meta svc1)) (om_Namespace (svc_Meta svc1)) (om_UID (svc_Meta svc1)) s1 of
                    (Some e, s2) \<Rightarrow> (Failed e, s2)
                  | (None, s2) \<Rightarrow> mirror_service api r svc1 s2)))"

section \<open>Reaping\<close>

context finalized_store
begin

text \<open>What a deletion leaves of an object: nothing, or what its finalizers hold.\<close>

definition reaped :: "nsname \<Rightarrow> 's \<Rightarrow> bool" where
  "reaped k s \<longleftrightarrow> c_get c k s = NotFound \<or> (\<exists>x y. held x = Some y \<and> c_get c k s = Found y)"

lemma delete_reaps:
  assumes "c_delete c k0 s = (s', r)" and "r = Deleted \<or> r = AlreadyGone"
  shows "reaped k0 s'" and "k \<noteq> k0 \<Longrightarrow> c_get c k s' = c_get c k s"
    and "reaped k s \<Longrightarrow> reaped k s'"
  using delete_get [OF assms]
  by (cases "k = k0"; auto simp: reaped_def split: get_result.splits option.splits)+

lemma delete_mirrors_reaps:
  assumes "delete_mirrors c prefix ns names s = (None, s')"
  shows "n \<in> set names \<Longrightarrow> reaped (ns, n) s'" and "reaped k s \<Longrightarrow> reaped k s'"
    and "\<not> (fst k = ns \<and> snd k \<in> set names) \<Longrightarrow> c_get c k s' = c_get c k s"
proof -
  have "(n \<in> set names \<longrightarrow> reaped (ns, n) s') \<and> (reaped k s \<longrightarrow> reaped k s') \<and>
      (\<not> (fst k = ns \<and> snd k \<in> set names) \<longrightarrow> c_get c k s' = c_get c k s)" for n k
    using assms
  proof (induction names arbitrary: s n k)
    case (Cons a names)
    obtain s1 r where del: "c_delete c (ns, a) s = (s1, r)" by fastforce
    have ok: "r = Deleted \<or> r = AlreadyGone" and rest: "delete_mirrors c prefix ns names s1 = (None, s')"
      using Cons.prems del by (cases r; simp)+
    note one = delete_reaps [OF del ok] and ih = Cons.IH [OF rest]
    show ?case
    proof (intro conjI impI)
      assume "n \<in> set (a # names)" then show "reaped (ns, n) s'" using one(1) ih by (cases "n = a") auto
    next
      assume "reaped k s" then show "reaped k s'" using one(3) ih by blast
    next
      assume out: "\<not> (fst k = ns \<and> snd k \<in> set (a # names))"
      then have "k \<noteq> (ns, a)" by auto
      then show "c_get c k s' = c_get c k s" using one(2) ih out by simp
    qed
  qed simp
  then show "n \<in> set names \<Longrightarrow> reaped (ns, n) s'" and "reaped k s \<Longrightarrow> reaped k s'"
    and "\<not> (fst k = ns \<and> snd k \<in> set names) \<Longrightarrow> c_get c k s' = c_get c k s" by blast+
qed

end

section \<open>The two clusters\<close>

definition selects :: "strmap \<Rightarrow> strmap \<Rightarrow> bool" where
  "selects selector labels \<longleftrightarrow> list_all (\<lambda>(k, v). map_of labels k = Some v) selector"

definition svc_gone :: "tenant_service \<Rightarrow> bool" where
  "svc_gone svc \<longleftrightarrow> tsv_Deleting svc \<and> tsv_Finalizers svc = []"

definition svc_held :: "tenant_service \<Rightarrow> tenant_service option" where
  "svc_held svc = (if tsv_Finalizers svc = [] then None else Some (svc\<lparr> tsv_Deleting := True \<rparr>))"

text \<open>The live mirrors of an origin: the objects with its labels in the namespace of the tenant that are not being
  deleted.\<close>

definition live_mirrors :: "'s ccm_api \<Rightarrow> string \<Rightarrow> string \<Rightarrow> string \<Rightarrow> 's \<Rightarrow> string set" where
  "live_mirrors api ns name namespace s =
     {uid. uid \<noteq> [] \<and> (\<exists>m. c_get (cc_LBs api) (ns, uid) s = Found m \<and> \<not> ml_Deleting m \<and>
        selects (origin_selector name namespace) (om_Labels (lb_Meta (ml_LB m))))}"

text \<open>What the code relies on: the stores of both kinds, a list by labels that returns the stored objects of the
  namespace with these labels, a status write that changes the status only, and kinds that do not interfere.\<close>

locale ccm_clusters =
  lbs: finalized_store "cc_LBs api" managed_key lb_gone lb_held +
  svcs: finalized_store "cc_Services api" service_key svc_gone svc_held
  for api :: "'s ccm_api" +
  assumes list_get: "cc_listLBs api ns sel s = Inr ms \<Longrightarrow>
      m \<in> set ms \<longleftrightarrow> c_get (cc_LBs api) (managed_key m) s = Found m \<and> fst (managed_key m) = ns \<and>
        selects sel (om_Labels (lb_Meta (ml_LB m)))"
    and status_get: "cc_updateStatus api x s = (s', None) \<Longrightarrow>
      c_get (cc_Services api) k s' = (if k = service_key x then
        (case c_get (cc_Services api) k s of Found y \<Rightarrow> Found (y\<lparr> es_Ingress := es_Ingress x \<rparr>) | r \<Rightarrow> r)
        else c_get (cc_Services api) k s)"
    and status_frame: "cc_updateStatus api x s = (s', r) \<Longrightarrow> c_get (cc_LBs api) k s' = c_get (cc_LBs api) k s"
    and svc_frame: "c_update (cc_Services api) x s = (s', r) \<Longrightarrow> c_get (cc_LBs api) k s' = c_get (cc_LBs api) k s"
    and lb_create_frame: "c_create (cc_LBs api) m s = (s', r) \<Longrightarrow> k \<noteq> managed_key m \<Longrightarrow>
      c_get (cc_LBs api) k s' = c_get (cc_LBs api) k s"
    and lb_update_frame: "c_update (cc_LBs api) m s = (s', r) \<Longrightarrow> c_get (cc_Services api) k s' = c_get (cc_Services api) k s"
    and lb_delete_frame: "c_delete (cc_LBs api) n s = (s', d) \<Longrightarrow> c_get (cc_Services api) k s' = c_get (cc_Services api) k s"
    and deep_refl: "cc_deepEqual api a a"
begin

lemma reaped_not_live: "lbs.reaped k s \<Longrightarrow> c_get (cc_LBs api) k s = Found m \<Longrightarrow> ml_Deleting m"
  by (auto simp: lbs.reaped_def lb_held_def split: if_splits)

lemma reap_spec:
  assumes run: "reapStaleLoadBalancers api r name namespace uid s = (None, s')"
  shows "live_mirrors api (sr_ClusterName r) name namespace s' \<subseteq> {uid}"
    and "k = (sr_ClusterName r, uid) \<or> fst k \<noteq> sr_ClusterName r \<or>
      (\<exists>m. c_get (cc_LBs api) k s = Found m \<and> \<not> selects (origin_selector name namespace) (om_Labels (lb_Meta (ml_LB m)))) \<Longrightarrow>
      c_get (cc_LBs api) k s' = c_get (cc_LBs api) k s"
proof -
  let ?ns = "sr_ClusterName r" let ?sel = "origin_selector name namespace"
  obtain ms where ms: "cc_listLBs api ?ns ?sel s = Inr ms"
    and del: "delete_mirrors (cc_LBs api) ''deleting orphaned LoadBalancer: '' ?ns
      (filter (\<lambda>n. n \<noteq> uid) (map (\<lambda>m. om_Name (lb_Meta (ml_LB m))) ms)) s = (None, s')"
    using run by (auto simp: reapStaleLoadBalancers_def staleMirrorNames_def split: sum.splits)
  note all = list_get [OF ms] and gone = lbs.delete_mirrors_reaps [OF del]
  show "live_mirrors api ?ns name namespace s' \<subseteq> {uid}"
  proof
    fix u assume "u \<in> live_mirrors api ?ns name namespace s'"
    then obtain m where m: "c_get (cc_LBs api) (?ns, u) s' = Found m" "\<not> ml_Deleting m" "selects ?sel (om_Labels (lb_Meta (ml_LB m)))"
      by (auto simp: live_mirrors_def)
    have key: "managed_key m = (?ns, u)" by (rule lbs.get_key [OF m(1)])
    show "u \<in> {uid}"
    proof (rule ccontr)
      assume "u \<notin> {uid}"
      then have "u \<noteq> uid" by simp
      have notin: "u \<notin> set (filter (\<lambda>n. n \<noteq> uid) (map (\<lambda>m. om_Name (lb_Meta (ml_LB m))) ms))"
        using gone(1) reaped_not_live [OF _ m(1)] m(2) by blast
      then have "c_get (cc_LBs api) (?ns, u) s = Found m" using gone(3) [of "(?ns, u)"] m(1) by simp
      then have "m \<in> set ms" using all m(3) key by simp
      then show False using notin \<open>u \<noteq> uid\<close> key by (force simp: managed_key_def lb_key_def)
    qed
  qed
  assume k: "k = (?ns, uid) \<or> fst k \<noteq> ?ns \<or>
      (\<exists>m. c_get (cc_LBs api) k s = Found m \<and> \<not> selects ?sel (om_Labels (lb_Meta (ml_LB m))))"
  have "\<not> (fst k = ?ns \<and> snd k \<in> set (filter (\<lambda>n. n \<noteq> uid) (map (\<lambda>m. om_Name (lb_Meta (ml_LB m))) ms)))"
  proof
    assume "fst k = ?ns \<and> snd k \<in> set (filter (\<lambda>n. n \<noteq> uid) (map (\<lambda>m. om_Name (lb_Meta (ml_LB m))) ms))"
    then obtain x where x: "x \<in> set ms" "fst k = ?ns" "snd k = om_Name (lb_Meta (ml_LB x))" "snd k \<noteq> uid" by auto
    then have stored: "c_get (cc_LBs api) (managed_key x) s = Found x" "fst (managed_key x) = ?ns"
        "selects ?sel (om_Labels (lb_Meta (ml_LB x)))"
      using all by simp_all
    then have "managed_key x = k" using x by (simp add: managed_key_def lb_key_def prod_eq_iff)
    then show False using k x(2,4) stored by auto
  qed
  then show "c_get (cc_LBs api) k s' = c_get (cc_LBs api) k s" by (rule gone(3))
qed

lemma ensureFinalizer_frame:
  "ensureFinalizer api svc s = (None, svc', s') \<Longrightarrow> c_get (cc_LBs api) k s' = c_get (cc_LBs api) k s \<and>
     (\<exists>fs. svc' = svc\<lparr> tsv_Finalizers := fs \<rparr>)"
  by (auto simp: ensureFinalizer_def Let_def without_finalizer_def split: if_splits prod.splits option.splits
      intro: exI [of _ "tsv_Finalizers svc"] dest: svc_frame)

lemma desired_state_refl: "LoadBalancerIsDesiredState (cc_deepEqual api) lb desired"
  if "lb_Spec lb = lb_Spec desired" "om_Annotations (lb_Meta lb) = om_Annotations (lb_Meta desired)"
  using that by (simp add: LoadBalancerIsDesiredState_view lb_view_def CompareAnnotations_def deep_refl split: option.split)

lemma desired_mirror_key: "lb_key (desired_mirror r svc) = (sr_ClusterName r, om_UID (svc_Meta svc))"
  by (simp add: desired_mirror_def lb_key_def MapLoadBalancer_def Let_def service.defs split: prod.split)

lemma desired_mirror_finalizers [simp]: "desired_mirror r (svc\<lparr> tsv_Finalizers := fs \<rparr>) = desired_mirror r svc"
  by (simp add: desired_mirror_def getEndpoints_def service.defs)

text \<open>What a successful synchronisation leaves: the mirror it found when that is up to date, and otherwise the mirror
  with the spec and the annotations of the Service.\<close>

definition mirrored :: "load_balancer \<Rightarrow> managed_lb \<Rightarrow> managed_lb \<Rightarrow> bool" where
  "mirrored desired actual m' \<longleftrightarrow>
     (m' = actual \<and> LoadBalancerIsDesiredState (cc_deepEqual api) (ml_LB actual) desired) \<or>
     (lb_Spec (ml_LB m') = lb_Spec desired \<and> om_Annotations (lb_Meta (ml_LB m')) = om_Annotations (lb_Meta desired) \<and>
      ml_Deleting m' = ml_Deleting actual)"

text \<open>The mirror that a pass starts from: the stored one, or a new one when there is none and no other client creates it
  at the same time.\<close>

definition found_or_made :: "load_balancer \<Rightarrow> 's \<Rightarrow> managed_lb \<Rightarrow> bool" where
  "found_or_made desired s actual \<longleftrightarrow>
     (case c_get (cc_LBs api) (lb_key desired) s of
        Found m \<Rightarrow> actual = m
      | NotFound \<Rightarrow> actual = new_mirror desired \<or> (\<exists>e. cc_isAlreadyExists api e)
      | GetError _ \<Rightarrow> True)"

lemma mirrored_desired: "mirrored desired actual m' \<Longrightarrow> LoadBalancerIsDesiredState (cc_deepEqual api) (ml_LB m') desired"
  by (auto simp: mirrored_def desired_state_refl)

lemma sync_mirror_spec:
  assumes run: "sync_mirror api svc desired actual s = (Done (), s')"
    and get: "c_get (cc_LBs api) (lb_key desired) s = Found actual"
  shows "\<exists>m'. c_get (cc_LBs api) (lb_key desired) s' = Found m' \<and> mirrored desired actual m'"
    and "k \<noteq> lb_key desired \<Longrightarrow> c_get (cc_LBs api) k s' = c_get (cc_LBs api) k s"
proof -
  let ?pub = "if ss_Type (svc_Spec svc) = ServiceTypeLoadBalancer \<and> ml_Ingress actual \<noteq> es_Ingress svc
      then publish_addresses api svc (ml_Ingress actual) s else (None, s)"
  obtain err s1 where pub': "?pub = (err, s1)" by fastforce
  have pub: "?pub = (None, s1)"
    and rest: "(if LoadBalancerIsDesiredState (cc_deepEqual api) (ml_LB actual) desired then (Done (), s1)
      else (case overwrite_mirror api desired s1 of (Some e, s2) \<Rightarrow> (Failed e, s2) | (None, s2) \<Rightarrow> (Done (), s2))) = (Done (), s')"
    using run unfolding sync_mirror_def pub' by (cases err; simp)+
  have frame: "c_get (cc_LBs api) k s1 = c_get (cc_LBs api) k s" for k
    using pub by (auto simp: publish_addresses_def split: if_splits get_result.splits prod.splits dest: status_frame)
  have "(\<exists>m'. c_get (cc_LBs api) (lb_key desired) s' = Found m' \<and> mirrored desired actual m') \<and>
      (k \<noteq> lb_key desired \<longrightarrow> c_get (cc_LBs api) k s' = c_get (cc_LBs api) k s)" for k
  proof (cases "LoadBalancerIsDesiredState (cc_deepEqual api) (ml_LB actual) desired")
    case True
    then show ?thesis using rest get frame by (auto simp: mirrored_def)
  next
    case False
    let ?m = "actual\<lparr> ml_LB := (ml_LB actual)\<lparr> lb_Spec := lb_Spec desired,
        lb_Meta := (lb_Meta (ml_LB actual))\<lparr> om_Annotations := om_Annotations (lb_Meta desired) \<rparr> \<rparr> \<rparr>"
    have up: "c_update (cc_LBs api) ?m s1 = (s', None)"
      using rest False get frame by (auto simp: overwrite_mirror_def split: prod.splits option.splits)
    have key: "managed_key ?m = lb_key desired"
      using lbs.get_key [OF get] by (simp add: managed_key_def lb_key_def)
    have "\<not> lb_gone ?m" using lbs.stored [OF get] by (simp add: lb_gone_def)
    then show ?thesis using lbs.update_get [OF up] frame key by (auto simp: mirrored_def)
  qed
  then show "\<exists>m'. c_get (cc_LBs api) (lb_key desired) s' = Found m' \<and> mirrored desired actual m'"
    and "k \<noteq> lb_key desired \<Longrightarrow> c_get (cc_LBs api) k s' = c_get (cc_LBs api) k s" by blast+
qed

lemma mirror_service_spec:
  assumes run: "mirror_service api r svc s = (Done (), s')"
  shows "\<exists>m'. c_get (cc_LBs api) (lb_key (desired_mirror r svc)) s' = Found m' \<and>
      (\<exists>actual. mirrored (desired_mirror r svc) actual m' \<and> found_or_made (desired_mirror r svc) s actual)"
    and "k \<noteq> lb_key (desired_mirror r svc) \<Longrightarrow> c_get (cc_LBs api) k s' = c_get (cc_LBs api) k s"
proof -
  let ?d = "desired_mirror r svc"
  have "(\<exists>m'. c_get (cc_LBs api) (lb_key ?d) s' = Found m' \<and>
      (\<exists>actual. mirrored ?d actual m' \<and> found_or_made ?d s actual)) \<and>
      (k \<noteq> lb_key ?d \<longrightarrow> c_get (cc_LBs api) k s' = c_get (cc_LBs api) k s)" for k
  proof (cases "c_get (cc_LBs api) (lb_key ?d) s")
    case (Found actual)
    then have "sync_mirror api svc ?d actual s = (Done (), s')" using run by (simp add: mirror_service_def Let_def)
    from sync_mirror_spec [OF this Found] Found show ?thesis by (auto simp: found_or_made_def)
  next
    case NotFound
    obtain s1 r1 where new: "c_create (cc_LBs api) (new_mirror ?d) s = (s1, r1)" by fastforce
    have key: "managed_key (new_mirror ?d) = lb_key ?d" by (simp add: managed_key_def new_mirror_def)
    have frame: "k \<noteq> lb_key ?d \<Longrightarrow> c_get (cc_LBs api) k s1 = c_get (cc_LBs api) k s" for k
      using lb_create_frame [OF new] key by simp
    show ?thesis
    proof (cases r1)
      case None
      then have "s' = s1" using run NotFound new by (simp add: mirror_service_def create_mirror_def Let_def)
      moreover have "mirrored ?d (new_mirror ?d) (new_mirror ?d)" "found_or_made ?d s (new_mirror ?d)"
        using NotFound by (simp_all add: mirrored_def new_mirror_def found_or_made_def)
      ultimately show ?thesis using lbs.create_get [OF new [unfolded None]] key by auto
    next
      case (Some e)
      then obtain actual where get: "c_get (cc_LBs api) (lb_key ?d) s1 = Found actual"
        and sync: "sync_mirror api svc ?d actual s1 = (Done (), s')" and race: "cc_isAlreadyExists api e"
        using run NotFound new
        by (auto simp: mirror_service_def create_mirror_def Let_def split: if_splits get_result.splits)
      then have "found_or_made ?d s x" for x using NotFound by (auto simp: found_or_made_def)
      then show ?thesis using sync_mirror_spec [OF sync get] frame by auto
    qed
  qed (use run in \<open>simp add: mirror_service_def Let_def\<close>)
  then show "\<exists>m'. c_get (cc_LBs api) (lb_key ?d) s' = Found m' \<and>
      (\<exists>actual. mirrored ?d actual m' \<and> found_or_made ?d s actual)"
    and "k \<noteq> lb_key ?d \<Longrightarrow> c_get (cc_LBs api) k s' = c_get (cc_LBs api) k s" by blast+
qed

text \<open>The Service of the tenant: what a pass keeps of it.\<close>

lemma delete_mirrors_services:
  "delete_mirrors (cc_LBs api) prefix ns names s = (e, s') \<Longrightarrow> c_get (cc_Services api) k s' = c_get (cc_Services api) k s"
proof (induction names arbitrary: s)
  case (Cons n names)
  obtain s1 r where del: "c_delete (cc_LBs api) (ns, n) s = (s1, r)" by fastforce
  show ?case using Cons lb_delete_frame [OF del] del by (cases r) auto
qed simp

lemma publish_addresses_stores:
  assumes "publish_addresses api svc ing s = (None, s')" and "c_get (cc_Services api) (service_key svc) s = Found x"
  shows "c_get (cc_Services api) (service_key svc) s' = Found (x\<lparr> es_Ingress := ing \<rparr>)"
proof -
  have up: "cc_updateStatus api (x\<lparr> es_Ingress := ing \<rparr>) s = (s', None)"
    using assms by (auto simp: publish_addresses_def split: prod.splits)
  have "service_key (x\<lparr> es_Ingress := ing \<rparr>) = service_key svc"
    using svcs.get_key [OF assms(2)] by (simp add: service_key_def)
  then show ?thesis using status_get [OF up] assms(2) by simp
qed

lemma reap_services:
  assumes "reapStaleLoadBalancers api r name namespace uid s = (e, s')"
  shows "c_get (cc_Services api) k s' = c_get (cc_Services api) k s"
  using assms by (auto simp: reapStaleLoadBalancers_def split: sum.splits dest: delete_mirrors_services)

lemma ensureFinalizer_stores:
  assumes "ensureFinalizer api svc s = (None, svc', s')" and "c_get (cc_Services api) (service_key svc) s = Found svc"
    and "\<not> tsv_Deleting svc"
  shows "c_get (cc_Services api) (service_key svc) s' = Found svc'"
proof (cases "CleanupFinalizer \<in> set (tsv_Finalizers svc)")
  case False
  then have up: "c_update (cc_Services api) svc' s = (s', None)"
    and svc': "svc' = without_finalizer LBFinalizerName (svc\<lparr> tsv_Finalizers := tsv_Finalizers svc @ [CleanupFinalizer] \<rparr>)"
    using assms(1) by (auto simp: ensureFinalizer_def Let_def split: prod.splits option.splits)
  have "service_key svc' = service_key svc" "\<not> svc_gone svc'"
    using assms(3) by (simp_all add: svc' without_finalizer_def service_key_def svc_gone_def)
  then show ?thesis using svcs.update_get [OF up] by simp
qed (use assms in \<open>simp add: ensureFinalizer_def\<close>)

text \<open>The stages of a successful pass over a Service that is in scope.\<close>

lemma Reconcile_stages:
  assumes get: "c_get (cc_Services api) req s = Found svc" and live: "\<not> tsv_Deleting svc" and on: "svc_shouldReconcile r svc"
    and run: "svc_Reconcile api r req s = (Done (), s')"
  obtains fs s1 s2 where "ensureFinalizer api svc s = (None, svc\<lparr> tsv_Finalizers := fs \<rparr>, s1)"
    and "reapStaleLoadBalancers api r (snd req) (fst req) (om_UID (svc_Meta svc)) s1 = (None, s2)"
    and "mirror_service api r (svc\<lparr> tsv_Finalizers := fs \<rparr>) s2 = (Done (), s')"
proof -
  have key: "om_Name (svc_Meta svc) = snd req" "om_Namespace (svc_Meta svc) = fst req"
    using svcs.get_key [OF get] by (auto simp: service_key_def)
  obtain e svc1 s1 where fin: "ensureFinalizer api svc s = (e, svc1, s1)" by (metis prod_cases3)
  have e: "e = None" using run get live on fin by (cases e) (simp_all add: svc_Reconcile_def)
  obtain fs where svc1: "svc1 = svc\<lparr> tsv_Finalizers := fs \<rparr>" using ensureFinalizer_frame fin e by blast
  obtain e2 s2 where reap: "reapStaleLoadBalancers api r (snd req) (fst req) (om_UID (svc_Meta svc)) s1 = (e2, s2)" by fastforce
  have e2: "e2 = None" using run get live on fin e reap svc1 key by (cases e2) (simp_all add: svc_Reconcile_def)
  have "mirror_service api r (svc\<lparr> tsv_Finalizers := fs \<rparr>) s2 = (Done (), s')"
    using run get live on fin e reap e2 svc1 key by (simp add: svc_Reconcile_def)
  then show ?thesis using that fin e svc1 reap e2 by blast
qed

lemma Reconcile_mirrors:
  assumes get: "c_get (cc_Services api) req s = Found svc" and live: "\<not> tsv_Deleting svc" and on: "svc_shouldReconcile r svc"
    and run: "svc_Reconcile api r req s = (Done (), s')"
  shows "live_mirrors api (sr_ClusterName r) (snd req) (fst req) s' \<subseteq> {om_UID (svc_Meta svc)}"
    and "\<exists>m' actual. c_get (cc_LBs api) (sr_ClusterName r, om_UID (svc_Meta svc)) s' = Found m' \<and> mirrored (desired_mirror r svc) actual m' \<and>
      found_or_made (desired_mirror r svc) s actual"
    and "k \<noteq> (sr_ClusterName r, om_UID (svc_Meta svc)) \<Longrightarrow> c_get (cc_LBs api) k s = Found m \<Longrightarrow>
      fst k \<noteq> sr_ClusterName r \<or> \<not> selects (origin_selector (snd req) (fst req)) (om_Labels (lb_Meta (ml_LB m))) \<Longrightarrow>
      c_get (cc_LBs api) k s' = Found m"
proof -
  let ?k = "(sr_ClusterName r, om_UID (svc_Meta svc))"
  obtain fs s1 s2 where fin: "ensureFinalizer api svc s = (None, svc\<lparr> tsv_Finalizers := fs \<rparr>, s1)"
    and reap: "reapStaleLoadBalancers api r (snd req) (fst req) (om_UID (svc_Meta svc)) s1 = (None, s2)"
    and sync: "mirror_service api r (svc\<lparr> tsv_Finalizers := fs \<rparr>) s2 = (Done (), s')"
    by (rule Reconcile_stages [OF assms])
  have one: "c_get (cc_LBs api) k s1 = c_get (cc_LBs api) k s" for k
    by (rule conjunct1 [OF ensureFinalizer_frame [OF fin]])
  note two = reap_spec [OF reap] and three = mirror_service_spec [OF sync, unfolded desired_mirror_finalizers desired_mirror_key]
  show "live_mirrors api (sr_ClusterName r) (snd req) (fst req) s' \<subseteq> {om_UID (svc_Meta svc)}"
  proof
    fix u assume u: "u \<in> live_mirrors api (sr_ClusterName r) (snd req) (fst req) s'"
    show "u \<in> {om_UID (svc_Meta svc)}"
    proof (rule ccontr)
      assume new: "u \<notin> {om_UID (svc_Meta svc)}"
      then have "c_get (cc_LBs api) (sr_ClusterName r, u) s' = c_get (cc_LBs api) (sr_ClusterName r, u) s2"
        by (intro three(2)) simp
      then have "u \<in> live_mirrors api (sr_ClusterName r) (snd req) (fst req) s2" using u by (simp add: live_mirrors_def)
      then show False using two(1) new by blast
    qed
  qed
  show "\<exists>m' actual. c_get (cc_LBs api) ?k s' = Found m' \<and> mirrored (desired_mirror r svc) actual m' \<and> found_or_made (desired_mirror r svc) s actual"
  proof -
    have "c_get (cc_LBs api) ?k s2 = c_get (cc_LBs api) ?k s" using two(2) [of ?k] one [of ?k] by simp
    then show ?thesis using three(1) by (auto simp: desired_mirror_key found_or_made_def)
  qed
  assume "k \<noteq> ?k" "c_get (cc_LBs api) k s = Found m"
    "fst k \<noteq> sr_ClusterName r \<or> \<not> selects (origin_selector (snd req) (fst req)) (om_Labels (lb_Meta (ml_LB m)))"
  then show "c_get (cc_LBs api) k s' = Found m" using three(2) [of k] two(2) [of k] one [of k] by auto
qed

end

section \<open>Clusters in memory\<close>

record ccm_world = lb_world +
  w_TenantServices :: "(nsname, tenant_service) gomap"

definition mem_ccm_api :: "'b ccm_world_scheme ccm_api" where
  "mem_ccm_api =
     (let lbs = part_crud w_LBs (\<lambda>p. w_LBs_update (\<lambda>_. p)) (mem_finalized managed_key lb_gone lb_held);
          svcs = part_crud w_TenantServices (\<lambda>p. w_TenantServices_update (\<lambda>_. p)) (mem_finalized service_key svc_gone svc_held)
      in \<lparr> cc_Services = svcs,
           cc_updateStatus = (\<lambda>x s. case c_get svcs (service_key x) s of
              Found y \<Rightarrow> c_create svcs (y\<lparr> es_Ingress := es_Ingress x \<rparr>) s | _ \<Rightarrow> (s, Some ''not found'')),
           cc_LBs = lbs,
           cc_listLBs = (\<lambda>ns sel s. Inr (filter (\<lambda>m. c_get lbs (managed_key m) s = Found m \<and> fst (managed_key m) = ns \<and>
              selects sel (om_Labels (lb_Meta (ml_LB m)))) (map snd (w_LBs s)))),
           cc_isAlreadyExists = (\<lambda>_. False), cc_deepEqual = gomap_eq \<rparr>)"

interpretation mem_ccm: ccm_clusters mem_ccm_api
proof -
  have lbs: "finalized_store (cc_LBs mem_ccm_api) managed_key lb_gone lb_held"
    and svcs: "finalized_store (cc_Services mem_ccm_api) service_key svc_gone svc_held"
    by (simp_all add: mem_ccm_api_def Let_def part_finalized mem_fin.finalized_store_axioms)
  show "ccm_clusters mem_ccm_api"
    unfolding ccm_clusters_def
  proof (intro conjI lbs svcs, unfold_locales)
    fix ns sel s ms m
    assume ms: "cc_listLBs mem_ccm_api ns sel s = Inr ms"
    have "m \<in> set (map snd (w_LBs s))" if "c_get (cc_LBs mem_ccm_api) (managed_key m) s = Found m"
    proof -
      have "map_of (w_LBs s) (managed_key m) = Some m"
        using that by (auto simp: mem_ccm_api_def Let_def part_crud_def mem_finalized_def split: option.splits if_splits)
      then show ?thesis by (metis map_of_SomeD in_set_conv_nth image_eqI set_map snd_conv)
    qed
    then show "m \<in> set ms \<longleftrightarrow> c_get (cc_LBs mem_ccm_api) (managed_key m) s = Found m \<and> fst (managed_key m) = ns \<and>
        selects sel (om_Labels (lb_Meta (ml_LB m)))"
      using ms by (auto simp: mem_ccm_api_def Let_def)
  next
    fix x s s' k
    assume up: "cc_updateStatus mem_ccm_api x s = (s', None)"
    let ?c = "cc_Services mem_ccm_api"
    from up obtain y where y: "c_get ?c (service_key x) s = Found y" "c_create ?c (y\<lparr> es_Ingress := es_Ingress x \<rparr>) s = (s', None)"
      by (auto simp: mem_ccm_api_def Let_def split: get_result.splits)
    have "service_key (y\<lparr> es_Ingress := es_Ingress x \<rparr>) = service_key x"
      using finalized_store.get_key [OF svcs y(1)] by (simp add: service_key_def)
    then show "c_get ?c k s' = (if k = service_key x then
        (case c_get ?c k s of Found y \<Rightarrow> Found (y\<lparr> es_Ingress := es_Ingress x \<rparr>) | r \<Rightarrow> r) else c_get ?c k s)"
      using finalized_store.create_get [OF svcs y(2), of k] y(1) by simp
  next
    fix m s s' r k
    assume "c_create (cc_LBs mem_ccm_api) m s = (s', r)" and "k \<noteq> managed_key m"
    then show "c_get (cc_LBs mem_ccm_api) k s' = c_get (cc_LBs mem_ccm_api) k s"
      by (auto simp: mem_ccm_api_def Let_def part_crud_def mem_finalized_def map_of_put split: if_splits prod.splits)
  next
    show "cc_deepEqual mem_ccm_api a a" for a
      by (simp add: mem_ccm_api_def Let_def gomap_eq_def)
  qed (auto simp: mem_ccm_api_def Let_def part_crud_def split: prod.splits get_result.splits)
qed

section \<open>Properties\<close>

text \<open>C9. A pass over a Service in scope that returns without an error leaves exactly one mirror that counts: the object
  named after the UID of the Service exists and is in the desired state, every other object with the labels of the
  Service in the namespace of the tenant is deleted or marked for deletion, and all other load balancers, of this tenant
  and of other tenants, are as before.\<close>

theorem mirror_follows_service:
  assumes "ccm_clusters api" and "c_get (cc_Services api) req s = Found svc" and "\<not> tsv_Deleting svc"
    and "svc_shouldReconcile r svc" and "svc_Reconcile api r req s = (Done (), s')"
  shows "live_mirrors api (sr_ClusterName r) (snd req) (fst req) s' \<subseteq> {om_UID (svc_Meta svc)} \<and>
    (\<exists>m'. c_get (cc_LBs api) (sr_ClusterName r, om_UID (svc_Meta svc)) s' = Found m' \<and>
      LoadBalancerIsDesiredState (cc_deepEqual api) (ml_LB m') (desired_mirror r svc)) \<and>
    (\<forall>k m. c_get (cc_LBs api) k s = Found m \<and> k \<noteq> (sr_ClusterName r, om_UID (svc_Meta svc)) \<and>
      \<not> (fst k = sr_ClusterName r \<and> selects (origin_selector (snd req) (fst req)) (om_Labels (lb_Meta (ml_LB m)))) \<longrightarrow>
      c_get (cc_LBs api) k s' = Found m)"
proof -
  note out = ccm_clusters.Reconcile_mirrors [OF assms]
  have "\<exists>m'. c_get (cc_LBs api) (sr_ClusterName r, om_UID (svc_Meta svc)) s' = Found m' \<and>
      LoadBalancerIsDesiredState (cc_deepEqual api) (ml_LB m') (desired_mirror r svc)"
    using out(2) ccm_clusters.mirrored_desired [OF assms(1)] by blast
  then show ?thesis using out(1,3) by blast
qed

definition sample_tenant_svc :: tenant_service where
  "sample_tenant_svc = \<lparr> svc_APIVersion = [], svc_Kind = [], svc_Meta = svc_Meta sample_user_svc,
     svc_Spec = (svc_Spec sample_user_svc)\<lparr> ss_Type := ''LoadBalancer'' \<rparr>,
     es_LoadBalancerClass = None, es_Ingress = [], tsv_Finalizers = [], tsv_Deleting = False \<rparr>"

definition sample_cluster :: service_reconciler where
  "sample_cluster = \<lparr> sr_ClusterName = ''tenant-a'', sr_CloudController = True, sr_UseLoadbalancerClass = False \<rparr>"

definition sample_svc_key :: nsname where
  "sample_svc_key = service_key sample_tenant_svc"

text \<open>A mirror of an earlier incarnation of the Service, left behind.\<close>

definition stale_mirror :: managed_lb where
  "stale_mirror = new_mirror (desired_mirror sample_cluster
     (sample_tenant_svc\<lparr> svc_Meta := (svc_Meta sample_tenant_svc)\<lparr> om_UID := ''u0'' \<rparr> \<rparr>))"

definition sample_clusters :: ccm_world where
  "sample_clusters = \<lparr> w_LBs = [((''tenant-a'', ''u0''), stale_mirror)], w_Services = [], w_Ingresses = [], w_HTTPRoutes = [],
     w_TenantServices = [(sample_svc_key, sample_tenant_svc)] \<rparr>"

definition sample_mirrored :: "unit outcome \<times> ccm_world" where
  "sample_mirrored = svc_Reconcile mem_ccm_api sample_cluster sample_svc_key sample_clusters"

lemma sample_mirrored_done: "sample_mirrored = (Done (), snd sample_mirrored)"
proof -
  have "fst sample_mirrored = Done ()" by code_simp
  then show ?thesis by (metis prod.collapse)
qed

theorem mirror_follows_service_witness:
  "c_get (cc_LBs mem_ccm_api) (''tenant-a'', ''u0'') sample_clusters = Found stale_mirror \<and>
   live_mirrors mem_ccm_api ''tenant-a'' (snd sample_svc_key) (fst sample_svc_key) (snd sample_mirrored) \<subseteq> {''u1''} \<and>
   (\<exists>m'. c_get (cc_LBs mem_ccm_api) (''tenant-a'', ''u1'') (snd sample_mirrored) = Found m' \<and>
      LoadBalancerIsDesiredState gomap_eq (ml_LB m') (desired_mirror sample_cluster sample_tenant_svc))"
proof -
  have get: "c_get (cc_Services mem_ccm_api) sample_svc_key sample_clusters = Found sample_tenant_svc"
    and live: "\<not> tsv_Deleting sample_tenant_svc" and on: "svc_shouldReconcile sample_cluster sample_tenant_svc"
    and stale: "c_get (cc_LBs mem_ccm_api) (''tenant-a'', ''u0'') sample_clusters = Found stale_mirror"
    and uid: "om_UID (svc_Meta sample_tenant_svc) = ''u1''" and ns: "sr_ClusterName sample_cluster = ''tenant-a''"
    by code_simp+
  have eq: "cc_deepEqual mem_ccm_api = gomap_eq" by (simp add: mem_ccm_api_def Let_def)
  have run: "svc_Reconcile mem_ccm_api sample_cluster sample_svc_key sample_clusters = (Done (), snd sample_mirrored)"
    using sample_mirrored_done by (simp add: sample_mirrored_def)
  from mirror_follows_service [OF mem_ccm.ccm_clusters_axioms get live on run]
  show ?thesis using stale unfolding uid ns eq by blast
qed

text \<open>C13. When the Service is gone, a pass that returns without an error leaves no live mirror of it, although no finalizer
  ran; a read error of the API server, in contrast, changes nothing.\<close>

theorem vanished_service_reaped:
  assumes "ccm_clusters api"
  shows "(c_get (cc_Services api) req s = NotFound \<and> svc_Reconcile api r req s = (Done (), s') \<longrightarrow>
      live_mirrors api (sr_ClusterName r) (snd req) (fst req) s' = {}) \<and>
    (c_get (cc_Services api) req s = GetError e \<longrightarrow> svc_Reconcile api r req s = (Failed e, s))"
proof (intro conjI impI)
  assume gone: "c_get (cc_Services api) req s = NotFound \<and> svc_Reconcile api r req s = (Done (), s')"
  have "reapStaleLoadBalancers api r (snd req) (fst req) [] s = (None, s')"
    using gone by (auto simp: svc_Reconcile_def handleMissingService_def split: prod.splits option.splits)
  from ccm_clusters.reap_spec(1) [OF assms this]
  show "live_mirrors api (sr_ClusterName r) (snd req) (fst req) s' = {}" by (auto simp: live_mirrors_def)
next
  assume "c_get (cc_Services api) req s = GetError e"
  then show "svc_Reconcile api r req s = (Failed e, s)" by (simp add: svc_Reconcile_def handleMissingService_def)
qed

theorem vanished_service_reaped_witness:
  "let out = svc_Reconcile mem_ccm_api sample_cluster sample_svc_key (sample_clusters\<lparr> w_TenantServices := [] \<rparr>)
   in fst out = Done () \<and> live_mirrors mem_ccm_api ''tenant-a'' (snd sample_svc_key) (fst sample_svc_key) (snd out) = {}"
proof -
  let ?s = "sample_clusters\<lparr> w_TenantServices := [] \<rparr>"
  let ?out = "svc_Reconcile mem_ccm_api sample_cluster sample_svc_key ?s"
  have get: "c_get (cc_Services mem_ccm_api) sample_svc_key ?s = NotFound" and fine: "fst ?out = Done ()"
    and ns: "sr_ClusterName sample_cluster = ''tenant-a''"
    by code_simp+
  have run: "?out = (Done (), snd ?out)" using fine by (metis prod.collapse)
  from vanished_service_reaped [OF mem_ccm.ccm_clusters_axioms] get run
  show ?thesis unfolding Let_def ns [symmetric] using fine by blast
qed


text \<open>The sample Service, marked for deletion after its first pass.\<close>

definition sample_deleting :: ccm_world where
  "sample_deleting = fst (c_delete (cc_Services mem_ccm_api) sample_svc_key (snd sample_mirrored))"


text \<open>C38. Without the cloud-controller mode the endpoints of a mirror are the addresses in the status of its Service, which
  the same controller overwrites with the addresses of the load balancer: after a pass that published them, the Service
  asks for a load balancer that forwards to itself.\<close>

theorem published_address_becomes_endpoint:
  assumes cluster: "ccm_clusters api" and get: "c_get (cc_Services api) req s = Found svc" and live: "\<not> tsv_Deleting svc"
    and on: "svc_shouldReconcile r svc" and mode: "\<not> sr_CloudController r"
    and mirror: "c_get (cc_LBs api) (sr_ClusterName r, om_UID (svc_Meta svc)) s = Found actual" "ml_Ingress actual \<noteq> es_Ingress svc"
    and run: "svc_Reconcile api r req s = (Done (), s')"
  shows "\<exists>svc'. c_get (cc_Services api) req s' = Found svc' \<and>
    map le_Addresses (ls_Endpoints (lb_Spec (desired_mirror r svc'))) =
      [map (\<lambda>i. if lbi_IP i \<noteq> [] then \<lparr> ea_IP = lbi_IP i, ea_Hostname = [] \<rparr>
                else \<lparr> ea_IP = [], ea_Hostname = lbi_Hostname i \<rparr>) (ml_Ingress actual)]"
proof -
  have svcs: "finalized_store (cc_Services api) service_key svc_gone svc_held"
    using ccm_clusters.axioms [OF cluster] by blast
  let ?k = "(sr_ClusterName r, om_UID (svc_Meta svc))"
  obtain fs s1 s2 where fin: "ensureFinalizer api svc s = (None, svc\<lparr> tsv_Finalizers := fs \<rparr>, s1)"
    and reap: "reapStaleLoadBalancers api r (snd req) (fst req) (om_UID (svc_Meta svc)) s1 = (None, s2)"
    and sync: "mirror_service api r (svc\<lparr> tsv_Finalizers := fs \<rparr>) s2 = (Done (), s')"
    by (rule ccm_clusters.Reconcile_stages [OF cluster get live on run])
  let ?svc = "svc\<lparr> tsv_Finalizers := fs \<rparr>"
  have key: "service_key svc = req" "service_key ?svc = req"
    using finalized_store.get_key [OF svcs get] by (simp_all add: service_key_def)
  have stored: "c_get (cc_Services api) req s2 = Found ?svc"
    using ccm_clusters.ensureFinalizer_stores [OF cluster fin] get live key(1) ccm_clusters.reap_services [OF cluster reap] by simp
  have lb: "c_get (cc_LBs api) ?k s2 = Found actual"
    using ccm_clusters.reap_spec(2) [OF cluster reap, of ?k] conjunct1 [OF ccm_clusters.ensureFinalizer_frame [OF cluster fin], of ?k]
      mirror(1) by simp
  have dk: "lb_key (desired_mirror r ?svc) = ?k" by (simp add: ccm_clusters.desired_mirror_key [OF cluster])
  have type: "ss_Type (svc_Spec svc) = ServiceTypeLoadBalancer" using on by (simp add: svc_shouldReconcile_def split: if_splits)
  have sync2: "sync_mirror api ?svc (desired_mirror r ?svc) actual s2 = (Done (), s')"
    using sync unfolding mirror_service_def Let_def dk lb by simp
  obtain e s3 where pub: "publish_addresses api ?svc (ml_Ingress actual) s2 = (e, s3)" by fastforce
  have e: "e = None" using sync2 pub type mirror(2) by (cases e) (simp_all add: sync_mirror_def)
  have three: "c_get (cc_Services api) req s3 = Found (?svc\<lparr> es_Ingress := ml_Ingress actual \<rparr>)"
    using ccm_clusters.publish_addresses_stores [OF cluster pub [unfolded e]] stored key(2) by simp
  have "c_get (cc_Services api) req s' = c_get (cc_Services api) req s3"
    using sync2 pub e type mirror(2) ccm_clusters.lb_update_frame [OF cluster]
    by (auto simp: sync_mirror_def overwrite_mirror_def split: if_splits get_result.splits prod.splits option.splits)
  moreover have "map le_Addresses (ls_Endpoints (lb_Spec (desired_mirror r (?svc\<lparr> es_Ingress := ml_Ingress actual \<rparr>)))) =
      [map (\<lambda>i. if lbi_IP i \<noteq> [] then \<lparr> ea_IP = lbi_IP i, ea_Hostname = [] \<rparr>
                else \<lparr> ea_IP = [], ea_Hostname = lbi_Hostname i \<rparr>) (ml_Ingress actual)]"
    using type mode by (simp add: desired_mirror_def getEndpoints_def MapLoadBalancer_def Let_def)
  ultimately show ?thesis using three by auto
qed

definition plain_cluster :: service_reconciler where
  "plain_cluster = sample_cluster\<lparr> sr_CloudController := False \<rparr>"

text \<open>The load balancer of the sample Service has been given an address.\<close>

definition addressed_mirror :: managed_lb where
  "addressed_mirror = (new_mirror (desired_mirror plain_cluster sample_tenant_svc))\<lparr> ml_Ingress := [\<lparr> lbi_IP = ''192.0.2.1'', lbi_Hostname = [] \<rparr>] \<rparr>"

definition addressed_clusters :: ccm_world where
  "addressed_clusters = sample_clusters\<lparr> w_LBs := [((''tenant-a'', ''u1''), addressed_mirror)] \<rparr>"

theorem published_address_becomes_endpoint_witness:
  "\<exists>svc'. c_get (cc_Services mem_ccm_api) sample_svc_key (snd (svc_Reconcile mem_ccm_api plain_cluster sample_svc_key addressed_clusters)) = Found svc' \<and>
     map le_Addresses (ls_Endpoints (lb_Spec (desired_mirror plain_cluster svc'))) = [[\<lparr> ea_IP = ''192.0.2.1'', ea_Hostname = [] \<rparr>]]"
proof -
  let ?out = "svc_Reconcile mem_ccm_api plain_cluster sample_svc_key addressed_clusters"
  have get: "c_get (cc_Services mem_ccm_api) sample_svc_key addressed_clusters = Found sample_tenant_svc"
    and live: "\<not> tsv_Deleting sample_tenant_svc" and on: "svc_shouldReconcile plain_cluster sample_tenant_svc"
    and mode: "\<not> sr_CloudController plain_cluster"
    and mirror: "c_get (cc_LBs mem_ccm_api) (sr_ClusterName plain_cluster, om_UID (svc_Meta sample_tenant_svc)) addressed_clusters = Found addressed_mirror"
    and new: "ml_Ingress addressed_mirror \<noteq> es_Ingress sample_tenant_svc" and fine: "fst ?out = Done ()"
    by code_simp+
  have run: "?out = (Done (), snd ?out)" using fine by (metis prod.collapse)
  from published_address_becomes_endpoint [OF mem_ccm.ccm_clusters_axioms get live on mode mirror new run]
  show ?thesis by (simp add: addressed_mirror_def)
qed

end
