(* ===== verification/Envoy_Control_Plane.thy ===== *)
theory Envoy_Control_Plane
  imports Envoy_Snapshot Route_Controller Ccm_Service
begin

text \<open>
  The controller of the Envoy control plane (\<^verbatim>\<open>internal/controllers/kubelb/envoy_cp_controller.go\<close>): per tenant
  namespace it keeps an Envoy Deployment or DaemonSet running, allocates the listener ports, and puts the snapshot of
  the load balancers and routes of the namespace into the xDS cache.

  The API server, the snapshot cache of go-control-plane with its consistency check, the protobuf encoder, the hash
  and the bootstrap text are arguments. The state is the pair of the port allocator and the cluster, which includes
  the cache. Metrics and log lines are left out.
\<close>

section \<open>Pods\<close>

record http_action =
  ha_Path :: string
  ha_Port :: int

record probe =
  pb_HTTPGet :: http_action
  pb_TimeoutSeconds :: int
  pb_PeriodSeconds :: int
  pb_SuccessThreshold :: int
  pb_FailureThreshold :: int

record container =
  ct_Name :: string
  ct_Image :: string
  ct_Command :: "string list"
  ct_Args :: "string list"
  ct_Ports :: "(string \<times> int) list"
  ct_Resources :: resource_requirements
  ct_PreStop :: "http_action option"
  ct_StartupProbe :: probe
  ct_ReadinessProbe :: probe
  ct_LivenessProbe :: probe

text \<open>A spread constraint is the label selector of a constraint with skew 1 over the host name, scheduled anyway.\<close>

record pod_template =
  pt_Name :: string
  pt_Namespace :: string
  pt_Labels :: strmap
  pt_Annotations :: strmap
  pt_TerminationGracePeriodSeconds :: "int option"
  pt_Containers :: "container list"
  pt_Affinity :: "string option"
  pt_Tolerations :: "string list"
  pt_NodeSelector :: "strmap option"
  pt_SpreadConstraints :: "strmap list"

record workload =
  wl_Meta :: object_meta
  wl_Replicas :: "int option"
  wl_Selector :: strmap
  wl_Template :: pod_template

definition LabelAppKubernetesInstance :: string where "LabelAppKubernetesInstance = ''app.kubernetes.io/instance''"
definition LabelAppKubernetesManagedBy :: string where "LabelAppKubernetesManagedBy = ''app.kubernetes.io/managed-by''"
definition AnnotationResourceNamingVersion :: string where
  "AnnotationResourceNamingVersion = ''kubelb.k8c.io/resource-naming-version''"
definition ResourceNamingVersion :: string where "ResourceNamingVersion = ''2''"
definition envoyProxyAppName :: string where "envoyProxyAppName = ''kubelb-envoy-proxy''"
definition envoyProxyManagedByVal :: string where "envoyProxyManagedByVal = ''kubelb''"
definition envoyImage :: string where "envoyImage = ''envoyproxy/envoy:distroless-v1.37.11''"
definition envoyProxyContainerName :: string where "envoyProxyContainerName = ''envoy-proxy''"
definition shutdownManagerContainerName :: string where "shutdownManagerContainerName = ''shutdown-manager''"
definition DefaultShutdownManagerImage :: string where "DefaultShutdownManagerImage = ''docker.io/envoyproxy/gateway:v1.3.0''"
definition DefaultEnvoyDrainTimeout :: int where "DefaultEnvoyDrainTimeout = 60"
definition DefaultEnvoyTerminationGracePeriod :: int where "DefaultEnvoyTerminationGracePeriod = 300"
definition EnvoyStatsPath :: string where "EnvoyStatsPath = ''/stats/prometheus''"
definition EnvoyReadinessPath :: string where "EnvoyReadinessPath = ''/ready''"
definition EnvoyHealthCheckPath :: string where "EnvoyHealthCheckPath = ''/healthz''"
definition ShutdownManagerHealthCheckPath :: string where "ShutdownManagerHealthCheckPath = ''/healthz''"
definition ShutdownManagerReadyPath :: string where "ShutdownManagerReadyPath = ''/shutdown/ready''"
definition RequeueAllResources :: string where "RequeueAllResources = ''requeue-all-for-route''"

definition defaultEnvoyProxyResources :: resource_requirements where
  "defaultEnvoyProxyResources =
     \<lparr> rr_Requests = [(''cpu'', ''200m''), (''memory'', ''256Mi'')], rr_Limits = [(''cpu'', ''2''), (''memory'', ''1Gi'')] \<rparr>"

definition http_probe :: "string \<Rightarrow> int \<Rightarrow> int \<Rightarrow> int \<Rightarrow> probe" where
  "http_probe path port timeout failures =
     \<lparr> pb_HTTPGet = \<lparr> ha_Path = path, ha_Port = port \<rparr>, pb_TimeoutSeconds = timeout, pb_PeriodSeconds = 10,
       pb_SuccessThreshold = 1, pb_FailureThreshold = failures \<rparr>"

text \<open>The drain timeout in seconds: \<^verbatim>\<open>int64(d.Seconds())\<close> truncates towards zero.\<close>

definition drain_seconds :: "int \<Rightarrow> int" where
  "drain_seconds d = (if 0 \<le> d then d div 1000000000 else - ((- d) div 1000000000))"

text \<open>Whether shutdown is graceful, the drain timeout and the grace period.\<close>

definition shutdown_settings :: "config_spec \<Rightarrow> bool \<times> int \<times> int" where
  "shutdown_settings config =
     (case px_GracefulShutdown (cs_EnvoyProxy config) of
        None \<Rightarrow> (True, DefaultEnvoyDrainTimeout, DefaultEnvoyTerminationGracePeriod)
      | Some g \<Rightarrow>
          (\<not> gs_Disabled g,
           (case gs_DrainTimeout g of None \<Rightarrow> DefaultEnvoyDrainTimeout | Some d \<Rightarrow> drain_seconds d),
           (case gs_TerminationGracePeriodSeconds g of None \<Rightarrow> DefaultEnvoyTerminationGracePeriod | Some t \<Rightarrow> t)))"

definition proxy_resources :: "config_spec \<Rightarrow> tenant_spec \<Rightarrow> resource_requirements" where
  "proxy_resources config tenant =
     (case (case ts_EnvoyProxy tenant of None \<Rightarrow> None | Some p \<Rightarrow> tep_Resources p) of
        Some r \<Rightarrow> r
      | None \<Rightarrow> (case px_Resources (cs_EnvoyProxy config) of Some r \<Rightarrow> r | None \<Rightarrow> defaultEnvoyProxyResources))"

definition envoy_container :: "string \<Rightarrow> config_spec \<Rightarrow> tenant_spec \<Rightarrow> string \<Rightarrow> string \<Rightarrow> bool \<Rightarrow> container" where
  "envoy_container bootstrap config tenant namespace snapshotName graceful =
     \<lparr> ct_Name = envoyProxyContainerName, ct_Image = envoyImage, ct_Command = [],
       ct_Args = [''--config-yaml'', bootstrap, ''--service-node'', snapshotName, ''--service-cluster'', namespace],
       ct_Ports = [(''readiness'', EnvoyReadinessPort), (''healthcheck'', EnvoyHealthCheckPort), (''metrics'', EnvoyStatsPort)],
       ct_Resources = proxy_resources config tenant,
       ct_PreStop = (if graceful then Some \<lparr> ha_Path = ShutdownManagerReadyPath, ha_Port = ShutdownManagerPort \<rparr> else None),
       ct_StartupProbe = http_probe EnvoyReadinessPath EnvoyReadinessPort 5 30,
       ct_ReadinessProbe = http_probe EnvoyHealthCheckPath EnvoyHealthCheckPort 5 2,
       ct_LivenessProbe = http_probe EnvoyHealthCheckPath EnvoyHealthCheckPort 5 3 \<rparr>"

definition shutdown_container :: "int \<Rightarrow> container" where
  "shutdown_container drainTimeout =
     \<lparr> ct_Name = shutdownManagerContainerName, ct_Image = DefaultShutdownManagerImage, ct_Command = [''envoy-gateway''],
       ct_Args = [''envoy'', ''shutdown-manager'', ''--ready-timeout='' @ itoa (drainTimeout + 10) @ ''s''],
       ct_Ports = [(''shutdown'', ShutdownManagerPort)],
       ct_Resources = \<lparr> rr_Requests = [(''cpu'', ''10m''), (''memory'', ''32Mi'')], rr_Limits = [] \<rparr>, ct_PreStop = None,
       ct_StartupProbe = http_probe ShutdownManagerHealthCheckPath ShutdownManagerPort 1 30,
       ct_ReadinessProbe = http_probe ShutdownManagerHealthCheckPath ShutdownManagerPort 1 3,
       ct_LivenessProbe = http_probe ShutdownManagerHealthCheckPath ShutdownManagerPort 1 3 \<rparr>"

definition envoyProxyAnnotations :: "config_spec \<Rightarrow> strmap" where
  "envoyProxyAnnotations config =
     (AnnotationResourceNamingVersion, ResourceNamingVersion) #
       (if px_PodMonitor (cs_EnvoyProxy config) = Some True then []
        else [(''prometheus.io/scrape'', ''true''), (''prometheus.io/port'', itoa EnvoyStatsPort),
              (''prometheus.io/path'', ''/stats/prometheus'')])"

definition getEnvoyProxyPodSpec ::
  "(config_spec \<Rightarrow> string) \<Rightarrow> config_spec \<Rightarrow> string \<Rightarrow> string \<Rightarrow> string \<Rightarrow> tenant_spec \<Rightarrow> pod_template" where
  "getEnvoyProxyPodSpec bootstrap config namespace appName snapshotName tenant =
     (let proxy = cs_EnvoyProxy config; (graceful, drainTimeout, gracePeriod) = shutdown_settings config
      in \<lparr> pt_Name = appName, pt_Namespace = namespace,
           pt_Labels = [(LabelAppKubernetesName, appName), (LabelAppKubernetesManagedBy, ''kubelb'')],
           pt_Annotations = envoyProxyAnnotations config,
           pt_TerminationGracePeriodSeconds = Some gracePeriod,
           pt_Containers = envoy_container (bootstrap config) config tenant namespace snapshotName graceful #
             (if graceful then [shutdown_container drainTimeout] else []),
           pt_Affinity = px_Affinity proxy, pt_Tolerations = px_Tolerations proxy, pt_NodeSelector = px_NodeSelector proxy,
           pt_SpreadConstraints = (if px_SinglePodPerNode proxy then [[(LabelAppKubernetesName, appName)]] else []) \<rparr>)"

definition same_map :: "strmap option \<Rightarrow> strmap option \<Rightarrow> bool" where
  "same_map a b = (case (a, b) of (None, None) \<Rightarrow> True | (Some x, Some y) \<Rightarrow> gomap_eq x y | _ \<Rightarrow> False)"

definition podTemplateSpecNeedsUpdate :: "pod_template \<Rightarrow> pod_template \<Rightarrow> bool" where
  "podTemplateSpecNeedsUpdate original desired \<longleftrightarrow>
     \<not> gomap_eq (pt_Annotations original) (pt_Annotations desired) \<or> \<not> gomap_eq (pt_Labels original) (pt_Labels desired) \<or>
     pt_TerminationGracePeriodSeconds original \<noteq> pt_TerminationGracePeriodSeconds desired \<or>
     pt_Containers original \<noteq> pt_Containers desired \<or> pt_Affinity original \<noteq> pt_Affinity desired \<or>
     pt_Tolerations original \<noteq> pt_Tolerations desired \<or> \<not> same_map (pt_NodeSelector original) (pt_NodeSelector desired) \<or>
     pt_SpreadConstraints original \<noteq> pt_SpreadConstraints desired"

definition replicasChanged :: "int option \<Rightarrow> int option \<Rightarrow> bool" where
  "replicasChanged original desired =
     (case (original, desired) of
        (None, None) \<Rightarrow> False | (Some a, Some b) \<Rightarrow> a \<noteq> b | _ \<Rightarrow> True)"

section \<open>The proxy\<close>

datatype cp_error = Msg string | SnapshotErr snapshot_error

record 's cp_api = "'s tenant_api" +
  cp_listLBs :: "string \<Rightarrow> 's \<Rightarrow> string + managed_lb list"
  cp_listRoutes :: "string \<Rightarrow> 's \<Rightarrow> string + managed_route list"
  cp_listTenants :: "'s \<Rightarrow> string + string list"
  cp_getNamespace :: "string \<Rightarrow> 's \<Rightarrow> strmap get_result"
  cp_Deployments :: "('s, workload) crud"
  cp_DaemonSets :: "('s, workload) crud"
  cp_getAddresses :: "'s \<Rightarrow> get_addresses"
  cp_marshal :: "resource \<Rightarrow> string + string"
  cp_hash :: "string \<Rightarrow> string"
  cp_bootstrap :: "config_spec \<Rightarrow> string"
  cp_getSnapshot :: "string \<Rightarrow> 's \<Rightarrow> snapshot option"
  cp_setSnapshot :: "string \<Rightarrow> snapshot \<Rightarrow> 's \<Rightarrow> 's \<times> string option"
  cp_clearSnapshot :: "string \<Rightarrow> 's \<Rightarrow> 's"
  cp_consistent :: "snapshot \<Rightarrow> string option"

definition proxy_crud :: "('s, 'b) cp_api_scheme \<Rightarrow> config_spec \<Rightarrow> ('s, workload) crud" where
  "proxy_crud api config = (if px_UseDaemonset (cs_EnvoyProxy config) then cp_DaemonSets api else cp_Deployments api)"

definition cleanupEnvoyProxy ::
  "('s, 'b) cp_api_scheme \<Rightarrow> config_spec \<Rightarrow> string \<Rightarrow> string \<Rightarrow> 's \<Rightarrow> cp_error option \<times> 's" where
  "cleanupEnvoyProxy api config appName namespace s =
     (case c_delete (proxy_crud api config) (namespace, envoyResourceName appName) s of
        (s', DeleteError e) \<Rightarrow> (Some (Msg (''failed to delete envoy proxy '' @ envoyResourceName appName @ '': '' @ e)), s')
      | (s', _) \<Rightarrow> (None, s'))"

definition desired_replicas :: "config_spec \<Rightarrow> tenant_spec \<Rightarrow> int option" where
  "desired_replicas config tenant =
     (if px_UseDaemonset (cs_EnvoyProxy config) then None
      else Some (case (case ts_EnvoyProxy tenant of None \<Rightarrow> None | Some p \<Rightarrow> tep_Replicas p) of
                   Some n \<Rightarrow> n | None \<Rightarrow> cs_Replicas config))"

definition with_template :: "string \<Rightarrow> int option \<Rightarrow> pod_template \<Rightarrow> workload \<Rightarrow> workload" where
  "with_template appName replicas template w =
     w\<lparr> wl_Replicas := replicas, wl_Selector := [(LabelAppKubernetesName, appName)], wl_Template := template \<rparr>"

definition new_proxy_meta :: "string \<Rightarrow> string \<Rightarrow> object_meta" where
  "new_proxy_meta namespace appName =
     \<lparr> om_Name = envoyResourceName appName, om_Namespace = namespace, om_UID = [],
       om_Labels = [(LabelAppKubernetesName, envoyProxyAppName), (LabelAppKubernetesInstance, appName),
         (LabelAppKubernetesManagedBy, envoyProxyManagedByVal)], om_Annotations = None \<rparr>"

definition ensureEnvoyProxy ::
  "('s, 'b) cp_api_scheme \<Rightarrow> config_spec \<Rightarrow> string \<Rightarrow> string \<Rightarrow> string \<Rightarrow> tenant_spec \<Rightarrow> 's \<Rightarrow> cp_error option \<times> 's" where
  "ensureEnvoyProxy api config namespace appName snapshotName tenant s =
     (let c = proxy_crud api config; replicas = desired_replicas config tenant;
          template = getEnvoyProxyPodSpec (cp_bootstrap api) config namespace appName snapshotName tenant
      in case c_get c (namespace, envoyResourceName appName) s of
           GetError e \<Rightarrow> (Some (Msg e), s)
         | NotFound \<Rightarrow>
             (case c_create c \<lparr> wl_Meta = new_proxy_meta namespace appName, wl_Replicas = replicas,
                               wl_Selector = [(LabelAppKubernetesName, appName)], wl_Template = template \<rparr> s of
                (s', None) \<Rightarrow> (None, s') | (s', Some e) \<Rightarrow> (Some (Msg e), s'))
         | Found w \<Rightarrow>
             if podTemplateSpecNeedsUpdate (wl_Template w) template \<or>
                replicasChanged (if px_UseDaemonset (cs_EnvoyProxy config) then None else wl_Replicas w) replicas
             then (case c_update c (with_template appName replicas template w) s of
                     (s', None) \<Rightarrow> (None, s')
                   | (s', Some e) \<Rightarrow> (Some (Msg (''failed to update envoy proxy: '' @ e)), s'))
             else (None, s))"

section \<open>The snapshot cache\<close>

definition updateCache ::
  "('s, 'b) cp_api_scheme \<Rightarrow> config_spec \<Rightarrow> string \<Rightarrow> load_balancer list \<Rightarrow> route list \<Rightarrow> port_allocator \<Rightarrow> 's \<Rightarrow>
   cp_error option \<times> 's" where
  "updateCache api config snapshotName lbs routes pa s =
     (case MapSnapshot (cp_getAddresses api s) (cp_marshal api) (cp_hash api) (Some (Lookup pa))
             (ResolveHeaderLimits (Some config)) lbs routes of
        Inl e \<Rightarrow> (Some (SnapshotErr e), s)
      | Inr desired \<Rightarrow>
          if (case cp_getSnapshot api snapshotName s of None \<Rightarrow> False | Some current \<Rightarrow> sn_Version current = sn_Version desired)
          then (None, s)
          else
            (case cp_consistent api desired of
               Some e \<Rightarrow> (Some (Msg (''new Envoy config snapshot is not consistent: '' @ e)), s)
             | None \<Rightarrow>
                 (case cp_setSnapshot api snapshotName desired s of
                    (s', None) \<Rightarrow> (None, s')
                  | (s', Some e) \<Rightarrow> (Some (Msg (''failed to set a new Envoy cache snapshot: '' @ e)), s'))))"

section \<open>Reconciliation\<close>

definition ListLoadBalancersAndRoutes ::
  "('s, 'b) cp_api_scheme \<Rightarrow> string \<Rightarrow> 's \<Rightarrow> string + load_balancer list \<times> route list" where
  "ListLoadBalancersAndRoutes api namespace s =
     (case cp_listLBs api namespace s of
        Inl e \<Rightarrow> Inl e
      | Inr lbs \<Rightarrow>
          (case cp_listRoutes api namespace s of
             Inl e \<Rightarrow> Inl e
           | Inr routes \<Rightarrow> Inr (map ml_LB (filter (\<lambda>m. \<not> ml_Deleting m) lbs),
                               map mr_Route (filter (\<lambda>m. \<not> mr_Deleting m) routes))))"

text \<open>\<^verbatim>\<open>reconcile\<close>; \<^const>\<open>None\<close> as the whole result: the allocation of ports does not return.\<close>

definition cp_reconcile ::
  "('s, 'b) cp_api_scheme \<Rightarrow> string \<Rightarrow> config_spec \<Rightarrow> draws \<Rightarrow> port_allocator \<times> 's \<Rightarrow>
   (cp_error option \<times> port_allocator \<times> 's) option" where
  "cp_reconcile api namespace config rs st =
     (case st of (pa, s) \<Rightarrow>
      case ListLoadBalancersAndRoutes api namespace s of
        Inl e \<Rightarrow> Some (Some (Msg (''failed to list LoadBalancers and Routes: '' @ e)), pa, s)
      | Inr (lbs, routes) \<Rightarrow>
          if lbs = [] \<and> routes = [] then
            (case cleanupEnvoyProxy api config namespace namespace (cp_clearSnapshot api namespace s) of
               (err, s') \<Rightarrow> Some (err, pa, s'))
          else
            (case GetTenant api (RemoveTenantPrefix namespace) s of
               Inl e \<Rightarrow> Some (Some (Msg (''failed to retrieve tenant: '' @ e)), pa, s)
             | Inr tenant \<Rightarrow>
                 (case ensureEnvoyProxy api config namespace namespace namespace tenant s of
                    (Some e, s1) \<Rightarrow>
                      Some (Some (case e of Msg m \<Rightarrow> Msg (''failed to update Envoy proxy: '' @ m) | _ \<Rightarrow> e), pa, s1)
                  | (None, s1) \<Rightarrow>
                      (case AllocatePortsForLoadBalancers lbs pa rs of
                         None \<Rightarrow> None
                       | Some (pa1, rs1) \<Rightarrow>
                           (case AllocatePortsForRoutes routes pa1 rs1 of
                              None \<Rightarrow> None
                            | Some (pa2, _) \<Rightarrow>
                                (case updateCache api config namespace lbs routes pa2 s1 of
                                   (err, s2) \<Rightarrow> Some (err, pa2, s2)))))))"

definition cp_Reconcile ::
  "('s, 'b) cp_api_scheme \<Rightarrow> string \<Rightarrow> nsname \<Rightarrow> draws \<Rightarrow> port_allocator \<times> 's \<Rightarrow>
   (cp_error option \<times> port_allocator \<times> 's) option" where
  "cp_Reconcile api configNamespace req rs st =
     (case GetConfig api configNamespace (snd st) of
        Inl e \<Rightarrow> Some (Some (Msg (''failed to retrieve config: '' @ e)), fst st, snd st)
      | Inr config \<Rightarrow> cp_reconcile api (fst req) config rs st)"

section \<open>Watches\<close>

definition cp_enqueueLoadBalancers :: "object_meta \<Rightarrow> nsname list" where
  "cp_enqueueLoadBalancers m = [(om_Namespace m, RequeueAllResources)]"

definition enqueueAllLoadBalancers :: "('s, 'b) cp_api_scheme \<Rightarrow> 's \<Rightarrow> nsname list" where
  "enqueueAllLoadBalancers api s =
     (case cp_listTenants api s of
        Inl e \<Rightarrow> [] | Inr tenants \<Rightarrow> map (\<lambda>t. (tenantNamespace t, RequeueAllResources)) tenants)"

definition enqueueTenantLoadBalancers :: "string \<Rightarrow> nsname list" where
  "enqueueTenantLoadBalancers tenantName = [(tenantNamespace tenantName, RequeueAllResources)]"

definition configSpecChangedPredicate :: "config_spec event \<Rightarrow> bool" where
  "configSpecChangedPredicate e =
     (case e of
        UpdateEvent old new \<Rightarrow>
          cs_EnvoyProxy old \<noteq> cs_EnvoyProxy new \<or> cs_Topology old \<noteq> cs_Topology new \<or>
          cs_Replicas old \<noteq> cs_Replicas new \<or> cs_HeaderLimits old \<noteq> cs_HeaderLimits new
      | CreateEvent _ \<Rightarrow> True | DeleteEvent _ \<Rightarrow> True | GenericEvent _ \<Rightarrow> False)"

definition tenantSpecChangedPredicate :: "tenant_spec event \<Rightarrow> bool" where
  "tenantSpecChangedPredicate e =
     (case e of
        UpdateEvent old new \<Rightarrow> ts_IngressClass old \<noteq> ts_IngressClass new \<or> ts_EnvoyProxy old \<noteq> ts_EnvoyProxy new
      | CreateEvent _ \<Rightarrow> False | DeleteEvent _ \<Rightarrow> True | GenericEvent _ \<Rightarrow> False)"

text \<open>\<^verbatim>\<open>ByLabelExistsOnNamespace\<close> of \<^verbatim>\<open>internal/controllers/utils.go\<close>: only objects in namespaces that KubeLB
  manages are worked on.\<close>

definition ByLabelExistsOnNamespace :: "('s, 'b) cp_api_scheme \<Rightarrow> 's \<Rightarrow> object_meta event \<Rightarrow> bool" where
  "ByLabelExistsOnNamespace api s = Factory (Some (\<lambda>o'.
     case cp_getNamespace api (om_Namespace o') s of
       Found labels \<Rightarrow> map_of labels LabelManagedBy = Some LabelControllerName | _ \<Rightarrow> False))"

section \<open>What the controller relies on\<close>

definition workload_key :: "workload \<Rightarrow> nsname" where
  "workload_key w = (om_Namespace (wl_Meta w), om_Name (wl_Meta w))"

text \<open>Two stores, a cache that returns what was set last under a name, and kinds that do not interfere.\<close>

locale cp_cluster =
  deps: object_store "cp_Deployments api" workload_key + sets: object_store "cp_DaemonSets api" workload_key
  for api :: "('s, 'b) cp_api_scheme" +
  assumes set_get: "cp_setSnapshot api n x s = (s', None) \<Longrightarrow> cp_getSnapshot api m s' = (if m = n then Some x else cp_getSnapshot api m s)"
    and clear_get: "cp_getSnapshot api m (cp_clearSnapshot api n s) = (if m = n then None else cp_getSnapshot api m s)"
    and set_frame: "cp_setSnapshot api n x s = (s', r) \<Longrightarrow> cp_getAddresses api s' = cp_getAddresses api s \<and>
      c_get (cp_Deployments api) k s' = c_get (cp_Deployments api) k s \<and> c_get (cp_DaemonSets api) k s' = c_get (cp_DaemonSets api) k s"
    and clear_frame: "c_get (cp_Deployments api) k (cp_clearSnapshot api n s) = c_get (cp_Deployments api) k s \<and>
      c_get (cp_DaemonSets api) k (cp_clearSnapshot api n s) = c_get (cp_DaemonSets api) k s"
    and dep_frame: "writes (cp_Deployments api) s s' \<Longrightarrow> cp_getSnapshot api n s' = cp_getSnapshot api n s \<and>
      c_get (cp_DaemonSets api) k s' = c_get (cp_DaemonSets api) k s"
    and set_writes_frame: "writes (cp_DaemonSets api) s s' \<Longrightarrow> cp_getSnapshot api n s' = cp_getSnapshot api n s \<and>
      c_get (cp_Deployments api) k s' = c_get (cp_Deployments api) k s"
begin

lemma proxy_store: "object_store (proxy_crud api config) workload_key"
  by (simp add: proxy_crud_def deps.object_store_axioms sets.object_store_axioms)

lemma proxy_frame: "writes (proxy_crud api config) s s' \<Longrightarrow> cp_getSnapshot api n s' = cp_getSnapshot api n s"
  using dep_frame set_writes_frame by (auto simp: proxy_crud_def split: if_splits)

lemma ensure_cases:
  assumes "ensureEnvoyProxy api config namespace appName snapshotName tenant s = (r, s')"
  shows "s' = s \<or> writes (proxy_crud api config) s s'"
  using assms by (auto simp: ensureEnvoyProxy_def Let_def split: get_result.splits prod.splits option.splits if_splits)

lemma cleanup_writes:
  assumes "cleanupEnvoyProxy api config appName namespace s = (r, s')"
  shows "writes (proxy_crud api config) s s'"
proof -
  obtain s1 d where del: "c_delete (proxy_crud api config) (namespace, envoyResourceName appName) s = (s1, d)" by fastforce
  then have "s' = s1" using assms by (cases d) (simp_all add: cleanupEnvoyProxy_def)
  then show ?thesis using del by blast
qed

lemma ensure_snapshots:
  "ensureEnvoyProxy api config namespace appName snapshotName tenant s = (r, s') \<Longrightarrow> cp_getSnapshot api n s' = cp_getSnapshot api n s"
  using ensure_cases proxy_frame by blast

text \<open>A proxy that was ensured runs the desired pods.\<close>

lemma ensure_stores:
  assumes run: "ensureEnvoyProxy api config namespace appName snapshotName tenant s = (None, s')"
  shows "\<exists>w. c_get (proxy_crud api config) (namespace, envoyResourceName appName) s' = Found w \<and>
    \<not> podTemplateSpecNeedsUpdate (wl_Template w) (getEnvoyProxyPodSpec (cp_bootstrap api) config namespace appName snapshotName tenant)"
proof -
  let ?c = "proxy_crud api config" let ?k = "(namespace, envoyResourceName appName)"
  let ?t = "getEnvoyProxyPodSpec (cp_bootstrap api) config namespace appName snapshotName tenant"
  note store = proxy_store [of config]
  have same: "\<not> podTemplateSpecNeedsUpdate ?t ?t"
    by (auto simp: podTemplateSpecNeedsUpdate_def gomap_eq_def same_map_def split: option.split)
  show ?thesis
  proof (cases "c_get ?c ?k s")
    case (Found w)
    show ?thesis
    proof (cases "podTemplateSpecNeedsUpdate (wl_Template w) ?t \<or>
        replicasChanged (if px_UseDaemonset (cs_EnvoyProxy config) then None else wl_Replicas w) (desired_replicas config tenant)")
      case True
      let ?w = "with_template appName (desired_replicas config tenant) ?t w"
      have up: "c_update ?c ?w s = (s', None)"
        using run Found True by (auto simp: ensureEnvoyProxy_def Let_def split: prod.splits option.splits)
      have "workload_key ?w = ?k"
        using object_store.get_key [OF store Found] by (simp add: with_template_def workload_key_def)
      then have "c_get ?c ?k s' = Found ?w" using object_store.update_get [OF store up] by simp
      then show ?thesis using same by (simp add: with_template_def)
    next
      case False
      then show ?thesis using run Found by (auto simp: ensureEnvoyProxy_def Let_def)
    qed
  next
    case NotFound
    let ?w = "\<lparr> wl_Meta = new_proxy_meta namespace appName, wl_Replicas = desired_replicas config tenant,
        wl_Selector = [(LabelAppKubernetesName, appName)], wl_Template = ?t \<rparr>"
    have new: "c_create ?c ?w s = (s', None)"
      using run NotFound by (auto simp: ensureEnvoyProxy_def Let_def split: prod.splits option.splits)
    have "workload_key ?w = ?k" by (simp add: workload_key_def new_proxy_meta_def)
    then have "c_get ?c ?k s' = Found ?w" using object_store.create_get [OF store new] by simp
    then show ?thesis using same by simp
  qed (use run in \<open>simp add: ensureEnvoyProxy_def Let_def\<close>)
qed

text \<open>A successful update of the cache leaves the version of the desired snapshot, and nothing else changes.\<close>

lemma updateCache_done:
  assumes run: "updateCache api config name lbs routes pa s = (None, s')"
  shows "\<exists>sn cached.
    MapSnapshot (cp_getAddresses api s') (cp_marshal api) (cp_hash api) (Some (Lookup pa)) (ResolveHeaderLimits (Some config)) lbs routes = Inr sn \<and>
    cp_getSnapshot api name s' = Some cached \<and> sn_Version cached = sn_Version sn \<and>
    (cached = sn \<or> cp_getSnapshot api name s = Some cached) \<and>
    (\<forall>n. n \<noteq> name \<longrightarrow> cp_getSnapshot api n s' = cp_getSnapshot api n s) \<and>
    (\<forall>k. c_get (proxy_crud api config) k s' = c_get (proxy_crud api config) k s)"
proof -
  let ?map = "MapSnapshot (cp_getAddresses api s) (cp_marshal api) (cp_hash api) (Some (Lookup pa)) (ResolveHeaderLimits (Some config)) lbs routes"
  obtain sn where sn: "?map = Inr sn" using run by (cases ?map) (simp_all add: updateCache_def)
  show ?thesis
  proof (cases "\<exists>c. cp_getSnapshot api name s = Some c \<and> sn_Version c = sn_Version sn")
    case True
    then obtain c where c: "cp_getSnapshot api name s = Some c" "sn_Version c = sn_Version sn" by blast
    have "s' = s" using run sn c by (simp add: updateCache_def)
    with sn c show ?thesis by (intro exI [of _ sn] exI [of _ c]) simp
  next
    case False
    have set': "cp_setSnapshot api name sn s = (s', None)"
      using run sn False by (auto simp: updateCache_def split: option.splits prod.splits if_splits)
    note frame = set_frame [OF set'] and new = set_get [OF set']
    show ?thesis using sn frame new by (intro exI [of _ sn]) (simp add: proxy_crud_def)
  qed
qed

lemma Reconcile_stages:
  assumes config: "GetConfig api configNamespace s = Inr config"
    and objects: "ListLoadBalancersAndRoutes api (fst req) s = Inr (lbs, routes)" "lbs \<noteq> [] \<or> routes \<noteq> []"
    and run: "cp_Reconcile api configNamespace req rs (pa, s) = Some (None, pa', s')"
  obtains tenant s1 pa1 rs1 rs2 where "GetTenant api (RemoveTenantPrefix (fst req)) s = Inr tenant"
    and "ensureEnvoyProxy api config (fst req) (fst req) (fst req) tenant s = (None, s1)"
    and "AllocatePortsForLoadBalancers lbs pa rs = Some (pa1, rs1)" and "AllocatePortsForRoutes routes pa1 rs1 = Some (pa', rs2)"
    and "updateCache api config (fst req) lbs routes pa' s1 = (None, s')"
proof -
  have run1: "cp_reconcile api (fst req) config rs (pa, s) = Some (None, pa', s')" and some: "\<not> (lbs = [] \<and> routes = [])"
    using run config objects(2) by (auto simp: cp_Reconcile_def)
  obtain tenant where t: "GetTenant api (RemoveTenantPrefix (fst req)) s = Inr tenant"
    using run1 objects(1) some by (cases "GetTenant api (RemoveTenantPrefix (fst req)) s") (simp_all add: cp_reconcile_def)
  obtain e s1 where ens: "ensureEnvoyProxy api config (fst req) (fst req) (fst req) tenant s = (e, s1)" by fastforce
  have e: "e = None" using run1 objects(1) some t ens by (cases e) (simp_all add: cp_reconcile_def)
  obtain pa1 rs1 where a1: "AllocatePortsForLoadBalancers lbs pa rs = Some (pa1, rs1)"
    using run1 objects(1) some t ens e by (cases "AllocatePortsForLoadBalancers lbs pa rs") (auto simp: cp_reconcile_def)
  obtain pa2 rs2 where a2: "AllocatePortsForRoutes routes pa1 rs1 = Some (pa2, rs2)"
    using run1 objects(1) some t ens e a1 by (cases "AllocatePortsForRoutes routes pa1 rs1") (auto simp: cp_reconcile_def)
  have "updateCache api config (fst req) lbs routes pa2 s1 = (None, s')" "pa2 = pa'"
    using run1 objects(1) some t ens e a1 a2 by (auto simp: cp_reconcile_def split: prod.splits)
  with t ens e a1 a2 show ?thesis by (intro that) simp_all
qed

end

section \<open>A cluster in memory\<close>

record cp_world = ccm_world +
  w_Routes :: "(nsname, managed_route) gomap"
  w_Deployments :: "(nsname, workload) gomap"
  w_DaemonSets :: "(nsname, workload) gomap"
  w_Snapshots :: "(string, snapshot) gomap"
  w_Addresses :: "(nsname, endpoint_address list) gomap"

text \<open>The documented consistency check of go-control-plane: the EDS clusters and the load assignments have the same names.\<close>

definition names_consistent :: "snapshot \<Rightarrow> bool" where
  "names_consistent sn \<longleftrightarrow>
     set (map cla_ClusterName (sn_Endpoints sn)) = set (map cl_Name (filter (\<lambda>c. cl_DiscoveryType c = EDS) (sn_Clusters sn)))"

lemma mapped_names_consistent:
  assumes sn: "MapSnapshot get marshal hash lookup limits lbs routes = Inr sn"
  shows "names_consistent sn"
proof -
  obtain b where b: "build_resources get lookup limits lbs routes = Inr b"
    and c: "sn_Clusters sn = sort_key cl_Name (b_clusters b)" and e: "sn_Endpoints sn = sort_key cla_ClusterName (b_endpoints b)"
    by (rule MapSnapshot_cases [OF sn])
  have "cla_ClusterName ` set (b_endpoints b) = {cl_Name c | c. c \<in> set (b_clusters b) \<and> cl_DiscoveryType c = EDS}"
    using build_resources_ok [OF b] by (simp add: build_ok_def config_ok_def)
  then show ?thesis by (auto simp: names_consistent_def c e)
qed

definition mem_cp_api :: "tenant_spec \<Rightarrow> config_spec \<Rightarrow> cp_world cp_api" where
  "mem_cp_api tenant config =
     \<lparr> ta_getTenant = (\<lambda>_ _. Found tenant), ta_getConfig = (\<lambda>_ _. Found config),
       cp_listLBs = (\<lambda>ns s. Inr (filter (\<lambda>m. fst (managed_key m) = ns) (map snd (w_LBs s)))),
       cp_listRoutes = (\<lambda>ns s. Inr (filter (\<lambda>m. fst (managed_route_key m) = ns) (map snd (w_Routes s)))),
       cp_listTenants = (\<lambda>_. Inr []), cp_getNamespace = (\<lambda>_ _. NotFound),
       cp_Deployments = part_crud w_Deployments (\<lambda>p. w_Deployments_update (\<lambda>_. p)) (mem_crud workload_key),
       cp_DaemonSets = part_crud w_DaemonSets (\<lambda>p. w_DaemonSets_update (\<lambda>_. p)) (mem_crud workload_key),
       cp_getAddresses = (\<lambda>s ns n. case map_of (w_Addresses s) (ns, n) of None \<Rightarrow> Inl ''not found'' | Some a \<Rightarrow> Inr a),
       cp_marshal = (\<lambda>_. Inr ''r''), cp_hash = (\<lambda>x. x), cp_bootstrap = (\<lambda>_. ''{}''),
       cp_getSnapshot = (\<lambda>n s. map_of (w_Snapshots s) n),
       cp_setSnapshot = (\<lambda>n x s. (s\<lparr> w_Snapshots := gomap_put n x (w_Snapshots s) \<rparr>, None)),
       cp_clearSnapshot = (\<lambda>n s. s\<lparr> w_Snapshots := gomap_del n (w_Snapshots s) \<rparr>),
       cp_consistent = (\<lambda>sn. if names_consistent sn then None else Some ''mismatched resource names'') \<rparr>"

interpretation mem_cp: cp_cluster "mem_cp_api tenant config"
proof -
  have deps: "object_store (cp_Deployments (mem_cp_api tenant config)) workload_key"
    and sets: "object_store (cp_DaemonSets (mem_cp_api tenant config)) workload_key"
    by (simp_all add: mem_cp_api_def part_store mem.object_store_axioms)
  show "cp_cluster (mem_cp_api tenant config)"
    unfolding cp_cluster_def
    by (intro conjI deps sets, unfold_locales)
      (auto simp: mem_cp_api_def part_crud_def map_of_put map_of_delete_other
        dest!: part_writes [unfolded part_crud_def])
qed

text \<open>In memory the first pass over a namespace with objects succeeds and caches the snapshot.\<close>

lemma mem_first_pass:
  assumes new: "w_Deployments w = []" "w_Snapshots w = []" and dep: "\<not> px_UseDaemonset (cs_EnvoyProxy config)"
    and objects: "ListLoadBalancersAndRoutes (mem_cp_api tenant config) ns w = Inr (lbs, routes)" "lbs \<noteq> [] \<or> routes \<noteq> []"
    and alloc: "AllocatePortsForLoadBalancers lbs pa rs = Some (pa1, rs1)" "AllocatePortsForRoutes routes pa1 rs1 = Some (pa2, rs2)"
    and sn: "MapSnapshot (cp_getAddresses (mem_cp_api tenant config) w) (cp_marshal (mem_cp_api tenant config)) (cp_hash (mem_cp_api tenant config))
      (Some (Lookup pa2)) (ResolveHeaderLimits (Some config)) lbs routes = Inr sn"
  shows "\<exists>w'. cp_Reconcile (mem_cp_api tenant config) cn (ns, n) rs (pa, w) = Some (None, pa2, w') \<and>
    w_Snapshots w' = [(ns, sn)] \<and> w_Addresses w' = w_Addresses w"
proof -
  let ?api = "mem_cp_api tenant config"
  obtain d where ens: "ensureEnvoyProxy ?api config ns ns ns tenant w = (None, w\<lparr> w_Deployments := d \<rparr>)"
    using new(1) dep by (simp add: ensureEnvoyProxy_def Let_def proxy_crud_def mem_cp_api_def part_crud_def mem_crud_def)
  let ?w = "w\<lparr> w_Deployments := d \<rparr>"
  have "cp_getAddresses ?api ?w = cp_getAddresses ?api w" by (simp add: mem_cp_api_def)
  then have map: "MapSnapshot (cp_getAddresses ?api ?w) (cp_marshal ?api) (cp_hash ?api) (Some (Lookup pa2))
      (ResolveHeaderLimits (Some config)) lbs routes = Inr sn" using sn by simp
  have "cp_getSnapshot ?api ns ?w = None" "cp_consistent ?api sn = None" "cp_setSnapshot ?api ns sn ?w = (?w\<lparr> w_Snapshots := [(ns, sn)] \<rparr>, None)"
    using new(2) mapped_names_consistent [OF sn] by (simp_all add: mem_cp_api_def)
  then have "updateCache ?api config ns lbs routes pa2 ?w = (None, ?w\<lparr> w_Snapshots := [(ns, sn)] \<rparr>)"
    by (simp add: updateCache_def map)
  moreover have "GetConfig ?api cn w = Inr config" "GetTenant ?api (RemoveTenantPrefix ns) w = Inr tenant"
    by (simp_all add: GetConfig_def GetTenant_def mem_cp_api_def)
  ultimately have "cp_Reconcile ?api cn (ns, n) rs (pa, w) = Some (None, pa2, ?w\<lparr> w_Snapshots := [(ns, sn)] \<rparr>)"
    using objects alloc ens by (auto simp: cp_Reconcile_def cp_reconcile_def)
  then show ?thesis by simp
qed

section \<open>Properties\<close>

text \<open>C10. A pass over a namespace with load balancers or routes that returns without an error leaves the data plane
  current: the proxy of the namespace runs the pods that the configuration asks for, which request the snapshot of the
  namespace, and the snapshot cached under this name has the version of the snapshot of the listed objects under the
  allocator that the pass leaves; it is that snapshot unless the cache already held one of this version. The snapshots of
  all other tenants are untouched.\<close>

theorem pass_serves_current_snapshot:
  assumes cluster: "cp_cluster api" and config: "GetConfig api configNamespace s = Inr config"
    and objects: "ListLoadBalancersAndRoutes api (fst req) s = Inr (lbs, routes)" "lbs \<noteq> [] \<or> routes \<noteq> []"
    and run: "cp_Reconcile api configNamespace req rs (pa, s) = Some (None, pa', s')"
  shows "\<exists>tenant w sn cached. GetTenant api (RemoveTenantPrefix (fst req)) s = Inr tenant \<and>
    c_get (proxy_crud api config) (fst req, envoyResourceName (fst req)) s' = Found w \<and>
    \<not> podTemplateSpecNeedsUpdate (wl_Template w) (getEnvoyProxyPodSpec (cp_bootstrap api) config (fst req) (fst req) (fst req) tenant) \<and>
    MapSnapshot (cp_getAddresses api s') (cp_marshal api) (cp_hash api) (Some (Lookup pa')) (ResolveHeaderLimits (Some config)) lbs routes = Inr sn \<and>
    cp_getSnapshot api (fst req) s' = Some cached \<and> sn_Version cached = sn_Version sn \<and>
    (cached = sn \<or> cp_getSnapshot api (fst req) s = Some cached) \<and>
    (\<forall>n. n \<noteq> fst req \<longrightarrow> cp_getSnapshot api n s' = cp_getSnapshot api n s)"
proof -
  obtain tenant s1 where t: "GetTenant api (RemoveTenantPrefix (fst req)) s = Inr tenant"
    and ens: "ensureEnvoyProxy api config (fst req) (fst req) (fst req) tenant s = (None, s1)"
    and cache: "updateCache api config (fst req) lbs routes pa' s1 = (None, s')"
    by (rule cp_cluster.Reconcile_stages [OF cluster config objects run])
  obtain w where w: "c_get (proxy_crud api config) (fst req, envoyResourceName (fst req)) s1 = Found w"
    "\<not> podTemplateSpecNeedsUpdate (wl_Template w) (getEnvoyProxyPodSpec (cp_bootstrap api) config (fst req) (fst req) (fst req) tenant)"
    using cp_cluster.ensure_stores [OF cluster ens] by blast
  note same = cp_cluster.ensure_snapshots [OF cluster ens]
  from cp_cluster.updateCache_done [OF cluster cache] obtain sn cached where 
    "MapSnapshot (cp_getAddresses api s') (cp_marshal api) (cp_hash api) (Some (Lookup pa')) (ResolveHeaderLimits (Some config)) lbs routes = Inr sn"
    "cp_getSnapshot api (fst req) s' = Some cached" "sn_Version cached = sn_Version sn"
    "cached = sn \<or> cp_getSnapshot api (fst req) s1 = Some cached"
    "\<And>n. n \<noteq> fst req \<Longrightarrow> cp_getSnapshot api n s' = cp_getSnapshot api n s1"
    "\<And>k. c_get (proxy_crud api config) k s' = c_get (proxy_crud api config) k s1"
    by blast
  with t w same show ?thesis
    by (intro exI [of _ tenant] exI [of _ w] exI [of _ sn] exI [of _ cached]) simp
qed

definition cp_sample_world :: cp_world where
  "cp_sample_world = \<lparr> w_LBs = [((''tenant-a'', ''u1''), sample_managed)], w_Services = [], w_Ingresses = [], w_HTTPRoutes = [],
     w_TenantServices = [], w_Routes = [], w_Deployments = [], w_DaemonSets = [], w_Snapshots = [], w_Addresses = [] \<rparr>"

definition cp_sample_api :: "cp_world cp_api" where
  "cp_sample_api = mem_cp_api sample_tenant DefaultConfig"

definition cp_sample_proxy :: workload where
  "cp_sample_proxy = \<lparr> wl_Meta = new_proxy_meta ''tenant-a'' ''tenant-a'', wl_Replicas = Some 3,
     wl_Selector = [(LabelAppKubernetesName, ''tenant-a'')],
     wl_Template = getEnvoyProxyPodSpec (\<lambda>_. ''{}'') DefaultConfig ''tenant-a'' ''tenant-a'' ''tenant-a'' sample_tenant \<rparr>"

definition cp_sample_snapshot :: "snapshot_error + snapshot" where
  "cp_sample_snapshot = MapSnapshot (cp_getAddresses cp_sample_api cp_sample_world) (cp_marshal cp_sample_api) (cp_hash cp_sample_api)
     (Some (Lookup sample_pa2)) (ResolveHeaderLimits (Some DefaultConfig)) [ml_LB sample_managed] []"

definition cp_sample_done :: cp_world where
  "cp_sample_done = cp_sample_world\<lparr> w_Deployments := [((''tenant-a'', ''envoy-tenant-a''), cp_sample_proxy)],
     w_Snapshots := [(''tenant-a'', projr cp_sample_snapshot)] \<rparr>"

lemma cp_sample_mapped: "cp_sample_snapshot = Inr (projr cp_sample_snapshot)"
proof -
  have inr: "(case x of Inl _ \<Rightarrow> False | Inr _ \<Rightarrow> True) \<Longrightarrow> x = Inr (projr x)" for x :: "'x + 'y" by (cases x) simp_all
  show ?thesis by (rule inr) code_simp
qed

lemma cp_sample_consistent: "names_consistent (projr cp_sample_snapshot)"
  by code_simp

lemma cp_sample_pass:
  "cp_Reconcile cp_sample_api ''kubelb'' (''tenant-a'', ''u1'') [5] (NewPortAllocator, cp_sample_world) =
     Some (None, sample_pa2, cp_sample_done)"
proof -
  have "GetConfig cp_sample_api ''kubelb'' cp_sample_world = Inr DefaultConfig"
    and "GetTenant cp_sample_api (RemoveTenantPrefix ''tenant-a'') cp_sample_world = Inr sample_tenant"
    and "ListLoadBalancersAndRoutes cp_sample_api ''tenant-a'' cp_sample_world = Inr ([ml_LB sample_managed], [])"
    by code_simp+
  moreover have "ensureEnvoyProxy cp_sample_api DefaultConfig ''tenant-a'' ''tenant-a'' ''tenant-a'' sample_tenant cp_sample_world =
      (None, cp_sample_world\<lparr> w_Deployments := [((''tenant-a'', ''envoy-tenant-a''), cp_sample_proxy)] \<rparr>)"
    by (simp add: ensureEnvoyProxy_def Let_def proxy_crud_def cp_sample_api_def mem_cp_api_def part_crud_def mem_crud_def
        cp_sample_world_def cp_sample_proxy_def desired_replicas_def DefaultConfig_def sample_tenant_def workload_key_def
        new_proxy_meta_def envoyResourceName_def)
  moreover have "updateCache cp_sample_api DefaultConfig ''tenant-a'' [ml_LB sample_managed] [] sample_pa2
      (cp_sample_world\<lparr> w_Deployments := [((''tenant-a'', ''envoy-tenant-a''), cp_sample_proxy)] \<rparr>) = (None, cp_sample_done)"
  proof -
    let ?w = "cp_sample_world\<lparr> w_Deployments := [((''tenant-a'', ''envoy-tenant-a''), cp_sample_proxy)] \<rparr>"
    have "cp_getAddresses cp_sample_api ?w = cp_getAddresses cp_sample_api cp_sample_world"
      by (simp add: cp_sample_api_def mem_cp_api_def)
    then have "MapSnapshot (cp_getAddresses cp_sample_api ?w) (cp_marshal cp_sample_api) (cp_hash cp_sample_api)
        (Some (Lookup sample_pa2)) (ResolveHeaderLimits (Some DefaultConfig)) [ml_LB sample_managed] [] = Inr (projr cp_sample_snapshot)"
      using cp_sample_mapped by (simp add: cp_sample_snapshot_def)
    moreover have "cp_getSnapshot cp_sample_api ''tenant-a'' ?w = None" "cp_consistent cp_sample_api (projr cp_sample_snapshot) = None"
      "cp_setSnapshot cp_sample_api ''tenant-a'' (projr cp_sample_snapshot) ?w = (cp_sample_done, None)"
      using cp_sample_consistent by (simp_all add: cp_sample_api_def mem_cp_api_def cp_sample_world_def cp_sample_done_def)
    ultimately show ?thesis by (simp add: updateCache_def)
  qed
  moreover have "AllocatePortsForRoutes [] sample_pa2 [] = Some (sample_pa2, [])" by (simp add: AllocatePortsForRoutes_def)
  ultimately show ?thesis by (simp add: cp_Reconcile_def cp_reconcile_def sample_alloc)
qed

theorem pass_serves_current_snapshot_witness:
  "\<exists>w cached. c_get (cp_Deployments cp_sample_api) (''tenant-a'', ''envoy-tenant-a'') cp_sample_done = Found w \<and>
     cp_getSnapshot cp_sample_api ''tenant-a'' cp_sample_done = Some cached \<and>
     map (\<lambda>l. sa_PortValue (li_Address l)) (sn_Listeners cached) = [10005]"
proof -
  have config: "GetConfig cp_sample_api ''kubelb'' cp_sample_world = Inr DefaultConfig"
    and objects: "ListLoadBalancersAndRoutes cp_sample_api (fst (''tenant-a'', ''u1'')) cp_sample_world = Inr ([ml_LB sample_managed], [])"
    and some: "[ml_LB sample_managed] \<noteq> [] \<or> ([] :: route list) \<noteq> []"
    by (code_simp, code_simp, simp)
  have kind: "proxy_crud cp_sample_api DefaultConfig = cp_Deployments cp_sample_api" and name: "envoyResourceName ''tenant-a'' = ''envoy-tenant-a''"
    and fresh: "cp_getSnapshot cp_sample_api ''tenant-a'' cp_sample_world = None"
    and same: "cp_getAddresses cp_sample_api cp_sample_done = cp_getAddresses cp_sample_api cp_sample_world"
    by (simp_all add: proxy_crud_def DefaultConfig_def envoyResourceName_def cp_sample_api_def mem_cp_api_def cp_sample_world_def cp_sample_done_def)
  have ports: "map (\<lambda>l. sa_PortValue (li_Address l)) (sn_Listeners (projr cp_sample_snapshot)) = [10005]" by code_simp
  have cluster: "cp_cluster cp_sample_api" unfolding cp_sample_api_def by (rule mem_cp.cp_cluster_axioms)
  from pass_serves_current_snapshot [OF cluster config objects some cp_sample_pass] obtain w sn cached where
    out: "c_get (proxy_crud cp_sample_api DefaultConfig) (''tenant-a'', envoyResourceName ''tenant-a'') cp_sample_done = Found w"
    "MapSnapshot (cp_getAddresses cp_sample_api cp_sample_done) (cp_marshal cp_sample_api) (cp_hash cp_sample_api) (Some (Lookup sample_pa2))
      (ResolveHeaderLimits (Some DefaultConfig)) [ml_LB sample_managed] [] = Inr sn"
    "cp_getSnapshot cp_sample_api ''tenant-a'' cp_sample_done = Some cached" "cached = sn \<or> cp_getSnapshot cp_sample_api ''tenant-a'' cp_sample_world = Some cached"
    unfolding fst_conv by blast
  have "cp_sample_snapshot = Inr sn" using out(2) unfolding same cp_sample_snapshot_def [symmetric] .
  moreover have "cached = sn" using out(4) unfolding fresh by simp
  ultimately have "cached = projr cp_sample_snapshot" by (metis sum.sel(2))
  then show ?thesis using out ports unfolding kind name by auto
qed



text \<open>C40. Changing between Deployment and DaemonSet leaves the old proxies running: with \<^verbatim>\<open>UseDaemonset\<close> set, no pass,
  successful or not, with or without load balancers left, touches a Deployment of the tenant.\<close>

theorem switched_proxy_left_behind:
  assumes cluster: "cp_cluster api" and config: "GetConfig api configNamespace s = Inr config"
    and daemonset: "px_UseDaemonset (cs_EnvoyProxy config)"
    and run: "cp_Reconcile api configNamespace req rs (pa, s) = Some (err, pa', s')"
  shows "c_get (cp_Deployments api) k s' = c_get (cp_Deployments api) k s"
proof -
  have frame: "writes (proxy_crud api config) a b \<Longrightarrow> c_get (cp_Deployments api) k b = c_get (cp_Deployments api) k a" for a b
    using cp_cluster.set_writes_frame [OF cluster] daemonset by (simp add: proxy_crud_def)
  have ensure: "c_get (cp_Deployments api) k b = c_get (cp_Deployments api) k a"
    if "ensureEnvoyProxy api config ns app sn tenant a = (r, b)" for ns app sn tenant a r b
    using cp_cluster.ensure_cases [OF cluster that] frame by blast
  have clean: "c_get (cp_Deployments api) k b = c_get (cp_Deployments api) k a"
    if "cleanupEnvoyProxy api config app ns (cp_clearSnapshot api n a) = (r, b)" for app ns n a r b
    using frame [OF cp_cluster.cleanup_writes [OF cluster that]] cp_cluster.clear_frame [OF cluster] by simp
  have cache: "c_get (cp_Deployments api) k b = c_get (cp_Deployments api) k a"
    if "updateCache api config n lbs routes pa2 a = (r, b)" for n lbs routes pa2 a r b
    using that cp_cluster.set_frame [OF cluster]
    by (auto simp: updateCache_def split: sum.splits if_splits option.splits prod.splits)
  show ?thesis
    using run config
    by (auto simp: cp_Reconcile_def cp_reconcile_def ensure clean cache split: sum.splits if_splits prod.splits option.splits
        dest!: ensure clean cache)
qed

definition daemonset_config :: config_spec where
  "daemonset_config = DefaultConfig\<lparr> cs_EnvoyProxy := (cs_EnvoyProxy DefaultConfig)\<lparr> px_UseDaemonset := True \<rparr> \<rparr>"

theorem switched_proxy_left_behind_witness:
  "\<exists>s'. cp_Reconcile (mem_cp_api sample_tenant daemonset_config) ''kubelb'' (''tenant-a'', ''u1'') [] (sample_pa2, cp_sample_done\<lparr> w_LBs := [] \<rparr>) =
       Some (None, sample_pa2, s') \<and>
     c_get (cp_Deployments (mem_cp_api sample_tenant daemonset_config)) (''tenant-a'', ''envoy-tenant-a'') s' = Found cp_sample_proxy"
proof -
  let ?api = "mem_cp_api sample_tenant daemonset_config" let ?s = "cp_sample_done\<lparr> w_LBs := [] \<rparr>"
  let ?s' = "?s\<lparr> w_Snapshots := [] \<rparr>"
  have config: "GetConfig ?api ''kubelb'' ?s = Inr daemonset_config" and ds: "px_UseDaemonset (cs_EnvoyProxy daemonset_config)"
    and objects: "ListLoadBalancersAndRoutes ?api ''tenant-a'' ?s = Inr ([], [])"
    by (simp_all add: GetConfig_def ListLoadBalancersAndRoutes_def mem_cp_api_def daemonset_config_def cp_sample_done_def cp_sample_world_def)
  have clean: "cleanupEnvoyProxy ?api daemonset_config ''tenant-a'' ''tenant-a'' (cp_clearSnapshot ?api ''tenant-a'' ?s) = (None, ?s')"
    using ds by (simp add: cleanupEnvoyProxy_def proxy_crud_def mem_cp_api_def part_crud_def mem_crud_def cp_sample_done_def cp_sample_world_def)
  have run: "cp_Reconcile ?api ''kubelb'' (''tenant-a'', ''u1'') [] (sample_pa2, ?s) = Some (None, sample_pa2, ?s')"
    using config objects clean by (simp add: cp_Reconcile_def cp_reconcile_def)
  have "c_get (cp_Deployments ?api) (''tenant-a'', ''envoy-tenant-a'') ?s = Found cp_sample_proxy"
    by (simp add: mem_cp_api_def part_crud_def mem_crud_def cp_sample_done_def cp_sample_proxy_def workload_key_def new_proxy_meta_def
        envoyResourceName_def)
  with switched_proxy_left_behind [OF mem_cp.cp_cluster_axioms config ds run] run show ?thesis by auto
qed

end
