(* ===== verification/Traffic_Path.thy ===== *)
theory Traffic_Path
  imports Envoy_Control_Plane
begin

text \<open>
  The path of a Service port through the system: the mirror that the cloud controller writes, the Service that exposes
  it in the management cluster, the listener port that both the exposing Service and the snapshot take from the port
  allocator, and the cluster behind the listener, whose endpoints are the node ports of the tenant cluster. The locale
  \<open>kubelb_system\<close> puts the contracts of the three controllers together over one state.
\<close>

section \<open>A load balancer port in a snapshot\<close>

text \<open>The snapshot forwards a listener port to addresses: a listener on this port of this protocol whose cluster has them
  as endpoints, inline for a DNS cluster and as a load assignment of the snapshot otherwise.\<close>

definition forwards :: "snapshot \<Rightarrow> string \<Rightarrow> int \<Rightarrow> socket_address list \<Rightarrow> bool" where
  "forwards sn protocol port targets \<longleftrightarrow>
     (\<exists>l \<in> set (sn_Listeners sn). \<exists>c \<in> set (sn_Clusters sn). \<exists>la.
        li_Address l = listen_on (if protocol = ProtocolTCP then SocketTCP else SocketUDP) port \<and>
        listener_cluster l = cl_Name c \<and> cla_ClusterName la = cl_Name c \<and> cla_LbEndpoints la = targets \<and>
        (if cl_DiscoveryType c = EDS then la \<in> set (sn_Endpoints sn) else cl_LoadAssignment c = Some la))"

lemma snapshot_forwards_lb_port:
  assumes sn: "MapSnapshot get marshal hash (Some (Lookup pa)) limits lbs routes = Inr sn" and inv: "pa_inv pa"
    and keys: "distinct (map item_key (snapshot_items lbs routes))"
    and found: "\<And>it. it \<in> set (snapshot_items lbs routes) \<Longrightarrow> snd (Lookup pa (fst (item_key it)) (snd (item_key it)))"
    and ns: "\<And>lb. lb \<in> set lbs \<Longrightarrow> om_Namespace (lb_Meta lb) = ns" "\<And>r. r \<in> set routes \<Longrightarrow> om_Namespace (r_Meta r) = ns"
    and it: "LBItem lb i e q \<in> set (snapshot_items lbs routes)" and proto: "ep_Protocol q = ProtocolTCP \<or> ep_Protocol q = ProtocolUDP"
    and port: "Lookup pa (EnvoyEndpointKey (om_Namespace (lb_Meta lb)) (om_Name (lb_Meta lb)) i) (EnvoyListenerKey (ep_Port q) (ep_Protocol q)) = (p, True)"
  shows "forwards sn (ep_Protocol q) p (map (\<lambda>a. makeEndpoint a (to_uint32 (ep_Port q))) (ref_addresses get (om_Namespace (lb_Meta lb)) e))"
proof -
  let ?items = "snapshot_items lbs routes" let ?look = "Lookup pa"
  let ?addrs = "ref_addresses get (om_Namespace (lb_Meta lb)) e" let ?n = "lb_resource_key lb i q"
  obtain b where b: "build_resources get (Some ?look) limits lbs routes = Inr b"
    and c: "sn_Clusters sn = sort_key cl_Name (b_clusters b)"
    and l: "sn_Listeners sn = dedupListenersByAddress (sort_key li_Name (b_listeners b))"
    and e: "sn_Endpoints sn = sort_key cla_ClusterName (b_endpoints b)"
    by (rule MapSnapshot_cases [OF sn])
  have spec: "b_clusters b = spec_clusters get limits ?items" "b_endpoints b = spec_endpoints get limits ?items"
    using build_resources_spec [of lbs ns routes get ?look limits] ns b by (auto split: if_splits)
  have "distinct (map listener_address_key (b_listeners b))"
    unfolding build_listeners [OF b] by (rule spec_listener_addresses_distinct [OF inv keys found])
  then have "sn_Listeners sn = sort_key li_Name (b_listeners b)"
    unfolding l by (intro dedup_id) (simp add: distinct_map_sort_key)
  then have ls: "set (sn_Listeners sn) = set (spec_listeners ?look limits ?items)" by (simp add: build_listeners [OF b])
  have uint: "to_uint32 p = p" by (rule pa.lookup_to_uint32 [OF inv port])
  obtain lis where lis: "lb_listener (Some ?look) lb i q = Some lis"
    and addr: "li_Address lis = listen_on (if ep_Protocol q = ProtocolTCP then SocketTCP else SocketUDP) p"
    and cl: "listener_cluster lis = ?n"
    using proto port uint
    by (auto simp: lb_listener_def Let_def makeTCPListener_def makeUDPListener_def listener_cluster_def lb_listener_port_def
        ProtocolTCP_def ProtocolUDP_def)
  have "lis \<in> set (sn_Listeners sn)"
    unfolding ls spec_listeners_def using it lis by (force simp: List.map_filter_def)
  moreover let ?c = "Envoy_Snapshot.lb_cluster limits lb i ?addrs q" let ?la = "lb_assignment lb i ?addrs q"
  have "?c \<in> set (sn_Clusters sn)"
    using it by (force simp: c spec spec_clusters_def)
  moreover have "cl_Name ?c = ?n" by (simp add: Envoy_Snapshot.lb_cluster_def)
  moreover have "cla_ClusterName ?la = ?n" "cla_LbEndpoints ?la = map (\<lambda>a. makeEndpoint a (to_uint32 (ep_Port q))) ?addrs"
    by (simp_all add: lb_assignment_def makeClusterLoadAssignment_def)
  moreover have "if cl_DiscoveryType ?c = EDS then ?la \<in> set (sn_Endpoints sn) else cl_LoadAssignment ?c = Some ?la"
  proof (cases "cl_DiscoveryType ?c = EDS")
    case True
    then show ?thesis using it by (force simp: e spec spec_endpoints_def)
  next
    case False
    then have "pickClusterDiscoveryType ?addrs = STRICT_DNS"
      by (cases "pickClusterDiscoveryType ?addrs") (simp_all add: Envoy_Snapshot.lb_cluster_def)
    then show ?thesis using False by (simp add: Envoy_Snapshot.lb_cluster_def)
  qed
  ultimately show ?thesis unfolding forwards_def using addr cl by metis
qed

section \<open>The listeners of a snapshot\<close>

text \<open>The kinds of a listener fit together: the proxy filter, the protocol of the socket, and the options that Envoy needs
  for it.\<close>

definition listener_typed :: "listener \<Rightarrow> bool" where
  "listener_typed l \<longleftrightarrow> sa_Address (li_Address l) = wildcardBindAddress \<and>
     (case li_Filter l of
        UdpProxy _ _ _ \<Rightarrow> sa_Protocol (li_Address l) = SocketUDP \<and> li_ReusePort l \<and> li_SocketOptions l = []
      | _ \<Rightarrow> sa_Protocol (li_Address l) = SocketTCP \<and> \<not> li_ReusePort l \<and> li_SocketOptions l = downstreamTCPKeepalive)"

lemma listener_typed_make [simp]:
  "listener_typed (makeTCPListener c n p h)" "listener_typed (makeUDPListener c n p h)" "listener_typed (makeHTTPListener n c p lim)"
  by (simp_all add: listener_typed_def makeTCPListener_def makeUDPListener_def makeHTTPListener_def listen_on_def)

lemma item_listener_typed: "item_listener look limits it = Some l \<Longrightarrow> listener_typed l"
  by (cases it) (auto simp: lb_listener_def route_listener_def makeRouteListener_def Let_def split: if_splits)

lemma item_listener_port:
  assumes inv: "pa_inv pa" and key: "item_key it = (ek, k)" and p: "Lookup pa ek k = (p, True)"
    and l: "item_listener (Lookup pa) limits it = Some l"
  shows "sa_PortValue (li_Address l) = p"
proof -
  have "to_uint32 p = p" by (rule pa.lookup_to_uint32 [OF inv p])
  then show ?thesis
    using key p l
    by (cases it) (auto simp: lb_listener_def lb_listener_port_def route_listener_def route_listener_port_def makeRouteListener_def
        makeTCPListener_def makeUDPListener_def makeHTTPListener_def listen_on_def Let_def split: if_splits)
qed

lemma snapshot_listener_item:
  assumes sn: "MapSnapshot get marshal hash (Some look) limits lbs routes = Inr sn" and l: "l \<in> set (sn_Listeners sn)"
  shows "\<exists>it \<in> set (snapshot_items lbs routes). item_listener look limits it = Some l"
proof -
  obtain b where b: "build_resources get (Some look) limits lbs routes = Inr b"
    and eq: "sn_Listeners sn = dedupListenersByAddress (sort_key li_Name (b_listeners b))"
    by (rule MapSnapshot_cases [OF sn])
  have "l \<in> set (spec_listeners look limits (snapshot_items lbs routes))"
    using l dedup_subset [of "sort_key li_Name (b_listeners b)"] unfolding eq build_listeners [OF b] by auto
  then show ?thesis by (auto simp: spec_listeners_def List.map_filter_def)
qed





text \<open>The range of the allocator contains the ports of the static listeners: the listener of a tenant's port can be
  given the address on which the readiness, health check or statistics listener of the same Envoy is bound.\<close>

theorem static_listener_port_allocatable:
  assumes "(name, a) \<in> set bootstrap_listeners" and tcp: "ep_Protocol q = ProtocolTCP"
  shows "\<exists>pa l. AllocatePorts (EnvoyEndpointKey (om_Namespace (lb_Meta lb)) (om_Name (lb_Meta lb)) i)
      [EnvoyListenerKey (ep_Port q) (ep_Protocol q)] NewPortAllocator [nat (sa_PortValue a - startPort)] = Some (pa, True, []) \<and>
    lb_listener (Some (Lookup pa)) lb i q = Some l \<and> li_Address l = a"
proof -
  let ?ek = "EnvoyEndpointKey (om_Namespace (lb_Meta lb)) (om_Name (lb_Meta lb)) i" let ?k = "EnvoyListenerKey (ep_Port q) (ep_Protocol q)"
  let ?p = "sa_PortValue a" let ?pa = "\<lparr> portLookup = [(?ek, [(?k, ?p)])], portLookupReverse = [(?p, True)] \<rparr>"
  have a: "a = listen_on SocketTCP ?p" "?p \<in> {19001, 19003, 19004}"
    using assms(1) by (auto simp: bootstrap_listeners_def listen_on_def EnvoyReadinessPort_def EnvoyHealthCheckPort_def EnvoyStatsPort_def)
  have "AllocatePorts ?ek [?k] NewPortAllocator [nat (?p - startPort)] = Some (?pa, True, [])"
    using a(2) by (auto simp: AllocatePorts_def NewPortAllocator_def table_touch_def table_at_def Let_def recomputeAvailablePorts_def
        table_ports_def startPort_def endPort_def)
  moreover have "Lookup ?pa ?ek ?k = (?p, True)" by (simp add: Lookup_def)
  then have "lb_listener (Some (Lookup ?pa)) lb i q = Some (makeTCPListener (lb_resource_key lb i q) (lb_resource_key lb i q) ?p (ls_Persistence (lb_Spec lb)))"
    using tcp a(2) by (auto simp: lb_listener_def lb_listener_port_def Let_def to_uint32_def)
  moreover have "li_Address (makeTCPListener c n ?p h) = a" for c n h using a(1) by (simp add: makeTCPListener_def)
  ultimately show ?thesis by blast
qed

theorem static_listener_port_allocatable_witness:
  "\<exists>pa l. AllocatePorts (EnvoyEndpointKey ''tenant-a'' ''u1'' 0) [EnvoyListenerKey 30 ''TCP''] NewPortAllocator [nat 9001] = Some (pa, True, []) \<and>
     lb_listener (Some (Lookup pa)) (ml_LB sample_managed) 0 \<lparr> ep_Name = ''h'', ep_Port = 30, ep_Protocol = ''TCP'' \<rparr> = Some l \<and>
     li_Address l = listen_on SocketTCP EnvoyStatsPort"
proof -
  have static: "(''stats_listener'', listen_on SocketTCP EnvoyStatsPort) \<in> set bootstrap_listeners" by (simp add: bootstrap_listeners_def)
  have "om_Namespace (lb_Meta (ml_LB sample_managed)) = ''tenant-a''" "om_Name (lb_Meta (ml_LB sample_managed)) = ''u1''" by code_simp+
  then show ?thesis
    using static_listener_port_allocatable [OF static, of "\<lparr> ep_Name = ''h'', ep_Port = 30, ep_Protocol = ''TCP'' \<rparr>" "ml_LB sample_managed" 0]
    by (simp add: ProtocolTCP_def listen_on_def EnvoyStatsPort_def startPort_def)
qed

section \<open>Ports over several passes\<close>

lemma allocate_requests_append:
  "allocate_requests alloc xs s rs = Some (s1, rs1) \<Longrightarrow> allocate_requests alloc (xs @ ys) s rs = allocate_requests alloc ys s1 rs1"
proof (induction xs arbitrary: s rs)
  case (Cons x xs)
  then show ?case by (cases x) (auto split: option.splits)
qed simp

text \<open>The requests of a pass over load balancers and routes, in the order in which they are made.\<close>

definition all_requests :: "load_balancer list \<Rightarrow> route list \<Rightarrow> (string \<times> string list) list" where
  "all_requests lbs routes = concat (map lb_requests lbs) @ concat (map route_requests routes)"

lemma in_lb_items:
  "LBItem lb' i e q \<in> set (lb_items lb) \<longleftrightarrow>
     lb' = lb \<and> (i, e) \<in> set (enumerate 0 (ls_Endpoints (lb_Spec lb))) \<and> q \<in> set (le_Ports e)"
  "RouteItem r svc p \<notin> set (lb_items lb)"
  by (auto simp: lb_items_def intro: bexI [of _ "(i, e)"])

lemma in_route_items:
  "RouteItem r' svc p \<in> set (route_items r) \<longleftrightarrow>
     r' = r \<and> (\<exists>src. rs_Kubernetes (r_Spec r) = Some src \<and> svc \<in> set (ks_Services src)) \<and> p \<in> set (ss_Ports (svc_Spec svc))"
  "LBItem lb i e q \<notin> set (route_items r)"
  by (cases "rs_Kubernetes (r_Spec r)"; auto simp: route_items_def intro: bexI [of _ svc])+

lemma lb_item_iff:
  "LBItem lb i e q \<in> set (snapshot_items lbs routes) \<longleftrightarrow>
     lb \<in> set lbs \<and> (i, e) \<in> set (enumerate 0 (ls_Endpoints (lb_Spec lb))) \<and> q \<in> set (le_Ports e)"
  by (auto simp: snapshot_items_def in_lb_items in_route_items)

lemma route_item_iff:
  "RouteItem r svc p \<in> set (snapshot_items lbs routes) \<longleftrightarrow>
     r \<in> set routes \<and> (\<exists>src. rs_Kubernetes (r_Spec r) = Some src \<and> svc \<in> set (ks_Services src)) \<and> p \<in> set (ss_Ports (svc_Spec svc))"
  by (auto simp: snapshot_items_def in_lb_items in_route_items)

lemma item_requested:
  assumes it: "it \<in> set (snapshot_items lbs routes)"
  shows "\<exists>keys. (fst (item_key it), keys) \<in> set (all_requests lbs routes) \<and> snd (item_key it) \<in> set keys"
proof (cases it)
  case (LBItem lb i e q)
  let ?ks = "map (\<lambda>p. EnvoyListenerKey (ep_Port p) (ep_Protocol p)) (le_Ports e)"
  from it have m: "lb \<in> set lbs" "(i, e) \<in> set (enumerate 0 (ls_Endpoints (lb_Spec lb)))" "q \<in> set (le_Ports e)"
    by (simp_all add: LBItem lb_item_iff)
  have "(EnvoyEndpointKey (om_Namespace (lb_Meta lb)) (om_Name (lb_Meta lb)) i, ?ks) \<in> set (lb_requests lb)"
    unfolding lb_requests_def set_map by (rule image_eqI [OF _ m(2)]) simp
  then show ?thesis using m(1,3) by (intro exI [of _ ?ks]) (auto simp: LBItem all_requests_def)
next
  case (RouteItem r svc p)
  let ?ks = "map (\<lambda>p. EnvoyListenerKey (sp_Port p) (sp_Protocol p)) (ss_Ports (svc_Spec svc))"
  from it obtain src where m: "r \<in> set routes" "rs_Kubernetes (r_Spec r) = Some src" "svc \<in> set (ks_Services src)" "p \<in> set (ss_Ports (svc_Spec svc))"
    by (auto simp: RouteItem route_item_iff)
  have "route_svc_key r svc = route_endpoint_key r src svc"
    using m(2) by (simp add: route_svc_key_def route_endpoint_key_def getOriginalRouteName_def originalRouteName_def)
  then have "(route_svc_key r svc, ?ks) \<in> set (route_requests r)" using m(2,3) by (simp add: route_requests_def)
  then show ?thesis using m(1,4) by (intro exI [of _ ?ks]) (auto simp: RouteItem all_requests_def)
qed

lemma allocated_items:
  assumes inv: "pa_inv pa" and keys: "distinct (map fst (all_requests lbs routes))"
    and lbs: "AllocatePortsForLoadBalancers lbs pa rs = Some (pa1, rs1)" and routes: "AllocatePortsForRoutes routes pa1 rs1 = Some (pa2, rs2)"
  shows "pa_inv pa2"
    and "it \<in> set (snapshot_items lbs routes) \<Longrightarrow> snd (Lookup pa2 (fst (item_key it)) (snd (item_key it)))"
    and "it \<in> set (snapshot_items lbs routes) \<Longrightarrow> Lookup pa (fst (item_key it)) (snd (item_key it)) = (p, True) \<Longrightarrow>
      Lookup pa2 (fst (item_key it)) (snd (item_key it)) = (p, True)"
proof -
  have run: "allocate_requests AllocatePorts (all_requests lbs routes) pa rs = Some (pa2, rs2)"
    using allocate_requests_append lbs routes
    by (fastforce simp: all_requests_def AllocatePortsForLoadBalancers_def AllocatePortsForRoutes_def)
  show "pa_inv pa2" by (rule pm.requests_invar [OF inv run])
  assume "it \<in> set (snapshot_items lbs routes)"
  then obtain ks where "(fst (item_key it), ks) \<in> set (all_requests lbs routes)" and k: "snd (item_key it) \<in> set ks"
    using item_requested by blast
  note out = pm.requests_lookup [OF inv run keys this(1)]
  show "snd (Lookup pa2 (fst (item_key it)) (snd (item_key it)))" using out(1) k by blast
  show "Lookup pa2 (fst (item_key it)) (snd (item_key it)) = (p, True)" if "Lookup pa (fst (item_key it)) (snd (item_key it)) = (p, True)"
    by (rule out(2) [OF k that])
qed

section \<open>A mirrored port\<close>

text \<open>A live mirror that this cloud controller wrote for a version of the Service with this UID.\<close>

definition mirror_of :: "service_reconciler \<Rightarrow> string \<Rightarrow> managed_lb \<Rightarrow> bool" where
  "mirror_of r uid m \<longleftrightarrow> \<not> ml_Deleting m \<and>
     (\<exists>svc0 :: tenant_service. om_UID (svc_Meta svc0) = uid \<and> distinct (map map_port_name (ss_Ports (svc_Spec svc0))) \<and>
        lb_Spec (ml_LB m) = lb_Spec (desired_mirror r svc0))"

lemma CreateServicePorts_cong:
  assumes "lb_Spec lb = lb_Spec lb'" and "lb_key lb = lb_key lb'"
  shows "CreateServicePorts lb = CreateServicePorts lb'"
proof -
  have "create_service_port lb = create_service_port lb'"
    using assms(2) by (intro ext) (simp add: create_service_port_def lb_key_def Let_def)
  then show ?thesis using assms(1) by (intro ext) (simp add: CreateServicePorts_def split: list.split)
qed

text \<open>Where a port of the Service is in its mirror: the exposing Service has a port of the same number and protocol, and
  the endpoint of the mirror has the node port.\<close>

lemma desired_mirror_parts:
  fixes svc :: tenant_service
  assumes "sr_CloudController r"
  shows "desired_mirror r svc = snd (MapLoadBalancer (service.truncate svc) [] True (sr_ClusterName r))"
    and "ls_Ports (lb_Spec (desired_mirror r svc)) =
      map (\<lambda>p. \<lparr> lp_Name = map_port_name p, lp_Protocol = sp_Protocol p, lp_Port = sp_Port p \<rparr>) (ss_Ports (svc_Spec svc))"
    and "ls_Endpoints (lb_Spec (desired_mirror r svc)) = [\<lparr> le_Name = [], le_Addresses = [],
      le_AddressesReference = Some \<lparr> ref_Name = DefaultAddressName, ref_Namespace = [] \<rparr>,
      le_Ports = map (\<lambda>p. \<lparr> ep_Name = map_port_name p, ep_Port = sp_NodePort p, ep_Protocol = sp_Protocol p \<rparr>) (ss_Ports (svc_Spec svc)) \<rparr>]"
  using assms by (simp_all add: desired_mirror_def getEndpoints_def MapLoadBalancer_def Let_def service.defs)

lemma mirrored_port:
  fixes svc :: tenant_service
  assumes m: "mirror_of r (om_UID (svc_Meta svc)) m" and key: "managed_key m = (sr_ClusterName r, om_UID (svc_Meta svc))"
    and same: "lb_view (ml_LB m) = lb_view (desired_mirror r svc)" and port: "port \<in> set (ss_Ports (svc_Spec svc))"
    and mode: "sr_CloudController r"
  obtains e q where "ls_Endpoints (lb_Spec (ml_LB m)) = [e]" and "q \<in> set (le_Ports e)"
    and "ep_Port q = sp_NodePort port" and "ep_Protocol q = sp_Protocol port"
    and "le_AddressesReference e = Some \<lparr> ref_Name = DefaultAddressName, ref_Namespace = [] \<rparr>"
    and "\<And>existing lookup ports. CreateServicePorts (ml_LB m) existing lookup = Some ports \<Longrightarrow>
      \<exists>sp \<in> set ports. sp_Port sp = sp_Port port \<and> sp_Protocol sp = sp_Protocol port \<and>
        sp_TargetPort sp = IntPort (case lookup (EnvoyEndpointKey (sr_ClusterName r) (om_UID (svc_Meta svc)) 0)
          (EnvoyListenerKey (sp_NodePort port) (sp_Protocol port)) of (v, found) \<Rightarrow> if found then to_int32 v else sp_NodePort port)"
proof -
  from m obtain svc0 :: tenant_service where uid: "om_UID (svc_Meta svc0) = om_UID (svc_Meta svc)"
    and dist: "distinct (map map_port_name (ss_Ports (svc_Spec svc0)))" and spec: "lb_Spec (ml_LB m) = lb_Spec (desired_mirror r svc0)"
    unfolding mirror_of_def by blast
  let ?ps = "ss_Ports (svc_Spec svc)" let ?old = "ss_Ports (svc_Spec svc0)"
  note parts = desired_mirror_parts [OF mode]
  have view: "map (\<lambda>p. (sp_Protocol p, sp_Port p)) ?old = map (\<lambda>p. (sp_Protocol p, sp_Port p)) ?ps"
    "map (\<lambda>p. (sp_NodePort p, sp_Protocol p)) ?old = map (\<lambda>p. (sp_NodePort p, sp_Protocol p)) ?ps"
  proof -
    let ?dold = "lb_Spec (desired_mirror r svc0)" let ?d = "lb_Spec (desired_mirror r svc)"
    have "map (\<lambda>p. (lp_Protocol p, lp_Port p)) (ls_Ports ?dold) = map (\<lambda>p. (lp_Protocol p, lp_Port p)) (ls_Ports ?d)"
      and "map endpoints_view (ls_Endpoints ?dold) = map endpoints_view (ls_Endpoints ?d)"
      using same unfolding lb_view_def Let_def spec prod.inject by blast+
    then show "map (\<lambda>p. (sp_Protocol p, sp_Port p)) ?old = map (\<lambda>p. (sp_Protocol p, sp_Port p)) ?ps"
      and "map (\<lambda>p. (sp_NodePort p, sp_Protocol p)) ?old = map (\<lambda>p. (sp_NodePort p, sp_Protocol p)) ?ps"
      by (simp_all add: parts(2,3) endpoints_view_def comp_def)
  qed
  obtain i where i: "i < length ?ps" "port = ?ps ! i" using port unfolding in_set_conv_nth by blast
  let ?pold = "?old ! i"
  have len: "i < length ?old" using i(1) arg_cong [OF view(1), of length] unfolding length_map by simp
  have nth: "f ?pold = f port" if "map f ?old = map f ?ps" for f :: "service_port \<Rightarrow> 'x"
    using arg_cong [OF that, of "\<lambda>xs. xs ! i"] unfolding nth_map [OF len] nth_map [OF i(1)] i(2) .
  have p0: "sp_Protocol ?pold = sp_Protocol port" "sp_Port ?pold = sp_Port port" "sp_NodePort ?pold = sp_NodePort port"
    using nth [OF view(1)] nth [OF view(2)] unfolding prod.inject by blast+
  have mem: "?pold \<in> set ?old" using len by simp
  let ?ep = "\<lambda>p. \<lparr> ep_Name = map_port_name p, ep_Port = sp_NodePort p, ep_Protocol = sp_Protocol p \<rparr>"
  have e: "ls_Endpoints (lb_Spec (ml_LB m)) = [\<lparr> le_Name = [], le_Addresses = [],
      le_AddressesReference = Some \<lparr> ref_Name = DefaultAddressName, ref_Namespace = [] \<rparr>, le_Ports = map ?ep ?old \<rparr>]" (is "_ = [?e]")
    unfolding spec by (rule parts(3))
  have q: "?ep ?pold \<in> set (le_Ports ?e)"
    unfolding load_balancer_endpoints.simps set_map by (rule imageI [OF mem])
  have key': "lb_key (ml_LB m) = lb_key (desired_mirror r svc0)"
    using key uid by (simp add: managed_key_def lb_key_def parts(1) MapLoadBalancer_def Let_def service.defs)
  show ?thesis
  proof (rule that [OF e q])
    fix existing lookup ports
    assume "CreateServicePorts (ml_LB m) existing lookup = Some ports"
    then have "set ports = mapped_port existing lookup (EnvoyEndpointKey (sr_ClusterName r) (om_UID (svc_Meta svc)) 0) ` set ?old"
      unfolding CreateServicePorts_cong [OF spec key'] parts(1)
      using CreateServicePorts_mapped [of "service.truncate svc0" "[]" True "sr_ClusterName r" existing lookup] dist uid
      by (auto simp: service.defs)
    then have sp: "mapped_port existing lookup (EnvoyEndpointKey (sr_ClusterName r) (om_UID (svc_Meta svc)) 0) ?pold \<in> set ports"
      using mem by blast
    show "\<exists>sp \<in> set ports. sp_Port sp = sp_Port port \<and> sp_Protocol sp = sp_Protocol port \<and>
        sp_TargetPort sp = IntPort (case lookup (EnvoyEndpointKey (sr_ClusterName r) (om_UID (svc_Meta svc)) 0)
          (EnvoyListenerKey (sp_NodePort port) (sp_Protocol port)) of (v, found) \<Rightarrow> if found then to_int32 v else sp_NodePort port)"
      by (rule bexI [OF _ sp]) (simp add: mapped_port_def Let_def p0 split: prod.split)
  qed (simp_all add: p0)
qed

section \<open>The three controllers over one state\<close>

locale kubelb_system =
  ccm: ccm_clusters capi + lbc: LB_Controller.lb_cluster lapi + cp: cp_cluster papi
  for capi :: "'s ccm_api" and lapi :: "'s lb_api" and papi :: "('s, 'b) cp_api_scheme" +
  assumes same_lbs: "c_get (la_LBs lapi) k s = c_get (cc_LBs capi) k s"
    and lb_listed: "la_listLBs lapi ns s = Inr ms \<Longrightarrow> c_get (cc_LBs capi) k s = Found m \<Longrightarrow> fst k = ns \<Longrightarrow> m \<in> set ms"
    and cp_listed: "cp_listLBs papi ns s = Inr ms \<Longrightarrow> c_get (cc_LBs capi) k s = Found m \<Longrightarrow> fst k = ns \<Longrightarrow> m \<in> set ms"
    and cp_lb_namespace: "cp_listLBs papi ns s = Inr ms \<Longrightarrow> m \<in> set ms \<Longrightarrow> om_Namespace (lb_Meta (ml_LB m)) = ns"
    and cp_route_namespace: "cp_listRoutes papi ns s = Inr rs \<Longrightarrow> x \<in> set rs \<Longrightarrow> om_Namespace (r_Meta (mr_Route x)) = ns"
begin

text \<open>A pass of the cloud controller keeps the mirror a mirror of the Service, in the desired state.\<close>

lemma pass_keeps_mirror:
  assumes get: "c_get (cc_Services capi) req s = Found svc" and live: "\<not> tsv_Deleting svc" and on: "svc_shouldReconcile r svc"
    and names: "distinct (map map_port_name (ss_Ports (svc_Spec svc)))"
    and before: "\<And>m. c_get (cc_LBs capi) (sr_ClusterName r, om_UID (svc_Meta svc)) s = Found m \<Longrightarrow> mirror_of r (om_UID (svc_Meta svc)) m"
    and readable: "\<And>e. c_get (cc_LBs capi) (sr_ClusterName r, om_UID (svc_Meta svc)) s \<noteq> GetError e"
    and alone: "\<And>e. \<not> cc_isAlreadyExists capi e"
    and run: "svc_Reconcile capi r req s = (Done (), s')"
  shows "\<exists>m. c_get (cc_LBs capi) (sr_ClusterName r, om_UID (svc_Meta svc)) s' = Found m \<and> mirror_of r (om_UID (svc_Meta svc)) m \<and>
    lb_view (ml_LB m) = lb_view (desired_mirror r svc)"
proof -
  let ?k = "(sr_ClusterName r, om_UID (svc_Meta svc))" let ?d = "desired_mirror r svc"
  have new: "mirror_of r (om_UID (svc_Meta svc)) x" if "lb_Spec (ml_LB x) = lb_Spec ?d" "\<not> ml_Deleting x" for x
    using that names unfolding mirror_of_def by blast
  obtain m actual where m: "c_get (cc_LBs capi) ?k s' = Found m" and mir: "ccm.mirrored ?d actual m"
    and start: "ccm.found_or_made ?d s actual"
    using ccm.Reconcile_mirrors(2) [OF get live on run] by blast
  have "mirror_of r (om_UID (svc_Meta svc)) actual"
  proof (cases "c_get (cc_LBs capi) ?k s")
    case (Found x)
    then have "actual = x" using start by (simp add: ccm.found_or_made_def ccm.desired_mirror_key)
    then show ?thesis using before [OF Found] by simp
  next
    case NotFound
    then have "actual = new_mirror ?d" using start alone by (auto simp: ccm.found_or_made_def ccm.desired_mirror_key)
    then show ?thesis using new by (simp add: new_mirror_def)
  qed (use readable in blast)
  then have "mirror_of r (om_UID (svc_Meta svc)) m"
    using mir new unfolding ccm.mirrored_def by (auto simp: mirror_of_def)
  moreover have "lb_view (ml_LB m) = lb_view ?d"
    using ccm.mirrored_desired [OF mir] unfolding LoadBalancerIsDesiredState_view by blast
  ultimately show ?thesis using m by blast
qed

text \<open>The pass over the mirror: the exposing Service targets the listener port of every port of the Service.\<close>

lemma pass_exposes_port:
  fixes svc :: tenant_service
  assumes m: "c_get (cc_LBs capi) (sr_ClusterName r, om_UID (svc_Meta svc)) s = Found m" and mir: "mirror_of r (om_UID (svc_Meta svc)) m"
    and view: "lb_view (ml_LB m) = lb_view (desired_mirror r svc)" and mode: "sr_CloudController r"
    and port: "port \<in> set (ss_Ports (svc_Spec svc))"
    and tc: "GetTenantAndConfig lapi cn (RemoveTenantPrefix (sr_ClusterName r)) s = Inr (tenant, config)"
    and on: "lb_shouldReconcile tenant config = (True, False)" and all: "la_listLBs lapi (sr_ClusterName r) s = Inr lbs"
    and keys: "distinct (map (\<lambda>m. om_Namespace (lb_Meta (ml_LB m)) @ ''-'' @ om_Name (lb_Meta (ml_LB m))) lbs)"
    and inv: "pa_inv pa"
    and run: "lb_Reconcile lapi cn (sr_ClusterName r, om_UID (svc_Meta svc)) random now rs (pa, s) = Some (Done (), pa', s')"
  shows "\<exists>exposing sp L m' e q. pa_inv pa' \<and>
    c_get (la_Services lapi) (sr_ClusterName r, envoyResourceName (om_UID (svc_Meta svc))) s' = Found exposing \<and>
    sp \<in> set (ss_Ports (svc_Spec exposing)) \<and> sp_Port sp = sp_Port port \<and> sp_Protocol sp = sp_Protocol port \<and> sp_TargetPort sp = IntPort L \<and>
    Lookup pa' (EnvoyEndpointKey (sr_ClusterName r) (om_UID (svc_Meta svc)) 0) (EnvoyListenerKey (sp_NodePort port) (sp_Protocol port)) = (L, True) \<and>
    c_get (cc_LBs capi) (sr_ClusterName r, om_UID (svc_Meta svc)) s' = Found m' \<and> \<not> ml_Deleting m' \<and>
    lb_key (ml_LB m') = (sr_ClusterName r, om_UID (svc_Meta svc)) \<and> ls_Endpoints (lb_Spec (ml_LB m')) = [e] \<and> q \<in> set (le_Ports e) \<and>
    ep_Port q = sp_NodePort port \<and> ep_Protocol q = sp_Protocol port \<and>
    le_AddressesReference e = Some \<lparr> ref_Name = DefaultAddressName, ref_Namespace = [] \<rparr>"
proof -
  let ?ns = "sr_ClusterName r" let ?uid = "om_UID (svc_Meta svc)" let ?ek = "EnvoyEndpointKey ?ns ?uid 0"
  let ?k = "EnvoyListenerKey (sp_NodePort port) (sp_Protocol port)"
  have key: "managed_key m = (?ns, ?uid)" by (rule ccm.lbs.get_key [OF m])
  then have name: "om_Namespace (lb_Meta (ml_LB m)) = ?ns" "om_Name (lb_Meta (ml_LB m)) = ?uid"
    by (simp_all add: managed_key_def lb_key_def)
  obtain e q where e: "ls_Endpoints (lb_Spec (ml_LB m)) = [e]" and q: "q \<in> set (le_Ports e)" "ep_Port q = sp_NodePort port" "ep_Protocol q = sp_Protocol port"
    and ref: "le_AddressesReference e = Some \<lparr> ref_Name = DefaultAddressName, ref_Namespace = [] \<rparr>"
    and target: "\<And>existing lookup ports. CreateServicePorts (ml_LB m) existing lookup = Some ports \<Longrightarrow>
      \<exists>sp \<in> set ports. sp_Port sp = sp_Port port \<and> sp_Protocol sp = sp_Protocol port \<and>
        sp_TargetPort sp = IntPort (case lookup ?ek ?k of (v, found) \<Rightarrow> if found then to_int32 v else sp_NodePort port)"
    by (rule mirrored_port [OF mir key view port mode]) blast
  have live: "\<not> ml_Deleting m" using mir by (simp add: mirror_of_def)
  note rep = lb_Reconcile_reports [OF lbc.lb_cluster_axioms m [folded same_lbs] live e _ on _ run, unfolded name fst_conv snd_conv same_lbs, OF tc all]
  obtain rs' existing ports exposing m' where alloc: "AllocatePortsForLoadBalancers (map ml_LB lbs) pa rs = Some (pa', rs')"
    and ports: "CreateServicePorts (ml_LB m) existing (Lookup pa') = Some ports"
    and exposing: "c_get (la_Services lapi) (?ns, envoyResourceName ?uid) s' = Found exposing" "ss_Ports (svc_Spec exposing) = ports"
    and m': "c_get (cc_LBs capi) (?ns, ?uid) s' = Found m'" "lb_Spec (ml_LB m') = lb_Spec (ml_LB m)" "lb_Meta (ml_LB m') = lb_Meta (ml_LB m)" "\<not> ml_Deleting m'"
    using rep by blast
  have "m \<in> set lbs" by (rule lb_listed [OF all m]) simp
  then have "pa_inv pa' \<and> all_allocated pa' (lb_requests (ml_LB m))"
    using allocated_after [OF inv _ alloc, of "ml_LB m"] keys by (simp add: comp_def)
  moreover have "(?ek, map (\<lambda>p. EnvoyListenerKey (ep_Port p) (ep_Protocol p)) (le_Ports e)) \<in> set (lb_requests (ml_LB m))"
    by (simp add: lb_requests_def e name)
  ultimately have inv': "pa_inv pa'" and found: "snd (Lookup pa' ?ek ?k)"
    using q by (force simp: all_allocated_def)+
  then obtain L where L: "Lookup pa' ?ek ?k = (L, True)" by (metis prod.collapse)
  obtain sp where sp: "sp \<in> set ports" "sp_Port sp = sp_Port port" "sp_Protocol sp = sp_Protocol port" "sp_TargetPort sp = IntPort L"
    using target [OF ports] pa.lookup_to_int32 [OF inv' L] by (auto simp: L)
  show ?thesis
    using inv' exposing sp L m' e q ref name by (intro exI [of _ exposing] exI [of _ sp] exI [of _ L] exI [of _ m'] exI [of _ e] exI [of _ q])
      (simp add: lb_key_def)
qed

text \<open>The pass over the namespace: the cached snapshot forwards the listener port of a live mirror.\<close>

lemma pass_forwards_port:
  assumes m: "c_get (cc_LBs capi) (ns, uid) s = Found m" and live: "\<not> ml_Deleting m" and key: "lb_key (ml_LB m) = (ns, uid)"
    and e: "ls_Endpoints (lb_Spec (ml_LB m)) = [e]" "q \<in> set (le_Ports e)" and proto: "ep_Protocol q = ProtocolTCP \<or> ep_Protocol q = ProtocolUDP"
    and inv: "pa_inv pa" and L: "Lookup pa (EnvoyEndpointKey ns uid 0) (EnvoyListenerKey (ep_Port q) (ep_Protocol q)) = (L, True)"
    and config: "GetConfig papi cn s = Inr config" and objects: "ListLoadBalancersAndRoutes papi ns s = Inr (lbs, routes)"
    and keys: "distinct (map fst (all_requests lbs routes))" "distinct (map item_key (snapshot_items lbs routes))"
    and run: "cp_Reconcile papi cn (ns, n) rs (pa, s) = Some (None, pa', s')"
    and version: "\<And>c sn. cp_getSnapshot papi ns s = Some c \<Longrightarrow>
      MapSnapshot (cp_getAddresses papi s') (cp_marshal papi) (cp_hash papi) (Some (Lookup pa')) (ResolveHeaderLimits (Some config)) lbs routes = Inr sn \<Longrightarrow>
      sn_Version c = sn_Version sn \<Longrightarrow> c = sn"
  shows "\<exists>cached. cp_getSnapshot papi ns s' = Some cached \<and>
    forwards cached (ep_Protocol q) L (map (\<lambda>a. makeEndpoint a (to_uint32 (ep_Port q))) (ref_addresses (cp_getAddresses papi s') ns e))"
proof -
  obtain ms rms where list: "cp_listLBs papi ns s = Inr ms" "cp_listRoutes papi ns s = Inr rms"
    and parts: "lbs = map ml_LB (filter (\<lambda>m. \<not> ml_Deleting m) ms)" "routes = map mr_Route (filter (\<lambda>m. \<not> mr_Deleting m) rms)"
    using objects by (auto simp: ListLoadBalancersAndRoutes_def split: sum.splits)
  have "m \<in> set ms" by (rule cp_listed [OF list(1) m]) simp
  then have lb: "ml_LB m \<in> set lbs" using live by (auto simp: parts)
  have ns: "\<And>lb. lb \<in> set lbs \<Longrightarrow> om_Namespace (lb_Meta lb) = ns" "\<And>r. r \<in> set routes \<Longrightarrow> om_Namespace (r_Meta r) = ns"
    using cp_lb_namespace [OF list(1)] cp_route_namespace [OF list(2)] by (auto simp: parts)
  have name: "om_Namespace (lb_Meta (ml_LB m)) = ns" "om_Name (lb_Meta (ml_LB m)) = uid" using key by (simp_all add: lb_key_def)
  have some: "lbs \<noteq> [] \<or> routes \<noteq> []" using lb by auto
  obtain tenant s1 pa1 rs1 rs2 where ens: "ensureEnvoyProxy papi config ns ns ns tenant s = (None, s1)"
    and a1: "AllocatePortsForLoadBalancers lbs pa rs = Some (pa1, rs1)" and a2: "AllocatePortsForRoutes routes pa1 rs1 = Some (pa', rs2)"
    and cache: "updateCache papi config ns lbs routes pa' s1 = (None, s')"
    by (rule cp.Reconcile_stages [OF config _ some run, unfolded fst_conv, OF objects])
  note alloc = allocated_items [OF inv keys(1) a1 a2]
  have it: "LBItem (ml_LB m) 0 e q \<in> set (snapshot_items lbs routes)" using lb e by (simp add: lb_item_iff)
  have L': "Lookup pa' (EnvoyEndpointKey (om_Namespace (lb_Meta (ml_LB m))) (om_Name (lb_Meta (ml_LB m))) 0)
      (EnvoyListenerKey (ep_Port q) (ep_Protocol q)) = (L, True)"
    using alloc(3) [OF it, of L] L unfolding name by (simp add: name)
  obtain sn cached where sn: "MapSnapshot (cp_getAddresses papi s') (cp_marshal papi) (cp_hash papi) (Some (Lookup pa'))
      (ResolveHeaderLimits (Some config)) lbs routes = Inr sn" and cached: "cp_getSnapshot papi ns s' = Some cached"
      "sn_Version cached = sn_Version sn" "cached = sn \<or> cp_getSnapshot papi ns s1 = Some cached"
    using cp.updateCache_done [OF cache] by blast
  have "cached = sn" using cached(2,3) version [OF _ sn] unfolding cp.ensure_snapshots [OF ens] by blast
  moreover have "forwards sn (ep_Protocol q) L (map (\<lambda>a. makeEndpoint a (to_uint32 (ep_Port q)))
      (ref_addresses (cp_getAddresses papi s') (om_Namespace (lb_Meta (ml_LB m))) e))"
    by (rule snapshot_forwards_lb_port [OF sn alloc(1) keys(2) alloc(2) ns it proto L'])
  ultimately show ?thesis using cached(1) unfolding name by blast
qed

end

text \<open>The system in memory: the three controllers over one world.\<close>

interpretation mem_system: kubelb_system mem_ccm_api "mem_lb_api tenant config" "mem_cp_api tenant config"
proof -
  have stored: "m \<in> set (map snd (w_LBs s)) \<and> managed_key m = k" if "c_get (cc_LBs mem_ccm_api) k s = Found m" for m k and s :: cp_world
  proof -
    have "map_of (w_LBs s) k = Some m"
      using that by (auto simp: mem_ccm_api_def Let_def part_crud_def mem_finalized_def split: option.splits if_splits)
    then show ?thesis using mem_ccm.lbs.get_key [OF that] by (auto dest: map_of_SomeD intro: image_eqI [of _ snd "(k, m)"])
  qed
  show "kubelb_system mem_ccm_api (mem_lb_api tenant config) (mem_cp_api tenant config)"
    unfolding kubelb_system_def kubelb_system_axioms_def
  proof (intro conjI mem_ccm.ccm_clusters_axioms mem_lb.lb_cluster_axioms mem_cp.cp_cluster_axioms allI impI)
    fix ns k m and s :: cp_world and ms
    assume "c_get (cc_LBs mem_ccm_api) k s = Found m" and "fst k = ns"
    note m = stored [OF this(1)] this(2)
    show "m \<in> set ms" if "la_listLBs (mem_lb_api tenant config) ns s = Inr ms"
      using that m by (auto simp: mem_lb_api_def Let_def simp del: set_map)
    show "m \<in> set ms" if "cp_listLBs (mem_cp_api tenant config) ns s = Inr ms"
      using that m by (auto simp: mem_cp_api_def simp del: set_map)
  qed (auto simp: mem_ccm_api_def mem_lb_api_def mem_cp_api_def Let_def managed_key_def lb_key_def managed_route_key_def route_obj_key_def)
qed

end
