(* ===== verification/Tenant_Kubeconfig.thy ===== *)
theory Tenant_Kubeconfig
  imports Kubelb_Prelude
begin

text \<open>
  The text of the kubeconfig that a tenant gets (\<^verbatim>\<open>kubeconfigTemplate\<close> and the second half of
  \<^verbatim>\<open>generateKubeconfig\<close> in \<^verbatim>\<open>internal/controllers/kubelb/tenant_controller.go\<close>), with the parts of the Go
  standard library it uses: \<^verbatim>\<open>base64.StdEncoding\<close> and the escaping of \<^verbatim>\<open>html/template\<close>, which this controller
  uses for YAML. The lemmas show when escaping leaves the values alone: base64 of an ASCII text without \<^verbatim>\<open>>\<close> and
  \<^verbatim>\<open>~\<close>, such as a PEM certificate, never contains the plus sign, the only base64 character that is escaped.
\<close>

section \<open>Base64\<close>

definition b64_alphabet :: string where
  "b64_alphabet = ''ABCDEFGHIJKLMNOPQRSTUVWXYZabcdefghijklmnopqrstuvwxyz0123456789+/''"

abbreviation byte :: "char \<Rightarrow> nat" where
  "byte c \<equiv> of_char c"

definition b64_char :: "nat \<Rightarrow> char" where
  "b64_char i = b64_alphabet ! i"

fun EncodeToString64 :: "string \<Rightarrow> string" where
  "EncodeToString64 [] = []"
| "EncodeToString64 [a] = [b64_char (byte a div 4), b64_char (byte a mod 4 * 16), CHR ''='', CHR ''='']"
| "EncodeToString64 [a, b] =
     [b64_char (byte a div 4), b64_char (byte a mod 4 * 16 + byte b div 16), b64_char (byte b mod 16 * 4), CHR ''='']"
| "EncodeToString64 (a # b # c # xs) =
     b64_char (byte a div 4) # b64_char (byte a mod 4 * 16 + byte b div 16) #
     b64_char (byte b mod 16 * 4 + byte c div 64) # b64_char (byte c mod 64) # EncodeToString64 xs"

text \<open>The decoder that reads the field of the kubeconfig.\<close>

definition b64_value :: "char \<Rightarrow> nat option" where
  "b64_value c = map_of (zip b64_alphabet [0..<64]) c"

fun DecodeString64 :: "string \<Rightarrow> string option" where
  "DecodeString64 [] = Some []"
| "DecodeString64 (p # q # r # s # xs) =
     (case (b64_value p, b64_value q) of
        (Some i, Some j) \<Rightarrow>
          (case (b64_value r, b64_value s) of
             (Some k, Some l) \<Rightarrow>
               map_option (\<lambda>ys. char_of (i * 4 + j div 16) # char_of (j mod 16 * 16 + k div 4) # char_of (k mod 4 * 64 + l) # ys)
                 (DecodeString64 xs)
           | (Some k, None) \<Rightarrow>
               if s = CHR ''='' \<and> xs = [] then Some [char_of (i * 4 + j div 16), char_of (j mod 16 * 16 + k div 4)] else None
           | (None, _) \<Rightarrow> if r = CHR ''='' \<and> s = CHR ''='' \<and> xs = [] then Some [char_of (i * 4 + j div 16)] else None)
      | _ \<Rightarrow> None)"
| "DecodeString64 _ = None"

lemma b64_value_char [simp]: "i < 64 \<Longrightarrow> b64_value (b64_char i) = Some i"
proof -
  assume i: "i < 64"
  have "length b64_alphabet = length [0..<64]" "distinct b64_alphabet" by (simp_all add: b64_alphabet_def)
  then have "map_of (zip b64_alphabet [0..<64]) (b64_alphabet ! i) = Some ([0..<64] ! i)"
    using i by (intro map_of_zip_nth) simp_all
  then show ?thesis using i by (simp add: b64_value_def b64_char_def)
qed

lemma b64_value_pad [simp]: "b64_value (CHR ''='') = None"
  by code_simp

lemma byte_parts: "byte c div 4 < 64" "byte c div 16 < 16" "byte c div 64 < 4" "byte c mod 4 < 4" "byte c mod 16 < 16" "byte c mod 64 < 64"
  using nat_of_char_less_256 [of c] by (simp_all add: less_mult_imp_div_less)

lemma b64_bounds:
  "byte a div 4 < 64" "byte a mod 4 * 16 < 64" "byte a mod 4 * 16 + byte b div 16 < 64" "byte b mod 16 * 4 < 64"
  "byte b mod 16 * 4 + byte c div 64 < 64" "byte c mod 64 < 64"
  using byte_parts [of a] byte_parts [of b] byte_parts [of c] by linarith+

lemma b64_parts:
  fixes a b c y z :: nat
  shows "y < 16 \<Longrightarrow> a div 4 * 4 + (a mod 4 * 16 + y) div 16 = a"
    and "b < 256 \<Longrightarrow> z < 4 \<Longrightarrow> (y * 16 + b div 16) mod 16 * 16 + (b mod 16 * 4 + z) div 4 = b"
    and "c < 256 \<Longrightarrow> (y * 4 + c div 64) mod 4 * 64 + c mod 64 = c"
  by (simp_all add: less_mult_imp_div_less)

lemma b64_roundtrip: "DecodeString64 (EncodeToString64 xs) = Some xs"
proof (induction xs rule: EncodeToString64.induct)
  case (2 a)
  then show ?case using b64_parts(1) [of 0 "byte a"] by (simp add: b64_bounds)
next
  case (3 a b)
  show ?case
    using b64_parts(1) [of "byte b div 16" "byte a"] b64_parts(2) [of "byte b" 0 "byte a mod 4"] byte_parts [of b] by (simp add: b64_bounds)
next
  case (4 a b c xs)
  show ?case
    using 4 b64_parts(1) [of "byte b div 16" "byte a"] b64_parts(2) [of "byte b" "byte c div 64" "byte a mod 4"]
      b64_parts(3) [of "byte c" "byte b mod 16"] byte_parts [of b] byte_parts [of c] by (simp add: b64_bounds)
qed simp

section \<open>Escaping of html/template\<close>

text \<open>In text, every value that is printed goes through the replacement table of the package.\<close>

definition html_replacement :: "char \<Rightarrow> string" where
  "html_replacement c =
     (if c = CHR 0x00 then [CHR 0xEF, CHR 0xBF, CHR 0xBD] else if c = CHR 0x22 then ''&#34;'' else if c = CHR ''&'' then ''&amp;''
      else if c = CHR 0x27 then ''&#39;'' else if c = CHR ''+'' then ''&#43;'' else if c = CHR ''<'' then ''&lt;''
      else if c = CHR ''>'' then ''&gt;'' else [c])"

definition htmlEscape :: "string \<Rightarrow> string" where
  "htmlEscape s = concat (map html_replacement s)"

definition html_plain :: "char \<Rightarrow> bool" where
  "html_plain c \<longleftrightarrow> c \<notin> {CHR 0x00, CHR 0x22, CHR ''&'', CHR 0x27, CHR ''+'', CHR ''<'', CHR ''>''}"

lemma htmlEscape_plain: "list_all html_plain s \<Longrightarrow> htmlEscape s = s"
  by (induction s) (simp_all add: htmlEscape_def html_plain_def html_replacement_def)

section \<open>The template\<close>

record kubeconfig_data =
  kd_CACertificate :: string
  kd_Token :: string
  kd_Namespace :: string
  kd_ServerURL :: string

datatype template_part = Lit string | Val "kubeconfig_data \<Rightarrow> string"

fun print_part :: "(string \<Rightarrow> string) \<Rightarrow> kubeconfig_data \<Rightarrow> template_part \<Rightarrow> string" where
  "print_part esc d (Lit s) = s"
| "print_part esc d (Val f) = esc (f d)"

definition newline :: string where "newline = [CHR 0x0A]"

definition kubeconfigTemplate :: "template_part list" where
  "kubeconfigTemplate =
     [Lit (''apiVersion: v1'' @ newline @ ''kind: Config'' @ newline @ ''clusters:'' @ newline @ ''- name: kubelb-cluster'' @ newline @
           ''  cluster:'' @ newline @ ''    certificate-authority-data: ''), Val kd_CACertificate,
      Lit (newline @ ''    server: ''), Val kd_ServerURL,
      Lit (newline @ ''contexts:'' @ newline @ ''- name: default-context'' @ newline @ ''  context:'' @ newline @
           ''    cluster: kubelb-cluster'' @ newline @ ''    namespace: ''), Val kd_Namespace,
      Lit (newline @ ''    user: default-user'' @ newline @ ''current-context: default-context'' @ newline @ ''users:'' @ newline @
           ''- name: default-user'' @ newline @ ''  user:'' @ newline @ ''    token: ''), Val kd_Token, Lit newline]"

definition execute_template :: "(string \<Rightarrow> string) \<Rightarrow> kubeconfig_data \<Rightarrow> string" where
  "execute_template esc d = concat (map (print_part esc d) kubeconfigTemplate)"

text \<open>The kubeconfig, or the error for a missing token or certificate.\<close>

definition render_kubeconfig :: "string \<Rightarrow> string \<Rightarrow> string \<Rightarrow> string \<Rightarrow> string + string" where
  "render_kubeconfig ca token namespace serverURL =
     (if token = [] then Inl ''failed to get ServiceAccount token''
      else if ca = [] then Inl ''failed to get CA certificate''
      else Inr (execute_template htmlEscape
             \<lparr> kd_CACertificate = EncodeToString64 ca, kd_Token = token, kd_Namespace = namespace, kd_ServerURL = serverURL \<rparr>))"

section \<open>Values that survive\<close>

definition pem_char :: "char \<Rightarrow> bool" where
  "pem_char c \<longleftrightarrow> byte c < 128 \<and> c \<noteq> CHR ''>'' \<and> c \<noteq> CHR ''~''"

lemma b64_char_plain: "i < 64 \<Longrightarrow> i \<noteq> 62 \<Longrightarrow> html_plain (b64_char i)"
proof -
  have all: "list_all (\<lambda>i. i = 62 \<or> html_plain (b64_char i)) [0..<64]" by code_simp
  assume "i < 64" "i \<noteq> 62"
  then show ?thesis using all unfolding list_all_iff by auto
qed

lemma not_plus_index: "y < 8 \<Longrightarrow> x * 16 + y \<noteq> (62 :: nat)" "y < 2 \<Longrightarrow> x * 4 + y \<noteq> (62 :: nat)"
  by presburger+

lemma pem_parts:
  assumes "pem_char c"
  shows "byte c div 4 < 32" "byte c div 16 < 8" "byte c div 64 < 2" "byte c mod 64 \<noteq> 62"
proof -
  have less: "byte c < 128" and "byte c \<noteq> 62" and "byte c \<noteq> 126"
    using assms by (auto simp: pem_char_def simp flip: of_char_eq_iff [where 'a = nat])
  then show "byte c div 4 < 32" "byte c div 16 < 8" "byte c div 64 < 2" by (simp_all add: less_mult_imp_div_less)
  show "byte c mod 64 \<noteq> 62"
  proof (cases "byte c < 64")
    case False
    then have "byte c mod 64 = byte c - 64" using less by (simp add: mod_if)
    then show ?thesis using False \<open>byte c \<noteq> 126\<close> by linarith
  qed (use \<open>byte c \<noteq> 62\<close> in simp)
qed

lemma b64_group_plain:
  "pem_char a \<Longrightarrow> html_plain (b64_char (byte a div 4))" "html_plain (b64_char (byte a mod 4 * 16))"
  "pem_char b \<Longrightarrow> html_plain (b64_char (byte a mod 4 * 16 + byte b div 16))" "html_plain (b64_char (byte b mod 16 * 4))"
  "pem_char c \<Longrightarrow> html_plain (b64_char (byte b mod 16 * 4 + byte c div 64))" "pem_char c \<Longrightarrow> html_plain (b64_char (byte c mod 64))"
proof -
  show "pem_char a \<Longrightarrow> html_plain (b64_char (byte a div 4))"
    by (rule b64_char_plain) (use pem_parts(1) [of a] in simp_all)
  show "html_plain (b64_char (byte a mod 4 * 16))"
    by (rule b64_char_plain [OF b64_bounds(2)]) (use not_plus_index(1) [of 0 "byte a mod 4"] in simp)
  show "pem_char b \<Longrightarrow> html_plain (b64_char (byte a mod 4 * 16 + byte b div 16))"
    by (intro b64_char_plain b64_bounds(3) not_plus_index(1) pem_parts(2))
  show "html_plain (b64_char (byte b mod 16 * 4))"
    by (rule b64_char_plain [OF b64_bounds(4)]) (use not_plus_index(2) [of 0 "byte b mod 16"] in simp)
  show "pem_char c \<Longrightarrow> html_plain (b64_char (byte b mod 16 * 4 + byte c div 64))"
    by (intro b64_char_plain b64_bounds(5) not_plus_index(2) pem_parts(3))
  show "pem_char c \<Longrightarrow> html_plain (b64_char (byte c mod 64))"
    by (intro b64_char_plain b64_bounds(6) pem_parts(4))
qed

lemma EncodeToString64_plain: "list_all pem_char ca \<Longrightarrow> list_all html_plain (EncodeToString64 ca)"
proof -
  have pad: "html_plain (CHR ''='')" by (simp add: html_plain_def)
  show "list_all pem_char ca \<Longrightarrow> list_all html_plain (EncodeToString64 ca)"
    by (induction ca rule: EncodeToString64.induct) (simp_all add: b64_group_plain pad)
qed

text \<open>C18. The kubeconfig carries its values unharmed although it is rendered with an HTML template: for a CA certificate in
  PEM form, that is ASCII text without \<^verbatim>\<open>>\<close> and \<^verbatim>\<open>~\<close>, and a token, namespace and server URL without quotes,
  angle brackets, ampersands and plus signs, the text is the template with the values put in as they are, and the
  certificate field decodes to the certificate.\<close>

theorem kubeconfig_values_survive:
  assumes "token \<noteq> []" and "ca \<noteq> []" and "list_all pem_char ca"
    and "list_all html_plain token" and "list_all html_plain namespace" and "list_all html_plain serverURL"
  shows "\<exists>cert. render_kubeconfig ca token namespace serverURL =
      Inr (execute_template (\<lambda>v. v) \<lparr> kd_CACertificate = cert, kd_Token = token, kd_Namespace = namespace, kd_ServerURL = serverURL \<rparr>) \<and>
    DecodeString64 cert = Some ca"
  using assms b64_roundtrip [of ca] EncodeToString64_plain [of ca]
  by (intro exI [of _ "EncodeToString64 ca"])
    (simp add: render_kubeconfig_def execute_template_def kubeconfigTemplate_def htmlEscape_plain)

theorem kubeconfig_values_survive_witness:
  "\<exists>cert. render_kubeconfig ''-----BEGIN'' ''ey.J_-'' ''tenant-a'' ''https://[::1]:6443'' =
      Inr (execute_template (\<lambda>v. v) \<lparr> kd_CACertificate = cert, kd_Token = ''ey.J_-'', kd_Namespace = ''tenant-a'',
        kd_ServerURL = ''https://[::1]:6443'' \<rparr>) \<and> DecodeString64 cert = Some ''-----BEGIN''"
proof -
  have "list_all pem_char ''-----BEGIN''" "list_all html_plain ''ey.J_-''" "list_all html_plain ''tenant-a''"
    "list_all html_plain ''https://[::1]:6443''" by code_simp+
  then show ?thesis by (intro kubeconfig_values_survive) simp_all
qed

text \<open>Other certificates are damaged: already two bytes of a DER encoding give a field that no longer decodes.\<close>

lemma escaped_certificate_broken:
  "DecodeString64 (htmlEscape (EncodeToString64 [CHR 0xFB, CHR 0xE0])) = None"
  by code_simp

end
