(* ===== verification/Tenant_Controller.thy ===== *)
theory Tenant_Controller
  imports Envoy_Control_Plane Tenant_Kubeconfig
begin

text \<open>
  The tenant controller (\<^verbatim>\<open>internal/controllers/kubelb/tenant_controller.go\<close> and the objects of
  \<^verbatim>\<open>internal/controllers/kubelb/resources/tenant\<close>): a Tenant gets a namespace, an identity with a role, a kubeconfig, a
  TenantState and a PodMonitor, and loses them, after its load balancers, routes and secrets, when it is deleted.

  Arguments are the API server, the reconcilers of \<^verbatim>\<open>k8c.io/reconciler\<close> (get the object or start from an empty one,
  apply the function, create or update), \<^verbatim>\<open>clientcmd.Load\<close>, \<^verbatim>\<open>net.IP.String\<close> and
  \<^verbatim>\<open>meta.SetStatusCondition\<close>. The objects of the tenant namespace share one type with a constructor per kind. Of
  the Config the code reads the spec, as elsewhere, and here also the status version, which is absent when the default
  Config is used. Of a role reference only the name is kept: its kind and group are constant. A write that \<^verbatim>\<open>retry.RetryOnConflict\<close> repeats is its last attempt. Metrics and log lines are left out.
\<close>

section \<open>Objects\<close>

record owner_reference =
  or_APIVersion :: string
  or_Kind :: string
  or_Name :: string
  or_UID :: string

record policy_rule =
  pr_APIGroups :: "string list"
  pr_Resources :: "string list"
  pr_Verbs :: "string list"

datatype tenant_object =
  NamespaceObj (no_Labels: strmap) (no_Owners: "owner_reference list")
| ServiceAccountObj
| RoleObj (ro_Rules: "policy_rule list")
| RoleBindingObj (rb_RoleName: string) (rb_Subjects: "(string \<times> string \<times> string) list")
| SecretObj (se_Annotations: strmap) (se_Type: string) (se_Data: strmap)

datatype object_kind = KNamespace | KServiceAccount | KRole | KRoleBinding | KSecret

type_synonym object_id = "object_kind \<times> nsname"

record tenant_condition = condition +
  tcn_ObservedGeneration :: int

record tenant_status =
  tns_ObservedGeneration :: int
  tns_Phase :: string
  tns_Conditions :: "tenant_condition list"

record tenant =
  tnt_APIVersion :: string
  tnt_Kind :: string
  tnt_Name :: string
  tnt_UID :: string
  tnt_Generation :: int
  tnt_Finalizers :: "string list"
  tnt_Deleting :: bool
  tnt_Spec :: tenant_spec
  tnt_Status :: tenant_status

record version =
  ver_GitVersion :: string
  ver_GitCommit :: string
  ver_BuildDate :: string
  ver_Edition :: string

record tenant_state_status =
  tss_Version :: version
  tss_LastUpdated :: int
  tss_Conditions :: "tenant_condition list"
  tss_LoadBalancerDisable :: bool

record tenant_state =
  tst_Namespace :: string
  tst_Name :: string
  tst_Owner :: "owner_reference option"
  tst_Status :: tenant_state_status

record pod_monitor =
  pmo_Namespace :: string
  pmo_Name :: string
  pmo_Labels :: strmap
  pmo_Annotations :: strmap
  pmo_Selector :: strmap
  pmo_Endpoints :: "(string \<times> string) list"

record endpoint_slice =
  esl_Endpoints :: "string list list"
  esl_Ports :: "(string option \<times> int option) list"

datatype collection = Routes | LoadBalancers | SyncSecrets

record tenant_reconciler =
  tr_Host :: string
  tr_Namespace :: string
  tr_Version :: version

record 's tn_api = "'s tenant_api" +
  tn_Tenants :: "('s, tenant) crud"
  tn_patchStatus :: "tenant \<Rightarrow> 's \<Rightarrow> 's \<times> string option"
  tn_getObject :: "object_id \<Rightarrow> 's \<Rightarrow> tenant_object get_result"
  tn_reconcileObject :: "object_id \<Rightarrow> (tenant_object \<Rightarrow> tenant_object) \<Rightarrow> 's \<Rightarrow> 's \<times> string option"
  tn_deleteObject :: "object_id \<Rightarrow> 's \<Rightarrow> 's \<times> delete_result"
  tn_getConfigMap :: "nsname \<Rightarrow> 's \<Rightarrow> strmap get_result"
  tn_getEndpointSlice :: "nsname \<Rightarrow> 's \<Rightarrow> endpoint_slice get_result"
  tn_loadKubeconfig :: "string \<Rightarrow> string + (string \<times> string) list"
  tn_ipString :: "string \<Rightarrow> string"
  tn_States :: "('s, tenant_state) crud"
  tn_updateStateStatus :: "tenant_state \<Rightarrow> 's \<Rightarrow> 's \<times> string option"
  tn_getConfigVersion :: "nsname \<Rightarrow> 's \<Rightarrow> version get_result"
  tn_setConfigVersion :: "nsname \<Rightarrow> version \<Rightarrow> 's \<Rightarrow> 's \<times> string option"
  tn_Monitors :: "('s, pod_monitor) crud"
  tn_isNoMatch :: "string \<Rightarrow> bool"
  tn_deleteAll :: "collection \<Rightarrow> string \<Rightarrow> 's \<Rightarrow> 's \<times> string option"
  tn_list :: "collection \<Rightarrow> string \<Rightarrow> 's \<Rightarrow> string + string list"
  tn_setStatusCondition :: "tenant_condition \<Rightarrow> tenant_condition list \<Rightarrow> tenant_condition list"

definition configMapName :: string where "configMapName = ''cluster-info''"
definition kubernetesEndpointsName :: string where "kubernetesEndpointsName = ''kubernetes''"
definition securePortName :: string where "securePortName = ''https''"
definition TenantStateName :: string where "TenantStateName = ''default''"
definition podMonitorName :: string where "podMonitorName = ''envoy-proxy''"
definition serviceAccountName :: string where "serviceAccountName = ''kubelb-ccm''"
definition roleName :: string where "roleName = ''kubelb-ccm''"
definition roleBindingName :: string where "roleBindingName = ''kubelb-ccm''"
definition apiGroupKubeLB :: string where "apiGroupKubeLB = ''kubelb.k8c.io''"
definition ServiceAccountTokenSecretName :: string where "ServiceAccountTokenSecretName = ''kubelb-ccm''"
definition KubeLBCCMKubeconfigSecretName :: string where "KubeLBCCMKubeconfigSecretName = ''kubelb-ccm-kubeconfig''"
definition serviceAccountTokenType :: string where "serviceAccountTokenType = ''kubernetes.io/service-account-token''"
definition serviceAccountTokenAnnotation :: string where "serviceAccountTokenAnnotation = ''kubernetes.io/service-account.name''"
definition TenantPhaseReady :: string where "TenantPhaseReady = ''Ready''"
definition TenantPhaseFailed :: string where "TenantPhaseFailed = ''Failed''"
definition TenantPhaseTerminating :: string where "TenantPhaseTerminating = ''Terminating''"
definition ConditionReady :: string where "ConditionReady = ''Ready''"

section \<open>The objects of a tenant\<close>

definition NamespaceReconciler :: "owner_reference \<Rightarrow> tenant_object \<Rightarrow> tenant_object" where
  "NamespaceReconciler owner x = NamespaceObj (gomap_put LabelManagedBy LabelControllerName (no_Labels x)) [owner]"

definition ServiceAccountReconciler :: "tenant_object \<Rightarrow> tenant_object" where
  "ServiceAccountReconciler x = x"

definition RoleReconciler :: "tenant_object \<Rightarrow> tenant_object" where
  "RoleReconciler x = RoleObj
     [\<lparr> pr_APIGroups = [apiGroupKubeLB], pr_Resources = [''loadbalancers'', ''routes'', ''addresses'', ''syncsecrets''],
        pr_Verbs = [''create'', ''update'', ''get'', ''list'', ''delete'', ''patch'', ''watch''] \<rparr>,
      \<lparr> pr_APIGroups = [apiGroupKubeLB], pr_Resources = [''tenantstates''], pr_Verbs = [''get'', ''list'', ''watch''] \<rparr>,
      \<lparr> pr_APIGroups = [apiGroupKubeLB], pr_Resources = [''tenantstates/status''], pr_Verbs = [''get''] \<rparr>,
      \<lparr> pr_APIGroups = [apiGroupKubeLB],
        pr_Resources = [''loadbalancers/status'', ''routes/status'', ''addresses/status'', ''syncsecrets/status''],
        pr_Verbs = [''update'', ''get'', ''patch''] \<rparr>]"

definition RoleBindingReconciler :: "string \<Rightarrow> tenant_object \<Rightarrow> tenant_object" where
  "RoleBindingReconciler namespace x = RoleBindingObj roleName [(''ServiceAccount'', serviceAccountName, namespace)]"

definition SecretReconciler :: "tenant_object \<Rightarrow> tenant_object" where
  "SecretReconciler x = SecretObj [(serviceAccountTokenAnnotation, serviceAccountName)] serviceAccountTokenType (se_Data x)"

definition TenantKubeconfigSecretReconciler :: "string \<Rightarrow> tenant_object \<Rightarrow> tenant_object" where
  "TenantKubeconfigSecretReconciler data x = SecretObj (se_Annotations x) (se_Type x) [(''kubelb'', data)]"

definition Deletion :: "string \<Rightarrow> object_id list" where
  "Deletion namespace =
     [(KServiceAccount, namespace, serviceAccountName), (KRole, namespace, roleName), (KRoleBinding, namespace, roleBindingName),
      (KSecret, namespace, ServiceAccountTokenSecretName), (KSecret, namespace, KubeLBCCMKubeconfigSecretName),
      (KNamespace, [], namespace)]"

section \<open>The kubeconfig\<close>

definition getKubeconfigFromConfigMap :: "('s, 'b) tn_api_scheme \<Rightarrow> 's \<Rightarrow> string + (string \<times> string) list" where
  "getKubeconfigFromConfigMap api s =
     (case tn_getConfigMap api (''kube-public'', configMapName) s of
        NotFound \<Rightarrow> Inl ''not found''
      | GetError e \<Rightarrow> Inl e
      | Found d \<Rightarrow>
          (case map_of d ''kubeconfig'' of
             None \<Rightarrow> Inl ''no kubeconfig found in cluster-info configmap''
           | Some text \<Rightarrow> tn_loadKubeconfig api text))"

definition JoinHostPort :: "string \<Rightarrow> string \<Rightarrow> string" where
  "JoinHostPort host port =
     (if CHR '':'' \<in> set host \<or> CHR ''%'' \<in> set host then ''['' @ host @ '']:'' @ port else host @ '':'' @ port)"

definition buildKubeconfigFromEndpoint :: "('s, 'b) tn_api_scheme \<Rightarrow> 's \<Rightarrow> string + (string \<times> string) list" where
  "buildKubeconfigFromEndpoint api s =
     (case tn_getEndpointSlice api (''default'', kubernetesEndpointsName) s of
        NotFound \<Rightarrow> Inl ''not found''
      | GetError e \<Rightarrow> Inl e
      | Found sl \<Rightarrow>
          (case esl_Endpoints sl of
             [] \<Rightarrow> Inl ''no endpoints in the kubernetes endpointslice resource''
           | addresses # _ \<Rightarrow>
               (case addresses of
                  [] \<Rightarrow> Inl ''no addresses in the first endpoint of the kubernetes endpointslice resource''
                | address # _ \<Rightarrow>
                    if \<not> ParseIP address then Inl ''could not parse ip from endpoint address''
                    else
                      (case find (\<lambda>p. fst p = Some securePortName) (esl_Ports sl) of
                         Some (_, Some port) \<Rightarrow> Inr [([], ''https://'' @ JoinHostPort (tn_ipString api address) (itoa port))]
                       | _ \<Rightarrow> Inl ''no secure port in the endpointslice''))))"

definition GetKubeconfig :: "('s, 'b) tn_api_scheme \<Rightarrow> 's \<Rightarrow> string + (string \<times> string) list" where
  "GetKubeconfig api s =
     (case getKubeconfigFromConfigMap api s of Inl _ \<Rightarrow> buildKubeconfigFromEndpoint api s | Inr conf \<Rightarrow> Inr conf)"

definition generateKubeconfig :: "('s, 'b) tn_api_scheme \<Rightarrow> tenant_reconciler \<Rightarrow> string \<Rightarrow> 's \<Rightarrow> string + string" where
  "generateKubeconfig api r namespace s =
     (case tn_getObject api (KSecret, namespace, ServiceAccountTokenSecretName) s of
        NotFound \<Rightarrow> Inl (''failed to get ServiceAccount token Secret: '' @ ''not found'')
      | GetError e \<Rightarrow> Inl (''failed to get ServiceAccount token Secret: '' @ e)
      | Found secret \<Rightarrow>
          (case GetKubeconfig api s of
             Inl e \<Rightarrow> Inl (''failed to compute the server URL for kubeconfig: '' @ e)
           | Inr clusters \<Rightarrow>
               render_kubeconfig (str_at (se_Data secret) ''ca.crt'') (str_at (se_Data secret) ''token'') namespace
                 (case find (\<lambda>c. snd c \<noteq> []) clusters of None \<Rightarrow> tr_Host r | Some c \<Rightarrow> snd c)))"

section \<open>The state of a tenant\<close>

definition buildTenantState ::
  "('s, 'b) tn_api_scheme \<Rightarrow> tenant_reconciler \<Rightarrow> tenant \<Rightarrow> tenant_condition list \<Rightarrow> int \<Rightarrow> 's \<Rightarrow> tenant_state_status" where
  "buildTenantState api r t existing now s =
     (let config = (case GetConfig api (tr_Namespace r) s of Inl _ \<Rightarrow> DefaultConfig | Inr c \<Rightarrow> c)
      in \<lparr> tss_Version = tr_Version r, tss_LastUpdated = now, tss_Conditions = existing,
           tss_LoadBalancerDisable = (ts_LoadBalancerDisable (tnt_Spec t) \<or> cs_LoadBalancerDisable config) \<rparr>)"

definition shouldUpdateStatus :: "tenant_state_status \<Rightarrow> tenant_state_status \<Rightarrow> bool" where
  "shouldUpdateStatus current new \<longleftrightarrow>
     tss_Version current \<noteq> tss_Version new \<or> tss_LoadBalancerDisable current \<noteq> tss_LoadBalancerDisable new \<or>
     tss_Conditions current \<noteq> tss_Conditions new"

definition empty_version :: version where
  "empty_version = \<lparr> ver_GitVersion = [], ver_GitCommit = [], ver_BuildDate = [], ver_Edition = [] \<rparr>"

definition empty_state_status :: tenant_state_status where
  "empty_state_status = \<lparr> tss_Version = empty_version, tss_LastUpdated = 0, tss_Conditions = [], tss_LoadBalancerDisable = False \<rparr>"

definition tenant_owner :: "tenant \<Rightarrow> owner_reference" where
  "tenant_owner t = \<lparr> or_APIVersion = tnt_APIVersion t, or_Kind = tnt_Kind t, or_Name = tnt_Name t, or_UID = tnt_UID t \<rparr>"

text \<open>\<^verbatim>\<open>controllerutil.SetControllerReference\<close> fails when another object controls the TenantState already.\<close>

definition set_controller :: "tenant \<Rightarrow> tenant_state \<Rightarrow> string + tenant_state" where
  "set_controller t x =
     (case tst_Owner x of
        Some owner \<Rightarrow>
          if or_Kind owner = tnt_Kind t \<and> or_Name owner = tnt_Name t then Inr (x\<lparr> tst_Owner := Some (tenant_owner t) \<rparr>)
          else Inl ''already owned''
      | None \<Rightarrow> Inr (x\<lparr> tst_Owner := Some (tenant_owner t) \<rparr>))"

text \<open>\<^verbatim>\<open>controllerutil.CreateOrUpdate\<close> of the TenantState: the object as it is in memory afterwards.\<close>

definition ensure_state :: "('s, 'b) tn_api_scheme \<Rightarrow> tenant \<Rightarrow> string \<Rightarrow> 's \<Rightarrow> (string + tenant_state) \<times> 's" where
  "ensure_state api t namespace s =
     (case c_get (tn_States api) (namespace, TenantStateName) s of
        GetError e \<Rightarrow> (Inl e, s)
      | NotFound \<Rightarrow>
          (case set_controller t \<lparr> tst_Namespace = namespace, tst_Name = TenantStateName, tst_Owner = None, tst_Status = empty_state_status \<rparr> of
             Inl e \<Rightarrow> (Inl e, s)
           | Inr x \<Rightarrow> (case c_create (tn_States api) x s of (s', None) \<Rightarrow> (Inr x, s') | (s', Some e) \<Rightarrow> (Inl e, s')))
      | Found x \<Rightarrow>
          (case set_controller t x of
             Inl e \<Rightarrow> (Inl e, s)
           | Inr x' \<Rightarrow>
               if x' = x then (Inr x, s)
               else (case c_update (tn_States api) x' s of (s', None) \<Rightarrow> (Inr x', s') | (s', Some e) \<Rightarrow> (Inl e, s'))))"

definition reconcileTenantState ::
  "('s, 'b) tn_api_scheme \<Rightarrow> tenant_reconciler \<Rightarrow> tenant \<Rightarrow> string \<Rightarrow> int \<Rightarrow> 's \<Rightarrow> 's \<times> string option" where
  "reconcileTenantState api r t namespace now s =
     (case ensure_state api t namespace s of
        (Inl e, s1) \<Rightarrow> (s1, Some e)
      | (Inr x, s1) \<Rightarrow>
          (let new = buildTenantState api r t (tss_Conditions (tst_Status x)) now s1
           in if shouldUpdateStatus (tst_Status x) new
              then (case tn_updateStateStatus api (x\<lparr> tst_Status := new \<rparr>) s1 of
                      (s2, None) \<Rightarrow> (s2, None) | (s2, Some e) \<Rightarrow> (s2, Some (''failed to update TenantState status: '' @ e)))
              else (s1, None)))"

definition reconcileConfigStatus :: "('s, 'b) tn_api_scheme \<Rightarrow> tenant_reconciler \<Rightarrow> 's \<Rightarrow> 's \<times> string option" where
  "reconcileConfigStatus api r s =
     (case tn_getConfigVersion api (tr_Namespace r, DefaultConfigResourceName) s of
        GetError e \<Rightarrow> (s, Some e)
      | NotFound \<Rightarrow> (s, None)
      | Found v \<Rightarrow>
          if v = tr_Version r then (s, None)
          else tn_setConfigVersion api (tr_Namespace r, DefaultConfigResourceName) (tr_Version r) s)"

section \<open>The PodMonitor\<close>

definition desired_monitor :: "string \<Rightarrow> pod_monitor" where
  "desired_monitor namespace =
     \<lparr> pmo_Namespace = namespace, pmo_Name = podMonitorName,
       pmo_Labels = [(LabelAppKubernetesName, envoyProxyAppName), (LabelAppKubernetesManagedBy, envoyProxyManagedByVal)],
       pmo_Annotations = [], pmo_Selector = [(LabelAppKubernetesName, envoyProxyAppName)],
       pmo_Endpoints = [(''metrics'', EnvoyStatsPath)] \<rparr>"

definition deletePodMonitor :: "('s, 'b) tn_api_scheme \<Rightarrow> string \<Rightarrow> 's \<Rightarrow> 's \<times> string option" where
  "deletePodMonitor api namespace s =
     (case c_delete (tn_Monitors api) (namespace, podMonitorName) s of
        (s', DeleteError e) \<Rightarrow> (s', if tn_isNoMatch api e then None else Some e)
      | (s', _) \<Rightarrow> (s', None))"

definition reconcilePodMonitor :: "('s, 'b) tn_api_scheme \<Rightarrow> tenant_reconciler \<Rightarrow> string \<Rightarrow> 's \<Rightarrow> 's \<times> string option" where
  "reconcilePodMonitor api r namespace s =
     (case GetConfig api (tr_Namespace r) s of
        Inl e \<Rightarrow> (s, Some (''failed to retrieve config: '' @ e))
      | Inr config \<Rightarrow>
          if px_PodMonitor (cs_EnvoyProxy config) \<noteq> Some True then deletePodMonitor api namespace s
          else
            (let desired = desired_monitor namespace
             in case c_get (tn_Monitors api) (namespace, podMonitorName) s of
                  GetError e \<Rightarrow> (s, if tn_isNoMatch api e then None else Some e)
                | NotFound \<Rightarrow> c_create (tn_Monitors api) desired s
                | Found existing \<Rightarrow>
                    c_update (tn_Monitors api)
                      (existing\<lparr> pmo_Selector := pmo_Selector desired, pmo_Endpoints := pmo_Endpoints desired,
                         pmo_Labels := pmo_Labels desired \<rparr>) s))"

section \<open>Reconciliation\<close>

text \<open>A step whose error is wrapped and returned.\<close>

definition try_step :: "string \<Rightarrow> 's \<times> string option \<Rightarrow> ('s \<Rightarrow> 's \<times> string option) \<Rightarrow> 's \<times> string option" where
  "try_step msg r k = (case r of (s, None) \<Rightarrow> k s | (s, Some e) \<Rightarrow> (s, Some (msg @ '': '' @ e)))"

definition tenant_reconcile :: "('s, 'b) tn_api_scheme \<Rightarrow> tenant_reconciler \<Rightarrow> tenant \<Rightarrow> int \<Rightarrow> 's \<Rightarrow> 's \<times> string option" where
  "tenant_reconcile api r t now s =
     (let namespace = tenantNamespace (tnt_Name t); rec = tn_reconcileObject api
      in try_step ''failed to reconcile namespace'' (rec (KNamespace, [], namespace) (NamespaceReconciler (tenant_owner t)) s) (\<lambda>s.
         try_step ''failed to reconcile service account'' (rec (KServiceAccount, namespace, serviceAccountName) ServiceAccountReconciler s) (\<lambda>s.
         try_step ''failed to reconcile role'' (rec (KRole, namespace, roleName) RoleReconciler s) (\<lambda>s.
         try_step ''failed to reconcile role binding'' (rec (KRoleBinding, namespace, roleBindingName) (RoleBindingReconciler namespace) s) (\<lambda>s.
         try_step ''failed to reconcile secret'' (rec (KSecret, namespace, ServiceAccountTokenSecretName) SecretReconciler s) (\<lambda>s.
         case generateKubeconfig api r namespace s of
           Inl e \<Rightarrow> (s, Some (''failed to generate kubeconfig: '' @ e))
         | Inr kubeconfig \<Rightarrow>
             try_step ''failed to reconcile kubeLB tenant kubeconfig secret''
               (rec (KSecret, namespace, KubeLBCCMKubeconfigSecretName) (TenantKubeconfigSecretReconciler kubeconfig) s) (\<lambda>s.
             try_step ''failed to reconcile TenantState'' (reconcileTenantState api r t namespace now s) (\<lambda>s.
             try_step ''failed to reconcile Config status'' (reconcileConfigStatus api r s) (\<lambda>s.
             try_step ''failed to reconcile PodMonitor'' (reconcilePodMonitor api r namespace s) (\<lambda>s. (s, None)))))))))))"

definition tenant_key :: "tenant \<Rightarrow> nsname" where
  "tenant_key t = ([], tnt_Name t)"

definition new_tenant_status :: "('s, 'b) tn_api_scheme \<Rightarrow> tenant \<Rightarrow> string \<Rightarrow> string \<Rightarrow> string \<Rightarrow> string option \<Rightarrow> tenant_status" where
  "new_tenant_status api t phase reason message reconcileErr =
     \<lparr> tns_ObservedGeneration = tnt_Generation t, tns_Phase = phase,
       tns_Conditions = tn_setStatusCondition api
         \<lparr> cnd_Type = ConditionReady, cnd_Status = (if reconcileErr = None then ''True'' else ''False''), cnd_Reason = reason,
           cnd_Message = message, tcn_ObservedGeneration = tnt_Generation t \<rparr> (tns_Conditions (tnt_Status t)) \<rparr>"

definition updateTenantStatus ::
  "('s, 'b) tn_api_scheme \<Rightarrow> tenant \<Rightarrow> string \<Rightarrow> string \<Rightarrow> string \<Rightarrow> string option \<Rightarrow> 's \<Rightarrow> 's \<times> string option" where
  "updateTenantStatus api t phase reason message reconcileErr s =
     (case c_get (tn_Tenants api) (tenant_key t) s of
        NotFound \<Rightarrow> (s, Some ''not found'')
      | GetError e \<Rightarrow> (s, Some e)
      | Found current \<Rightarrow>
          (let status = new_tenant_status api current phase reason message reconcileErr
           in if status = tnt_Status current then (s, None) else tn_patchStatus api (current\<lparr> tnt_Status := status \<rparr>) s))"

section \<open>Deletion\<close>

fun delete_collections :: "('s, 'b) tn_api_scheme \<Rightarrow> string \<Rightarrow> (collection \<times> string) list \<Rightarrow> 's \<Rightarrow> 's \<times> string option" where
  "delete_collections api namespace [] s = (s, None)"
| "delete_collections api namespace ((c, name) # cs) s =
     (case tn_deleteAll api c namespace s of
        (s', None) \<Rightarrow> delete_collections api namespace cs s'
      | (s', Some e) \<Rightarrow> (s', Some (''failed to delete '' @ name @ '': '' @ e)))"

fun check_collections :: "('s, 'b) tn_api_scheme \<Rightarrow> string \<Rightarrow> (collection \<times> string \<times> string) list \<Rightarrow> 's \<Rightarrow> string option" where
  "check_collections api namespace [] s = None"
| "check_collections api namespace ((c, name, msg) # cs) s =
     (case tn_list api c namespace s of
        Inl e \<Rightarrow> Some (''failed to list '' @ name @ '': '' @ e)
      | Inr items \<Rightarrow> if items \<noteq> [] then Some msg else check_collections api namespace cs s)"

definition cleanupResources :: "('s, 'b) tn_api_scheme \<Rightarrow> string \<Rightarrow> 's \<Rightarrow> 's \<times> string option" where
  "cleanupResources api namespace s =
     (case delete_collections api namespace [(Routes, ''Routes''), (LoadBalancers, ''LoadBalancers''), (SyncSecrets, ''SyncSecrets'')] s of
        (s1, Some e) \<Rightarrow> (s1, Some e)
      | (s1, None) \<Rightarrow>
          (s1, check_collections api namespace
             [(Routes, ''HTTPRoutes'', ''routes still exist''), (LoadBalancers, ''LoadBalancers'', ''loadbalancers still exist''),
              (SyncSecrets, ''SyncSecrets'', ''syncsecrets still exist'')] s1))"

fun delete_objects :: "('s, 'b) tn_api_scheme \<Rightarrow> object_id list \<Rightarrow> 's \<Rightarrow> 's \<times> string option" where
  "delete_objects api [] s = (s, None)"
| "delete_objects api (i # ids) s =
     (case tn_deleteObject api i s of
        (s', DeleteError e) \<Rightarrow> (s', Some (''failed to ensure kubeLB resources are removed/not present on management cluster: '' @ e))
      | (s', _) \<Rightarrow> delete_objects api ids s')"

definition tenant_cleanup :: "('s, 'b) tn_api_scheme \<Rightarrow> tenant \<Rightarrow> 's \<Rightarrow> 's \<times> string option" where
  "tenant_cleanup api t s =
     (let namespace = tenantNamespace (tnt_Name t)
      in try_step ''failed to delete PodMonitor'' (deletePodMonitor api namespace s) (\<lambda>s.
         try_step ''failed to cleanup resources'' (cleanupResources api namespace s) (\<lambda>s.
         case delete_objects api (Deletion namespace) s of
           (s, Some e) \<Rightarrow> (s, Some e)
         | (s, None) \<Rightarrow>
             try_step ''failed to remove finalizer''
               (c_update (tn_Tenants api) (t\<lparr> tnt_Finalizers := removeAll CleanupFinalizer (tnt_Finalizers t) \<rparr>) s) (\<lambda>s. (s, None)))))"

text \<open>\<^verbatim>\<open>Reconcile\<close>: \<^const>\<open>None\<close> when it returns no error. The requeue after an error of the clean-up is not kept: the
  work queue ignores it when an error is returned.\<close>

definition tenant_Reconcile :: "('s, 'b) tn_api_scheme \<Rightarrow> tenant_reconciler \<Rightarrow> string \<Rightarrow> int \<Rightarrow> 's \<Rightarrow> 's \<times> string option" where
  "tenant_Reconcile api r name now s =
     (case c_get (tn_Tenants api) ([], name) s of
        NotFound \<Rightarrow> (s, None)
      | GetError e \<Rightarrow> (s, Some e)
      | Found t \<Rightarrow>
          if tnt_Deleting t then
            (if CleanupFinalizer \<in> set (tnt_Finalizers t)
             then tenant_cleanup api t (fst (updateTenantStatus api t TenantPhaseTerminating ''Terminating'' ''Tenant is being deleted'' None s))
             else (s, None))
          else
            (let t1 = t\<lparr> tnt_Finalizers := (if CleanupFinalizer \<in> set (tnt_Finalizers t) then tnt_Finalizers t
                       else tnt_Finalizers t @ [CleanupFinalizer]) \<rparr>
             in try_step ''failed to add finalizer''
                  (if CleanupFinalizer \<in> set (tnt_Finalizers t) then (s, None) else c_update (tn_Tenants api) t1 s) (\<lambda>s.
                case tenant_reconcile api r t1 now s of
                  (s, Some e) \<Rightarrow> (fst (updateTenantStatus api t1 TenantPhaseFailed ''ReconciliationFailed'' e (Some e) s), Some e)
                | (s, None) \<Rightarrow> updateTenantStatus api t1 TenantPhaseReady ''Reconciled'' ''Tenant reconciled successfully'' None s)))"

section \<open>What the controller relies on\<close>

definition obj_write :: "('s, 'b) tn_api_scheme \<Rightarrow> 's \<Rightarrow> 's \<Rightarrow> bool" where
  "obj_write api s s' \<longleftrightarrow> (\<exists>i f r. tn_reconcileObject api i f s = (s', r)) \<or> (\<exists>i r. tn_deleteObject api i s = (s', r))"

definition state_write :: "('s, 'b) tn_api_scheme \<Rightarrow> 's \<Rightarrow> 's \<Rightarrow> bool" where
  "state_write api s s' \<longleftrightarrow> writes (tn_States api) s s' \<or> (\<exists>x r. tn_updateStateStatus api x s = (s', r))"

definition other_write :: "('s, 'b) tn_api_scheme \<Rightarrow> 's \<Rightarrow> 's \<Rightarrow> bool" where
  "other_write api s s' \<longleftrightarrow> (\<exists>k v r. tn_setConfigVersion api k v s = (s', r)) \<or> writes (tn_Monitors api) s s'"

definition tenant_write :: "('s, 'b) tn_api_scheme \<Rightarrow> 's \<Rightarrow> 's \<Rightarrow> bool" where
  "tenant_write api s s' \<longleftrightarrow> writes (tn_Tenants api) s s' \<or> (\<exists>x r. tn_patchStatus api x s = (s', r))"

lemma write_intros [intro]:
  "tn_reconcileObject api i f s = (s', e) \<Longrightarrow> obj_write api s s'" "tn_deleteObject api i s = (s', d) \<Longrightarrow> obj_write api s s'"
  "writes (tn_States api) s s' \<Longrightarrow> state_write api s s'" "tn_updateStateStatus api x s = (s', e) \<Longrightarrow> state_write api s s'"
  "tn_setConfigVersion api k v s = (s', e) \<Longrightarrow> other_write api s s'" "writes (tn_Monitors api) s s' \<Longrightarrow> other_write api s s'"
  "writes (tn_Tenants api) s s' \<Longrightarrow> tenant_write api s s'" "tn_patchStatus api t s = (s', e) \<Longrightarrow> tenant_write api s s'"
  unfolding obj_write_def state_write_def other_write_def tenant_write_def by blast+

definition empty_object :: "object_kind \<Rightarrow> tenant_object" where
  "empty_object k = (case k of KNamespace \<Rightarrow> NamespaceObj [] [] | KServiceAccount \<Rightarrow> ServiceAccountObj | KRole \<Rightarrow> RoleObj []
     | KRoleBinding \<Rightarrow> RoleBindingObj [] [] | KSecret \<Rightarrow> SecretObj [] [] [])"

definition state_key :: "tenant_state \<Rightarrow> nsname" where
  "state_key x = (tst_Namespace x, tst_Name x)"

text \<open>An object is gone when it is not found, or when it is terminating: a namespace is removed with its contents later.\<close>

locale tenant_cluster =
  states: object_store "tn_States api" state_key
  for api :: "('s, 'b) tn_api_scheme" +
  fixes terminating :: "object_id \<Rightarrow> 's \<Rightarrow> bool"
  assumes tenant_get_key: "c_get (tn_Tenants api) k s = Found t \<Longrightarrow> tenant_key t = k"
    and tenant_update: "c_update (tn_Tenants api) t s = (s', None) \<Longrightarrow>
      if tnt_Deleting t \<and> tnt_Finalizers t = [] then c_get (tn_Tenants api) (tenant_key t) s' = NotFound
      else \<exists>st. c_get (tn_Tenants api) (tenant_key t) s' = Found (t\<lparr> tnt_Status := st \<rparr>)"
    and tenant_update_fails: "c_update (tn_Tenants api) t s = (s', Some e) \<Longrightarrow> c_get (tn_Tenants api) k s' = c_get (tn_Tenants api) k s"
    and patch_get: "tn_patchStatus api t s = (s', None) \<Longrightarrow> c_get (tn_Tenants api) k s' =
      (if k = tenant_key t then (case c_get (tn_Tenants api) k s of Found x \<Rightarrow> Found (x\<lparr> tnt_Status := tnt_Status t \<rparr>) | r \<Rightarrow> r)
       else c_get (tn_Tenants api) k s)"
    and patch_fails: "tn_patchStatus api t s = (s', Some e) \<Longrightarrow> c_get (tn_Tenants api) k s' = c_get (tn_Tenants api) k s"
    and rec_get: "tn_reconcileObject api i f s = (s', None) \<Longrightarrow> tn_getObject api j s' =
      (if j = i then Found (f (case tn_getObject api i s of Found x \<Rightarrow> x | _ \<Rightarrow> empty_object (fst i))) else tn_getObject api j s)"
    and deleted: "tn_deleteObject api i s = (s', r) \<Longrightarrow> r = Deleted \<or> r = AlreadyGone \<Longrightarrow> tn_getObject api i s' = NotFound \<or> terminating i s'"
    and stays_gone: "(\<exists>j r. tn_deleteObject api j s = (s', r)) \<or> tenant_write api s s' \<Longrightarrow> tn_getObject api i s = NotFound \<or> terminating i s \<Longrightarrow>
      tn_getObject api i s' = NotFound \<or> terminating i s'"
    and stays_empty: "(\<exists>j r. tn_deleteObject api j s = (s', r)) \<or> tenant_write api s s' \<Longrightarrow> tn_list api c ns s = Inr [] \<Longrightarrow> tn_list api c ns s' = Inr []"
    and state_status_get: "tn_updateStateStatus api x s = (s', None) \<Longrightarrow> c_get (tn_States api) (state_key x) s = Found y \<Longrightarrow>
      c_get (tn_States api) (state_key x) s' = Found (y\<lparr> tst_Status := tst_Status x \<rparr>)"
    and tenant_frame: "obj_write api s s' \<or> state_write api s s' \<or> other_write api s s' \<or> (\<exists>c ns r. tn_deleteAll api c ns s = (s', r)) \<Longrightarrow>
      c_get (tn_Tenants api) k s' = c_get (tn_Tenants api) k s"
    and object_frame: "state_write api s s' \<or> other_write api s s' \<or> tenant_write api s s' \<Longrightarrow> tn_getObject api i s' = tn_getObject api i s"
    and state_frame: "other_write api s s' \<or> tenant_write api s s' \<Longrightarrow> c_get (tn_States api) k s' = c_get (tn_States api) k s"
    and config_frame: "obj_write api s s' \<or> state_write api s s' \<or> tenant_write api s s' \<Longrightarrow> ta_getConfig api k s' = ta_getConfig api k s"
begin

definition gone :: "object_id \<Rightarrow> 's \<Rightarrow> bool" where
  "gone i s \<longleftrightarrow> tn_getObject api i s = NotFound \<or> terminating i s"

lemma GetConfig_frame: "obj_write api s s' \<or> state_write api s s' \<or> tenant_write api s s' \<Longrightarrow> GetConfig api n s' = GetConfig api n s"
  using config_frame by (simp add: GetConfig_def)

lemma try_stepE:
  assumes "try_step msg r k = (s', None)"
  obtains s1 where "r = (s1, None)" and "k s1 = (s', None)"
  using assms by (auto simp: try_step_def split: prod.splits option.splits)

text \<open>Clean-up.\<close>

lemma delete_collections_tenant:
  "delete_collections api ns cs s = (s', r) \<Longrightarrow> c_get (tn_Tenants api) k s' = c_get (tn_Tenants api) k s"
proof (induction cs arbitrary: s)
  case (Cons c cs)
  obtain k' n where c: "c = (k', n)" by fastforce
  obtain s1 e where d: "tn_deleteAll api k' ns s = (s1, e)" by fastforce
  then have one: "c_get (tn_Tenants api) k s1 = c_get (tn_Tenants api) k s" by (intro tenant_frame) blast
  show ?case using Cons c d one by (cases e) auto
qed simp

lemma check_collections_empty:
  "check_collections api ns cs s = None \<Longrightarrow> (c, n, m) \<in> set cs \<Longrightarrow> tn_list api c ns s = Inr []"
  by (induction cs) (auto split: sum.splits if_splits)

lemma cleanupResources_empty:
  assumes "cleanupResources api ns s = (s', None)"
  shows "tn_list api c ns s' = Inr []"
proof -
  have "check_collections api ns [(Routes, ''HTTPRoutes'', ''routes still exist''), (LoadBalancers, ''LoadBalancers'', ''loadbalancers still exist''),
      (SyncSecrets, ''SyncSecrets'', ''syncsecrets still exist'')] s' = None"
    using assms by (auto simp: cleanupResources_def simp del: check_collections.simps split: prod.splits option.splits)
  note empty = check_collections_empty [OF this]
  show ?thesis by (cases c) (rule empty, simp)+
qed

lemma delete_objects_gone:
  "delete_objects api ids s = (s', None) \<Longrightarrow> (gone i s \<longrightarrow> gone i s') \<and> (i \<in> set ids \<longrightarrow> gone i s') \<and>
     (tn_list api c ns s = Inr [] \<longrightarrow> tn_list api c ns s' = Inr [])"
proof (induction ids arbitrary: s)
  case (Cons j ids)
  then obtain s1 r where d: "tn_deleteObject api j s = (s1, r)" "r = Deleted \<or> r = AlreadyGone" and rest: "delete_objects api ids s1 = (s', None)"
    by (auto split: prod.splits delete_result.splits)
  have "gone i s \<longrightarrow> gone i s1" "gone j s1" "tn_list api c ns s = Inr [] \<longrightarrow> tn_list api c ns s1 = Inr []"
    using stays_gone stays_empty deleted [OF d] d(1) unfolding gone_def by blast+
  then show ?case using Cons.IH [OF rest] by auto
qed simp

lemma delete_objects_tenant:
  "delete_objects api ids s = (s', r) \<Longrightarrow> c_get (tn_Tenants api) k s' = c_get (tn_Tenants api) k s"
proof (induction ids arbitrary: s)
  case (Cons j ids)
  obtain s1 d where d: "tn_deleteObject api j s = (s1, d)" by fastforce
  have one: "c_get (tn_Tenants api) k s1 = c_get (tn_Tenants api) k s" using d by (intro tenant_frame) blast
  show ?case using Cons d one by (cases d) auto
qed simp

lemma cleanupResources_tenant:
  "cleanupResources api ns s = (s', e) \<Longrightarrow> c_get (tn_Tenants api) k s' = c_get (tn_Tenants api) k s"
  using delete_collections_tenant
  by (auto simp: cleanupResources_def simp del: delete_collections.simps check_collections.simps split: prod.splits option.splits)

lemma deletePodMonitor_write: "deletePodMonitor api ns s = (s', e) \<Longrightarrow> other_write api s s'"
  by (auto simp: deletePodMonitor_def split: prod.splits delete_result.splits)

text \<open>The clean-up changes the Tenant in its last step only.\<close>

lemma tenant_cleanup_cases:
  assumes run: "tenant_cleanup api t s = (s', err)"
  shows "(\<exists>e. err = Some e \<and> c_get (tn_Tenants api) k s' = c_get (tn_Tenants api) k s) \<or>
    (err = None \<and> (\<forall>c. tn_list api c (tenantNamespace (tnt_Name t)) s' = Inr []) \<and> (\<forall>i \<in> set (Deletion (tenantNamespace (tnt_Name t))). gone i s') \<and>
      (\<exists>s1. c_update (tn_Tenants api) (t\<lparr> tnt_Finalizers := removeAll CleanupFinalizer (tnt_Finalizers t) \<rparr>) s1 = (s', None)))"
proof -
  let ?ns = "tenantNamespace (tnt_Name t)" let ?t = "t\<lparr> tnt_Finalizers := removeAll CleanupFinalizer (tnt_Finalizers t) \<rparr>"
  obtain s1 e1 where m: "deletePodMonitor api ?ns s = (s1, e1)" by fastforce
  obtain s2 e2 where c: "cleanupResources api ?ns s1 = (s2, e2)" by fastforce
  obtain s3 e3 where d: "delete_objects api (Deletion ?ns) s2 = (s3, e3)" by fastforce
  obtain s4 e4 where u: "c_update (tn_Tenants api) ?t s3 = (s4, e4)" by fastforce
  have f1: "c_get (tn_Tenants api) k s1 = c_get (tn_Tenants api) k s"
    using deletePodMonitor_write [OF m] by (intro tenant_frame) blast
  note f = f1 cleanupResources_tenant [OF c, of k] delete_objects_tenant [OF d, of k]
  show ?thesis
  proof (cases "e1 = None \<and> e2 = None \<and> e3 = None \<and> e4 = None")
    case True
    have "tn_list api x ?ns s3 = Inr [] \<and> (\<forall>i \<in> set (Deletion ?ns). gone i s3)" for x
      using delete_objects_gone [OF d [unfolded conjunct1 [OF conjunct2 [OF conjunct2 [OF True]]]]] cleanupResources_empty c True by blast
    moreover have "tenant_write api s3 s4" using u by blast
    ultimately have "tn_list api x ?ns s4 = Inr [] \<and> (\<forall>i \<in> set (Deletion ?ns). gone i s4)" for x
      using stays_gone stays_empty unfolding gone_def by blast
    moreover have "err = None" "s' = s4" using run m c d u True by (simp_all add: tenant_cleanup_def try_step_def Let_def)
    ultimately show ?thesis using u True by blast
  next
    case False
    then have "(\<exists>e. err = Some e) \<and> (s' = s1 \<or> s' = s2 \<or> s' = s3 \<or> s' = s4 \<and> e4 \<noteq> None)"
      using run m c d u by (auto simp: tenant_cleanup_def try_step_def Let_def split: option.splits)
    moreover have "c_get (tn_Tenants api) k s4 = c_get (tn_Tenants api) k s3" if "e4 \<noteq> None"
      using that tenant_update_fails u by blast
    ultimately show ?thesis using f by auto
  qed
qed

lemma status_keeps:
  assumes "updateTenantStatus api t phase reason message err s = (s', e)" and "c_get (tn_Tenants api) (tenant_key t) s = Found x"
  shows "\<exists>st. c_get (tn_Tenants api) (tenant_key t) s' = Found (x\<lparr> tnt_Status := st \<rparr>)"
proof -
  let ?st = "new_tenant_status api x phase reason message err"
  have key: "tenant_key (x\<lparr> tnt_Status := ?st \<rparr>) = tenant_key t" using tenant_get_key [OF assms(2)] by (simp add: tenant_key_def)
  consider "s' = s" | "tn_patchStatus api (x\<lparr> tnt_Status := ?st \<rparr>) s = (s', e)"
    using assms by (auto simp: updateTenantStatus_def Let_def split: if_splits)
  then show ?thesis
  proof cases
    case 1
    then show ?thesis using assms(2) by (intro exI [of _ "tnt_Status x"]) simp
  next
    case 2
    show ?thesis
    proof (cases e)
      case None
      then show ?thesis using patch_get [OF 2 [unfolded None], of "tenant_key t"] assms(2) key by auto
    next
      case (Some m)
      then show ?thesis using patch_fails [OF 2 [unfolded Some], of "tenant_key t"] assms(2) by (intro exI [of _ "tnt_Status x"]) simp
    qed
  qed
qed

lemma status_written:
  assumes run: "updateTenantStatus api t phase reason message err s = (s', None)" and get: "c_get (tn_Tenants api) (tenant_key t) s = Found x"
  shows "c_get (tn_Tenants api) (tenant_key t) s' = Found (x\<lparr> tnt_Status := new_tenant_status api x phase reason message err \<rparr>)"
proof -
  define st where "st = new_tenant_status api x phase reason message err"
  have key: "tenant_key (x\<lparr> tnt_Status := st \<rparr>) = tenant_key t" using tenant_get_key [OF get] by (simp add: tenant_key_def)
  have run': "(if st = tnt_Status x then (s, None) else tn_patchStatus api (x\<lparr> tnt_Status := st \<rparr>) s) = (s', None)"
    using run unfolding updateTenantStatus_def Let_def get get_result.case st_def .
  have "c_get (tn_Tenants api) (tenant_key t) s' = Found (x\<lparr> tnt_Status := st \<rparr>)"
  proof (cases "st = tnt_Status x")
    case True
    then show ?thesis using run' get by simp
  next
    case False
    then have up: "tn_patchStatus api (x\<lparr> tnt_Status := st \<rparr>) s = (s', None)" using run' by simp
    show ?thesis using patch_get [OF up, of "tenant_key t"] get key by simp
  qed
  then show ?thesis unfolding st_def .
qed

lemma status_writes: "updateTenantStatus api t phase reason message err s = (s', e) \<Longrightarrow> s' = s \<or> tenant_write api s s'"
  by (auto simp: updateTenantStatus_def Let_def split: get_result.splits if_splits)

text \<open>A pass over a Tenant that is being deleted.\<close>

lemma deletion_pass:
  assumes get: "c_get (tn_Tenants api) ([], name) s = Found t" and del: "tnt_Deleting t" and fin: "CleanupFinalizer \<in> set (tnt_Finalizers t)"
    and run: "tenant_Reconcile api r name now s = (s', err)"
  shows "(err = None \<longrightarrow> (\<forall>c. tn_list api c (tenantNamespace name) s' = Inr []) \<and> (\<forall>i \<in> set (Deletion (tenantNamespace name)). gone i s')) \<and>
    (case c_get (tn_Tenants api) ([], name) s' of
       Found x \<Rightarrow> CleanupFinalizer \<in> set (tnt_Finalizers x) \<longleftrightarrow> err \<noteq> None | NotFound \<Rightarrow> err = None | GetError _ \<Rightarrow> False)"
proof -
  have key: "tenant_key t = ([], name)" by (rule tenant_get_key [OF get])
  then have name: "tnt_Name t = name" by (simp add: tenant_key_def)
  let ?t = "t\<lparr> tnt_Finalizers := removeAll CleanupFinalizer (tnt_Finalizers t) \<rparr>"
  obtain s1 e1 where st: "updateTenantStatus api t TenantPhaseTerminating ''Terminating'' ''Tenant is being deleted'' None s = (s1, e1)" by fastforce
  have clean: "tenant_cleanup api t s1 = (s', err)" using run get del fin st by (simp add: tenant_Reconcile_def)
  obtain x where x: "c_get (tn_Tenants api) ([], name) s1 = Found x" "tnt_Finalizers x = tnt_Finalizers t"
    using status_keeps [OF st] get key by auto
  consider e where "err = Some e" "c_get (tn_Tenants api) ([], name) s' = Found x"
    | s2 where "err = None" "\<forall>c. tn_list api c (tenantNamespace name) s' = Inr []" "\<forall>i \<in> set (Deletion (tenantNamespace name)). gone i s'"
      "c_update (tn_Tenants api) ?t s2 = (s', None)"
    using tenant_cleanup_cases [OF clean, of "([], name)"] x(1) name by auto
  then show ?thesis
  proof cases
    case 1
    then show ?thesis using x(2) fin by simp
  next
    case 2
    have "tenant_key ?t = ([], name)" using key by (simp add: tenant_key_def)
    then show ?thesis using tenant_update [OF 2(4)] 2(1-3) by (auto split: if_splits)
  qed
qed

text \<open>A pass over a live Tenant.\<close>

lemma ensure_state_stores:
  assumes run: "ensure_state api t ns s = (Inr x, s')"
  shows "c_get (tn_States api) (ns, TenantStateName) s' = Found x \<and> tst_Owner x = Some (tenant_owner t) \<and> state_key x = (ns, TenantStateName) \<and>
    (s' = s \<or> state_write api s s')"
proof -
  have owner: "tst_Owner y = Some (tenant_owner t) \<and> state_key y = state_key x0" if "set_controller t x0 = Inr y" for x0 y
    using that by (auto simp: set_controller_def state_key_def split: option.splits if_splits)
  let ?new = "\<lparr> tst_Namespace = ns, tst_Name = TenantStateName, tst_Owner = None, tst_Status = empty_state_status \<rparr>"
  show ?thesis
  proof (cases "c_get (tn_States api) (ns, TenantStateName) s")
    case NotFound
    then have "set_controller t ?new = Inr x" and new: "c_create (tn_States api) x s = (s', None)"
      using run by (auto simp: ensure_state_def split: sum.splits prod.splits option.splits)
    then have "tst_Owner x = Some (tenant_owner t)" "state_key x = (ns, TenantStateName)" using owner by (fastforce simp: state_key_def)+
    then show ?thesis using states.create_get [OF new] new by auto
  next
    case (Found y)
    have k: "state_key y = (ns, TenantStateName)" by (rule states.get_key [OF Found])
    obtain x' where x': "set_controller t y = Inr x'" using run Found by (cases "set_controller t y") (auto simp: ensure_state_def)
    show ?thesis
    proof (cases "x' = y")
      case True
      then show ?thesis using run Found x' owner [OF x'] k by (simp add: ensure_state_def)
    next
      case False
      then have "c_update (tn_States api) x' s = (s', None)" "x = x'"
        using run Found x' by (auto simp: ensure_state_def split: prod.splits option.splits)
      then show ?thesis using states.update_get owner [OF x'] k by auto
    qed
  qed (use run in \<open>simp add: ensure_state_def\<close>)
qed

lemma reconcileTenantState_stores:
  assumes run: "reconcileTenantState api r t ns now s = (s', None)"
  shows "\<exists>x. c_get (tn_States api) (ns, TenantStateName) s' = Found x \<and> tst_Owner x = Some (tenant_owner t) \<and> tss_Version (tst_Status x) = tr_Version r \<and>
    tss_LoadBalancerDisable (tst_Status x) = tss_LoadBalancerDisable (buildTenantState api r t [] now s)"
    and "c_get (tn_Tenants api) k s' = c_get (tn_Tenants api) k s" and "tn_getObject api i s' = tn_getObject api i s"
proof -
  obtain x s1 where one: "ensure_state api t ns s = (Inr x, s1)"
    using run by (auto simp: reconcileTenantState_def split: sum.splits prod.splits)
  let ?new = "buildTenantState api r t (tss_Conditions (tst_Status x)) now s1"
  note x = ensure_state_stores [OF one]
  have two: "if shouldUpdateStatus (tst_Status x) ?new then tn_updateStateStatus api (x\<lparr> tst_Status := ?new \<rparr>) s1 = (s', None) else s' = s1"
    using run one by (auto simp: reconcileTenantState_def Let_def split: prod.splits option.splits if_splits)
  have "GetConfig api (tr_Namespace r) s1 = GetConfig api (tr_Namespace r) s" using x GetConfig_frame by blast
  then have new: "tss_Version ?new = tr_Version r" "tss_LoadBalancerDisable ?new = tss_LoadBalancerDisable (buildTenantState api r t [] now s)"
    by (simp_all add: buildTenantState_def Let_def)
  show "\<exists>y. c_get (tn_States api) (ns, TenantStateName) s' = Found y \<and> tst_Owner y = Some (tenant_owner t) \<and> tss_Version (tst_Status y) = tr_Version r \<and>
      tss_LoadBalancerDisable (tst_Status y) = tss_LoadBalancerDisable (buildTenantState api r t [] now s)"
  proof (cases "shouldUpdateStatus (tst_Status x) ?new")
    case True
    then have up: "tn_updateStateStatus api (x\<lparr> tst_Status := ?new \<rparr>) s1 = (s', None)" using two by simp
    have key: "state_key (x\<lparr> tst_Status := ?new \<rparr>) = (ns, TenantStateName)" using x by (simp add: state_key_def)
    have "c_get (tn_States api) (ns, TenantStateName) s' = Found (x\<lparr> tst_Status := ?new \<rparr>)"
      using state_status_get [OF up, unfolded key, of x] x by simp
    then show ?thesis using x new by auto
  next
    case False
    then show ?thesis using two x new by (auto simp: shouldUpdateStatus_def)
  qed
  have w: "s1 = s \<or> state_write api s s1" "s' = s1 \<or> state_write api s1 s'" using x two by (auto split: if_splits)
  show "c_get (tn_Tenants api) k s' = c_get (tn_Tenants api) k s" using w tenant_frame by metis
  show "tn_getObject api i s' = tn_getObject api i s" using w object_frame by metis
qed

lemma reconcileConfigStatus_write: "reconcileConfigStatus api r s = (s', e) \<Longrightarrow> s' = s \<or> other_write api s s'"
  by (auto simp: reconcileConfigStatus_def split: get_result.splits if_splits)

lemma reconcilePodMonitor_write: "reconcilePodMonitor api r ns s = (s', e) \<Longrightarrow> s' = s \<or> other_write api s s'"
  by (auto simp: reconcilePodMonitor_def Let_def dest: deletePodMonitor_write split: sum.splits get_result.splits if_splits)

lemma reconcile_stages:
  assumes "tenant_reconcile api r t now s = (s', None)"
  obtains s1 s2 s3 s4 s5 kubeconfig s6 s7 s8 where
    "tn_reconcileObject api (KNamespace, [], tenantNamespace (tnt_Name t)) (NamespaceReconciler (tenant_owner t)) s = (s1, None)"
    and "tn_reconcileObject api (KServiceAccount, tenantNamespace (tnt_Name t), serviceAccountName) ServiceAccountReconciler s1 = (s2, None)"
    and "tn_reconcileObject api (KRole, tenantNamespace (tnt_Name t), roleName) RoleReconciler s2 = (s3, None)"
    and "tn_reconcileObject api (KRoleBinding, tenantNamespace (tnt_Name t), roleBindingName) (RoleBindingReconciler (tenantNamespace (tnt_Name t))) s3 = (s4, None)"
    and "tn_reconcileObject api (KSecret, tenantNamespace (tnt_Name t), ServiceAccountTokenSecretName) SecretReconciler s4 = (s5, None)"
    and "generateKubeconfig api r (tenantNamespace (tnt_Name t)) s5 = Inr kubeconfig"
    and "tn_reconcileObject api (KSecret, tenantNamespace (tnt_Name t), KubeLBCCMKubeconfigSecretName) (TenantKubeconfigSecretReconciler kubeconfig) s5 = (s6, None)"
    and "reconcileTenantState api r t (tenantNamespace (tnt_Name t)) now s6 = (s7, None)"
    and "reconcileConfigStatus api r s7 = (s8, None)" and "reconcilePodMonitor api r (tenantNamespace (tnt_Name t)) s8 = (s', None)"
  using assms unfolding tenant_reconcile_def Let_def
  by (elim try_stepE) (auto elim!: try_stepE split: sum.splits)

lemma provisioning_pass:
  assumes run: "tenant_reconcile api r t now s = (s', None)"
  defines "ns \<equiv> tenantNamespace (tnt_Name t)"
  shows "\<exists>labels token a ty url kubeconfig st.
    tn_getObject api (KNamespace, [], ns) s' = Found (NamespaceObj labels [tenant_owner t]) \<and> map_of labels LabelManagedBy = Some LabelControllerName \<and>
    tn_getObject api (KRole, ns, roleName) s' = Found (RoleReconciler ServiceAccountObj) \<and>
    tn_getObject api (KRoleBinding, ns, roleBindingName) s' = Found (RoleBindingObj roleName [(''ServiceAccount'', serviceAccountName, ns)]) \<and>
    tn_getObject api (KSecret, ns, ServiceAccountTokenSecretName) s' = Found token \<and>
    render_kubeconfig (str_at (se_Data token) ''ca.crt'') (str_at (se_Data token) ''token'') ns url = Inr kubeconfig \<and>
    tn_getObject api (KSecret, ns, KubeLBCCMKubeconfigSecretName) s' = Found (SecretObj a ty [(''kubelb'', kubeconfig)]) \<and>
    c_get (tn_States api) (ns, TenantStateName) s' = Found st \<and> tst_Owner st = Some (tenant_owner t) \<and> tss_Version (tst_Status st) = tr_Version r \<and>
    tss_LoadBalancerDisable (tst_Status st) = tss_LoadBalancerDisable (buildTenantState api r t [] now s)"
    and "c_get (tn_Tenants api) k s' = c_get (tn_Tenants api) k s"
proof -
  obtain s1 s2 s3 s4 s5 kubeconfig s6 s7 s8 where
    a1: "tn_reconcileObject api (KNamespace, [], ns) (NamespaceReconciler (tenant_owner t)) s = (s1, None)"
    and a2: "tn_reconcileObject api (KServiceAccount, ns, serviceAccountName) ServiceAccountReconciler s1 = (s2, None)"
    and a3: "tn_reconcileObject api (KRole, ns, roleName) RoleReconciler s2 = (s3, None)"
    and a4: "tn_reconcileObject api (KRoleBinding, ns, roleBindingName) (RoleBindingReconciler ns) s3 = (s4, None)"
    and a5: "tn_reconcileObject api (KSecret, ns, ServiceAccountTokenSecretName) SecretReconciler s4 = (s5, None)"
    and kc: "generateKubeconfig api r ns s5 = Inr kubeconfig"
    and a6: "tn_reconcileObject api (KSecret, ns, KubeLBCCMKubeconfigSecretName) (TenantKubeconfigSecretReconciler kubeconfig) s5 = (s6, None)"
    and a7: "reconcileTenantState api r t ns now s6 = (s7, None)"
    and a8: "reconcileConfigStatus api r s7 = (s8, None)" and a9: "reconcilePodMonitor api r ns s8 = (s', None)"
    unfolding ns_def by (rule reconcile_stages [OF run])
  note gets = rec_get [OF a1] rec_get [OF a2] rec_get [OF a3] rec_get [OF a4] rec_get [OF a5] rec_get [OF a6]
  have names: "ServiceAccountTokenSecretName \<noteq> KubeLBCCMKubeconfigSecretName"
    by (simp add: ServiceAccountTokenSecretName_def KubeLBCCMKubeconfigSecretName_def)
  have other: "s8 = s7 \<or> other_write api s7 s8" "s' = s8 \<or> other_write api s8 s'"
    using reconcileConfigStatus_write [OF a8] reconcilePodMonitor_write [OF a9] by blast+
  have obj: "tn_getObject api i s' = tn_getObject api i s6" for i
    using other object_frame reconcileTenantState_stores(3) [OF a7, of i] by metis
  have states: "c_get (tn_States api) k s' = c_get (tn_States api) k s7" for k using other state_frame by metis
  have cf: "GetConfig api n b = GetConfig api n a" if "tn_reconcileObject api i f a = (b, None)" for n i f a b
    using that GetConfig_frame by blast
  have tf: "c_get (tn_Tenants api) k b = c_get (tn_Tenants api) k a" if "tn_reconcileObject api i f a = (b, None)" for i f a b
    using that tenant_frame by blast
  have conf: "GetConfig api n s6 = GetConfig api n s" for n
    unfolding cf [OF a6] cf [OF a5] cf [OF a4] cf [OF a3] cf [OF a2] cf [OF a1] ..
  obtain st where st: "c_get (tn_States api) (ns, TenantStateName) s7 = Found st" "tst_Owner st = Some (tenant_owner t)"
      "tss_Version (tst_Status st) = tr_Version r" "tss_LoadBalancerDisable (tst_Status st) = tss_LoadBalancerDisable (buildTenantState api r t [] now s6)"
    using reconcileTenantState_stores(1) [OF a7] by blast
  have disable: "buildTenantState api r t [] now s6 = buildTenantState api r t [] now s" by (simp add: buildTenantState_def conf)
  obtain token where token: "tn_getObject api (KSecret, ns, ServiceAccountTokenSecretName) s5 = Found token" by (simp add: gets(5))
  obtain url where url: "render_kubeconfig (str_at (se_Data token) ''ca.crt'') (str_at (se_Data token) ''token'') ns url = Inr kubeconfig"
    using kc by (auto simp: generateKubeconfig_def token split: sum.splits)
  obtain labels where ns': "tn_getObject api (KNamespace, [], ns) s' = Found (NamespaceObj labels [tenant_owner t])"
      "map_of labels LabelManagedBy = Some LabelControllerName"
    by (simp add: obj gets NamespaceReconciler_def map_of_put)
  obtain a ty where kcs: "tn_getObject api (KSecret, ns, KubeLBCCMKubeconfigSecretName) s' = Found (SecretObj a ty [(''kubelb'', kubeconfig)])"
    by (simp add: obj gets TenantKubeconfigSecretReconciler_def)
  have "tn_getObject api (KRole, ns, roleName) s' = Found (RoleReconciler ServiceAccountObj)"
    and "tn_getObject api (KRoleBinding, ns, roleBindingName) s' = Found (RoleBindingObj roleName [(''ServiceAccount'', serviceAccountName, ns)])"
    and "tn_getObject api (KSecret, ns, ServiceAccountTokenSecretName) s' = Found token"
    using token names by (simp_all add: obj gets(6) gets(1-4) RoleReconciler_def RoleBindingReconciler_def) (simp_all add: gets RoleReconciler_def RoleBindingReconciler_def)
  then show "\<exists>labels token a ty url kubeconfig st.
    tn_getObject api (KNamespace, [], ns) s' = Found (NamespaceObj labels [tenant_owner t]) \<and> map_of labels LabelManagedBy = Some LabelControllerName \<and>
    tn_getObject api (KRole, ns, roleName) s' = Found (RoleReconciler ServiceAccountObj) \<and>
    tn_getObject api (KRoleBinding, ns, roleBindingName) s' = Found (RoleBindingObj roleName [(''ServiceAccount'', serviceAccountName, ns)]) \<and>
    tn_getObject api (KSecret, ns, ServiceAccountTokenSecretName) s' = Found token \<and>
    render_kubeconfig (str_at (se_Data token) ''ca.crt'') (str_at (se_Data token) ''token'') ns url = Inr kubeconfig \<and>
    tn_getObject api (KSecret, ns, KubeLBCCMKubeconfigSecretName) s' = Found (SecretObj a ty [(''kubelb'', kubeconfig)]) \<and>
    c_get (tn_States api) (ns, TenantStateName) s' = Found st \<and> tst_Owner st = Some (tenant_owner t) \<and> tss_Version (tst_Status st) = tr_Version r \<and>
    tss_LoadBalancerDisable (tst_Status st) = tss_LoadBalancerDisable (buildTenantState api r t [] now s)"
    using ns' kcs url st unfolding states disable by blast
  have "c_get (tn_Tenants api) k s' = c_get (tn_Tenants api) k s7" using other tenant_frame by metis
  then show "c_get (tn_Tenants api) k s' = c_get (tn_Tenants api) k s"
    unfolding reconcileTenantState_stores(2) [OF a7] tf [OF a6] tf [OF a5] tf [OF a4] tf [OF a3] tf [OF a2] tf [OF a1] .
qed

lemma live_pass:
  assumes get: "c_get (tn_Tenants api) ([], name) s = Found t" and live: "\<not> tnt_Deleting t"
    and run: "tenant_Reconcile api r name now s = (s', None)"
  shows "\<exists>t1 s1 s2. tnt_Name t1 = name \<and> tenant_owner t1 = tenant_owner t \<and> tnt_Spec t1 = tnt_Spec t \<and> CleanupFinalizer \<in> set (tnt_Finalizers t1) \<and>
    (s1 = s \<or> tenant_write api s s1) \<and> tenant_reconcile api r t1 now s1 = (s2, None) \<and> (s' = s2 \<or> tenant_write api s2 s') \<and>
    (\<exists>x. c_get (tn_Tenants api) ([], name) s' = Found x \<and> CleanupFinalizer \<in> set (tnt_Finalizers x) \<and> tns_Phase (tnt_Status x) = TenantPhaseReady)"
proof -
  have key: "tenant_key t = ([], name)" by (rule tenant_get_key [OF get])
  let ?t = "t\<lparr> tnt_Finalizers := (if CleanupFinalizer \<in> set (tnt_Finalizers t) then tnt_Finalizers t else tnt_Finalizers t @ [CleanupFinalizer]) \<rparr>"
  have t1: "tenant_key ?t = ([], name)" "tnt_Name ?t = name" "tenant_owner ?t = tenant_owner t" "CleanupFinalizer \<in> set (tnt_Finalizers ?t)" "\<not> tnt_Deleting ?t"
    using key live by (simp_all add: tenant_key_def tenant_owner_def)
  have "try_step ''failed to add finalizer'' (if CleanupFinalizer \<in> set (tnt_Finalizers t) then (s, None) else c_update (tn_Tenants api) ?t s) (\<lambda>s.
        case tenant_reconcile api r ?t now s of
          (s, Some e) \<Rightarrow> (fst (updateTenantStatus api ?t TenantPhaseFailed ''ReconciliationFailed'' e (Some e) s), Some e)
        | (s, None) \<Rightarrow> updateTenantStatus api ?t TenantPhaseReady ''Reconciled'' ''Tenant reconciled successfully'' None s) = (s', None)"
    using run get live unfolding tenant_Reconcile_def Let_def by simp
  then obtain s1 where s1: "(if CleanupFinalizer \<in> set (tnt_Finalizers t) then (s, None) else c_update (tn_Tenants api) ?t s) = (s1, None)"
    and rest: "(case tenant_reconcile api r ?t now s1 of
          (s, Some e) \<Rightarrow> (fst (updateTenantStatus api ?t TenantPhaseFailed ''ReconciliationFailed'' e (Some e) s), Some e)
        | (s, None) \<Rightarrow> updateTenantStatus api ?t TenantPhaseReady ''Reconciled'' ''Tenant reconciled successfully'' None s) = (s', None)"
    by (rule try_stepE)
  obtain s2 where s2: "tenant_reconcile api r ?t now s1 = (s2, None)"
    and st: "updateTenantStatus api ?t TenantPhaseReady ''Reconciled'' ''Tenant reconciled successfully'' None s2 = (s', None)"
    using rest by (auto split: prod.splits option.splits)
  have "\<exists>x. c_get (tn_Tenants api) ([], name) s1 = Found x \<and> CleanupFinalizer \<in> set (tnt_Finalizers x)"
  proof (cases "CleanupFinalizer \<in> set (tnt_Finalizers t)")
    case False
    then have "c_update (tn_Tenants api) ?t s = (s1, None)" using s1 by simp
    from tenant_update [OF this] t1 show ?thesis by auto
  qed (use s1 get in auto)
  then obtain x where x: "c_get (tn_Tenants api) ([], name) s2 = Found x" "CleanupFinalizer \<in> set (tnt_Finalizers x)"
    using provisioning_pass(2) [OF s2] by auto
  have "c_get (tn_Tenants api) ([], name) s' = Found (x\<lparr> tnt_Status := new_tenant_status api x TenantPhaseReady ''Reconciled''
      ''Tenant reconciled successfully'' None \<rparr>)"
    using status_written [OF st] x(1) t1(1) by simp
  then have "\<exists>x. c_get (tn_Tenants api) ([], name) s' = Found x \<and> CleanupFinalizer \<in> set (tnt_Finalizers x) \<and> tns_Phase (tnt_Status x) = TenantPhaseReady"
    using x(2) by (auto simp: new_tenant_status_def)
  moreover have "s1 = s \<or> tenant_write api s s1" using s1 by (auto split: if_splits)
  moreover have "s' = s2 \<or> tenant_write api s2 s'" by (rule status_writes [OF st])
  ultimately show ?thesis using t1 s2 by (intro exI [of _ ?t] exI [of _ s1] exI [of _ s2]) simp
qed

end

section \<open>A cluster in memory\<close>

record tn_world =
  t_Tenants :: "(nsname, tenant) gomap"
  t_Objects :: "(object_id, tenant_object) gomap"
  t_States :: "(nsname, tenant_state) gomap"
  t_Monitors :: "(nsname, pod_monitor) gomap"
  t_Items :: "(collection \<times> string, string list) gomap"
  t_ConfigVersion :: "version option"

definition tenant_gone :: "tenant \<Rightarrow> bool" where
  "tenant_gone t \<longleftrightarrow> tnt_Deleting t \<and> tnt_Finalizers t = []"

definition tenant_held :: "tenant \<Rightarrow> tenant option" where
  "tenant_held t = (if tnt_Finalizers t = [] then None else Some (t\<lparr> tnt_Deleting := True \<rparr>))"

definition monitor_key :: "pod_monitor \<Rightarrow> nsname" where
  "monitor_key m = (pmo_Namespace m, pmo_Name m)"

definition mem_objects_get :: "object_id \<Rightarrow> tn_world \<Rightarrow> tenant_object get_result" where
  "mem_objects_get i s = (case map_of (t_Objects s) i of None \<Rightarrow> NotFound | Some x \<Rightarrow> Found x)"

definition mem_tn_api :: "config_spec \<Rightarrow> tn_world tn_api" where
  "mem_tn_api config =
     (let tenants = part_crud t_Tenants (\<lambda>p. t_Tenants_update (\<lambda>_. p)) (mem_finalized tenant_key tenant_gone tenant_held);
          states = part_crud t_States (\<lambda>p. t_States_update (\<lambda>_. p)) (mem_crud state_key)
      in \<lparr> ta_getTenant = (\<lambda>_ _. NotFound), ta_getConfig = (\<lambda>_ _. Found config),
           tn_Tenants = tenants,
           tn_patchStatus = (\<lambda>t s. case c_get tenants (tenant_key t) s of
              Found x \<Rightarrow> c_create tenants (x\<lparr> tnt_Status := tnt_Status t \<rparr>) s | _ \<Rightarrow> (s, Some ''not found'')),
           tn_getObject = mem_objects_get,
           tn_reconcileObject = (\<lambda>i f s. (s\<lparr> t_Objects := gomap_put i (f (case mem_objects_get i s of
              Found x \<Rightarrow> x | _ \<Rightarrow> empty_object (fst i))) (t_Objects s) \<rparr>, None)),
           tn_deleteObject = (\<lambda>i s. (s\<lparr> t_Objects := gomap_del i (t_Objects s) \<rparr>, if map_of (t_Objects s) i = None then AlreadyGone else Deleted)),
           tn_getConfigMap = (\<lambda>_ _. NotFound),
           tn_getEndpointSlice = (\<lambda>_ _. Found \<lparr> esl_Endpoints = [[''10.0.0.1'']], esl_Ports = [(Some ''https'', Some 64)] \<rparr>),
           tn_loadKubeconfig = (\<lambda>_. Inl ''not a kubeconfig''), tn_ipString = (\<lambda>x. x),
           tn_States = states,
           tn_updateStateStatus = (\<lambda>x s. case c_get states (state_key x) s of
              Found y \<Rightarrow> c_create states (y\<lparr> tst_Status := tst_Status x \<rparr>) s | _ \<Rightarrow> (s, Some ''not found'')),
           tn_getConfigVersion = (\<lambda>_ s. case t_ConfigVersion s of None \<Rightarrow> NotFound | Some v \<Rightarrow> Found v),
           tn_setConfigVersion = (\<lambda>_ v s. (s\<lparr> t_ConfigVersion := Some v \<rparr>, None)),
           tn_Monitors = part_crud t_Monitors (\<lambda>p. t_Monitors_update (\<lambda>_. p)) (mem_crud monitor_key),
           tn_isNoMatch = (\<lambda>_. False),
           tn_deleteAll = (\<lambda>c ns s. (s\<lparr> t_Items := gomap_del (c, ns) (t_Items s) \<rparr>, None)),
           tn_list = (\<lambda>c ns s. Inr (case map_of (t_Items s) (c, ns) of None \<Rightarrow> [] | Some xs \<Rightarrow> xs)),
           tn_setStatusCondition = (\<lambda>c cs. c # filter (\<lambda>x. cnd_Type x \<noteq> cnd_Type c) cs) \<rparr>)"

text \<open>Every write changes one part of the world.\<close>

lemma mem_tn_parts:
  "writes (tn_States (mem_tn_api config)) s s' \<Longrightarrow> \<exists>p. s' = s\<lparr> t_States := p \<rparr>"
  "writes (tn_Tenants (mem_tn_api config)) s s' \<Longrightarrow> \<exists>p. s' = s\<lparr> t_Tenants := p \<rparr>"
  "writes (tn_Monitors (mem_tn_api config)) s s' \<Longrightarrow> \<exists>p. s' = s\<lparr> t_Monitors := p \<rparr>"
  using part_writes [of t_States "\<lambda>p. t_States_update (\<lambda>_. p)"] part_writes [of t_Tenants "\<lambda>p. t_Tenants_update (\<lambda>_. p)"]
    part_writes [of t_Monitors "\<lambda>p. t_Monitors_update (\<lambda>_. p)"]
  by (simp_all add: mem_tn_api_def Let_def)

lemma mem_tn_obj_write: "obj_write (mem_tn_api config) s s' \<Longrightarrow> \<exists>p. s' = s\<lparr> t_Objects := p \<rparr>"
  by (auto simp: obj_write_def mem_tn_api_def Let_def)

lemma mem_tn_state_write:
  assumes "state_write (mem_tn_api config) s s'"
  shows "\<exists>p. s' = s\<lparr> t_States := p \<rparr>"
proof -
  have "writes (tn_States (mem_tn_api config)) s s' \<or> s' = s" if "tn_updateStateStatus (mem_tn_api config) x s = (s', r)" for x r
    using that by (auto simp: mem_tn_api_def Let_def split: get_result.splits)
  moreover have "s = s\<lparr> t_States := t_States s \<rparr>" by simp
  ultimately show ?thesis using assms mem_tn_parts(1) unfolding state_write_def by metis
qed

lemma mem_tn_tenant_write:
  assumes "tenant_write (mem_tn_api config) s s'"
  shows "\<exists>p. s' = s\<lparr> t_Tenants := p \<rparr>"
proof -
  have "writes (tn_Tenants (mem_tn_api config)) s s' \<or> s' = s" if "tn_patchStatus (mem_tn_api config) x s = (s', r)" for x r
    using that by (auto simp: mem_tn_api_def Let_def split: get_result.splits)
  moreover have "s = s\<lparr> t_Tenants := t_Tenants s \<rparr>" by simp
  ultimately show ?thesis using assms mem_tn_parts(2) unfolding tenant_write_def by metis
qed

lemma mem_tn_other_write:
  assumes "other_write (mem_tn_api config) s s'"
  shows "\<exists>p v. s' = s\<lparr> t_Monitors := p, t_ConfigVersion := v \<rparr>"
proof -
  have "s\<lparr> t_Monitors := p \<rparr> = s\<lparr> t_Monitors := p, t_ConfigVersion := t_ConfigVersion s \<rparr>"
    "s\<lparr> t_ConfigVersion := v \<rparr> = s\<lparr> t_Monitors := t_Monitors s, t_ConfigVersion := v \<rparr>" for p v by simp_all
  moreover have "\<exists>v. s' = s\<lparr> t_ConfigVersion := v \<rparr>" if "tn_setConfigVersion (mem_tn_api config) k v s = (s', r)" for k v r
    using that by (auto simp: mem_tn_api_def Let_def)
  ultimately show ?thesis using assms mem_tn_parts(3) unfolding other_write_def by metis
qed

lemmas mem_tn_writes = mem_tn_obj_write mem_tn_state_write mem_tn_other_write mem_tn_tenant_write

lemma mem_tn_reads:
  "c_get (tn_Tenants (mem_tn_api config)) k s = c_get (mem_finalized tenant_key tenant_gone tenant_held) k (t_Tenants s)"
  "c_get (tn_States (mem_tn_api config)) k s = c_get (mem_crud state_key) k (t_States s)"
  "tn_getObject (mem_tn_api config) i s = mem_objects_get i s" "ta_getConfig (mem_tn_api config) k s = Found config"
  "tn_list (mem_tn_api config) x ns s = Inr (case map_of (t_Items s) (x, ns) of None \<Rightarrow> [] | Some xs \<Rightarrow> xs)"
  by (simp_all add: mem_tn_api_def Let_def part_crud_def)

interpretation mem_tn: tenant_cluster "mem_tn_api config" "\<lambda>_ _. False"
proof -
  let ?api = "mem_tn_api config" let ?c = "tn_Tenants ?api"
  have ts: "finalized_store ?c tenant_key tenant_gone tenant_held"
    by (simp add: mem_tn_api_def Let_def part_finalized mem_fin.finalized_store_axioms)
  have ss: "object_store (tn_States ?api) state_key" by (simp add: mem_tn_api_def Let_def part_store mem.object_store_axioms)
  show "tenant_cluster ?api (\<lambda>_ _. False)"
    unfolding tenant_cluster_def
  proof (intro conjI ss, unfold_locales)
    show "tenant_key t = k" if "c_get ?c k s = Found t" for k s t by (rule finalized_store.get_key [OF ts that])
    show "if tnt_Deleting t \<and> tnt_Finalizers t = [] then c_get ?c (tenant_key t) s' = NotFound
        else \<exists>st. c_get ?c (tenant_key t) s' = Found (t\<lparr> tnt_Status := st \<rparr>)" if "c_update ?c t s = (s', None)" for t s s'
      using finalized_store.update_get [OF ts that, of "tenant_key t"] by (auto simp: tenant_gone_def intro: exI [of _ "tnt_Status t"])
  next
    fix t s s' k
    assume "tn_patchStatus ?api t s = (s', None)"
    then obtain x where x: "c_get ?c (tenant_key t) s = Found x" "c_create ?c (x\<lparr> tnt_Status := tnt_Status t \<rparr>) s = (s', None)"
      by (auto simp: mem_tn_api_def Let_def split: get_result.splits)
    have "tenant_key (x\<lparr> tnt_Status := tnt_Status t \<rparr>) = tenant_key t"
      using finalized_store.get_key [OF ts x(1)] by (simp add: tenant_key_def)
    then show "c_get ?c k s' = (if k = tenant_key t then (case c_get ?c k s of Found x \<Rightarrow> Found (x\<lparr> tnt_Status := tnt_Status t \<rparr>) | r \<Rightarrow> r) else c_get ?c k s)"
      using finalized_store.create_get [OF ts x(2), of k] x(1) by simp
  next
    fix x s s' y
    assume "tn_updateStateStatus ?api x s = (s', None)" and y: "c_get (tn_States ?api) (state_key x) s = Found y"
    then have up: "c_create (tn_States ?api) (y\<lparr> tst_Status := tst_Status x \<rparr>) s = (s', None)" by (auto simp: mem_tn_api_def Let_def)
    have "state_key (y\<lparr> tst_Status := tst_Status x \<rparr>) = state_key x" using object_store.get_key [OF ss y] by (simp add: state_key_def)
    then show "c_get (tn_States ?api) (state_key x) s' = Found (y\<lparr> tst_Status := tst_Status x \<rparr>)"
      using object_store.create_get [OF ss up, of "state_key x"] by simp
  next
    show "tn_getObject ?api j s' = (if j = i then Found (f (case tn_getObject ?api i s of Found x \<Rightarrow> x | _ \<Rightarrow> empty_object (fst i))) else tn_getObject ?api j s)"
      if "tn_reconcileObject ?api i f s = (s', None)" for i f s s' j
      using that by (auto simp: mem_tn_api_def Let_def mem_objects_get_def map_of_put)
    show "tn_getObject ?api i s' = NotFound \<or> False" if "tn_deleteObject ?api i s = (s', r)" for i s s' r
      using that by (auto simp: mem_tn_api_def Let_def mem_objects_get_def map_of_delete_other)
    show "tn_getObject ?api i s' = NotFound \<or> False"
      if w: "(\<exists>j r. tn_deleteObject ?api j s = (s', r)) \<or> tenant_write ?api s s'" and "tn_getObject ?api i s = NotFound \<or> False" for i s s'
    proof -
      have "map_of (t_Objects s) i = None" using that(2) by (simp add: mem_tn_reads mem_objects_get_def split: option.splits)
      moreover have "t_Objects s' = t_Objects s \<or> (\<exists>j. t_Objects s' = gomap_del j (t_Objects s))"
        using w mem_tn_writes(4) by (fastforce simp: mem_tn_api_def Let_def)
      moreover have "map_of (gomap_del j m) i = None" if "map_of m i = None" for j and m :: "(object_id, tenant_object) gomap"
        using that by (simp add: map_of_delete_other)
      ultimately have "map_of (t_Objects s') i = None" by auto
      then show ?thesis by (simp add: mem_tn_reads mem_objects_get_def)
    qed
    show "tn_list ?api x ns s' = Inr []"
      if w: "(\<exists>j r. tn_deleteObject ?api j s = (s', r)) \<or> tenant_write ?api s s'" and "tn_list ?api x ns s = Inr []" for x ns s s'
    proof -
      have "obj_write ?api s s' \<or> tenant_write ?api s s'" using w by blast
      then have "t_Items s' = t_Items s" by (auto dest!: mem_tn_writes)
      then show ?thesis using that(2) by (simp add: mem_tn_reads)
    qed
  next
    fix s s' k
    assume "obj_write ?api s s' \<or> state_write ?api s s' \<or> other_write ?api s s' \<or> (\<exists>x ns r. tn_deleteAll ?api x ns s = (s', r))"
    then have "t_Tenants s' = t_Tenants s"
      using mem_tn_writes(1-3) [of config s s'] by (auto simp: mem_tn_api_def Let_def)
    then show "c_get ?c k s' = c_get ?c k s" by (simp add: mem_tn_reads)
  qed (auto simp: mem_tn_reads mem_objects_get_def dest!: mem_tn_writes, auto simp: mem_tn_api_def Let_def part_crud_def mem_finalized_def
      split: prod.splits get_result.splits if_splits)
qed

section \<open>Properties\<close>

definition tn_sample_reconciler :: tenant_reconciler where
  "tn_sample_reconciler = \<lparr> tr_Host = ''https://10.0.0.1'', tr_Namespace = ''kubelb'',
     tr_Version = \<lparr> ver_GitVersion = ''v1'', ver_GitCommit = ''c'', ver_BuildDate = ''d'', ver_Edition = ''ce'' \<rparr> \<rparr>"

definition tn_sample :: tenant where
  "tn_sample = \<lparr> tnt_APIVersion = ''v1'', tnt_Kind = ''Tenant'', tnt_Name = ''a'', tnt_UID = ''u'', tnt_Generation = 1,
     tnt_Finalizers = [], tnt_Deleting = False, tnt_Spec = sample_tenant,
     tnt_Status = \<lparr> tns_ObservedGeneration = 0, tns_Phase = [], tns_Conditions = [] \<rparr> \<rparr>"

definition tn_sample_world :: tn_world where
  "tn_sample_world = \<lparr> t_Tenants = [(([], ''a''), tn_sample)],
     t_Objects = [((KSecret, ''tenant-a'', ServiceAccountTokenSecretName), SecretObj [] [] [(''ca.crt'', ''PEM''), (''token'', ''abc'')])],
     t_States = [], t_Monitors = [], t_Items = [], t_ConfigVersion = None \<rparr>"

definition tn_deleted_world :: tn_world where
  "tn_deleted_world = tn_sample_world\<lparr>
     t_Tenants := [(([], ''a''), tn_sample\<lparr> tnt_Finalizers := [CleanupFinalizer], tnt_Deleting := True \<rparr>)],
     t_Items := [((Routes, ''tenant-a''), [''r1'']), ((LoadBalancers, ''tenant-a''), [''l1'', ''l2''])] \<rparr>"

text \<open>C15. A pass that succeeds on a live Tenant leaves everything a tenant cluster needs to connect: the namespace, labelled
  and owned by the Tenant, the role and its binding to the service account of that namespace, the secret with the kubeconfig
  rendered from the token of that account, the TenantState, owned by the Tenant, with the running version and the switch for
  load balancers taken from the Tenant or the Config, and the Tenant itself in phase Ready with the clean-up finalizer.\<close>

theorem tenant_provisioned:
  assumes cluster: "tenant_cluster api terminating" and get: "c_get (tn_Tenants api) ([], name) s = Found t" and live: "\<not> tnt_Deleting t"
    and run: "tenant_Reconcile api r name now s = (s', None)"
  shows "\<exists>labels token a ty url kubeconfig st x.
    tn_getObject api (KNamespace, [], tenantNamespace name) s' = Found (NamespaceObj labels [tenant_owner t]) \<and>
    map_of labels LabelManagedBy = Some LabelControllerName \<and>
    tn_getObject api (KRole, tenantNamespace name, roleName) s' = Found (RoleReconciler ServiceAccountObj) \<and>
    tn_getObject api (KRoleBinding, tenantNamespace name, roleBindingName) s' =
      Found (RoleBindingObj roleName [(''ServiceAccount'', serviceAccountName, tenantNamespace name)]) \<and>
    tn_getObject api (KSecret, tenantNamespace name, ServiceAccountTokenSecretName) s' = Found token \<and>
    render_kubeconfig (str_at (se_Data token) ''ca.crt'') (str_at (se_Data token) ''token'') (tenantNamespace name) url = Inr kubeconfig \<and>
    tn_getObject api (KSecret, tenantNamespace name, KubeLBCCMKubeconfigSecretName) s' = Found (SecretObj a ty [(''kubelb'', kubeconfig)]) \<and>
    c_get (tn_States api) (tenantNamespace name, TenantStateName) s' = Found st \<and> tst_Owner st = Some (tenant_owner t) \<and>
    tss_Version (tst_Status st) = tr_Version r \<and>
    (tss_LoadBalancerDisable (tst_Status st) \<longleftrightarrow> ts_LoadBalancerDisable (tnt_Spec t) \<or>
      cs_LoadBalancerDisable (case GetConfig api (tr_Namespace r) s of Inl _ \<Rightarrow> DefaultConfig | Inr c \<Rightarrow> c)) \<and>
    c_get (tn_Tenants api) ([], name) s' = Found x \<and> CleanupFinalizer \<in> set (tnt_Finalizers x) \<and>
    tns_Phase (tnt_Status x) = TenantPhaseReady"
proof -
  obtain t1 s1 s2 x where t1: "tnt_Name t1 = name" "tenant_owner t1 = tenant_owner t" "tnt_Spec t1 = tnt_Spec t"
    and w1: "s1 = s \<or> tenant_write api s s1" and rec: "tenant_reconcile api r t1 now s1 = (s2, None)"
    and w2: "s' = s2 \<or> tenant_write api s2 s'"
    and x: "c_get (tn_Tenants api) ([], name) s' = Found x" "CleanupFinalizer \<in> set (tnt_Finalizers x)" "tns_Phase (tnt_Status x) = TenantPhaseReady"
    using tenant_cluster.live_pass [OF cluster get live run] by blast
  have obj: "tn_getObject api i s' = tn_getObject api i s2" for i using w2 tenant_cluster.object_frame [OF cluster, of s2 s' i] by blast
  have st: "c_get (tn_States api) k s' = c_get (tn_States api) k s2" for k using w2 tenant_cluster.state_frame [OF cluster, of s2 s' k] by blast
  have conf: "GetConfig api n s1 = GetConfig api n s" for n using w1 tenant_cluster.GetConfig_frame [OF cluster, of s s1 n] by blast
  have dis: "tss_LoadBalancerDisable (buildTenantState api r t1 [] now s1) \<longleftrightarrow> ts_LoadBalancerDisable (tnt_Spec t) \<or>
      cs_LoadBalancerDisable (case GetConfig api (tr_Namespace r) s of Inl _ \<Rightarrow> DefaultConfig | Inr c \<Rightarrow> c)"
    by (simp add: buildTenantState_def Let_def conf t1)
  from tenant_cluster.provisioning_pass(1) [OF cluster rec] x show ?thesis
    unfolding t1(1,2) dis obj st by blast
qed

theorem tenant_provisioned_witness:
  "\<exists>s' token a ty url kubeconfig x.
    tenant_Reconcile (mem_tn_api DefaultConfig) tn_sample_reconciler ''a'' 0 tn_sample_world = (s', None) \<and>
    tn_getObject (mem_tn_api DefaultConfig) (KSecret, ''tenant-a'', ServiceAccountTokenSecretName) s' = Found token \<and>
    render_kubeconfig (str_at (se_Data token) ''ca.crt'') (str_at (se_Data token) ''token'') ''tenant-a'' url = Inr kubeconfig \<and>
    tn_getObject (mem_tn_api DefaultConfig) (KSecret, ''tenant-a'', KubeLBCCMKubeconfigSecretName) s' = Found (SecretObj a ty [(''kubelb'', kubeconfig)]) \<and>
    c_get (tn_Tenants (mem_tn_api DefaultConfig)) ([], ''a'') s' = Found x \<and> tns_Phase (tnt_Status x) = TenantPhaseReady"
proof -
  have "snd (tenant_Reconcile (mem_tn_api DefaultConfig) tn_sample_reconciler ''a'' 0 tn_sample_world) = None" by code_simp
  then obtain s' where run: "tenant_Reconcile (mem_tn_api DefaultConfig) tn_sample_reconciler ''a'' 0 tn_sample_world = (s', None)"
    by (metis prod.collapse)
  have get: "c_get (tn_Tenants (mem_tn_api DefaultConfig)) ([], ''a'') tn_sample_world = Found tn_sample"
    by (simp add: mem_tn_reads mem_finalized_def tn_sample_world_def tn_sample_def tenant_key_def tenant_gone_def)
  have "\<not> tnt_Deleting tn_sample" by (simp add: tn_sample_def)
  from tenant_provisioned [OF mem_tn.tenant_cluster_axioms get this run] run show ?thesis
    unfolding tenantNamespace_def append.simps by blast
qed

text \<open>C14. A deleted Tenant goes last: a pass over a Tenant that is being deleted takes its finalizer away exactly when it
  succeeds, and then no Route, LoadBalancer or SyncSecret of its namespace is left and the identity, the kubeconfig and the
  namespace itself are gone or terminating.\<close>

theorem tenant_deleted_last:
  assumes cluster: "tenant_cluster api terminating" and get: "c_get (tn_Tenants api) ([], name) s = Found t" and del: "tnt_Deleting t"
    and fin: "CleanupFinalizer \<in> set (tnt_Finalizers t)" and run: "tenant_Reconcile api r name now s = (s', err)"
  shows "(err = None \<longrightarrow> (\<forall>c. tn_list api c (tenantNamespace name) s' = Inr []) \<and>
      (\<forall>i \<in> set (Deletion (tenantNamespace name)). tn_getObject api i s' = NotFound \<or> terminating i s')) \<and>
    (case c_get (tn_Tenants api) ([], name) s' of
       Found x \<Rightarrow> CleanupFinalizer \<in> set (tnt_Finalizers x) \<longleftrightarrow> err \<noteq> None | NotFound \<Rightarrow> err = None | GetError _ \<Rightarrow> False)"
  using tenant_cluster.deletion_pass [OF cluster get del fin run] unfolding tenant_cluster.gone_def [OF cluster] .

theorem tenant_deleted_last_witness:
  "\<exists>s'. tenant_Reconcile (mem_tn_api DefaultConfig) tn_sample_reconciler ''a'' 0 tn_deleted_world = (s', None) \<and>
    tn_list (mem_tn_api DefaultConfig) LoadBalancers ''tenant-a'' s' = Inr [] \<and>
    tn_getObject (mem_tn_api DefaultConfig) (KNamespace, [], ''tenant-a'') s' = NotFound \<and>
    tn_getObject (mem_tn_api DefaultConfig) (KSecret, ''tenant-a'', ServiceAccountTokenSecretName) s' = NotFound"
proof -
  let ?t = "tn_sample\<lparr> tnt_Finalizers := [CleanupFinalizer], tnt_Deleting := True \<rparr>"
  have "snd (tenant_Reconcile (mem_tn_api DefaultConfig) tn_sample_reconciler ''a'' 0 tn_deleted_world) = None" by code_simp
  then obtain s' where run: "tenant_Reconcile (mem_tn_api DefaultConfig) tn_sample_reconciler ''a'' 0 tn_deleted_world = (s', None)"
    by (metis prod.collapse)
  have get: "c_get (tn_Tenants (mem_tn_api DefaultConfig)) ([], ''a'') tn_deleted_world = Found ?t"
    by (simp add: mem_tn_reads mem_finalized_def tn_deleted_world_def tn_sample_def tenant_key_def tenant_gone_def)
  have "tnt_Deleting ?t" "CleanupFinalizer \<in> set (tnt_Finalizers ?t)" by simp_all
  from tenant_deleted_last [OF mem_tn.tenant_cluster_axioms get this run] run show ?thesis
    by (simp add: tenantNamespace_def Deletion_def)
qed


end
