(* ===== verification/Spec2Isabelle.thy ===== *)
theory Spec2Isabelle
  imports Annotation_Rules Conversion_Controller Traffic_Path Tenant_Controller
begin

text \<open>
  \<^bold>\<open>A verification development of KubeLB\<close>

  KubeLB gives tenant clusters load balancing through a management cluster. This development models its controllers, the
  Envoy configuration they produce and the conversion of Ingress objects to the Gateway API, and proves what these parts
  promise. Paths are below \<^verbatim>\<open>src/\<close>.

  \<^bold>\<open>The program.\<close> In a tenant cluster the cloud controller manager (\<^verbatim>\<open>internal/controllers/ccm\<close>) mirrors every
  Service of type LoadBalancer as a LoadBalancer object in the tenant's namespace of the management cluster. There the
  LoadBalancer controller and the Route controller (\<^verbatim>\<open>internal/controllers/kubelb\<close>) allocate a listener port for every
  port of an object (\<^verbatim>\<open>internal/port-lookup\<close>), create the Services and layer-7 objects that expose it
  (\<^verbatim>\<open>internal/resources\<close>) and report the ports in the status. The control plane controller keeps an Envoy proxy per
  tenant and serves it a snapshot (\<^verbatim>\<open>internal/envoy\<close>) with a listener per allocated port. The tenant controller creates
  and removes what belongs to a tenant. The conversion controller (\<^verbatim>\<open>internal/ingress-to-gateway\<close>, \<^verbatim>\<open>pkg/conversion\<close>)
  translates NGINX Ingresses into Gateway API routes and Envoy Gateway policies.

  \<^bold>\<open>Conventions.\<close> A Go struct is a record and a tagged union a datatype; a pointer is an option. A Go map is an
  association list whose order stands for one iteration order. Integers are \<^typ>\<open>int\<close> with the conversions to 32 bits
  written out where the code converts; the digest works on 32-bit words. An error is a value of an option, a sum or the
  outcome type, and so is a panic. A controller is a function from the state to the state and a result, with every write
  and early return of the source. The API servers, the clock, random draws, the JSON and protobuf encoders, hashes,
  \<^verbatim>\<open>url.Parse\<close> and other libraries are arguments; what a theorem needs of them is a hypothesis or a locale that states
  their documented behaviour, and each locale is interpreted on a cluster in memory. Log lines, events, metrics and owner
  references that no code reads are left out.

  \<^bold>\<open>The theories.\<close>

  \<^item> \<open>Kubelb_Prelude\<close>, \<open>Go_Net\<close>, \<open>Go_Time\<close>, \<open>Sha256\<close>: what the sources use of Go and its library. \<open>Api_Types\<close>: the custom
    resources (\<^verbatim>\<open>api/ce\<close>, \<^verbatim>\<open>internal/config\<close>).
  \<^item> \<open>Kube_Api\<close>: the API server as a record of operations per kind with the contracts \<open>object_store\<close> and
    \<open>finalized_store\<close> (what a read returns after a write; how a finalizer holds an object), and the event filters of
    \<^verbatim>\<open>internal/util/predicate\<close>.
  \<^item> \<open>Naming\<close>, \<open>Annotation_Rules\<close> (\<^verbatim>\<open>internal/kubelb/utils.go\<close>, \<^verbatim>\<open>internal/util/kubernetes\<close>): generated names are
    valid and keys determine their data; which annotations are propagated, kept and removed.
  \<^item> \<open>Port_Allocator\<close> (\<^verbatim>\<open>internal/port-lookup\<close>): the table, allocation, release, loading and healing. Invariant over all
    sequences of operations, contract of an allocation, which owner keeps a port after a load, termination on fair draws.
  \<^item> \<open>Load_Balancer\<close> (\<^verbatim>\<open>internal/kubelb/loadbalancer.go\<close>): mapping of Services, hostnames, ports of the exposing Service.
  \<^item> \<open>Envoy_Snapshot\<close> (\<^verbatim>\<open>internal/envoy/resource.go\<close>): the snapshot is consistent, drops no listener and does not depend
    on the order of its inputs.
  \<^item> \<open>LB_Controller\<close>, \<open>L7_Resources\<close>, \<open>Route_Controller\<close> (\<^verbatim>\<open>loadbalancer_controller.go\<close>, \<^verbatim>\<open>route_controller.go\<close>,
    \<^verbatim>\<open>internal/resources\<close>): a pass allocates all ports and reports them, so that a restart finds the same ports;
    backends point to the generated Services; a teardown leaves nothing behind.
  \<^item> \<open>Ccm_Service\<close> (\<^verbatim>\<open>internal/controllers/ccm/service_controller.go\<close>): a pass leaves one mirror in the desired state; a
    Service loses its finalizer after its mirror only.
  \<^item> \<open>Envoy_Control_Plane\<close> (\<^verbatim>\<open>envoy_cp_controller.go\<close>): a pass leaves the current pod template and the snapshot of the live
    objects. \<open>Traffic_Path\<close>: listeners fit their sockets and stay in the port range; the locale \<open>kubelb_system\<close>
    joins the contracts of the three controllers of the layer-4 path.
  \<^item> \<open>Tenant_Kubeconfig\<close>, \<open>Tenant_Controller\<close> (\<^verbatim>\<open>tenant_controller.go\<close>, \<^verbatim>\<open>resources/tenant\<close>): Base64 and the escaping of
    \<^verbatim>\<open>html/template\<close>; what a live Tenant has after a pass, and that a deleted one goes last.
  \<^item> \<open>Ingress_Annotations\<close>, \<open>Envoy_Policies\<close>, \<open>Ingress_Converter\<close>, \<open>Gateway_Listeners\<close>, \<open>Conversion_Controller\<close>
    (\<^verbatim>\<open>pkg/conversion\<close>, \<^verbatim>\<open>internal/ingress-to-gateway\<close>): admissible filters, policies, a route for every host, the
    shared Gateway, and the two-pass protocol that marks an Ingress as converted.
  \<^item> This theory: the composition. The passes of the three layer-4 controllers together make every port of a tenant's
    Service reachable through a listener of the served snapshot.

  \<^bold>\<open>Fuel.\<close> The one loop that may run for ever is the random choice of a free port. It takes the list of draws as an
  argument and is \<^const>\<open>None\<close> when the list ends first. \<open>Port_Allocator\<close> shows that every sequence of draws that is
  fair to the range has a prefix on which an allocation returns, as long as the requests fit, and that no list is enough
  for a full table. All other loops are structural or have
  a termination proof.

  \<^bold>\<open>Not modelled.\<close> The other controllers of the cloud controller manager (Ingress, HTTPRoute, GRPCRoute and Gateway sources, Gateway API
  CRDs, nodes) and the synchronisation of secrets; the xDS server, which is a gRPC server of the go-control-plane library;
  the body of the Envoy bootstrap, one protobuf literal; the command line client, which is flag parsing, terminal and
  network I/O around the conversion; metrics, process entry points and generated code. Concurrent writers appear as the
  arbitrary state a pass starts from and as failing writes: within a pass the state changes by its own writes only. The
  retries of \<^verbatim>\<open>retry.RetryOnConflict\<close> are their last attempt.
\<close>

section \<open>From the Service of a tenant to the listener that serves it\<close>

text \<open>C1. The three controllers together deliver what KubeLB promises. Take a Service of a tenant cluster in cloud-provider
  mode whose mirror, if there is one, was written for an earlier version of it. Let the cloud controller, the LoadBalancer
  controller and the control plane controller each make a pass that returns without an error. Then for every TCP or UDP
  port of the Service, the Service that exposes it in the management cluster has a port of the same number and protocol, it
  targets a listener port of the snapshot that is served to the tenant's proxies, and that listener forwards to the node
  port of the Service on every address of the tenant. The keys of load balancers and routes must not clash, and two
  different snapshots of a tenant must not have one version.\<close>

theorem service_port_is_served:
  assumes sys: "kubelb_system capi lapi papi"
    and svc: "c_get (cc_Services capi) req s = Found svc" "\<not> tsv_Deleting svc" "svc_shouldReconcile r svc"
      "distinct (map map_port_name (ss_Ports (svc_Spec svc)))" and mode: "sr_CloudController r"
    and before: "\<And>m. c_get (cc_LBs capi) (sr_ClusterName r, om_UID (svc_Meta svc)) s = Found m \<Longrightarrow> mirror_of r (om_UID (svc_Meta svc)) m"
      "\<And>e. c_get (cc_LBs capi) (sr_ClusterName r, om_UID (svc_Meta svc)) s \<noteq> GetError e" "\<And>e. \<not> cc_isAlreadyExists capi e"
    and pass1: "svc_Reconcile capi r req s = (Done (), s1)"
    and tc: "GetTenantAndConfig lapi cn (RemoveTenantPrefix (sr_ClusterName r)) s1 = Inr (tenant, config)"
      "lb_shouldReconcile tenant config = (True, False)"
    and all: "la_listLBs lapi (sr_ClusterName r) s1 = Inr lbs"
      "distinct (map (\<lambda>m. om_Namespace (lb_Meta (ml_LB m)) @ ''-'' @ om_Name (lb_Meta (ml_LB m))) lbs)"
    and inv: "pa_inv pa"
    and pass2: "lb_Reconcile lapi cn (sr_ClusterName r, om_UID (svc_Meta svc)) random now rs (pa, s1) = Some (Done (), pa1, s2)"
    and config: "GetConfig papi cn s2 = Inr config'"
    and objects: "ListLoadBalancersAndRoutes papi (sr_ClusterName r) s2 = Inr (served, routes)"
      "distinct (map fst (all_requests served routes))" "distinct (map item_key (snapshot_items served routes))"
    and pass3: "cp_Reconcile papi cn (sr_ClusterName r, n) rs' (pa1, s2) = Some (None, pa2, s3)"
    and version: "\<And>c sn. cp_getSnapshot papi (sr_ClusterName r) s2 = Some c \<Longrightarrow>
      MapSnapshot (cp_getAddresses papi s3) (cp_marshal papi) (cp_hash papi) (Some (Lookup pa2)) (ResolveHeaderLimits (Some config'))
        served routes = Inr sn \<Longrightarrow> sn_Version c = sn_Version sn \<Longrightarrow> c = sn"
    and addresses: "cp_getAddresses papi s3 (sr_ClusterName r) DefaultAddressName = Inr addrs"
    and port: "port \<in> set (ss_Ports (svc_Spec svc))" "sp_Protocol port = ProtocolTCP \<or> sp_Protocol port = ProtocolUDP"
  shows "\<exists>exposing sp L cached.
    c_get (la_Services lapi) (sr_ClusterName r, envoyResourceName (om_UID (svc_Meta svc))) s2 = Found exposing \<and>
    sp \<in> set (ss_Ports (svc_Spec exposing)) \<and> sp_Port sp = sp_Port port \<and> sp_Protocol sp = sp_Protocol port \<and> sp_TargetPort sp = IntPort L \<and>
    cp_getSnapshot papi (sr_ClusterName r) s3 = Some cached \<and>
    forwards cached (sp_Protocol port) L (map (\<lambda>a. makeEndpoint a (to_uint32 (sp_NodePort port))) addrs)"
proof -
  let ?ns = "sr_ClusterName r" let ?uid = "om_UID (svc_Meta svc)"
  obtain m where m: "c_get (cc_LBs capi) (?ns, ?uid) s1 = Found m" "mirror_of r ?uid m" "lb_view (ml_LB m) = lb_view (desired_mirror r svc)"
    using kubelb_system.pass_keeps_mirror [OF sys svc before pass1] by blast
  obtain exposing sp L m' e q where
    exposed: "c_get (la_Services lapi) (?ns, envoyResourceName ?uid) s2 = Found exposing" "sp \<in> set (ss_Ports (svc_Spec exposing))"
      "sp_Port sp = sp_Port port" "sp_Protocol sp = sp_Protocol port" "sp_TargetPort sp = IntPort L"
    and inv1: "pa_inv pa1" and L: "Lookup pa1 (EnvoyEndpointKey ?ns ?uid 0) (EnvoyListenerKey (sp_NodePort port) (sp_Protocol port)) = (L, True)"
    and m': "c_get (cc_LBs capi) (?ns, ?uid) s2 = Found m'" "\<not> ml_Deleting m'" "lb_key (ml_LB m') = (?ns, ?uid)"
      "ls_Endpoints (lb_Spec (ml_LB m')) = [e]" "q \<in> set (le_Ports e)"
    and q: "ep_Port q = sp_NodePort port" "ep_Protocol q = sp_Protocol port"
    and ref: "le_AddressesReference e = Some \<lparr> ref_Name = DefaultAddressName, ref_Namespace = [] \<rparr>"
    using kubelb_system.pass_exposes_port [OF sys m mode port(1) tc all inv pass2] by blast
  obtain cached where "cp_getSnapshot papi ?ns s3 = Some cached"
    "forwards cached (ep_Protocol q) L (map (\<lambda>a. makeEndpoint a (to_uint32 (ep_Port q))) (ref_addresses (cp_getAddresses papi s3) ?ns e))"
    using kubelb_system.pass_forwards_port [OF sys m' port(2) [folded q] inv1 L [folded q] config objects pass3 version] by blast
  moreover have "ref_addresses (cp_getAddresses papi s3) ?ns e = addrs" using ref addresses by (simp add: ref_addresses_def)
  ultimately show ?thesis using exposed unfolding q by blast
qed

text \<open>A system in which the mirror still has the node port of an earlier version of the Service.\<close>

definition path_old_mirror :: managed_lb where
  "path_old_mirror = new_mirror (desired_mirror sample_cluster (sample_tenant_svc\<lparr> svc_Spec := (svc_Spec sample_tenant_svc)\<lparr> ss_Ports :=
     map (\<lambda>p. p\<lparr> sp_NodePort := 29 \<rparr>) (ss_Ports (svc_Spec sample_tenant_svc)) \<rparr> \<rparr>))"

definition path_world :: cp_world where
  "path_world = \<lparr> w_LBs = [((''tenant-a'', ''u1''), path_old_mirror)], w_Services = [], w_Ingresses = [], w_HTTPRoutes = [],
     w_TenantServices = [(sample_svc_key, sample_tenant_svc)], w_Routes = [], w_Deployments = [], w_DaemonSets = [], w_Snapshots = [],
     w_Addresses = [((''tenant-a'', ''default''), [\<lparr> ea_IP = ''10.0.0.1'', ea_Hostname = [] \<rparr>])] \<rparr>"

definition path_mirror :: managed_lb where
  "path_mirror = new_mirror (desired_mirror sample_cluster sample_tenant_svc)"

definition path_world1 :: cp_world where
  "path_world1 = path_world\<lparr> w_LBs := [((''tenant-a'', ''u1''), path_mirror)],
     w_TenantServices := [(sample_svc_key, sample_tenant_svc\<lparr> tsv_Finalizers := [CleanupFinalizer] \<rparr>)] \<rparr>"

definition path_exposed :: "unit outcome \<times> cp_world" where
  "path_exposed = lb_expose (mem_lb_api sample_tenant DefaultConfig) (add_finalizer CleanupFinalizer path_mirror) ''tenant-a''
     sample_tenant DefaultConfig None 0 sample_pa2
     (path_world1\<lparr> w_LBs := [((''tenant-a'', ''u1''), add_finalizer CleanupFinalizer path_mirror)] \<rparr>)"

definition path_mirror2 :: managed_lb where
  "path_mirror2 = snd (hd (w_LBs (snd path_exposed)))"

lemma path_pass1: "svc_Reconcile mem_ccm_api sample_cluster sample_svc_key path_world = (Done (), path_world1)"
  by code_simp

lemma path_requests: "lb_requests (ml_LB path_mirror) = [(''tenant-a-u1-ep-0'', [''30-TCP''])]"
  "lb_requests (ml_LB path_mirror2) = [(''tenant-a-u1-ep-0'', [''30-TCP''])]"
  by code_simp+

lemma path_allocations:
  "AllocatePortsForLoadBalancers [ml_LB path_mirror] NewPortAllocator [5] = Some (sample_pa2, [])"
  "AllocatePortsForLoadBalancers [ml_LB path_mirror2] sample_pa2 [] = Some (sample_pa2, [])"
  "AllocatePortsForRoutes [] sample_pa2 [] = Some (sample_pa2, [])"
  by (simp_all add: AllocatePortsForLoadBalancers_def AllocatePortsForRoutes_def path_requests AllocatePorts_def NewPortAllocator_def
      table_touch_def table_at_def Let_def recomputeAvailablePorts_def table_ports_def sample_pa2_def startPort_def endPort_def)

lemma path_exposed_done: "fst path_exposed = Done ()"
  by code_simp

lemma path_pass2:
  "lb_Reconcile (mem_lb_api sample_tenant DefaultConfig) ''kubelb'' (''tenant-a'', ''u1'') None 0 [5] (NewPortAllocator, path_world1) =
     Some (Done (), sample_pa2, snd path_exposed)"
proof -
  let ?api = "mem_lb_api sample_tenant DefaultConfig :: cp_world lb_api" let ?req = "(''tenant-a'', ''u1'')"
  have "c_get (la_LBs ?api) ?req path_world1 = Found path_mirror"
    and "GetTenantAndConfig ?api ''kubelb'' (RemoveTenantPrefix (om_Namespace (lb_Meta (ml_LB path_mirror)))) path_world1 =
      Inr (sample_tenant, DefaultConfig)"
    and "lb_shouldReconcile sample_tenant DefaultConfig = (True, False)"
    and "la_listLBs ?api ''tenant-a'' path_world1 = Inr [path_mirror]"
    and "c_update (la_LBs ?api) (remove_finalizer envoyProxyCleanupFinalizer (add_finalizer CleanupFinalizer path_mirror)) path_world1 =
      (path_world1\<lparr> w_LBs := [(?req, add_finalizer CleanupFinalizer path_mirror)] \<rparr>, None)"
    and "remove_finalizer envoyProxyCleanupFinalizer (add_finalizer CleanupFinalizer path_mirror) = add_finalizer CleanupFinalizer path_mirror"
    and "\<not> ml_Deleting path_mirror" and "CleanupFinalizer \<notin> set (ml_Finalizers path_mirror)"
    and "ls_Endpoints (lb_Spec (ml_LB path_mirror)) \<noteq> []"
    by code_simp+
  then show ?thesis
    using path_exposed_done
    by (cases path_exposed) (simp add: lb_Reconcile_def Let_def path_allocations(1) path_exposed_def)
qed

lemma path_snapshot:
  "\<exists>sn. MapSnapshot (cp_getAddresses cp_sample_api (snd path_exposed)) (cp_marshal cp_sample_api) (cp_hash cp_sample_api)
     (Some (Lookup sample_pa2)) (ResolveHeaderLimits (Some DefaultConfig)) [ml_LB path_mirror2] [] = Inr sn"
proof -
  have inr: "(case x of Inl _ \<Rightarrow> False | Inr _ \<Rightarrow> True) \<Longrightarrow> \<exists>y. x = Inr y" for x :: "'x + 'y" by (cases x) simp_all
  show ?thesis by (rule inr) code_simp
qed

lemma path_objects: "ListLoadBalancersAndRoutes cp_sample_api ''tenant-a'' (snd path_exposed) = Inr ([ml_LB path_mirror2], [])"
  by code_simp

lemma path_world2: "w_Deployments (snd path_exposed) = []" "w_Snapshots (snd path_exposed) = []"
  "w_Addresses (snd path_exposed) = [((''tenant-a'', ''default''), [\<lparr> ea_IP = ''10.0.0.1'', ea_Hostname = [] \<rparr>])]"
  by code_simp+

theorem service_port_is_served_witness:
  "\<exists>s3 exposing sp L cached.
     cp_Reconcile cp_sample_api ''kubelb'' (''tenant-a'', ''u1'') [] (sample_pa2, snd path_exposed) = Some (None, sample_pa2, s3) \<and>
     c_get (la_Services (mem_lb_api sample_tenant DefaultConfig)) (''tenant-a'', ''envoy-u1'') (snd path_exposed) = Found exposing \<and>
     sp \<in> set (ss_Ports (svc_Spec exposing)) \<and> sp_Port sp = 8 \<and> sp_TargetPort sp = IntPort L \<and>
     cp_getSnapshot cp_sample_api ''tenant-a'' s3 = Some cached \<and>
     forwards cached ''TCP'' L [makeEndpoint \<lparr> ea_IP = ''10.0.0.1'', ea_Hostname = [] \<rparr> 30]"
proof -
  let ?lapi = "mem_lb_api sample_tenant DefaultConfig :: cp_world lb_api" let ?ns = "''tenant-a''"
  let ?old = "sample_tenant_svc\<lparr> svc_Spec := (svc_Spec sample_tenant_svc)\<lparr> ss_Ports :=
     map (\<lambda>p. p\<lparr> sp_NodePort := 29 \<rparr>) (ss_Ports (svc_Spec sample_tenant_svc)) \<rparr> \<rparr>"
  let ?port = "hd (ss_Ports (svc_Spec sample_tenant_svc))"
  have svc: "c_get (cc_Services mem_ccm_api) sample_svc_key path_world = Found sample_tenant_svc" "\<not> tsv_Deleting sample_tenant_svc"
    "svc_shouldReconcile sample_cluster sample_tenant_svc" "distinct (map map_port_name (ss_Ports (svc_Spec sample_tenant_svc)))"
    "sr_CloudController sample_cluster"
    and stored: "c_get (cc_LBs mem_ccm_api) (?ns, ''u1'') path_world = Found path_old_mirror"
    and old: "\<not> ml_Deleting path_old_mirror" "om_UID (svc_Meta ?old) = ''u1''" "distinct (map map_port_name (ss_Ports (svc_Spec ?old)))"
    and names: "sr_ClusterName sample_cluster = ?ns" "om_UID (svc_Meta sample_tenant_svc) = ''u1''" "envoyResourceName ''u1'' = ''envoy-u1''"
    and tc: "GetTenantAndConfig ?lapi ''kubelb'' (RemoveTenantPrefix ?ns) path_world1 = Inr (sample_tenant, DefaultConfig)"
      "lb_shouldReconcile sample_tenant DefaultConfig = (True, False)"
    and all: "la_listLBs ?lapi ?ns path_world1 = Inr [path_mirror]"
    and port: "?port \<in> set (ss_Ports (svc_Spec sample_tenant_svc))" "sp_Protocol ?port = ProtocolTCP \<or> sp_Protocol ?port = ProtocolUDP"
      "sp_Port ?port = 8" "sp_Protocol ?port = ''TCP''" "to_uint32 (sp_NodePort ?port) = 30"
    and keys: "distinct (map fst (all_requests [ml_LB path_mirror2] []))" "distinct (map item_key (snapshot_items [ml_LB path_mirror2] []))"
    by code_simp+
  have before: "mirror_of sample_cluster ''u1'' m" if "c_get (cc_LBs mem_ccm_api) (?ns, ''u1'') path_world = Found m" for m
  proof -
    have "m = path_old_mirror" using that stored by simp
    then show ?thesis unfolding mirror_of_def using old by (auto simp: path_old_mirror_def new_mirror_def intro!: exI [of _ ?old])
  qed
  have alone: "\<not> cc_isAlreadyExists mem_ccm_api e" for e by (simp add: mem_ccm_api_def Let_def)
  obtain sn where sn: "MapSnapshot (cp_getAddresses cp_sample_api (snd path_exposed)) (cp_marshal cp_sample_api) (cp_hash cp_sample_api)
     (Some (Lookup sample_pa2)) (ResolveHeaderLimits (Some DefaultConfig)) [ml_LB path_mirror2] [] = Inr sn"
    using path_snapshot by blast
  have dep: "\<not> px_UseDaemonset (cs_EnvoyProxy DefaultConfig)" by (simp add: DefaultConfig_def)
  have some: "[ml_LB path_mirror2] \<noteq> [] \<or> ([] :: route list) \<noteq> []" by simp
  obtain s3 where pass3: "cp_Reconcile cp_sample_api ''kubelb'' (?ns, ''u1'') [] (sample_pa2, snd path_exposed) = Some (None, sample_pa2, s3)"
    and s3: "w_Addresses s3 = w_Addresses (snd path_exposed)"
    using mem_first_pass [OF path_world2(1,2) dep path_objects [unfolded cp_sample_api_def] some path_allocations(2,3) sn [unfolded cp_sample_api_def]]
    unfolding cp_sample_api_def by blast
  have config: "GetConfig cp_sample_api ''kubelb'' (snd path_exposed) = Inr DefaultConfig"
    by (simp add: GetConfig_def cp_sample_api_def mem_cp_api_def)
  have addresses: "cp_getAddresses cp_sample_api s3 ?ns DefaultAddressName = Inr [\<lparr> ea_IP = ''10.0.0.1'', ea_Hostname = [] \<rparr>]"
    by (simp add: cp_sample_api_def mem_cp_api_def s3 path_world2(3) DefaultAddressName_def)
  have none: "cp_getSnapshot cp_sample_api ?ns (snd path_exposed) = None" by (simp add: cp_sample_api_def mem_cp_api_def path_world2)
  have sys: "kubelb_system mem_ccm_api ?lapi cp_sample_api" unfolding cp_sample_api_def by (rule mem_system.kubelb_system_axioms)
  have "\<exists>exposing sp L cached.
    c_get (la_Services ?lapi) (?ns, envoyResourceName ''u1'') (snd path_exposed) = Found exposing \<and>
    sp \<in> set (ss_Ports (svc_Spec exposing)) \<and> sp_Port sp = sp_Port ?port \<and> sp_Protocol sp = sp_Protocol ?port \<and> sp_TargetPort sp = IntPort L \<and>
    cp_getSnapshot cp_sample_api ?ns s3 = Some cached \<and>
    forwards cached (sp_Protocol ?port) L (map (\<lambda>a. makeEndpoint a (to_uint32 (sp_NodePort ?port))) [\<lparr> ea_IP = ''10.0.0.1'', ea_Hostname = [] \<rparr>])"
    by (rule service_port_is_served [OF sys svc, unfolded names(1,2), OF before _ alone path_pass1 tc all _ NewPortAllocator_inv path_pass2 config
          path_objects keys pass3 _ addresses port(1,2)])
      (simp_all add: stored none)
  then show ?thesis using pass3 port names by auto
qed

end
